(* ===== verification/Prelude.thy ===== *)
theory Prelude
  imports
    Main
    "HOL-Library.Word"
    "HOL-Library.Finite_Map"
    "HOL-Library.Char_ord"
    "HOL-Library.List_Lexorder"
    "HOL-Library.Multiset"
begin

text \<open>
  Shared vocabulary of the development: the machine integer types, the reading of the C++
  standard containers, little-endian byte strings, and comparator sorting.

  \<^item> \<open>std::uint8_t\<close> ... \<open>std::uint64_t\<close> are \<open>8 word\<close> ... \<open>64 word\<close>; a \<open>std::int64_t\<close> is the
    \<open>64 word\<close> of its two's complement bits, read with \<open>sint\<close>.
  \<^item> \<open>std::unordered_map\<close> and \<open>std::map\<close> are finite maps (\<open>fmap\<close>): finite by type, no order of
    their own. A loop whose result depends on the order of a \<open>std::map\<close> runs over
    \<open>fm_items\<close>, the entries in ascending key order.
  \<^item> \<open>std::string\<close> is \<open>string\<close>, ordered by \<open>List_Lexorder\<close> over \<open>Char_ord\<close>: the unsigned byte
    order of \<open>std::char_traits<char>\<close>.
  \<^item> \<open>std::stable_sort\<close> with a comparator is \<open>stable_sort\<close>.
\<close>

unbundle bit_operations_syntax

type_synonym u8 = "8 word"
type_synonym u16 = "16 word"
type_synonym u32 = "32 word"
type_synonym u64 = "64 word"
type_synonym i32 = "32 word"
type_synonym i64 = "64 word"
type_synonym bytes = "8 word list"

named_theorems wf_intros \<open>invariant preservation, one rule per operation\<close>
named_theorems frame_simps \<open>what an operation leaves unchanged\<close>
named_theorems codec_simps \<open>decoder after encoder, one rule per field type\<close>

section \<open>Machine integers\<close>

lemma u64_neq_zero_iff: "(x :: u64) \<noteq> 0 \<longleftrightarrow> 0 < unat x"
  by (simp add: unat_gt_0)

lemma unat_inc:
  fixes x :: "'a::len word"
  assumes "x \<noteq> - 1"
  shows "unat (x + 1) = Suc (unat x)"
proof -
  have "x + 1 \<noteq> 0"
    using assms by (metis add.commute add_eq_0_iff)
  then show ?thesis
    by (simp add: unatSuc add.commute)
qed

lemma less_inc:
  fixes x :: "'a::len word"
  assumes "x \<noteq> - 1"
  shows "x < x + 1"
  using unat_inc [OF assms] by (simp add: word_less_nat_alt)

lemma inc_nonzero:
  fixes x :: "'a::len word"
  assumes "x \<noteq> - 1"
  shows "x + 1 \<noteq> 0"
  using less_inc [OF assms] by (metis not_less0 unat_0 word_less_nat_alt)

lemma le_imp_less_inc:
  fixes x y :: "'a::len word"
  assumes "y \<noteq> - 1" "x \<le> y"
  shows "x < y + 1"
  using less_inc [OF assms(1)] assms(2) by simp

lemma le_dec_iff:
  fixes x n :: "'a::len word"
  assumes "x \<noteq> 0"
  shows "n \<le> x - 1 \<longleftrightarrow> n < x"
proof -
  have "unat x \<noteq> 0" using assms by (simp add: unat_eq_zero)
  then show ?thesis
    using unat_minus_one [OF assms] by (auto simp: word_le_nat_alt word_less_nat_alt)
qed

lemma word_le_max [simp]: "(x :: 'a::len word) \<le> - 1"
  by simp

section \<open>Finite maps\<close>

definition fm_size :: "('k, 'v) fmap \<Rightarrow> nat" where
  "fm_size m = fcard (fmdom m)"

definition fm_has :: "('k, 'v) fmap \<Rightarrow> 'k \<Rightarrow> bool" where
  "fm_has m k \<longleftrightarrow> fmlookup m k \<noteq> None"

definition fm_keys :: "('k::linorder, 'v) fmap \<Rightarrow> 'k list" where
  "fm_keys m = sorted_list_of_fset (fmdom m)"

definition fm_items :: "('k::linorder, 'v) fmap \<Rightarrow> ('k \<times> 'v) list" where
  "fm_items m = map (\<lambda>k. (k, the (fmlookup m k))) (fm_keys m)"

definition fm_values :: "('k::linorder, 'v) fmap \<Rightarrow> 'v list" where
  "fm_values m = map (\<lambda>k. the (fmlookup m k)) (fm_keys m)"

lemma fm_size_empty [simp]: "fm_size fmempty = 0"
  by (simp add: fm_size_def)

lemma fm_size_upd:
  "fm_size (fmupd k v m) = (if fm_has m k then fm_size m else Suc (fm_size m))"
  by (auto simp: fm_size_def fm_has_def fcard_finsert_if fmlookup_dom_iff)

lemma fm_size_drop:
  "fm_size (fmdrop k m) = (if fm_has m k then fm_size m - 1 else fm_size m)"
proof -
  have "(k |\<in>| fmdom m) = fm_has m k"
    by (auto simp: fm_has_def fmlookup_dom_iff)
  then show ?thesis
    by (simp add: fm_size_def fcard_fminus_fsingleton_if)
qed

lemma fm_has_iff_dom: "fm_has m k \<longleftrightarrow> k |\<in>| fmdom m"
  by (auto simp: fm_has_def fmlookup_dom_iff)

lemma fm_has_pos: "fm_has m k \<Longrightarrow> 0 < fm_size m"
  by (metis fcard_0_eq fempty_iff fm_has_iff_dom fm_size_def gr0I)

lemma fm_has_simps [simp]:
  "fm_has fmempty k = False"
  "fm_has (fmupd k' v m) k = (k' = k \<or> fm_has m k)"
  "fm_has (fmdrop k' m) k = (k' \<noteq> k \<and> fm_has m k)"
  by (auto simp: fm_has_def)

lemma sorted_list_of_fset_empty [simp]: "sorted_list_of_fset {||} = []"
  by (simp add: sorted_list_of_fset.rep_eq)

lemma sorted_list_of_fset_finsert [simp]:
  "sorted_list_of_fset (finsert x S) = insort x (sorted_list_of_fset (S |-| {|x|}))"
  by (simp add: sorted_list_of_fset.rep_eq sorted_list_of_set_insert_remove)

lemma set_fm_keys [simp]: "set (fm_keys m) = fset (fmdom m)"
  by (simp add: fm_keys_def)

lemma sorted_fm_keys [simp]: "sorted (fm_keys m)" "distinct (fm_keys m)"
  by (simp_all add: fm_keys_def sorted_list_of_fset.rep_eq)

lemma length_fm_keys [simp]: "length (fm_keys m) = fm_size m"
  by (simp add: fm_keys_def fm_size_def sorted_list_of_fset.rep_eq fcard.rep_eq)

lemma fm_keys_empty [simp]: "fm_keys fmempty = []"
  by (simp add: fm_keys_def)

lemma set_fm_items: "set (fm_items m) = {(k, v). fmlookup m k = Some v}"
  by (force simp: fm_items_def fmlookup_dom_iff image_iff)

lemma map_fst_fm_items [simp]: "map fst (fm_items m) = fm_keys m"
  by (simp add: fm_items_def comp_def)

lemma length_fm_items [simp]: "length (fm_items m) = fm_size m"
  by (simp add: fm_items_def)

lemma map_of_fm_items [simp]: "map_of (fm_items m) = fmlookup m"
proof
  fix k
  have "distinct (map fst (fm_items m))" by simp
  then have "\<And>v. map_of (fm_items m) k = Some v \<longleftrightarrow> fmlookup m k = Some v"
    by (simp add: set_fm_items)
  then show "map_of (fm_items m) k = fmlookup m k"
    by (metis option.exhaust)
qed

lemma fm_items_inject: "fm_items m = fm_items n \<longleftrightarrow> m = n"
  by (metis fmap_ext map_of_fm_items)

lemma fm_of_list_items: "fmap_of_list (fm_items m) = m"
  by (rule fmap_ext) (simp add: fmlookup_of_list)

section \<open>Little-endian byte strings\<close>

text \<open>The loop \<open>for (shift = 0; shift < 8 * n; shift += 8) put(uint8_t(value >> shift))\<close>.\<close>

fun le_bytes :: "nat \<Rightarrow> u64 \<Rightarrow> bytes" where
  "le_bytes 0 v = []"
| "le_bytes (Suc n) v = ucast v # le_bytes n (drop_bit 8 v)"

text \<open>The loop \<open>value |= uint64_t(byte) << shift\<close>.\<close>

fun le_value :: "bytes \<Rightarrow> u64" where
  "le_value [] = 0"
| "le_value (b # bs) = ucast b OR push_bit 8 (le_value bs)"

lemma length_le_bytes [simp]: "length (le_bytes n v) = n"
  by (induction n arbitrary: v) auto

lemma le_value_le_bytes: "le_value (le_bytes n v) = take_bit (8 * n) v"
proof (induction n arbitrary: v)
  case 0
  show ?case by simp
next
  case (Suc n)
  show ?case
    by (rule bit_word_eqI)
       (auto simp: Suc.IH bit_or_iff bit_push_bit_iff bit_take_bit_iff bit_drop_bit_eq
                   bit_unsigned_iff not_less)
qed

lemma le_value_le_bytes_64 [simp]: "le_value (le_bytes 8 v) = v"
  by (simp add: le_value_le_bytes take_bit_word_eq_self)

lemma le_bytes_64_inject: "le_bytes 8 v = le_bytes 8 w \<longleftrightarrow> v = w"
  by (metis le_value_le_bytes_64)

section \<open>Sorting with a comparator\<close>

text \<open>
  \<open>std::stable_sort\<close> leaves equivalent elements in their order, which determines its result.
  \<open>std::sort\<close> is modelled by the same function; the code calls it on keys that are distinct
  (or rejects equal keys right after), where the two agree.
\<close>

fun insert_by :: "('a \<Rightarrow> 'a \<Rightarrow> bool) \<Rightarrow> 'a \<Rightarrow> 'a list \<Rightarrow> 'a list" where
  "insert_by lt x [] = [x]"
| "insert_by lt x (y # ys) = (if lt y x then y # insert_by lt x ys else x # y # ys)"

fun stable_sort :: "('a \<Rightarrow> 'a \<Rightarrow> bool) \<Rightarrow> 'a list \<Rightarrow> 'a list" where
  "stable_sort lt [] = []"
| "stable_sort lt (x # xs) = insert_by lt x (stable_sort lt xs)"

lemma mset_insert_by [simp]: "mset (insert_by lt x xs) = add_mset x (mset xs)"
  by (induction xs) auto

lemma mset_stable_sort [simp]: "mset (stable_sort lt xs) = mset xs"
  by (induction xs) auto

lemma set_stable_sort [simp]: "set (stable_sort lt xs) = set xs"
  by (metis mset_stable_sort set_mset_mset)

lemma length_stable_sort [simp]: "length (stable_sort lt xs) = length xs"
  by (metis mset_stable_sort size_mset)

text \<open>The contract a C++ comparator must meet: a strict weak order.\<close>

locale strict_weak_order =
  fixes lt :: "'a \<Rightarrow> 'a \<Rightarrow> bool"
  assumes lt_asym: "lt x y \<Longrightarrow> \<not> lt y x"
    and lt_negtrans: "\<not> lt x y \<Longrightarrow> \<not> lt y z \<Longrightarrow> \<not> lt x z"
begin

lemma sorted_insert_by:
  "sorted_wrt (\<lambda>a b. \<not> lt b a) xs \<Longrightarrow> sorted_wrt (\<lambda>a b. \<not> lt b a) (insert_by lt x xs)"
proof (induction xs)
  case Nil
  then show ?case by simp
next
  case (Cons y ys)
  have in_ins: "z \<in> set (insert_by lt x ys) \<longleftrightarrow> z = x \<or> z \<in> set ys" for z
    by (metis insert_iff mset_insert_by set_mset_add_mset_insert set_mset_mset)
  show ?case
  proof (cases "lt y x")
    case True
    with Cons show ?thesis by (auto simp: in_ins lt_asym)
  next
    case False
    then have "\<not> lt z x" if "z \<in> set ys" for z
      using Cons.prems that lt_negtrans by fastforce
    with False Cons show ?thesis by auto
  qed
qed

lemma sorted_stable_sort: "sorted_wrt (\<lambda>a b. \<not> lt b a) (stable_sort lt xs)"
  by (induction xs) (auto intro: sorted_insert_by)

lemma filter_insert_by:
  assumes "\<And>y z. P y \<Longrightarrow> P z \<Longrightarrow> \<not> lt y z"
  shows "filter P (insert_by lt x xs) = filter P (x # xs)"
  using assms by (induction xs) auto

text \<open>Stability: a class of equivalent elements keeps its order.\<close>

lemma filter_stable_sort:
  assumes "\<And>y z. P y \<Longrightarrow> P z \<Longrightarrow> \<not> lt y z"
  shows "filter P (stable_sort lt xs) = filter P xs"
  using filter_insert_by [OF assms] by (induction xs) auto

lemma stable_sort_sorted:
  "sorted_wrt (\<lambda>a b. \<not> lt b a) xs \<Longrightarrow> stable_sort lt xs = xs"
proof (induction xs)
  case Nil
  then show ?case by simp
next
  case (Cons x xs)
  then show ?case by (cases xs) auto
qed

end

lemma map_stable_sort: "map f (stable_sort (\<lambda>x y. lt (f x) (f y)) xs) = stable_sort lt (map f xs)"
proof (induction xs)
  case (Cons x xs)
  have "map f (insert_by (\<lambda>x y. lt (f x) (f y)) x ys) = insert_by lt (f x) (map f ys)" for ys
    by (induction ys) auto
  with Cons show ?case by simp
qed simp

text \<open>The comparator \<open>left.key < right.key\<close>.\<close>

definition lt_key :: "('a \<Rightarrow> 'k::linorder) \<Rightarrow> 'a \<Rightarrow> 'a \<Rightarrow> bool" where
  "lt_key f a b \<longleftrightarrow> f a < f b"

interpretation key_order: strict_weak_order "lt_key f" for f :: "'a \<Rightarrow> 'k::linorder"
  by unfold_locales (auto simp: lt_key_def)

lemma sorted_stable_sort_key: "sorted (map f (stable_sort (lt_key f) xs))"
  using key_order.sorted_stable_sort [of f xs]
  by (simp add: lt_key_def sorted_map not_less)

lemma stable_sort_key_sorted: "sorted (map f xs) \<Longrightarrow> stable_sort (lt_key f) xs = xs"
  by (rule key_order.stable_sort_sorted) (simp add: lt_key_def sorted_map not_less)

lemma strict_sorted_if_distinct:
  "sorted xs \<Longrightarrow> distinct xs \<Longrightarrow> sorted_wrt (<) (xs :: 'a::linorder list)"
  by (simp add: strict_sorted_iff)


section \<open>Comparators that order a list completely\<close>

context strict_weak_order
begin

text \<open>If incomparable elements of a list are equal, its sorted permutation is unique.\<close>

lemma sorted_unique:
  "sorted_wrt (\<lambda>a b. \<not> lt b a) xs \<Longrightarrow> sorted_wrt (\<lambda>a b. \<not> lt b a) ys \<Longrightarrow> mset xs = mset ys \<Longrightarrow>
     (\<And>a b. a \<in> set xs \<Longrightarrow> b \<in> set xs \<Longrightarrow> \<not> lt a b \<Longrightarrow> \<not> lt b a \<Longrightarrow> a = b) \<Longrightarrow> xs = ys"
proof (induction xs arbitrary: ys)
  case Nil
  then show ?case by simp
next
  case (Cons x xs)
  then obtain y zs where ys: "ys = y # zs" by (cases ys) auto
  have sets: "insert x (set xs) = insert y (set zs)"
    using Cons.prems(3) ys by (metis list.simps(15) set_mset_mset)
  have "y = x \<or> y \<in> set xs" "x = y \<or> x \<in> set zs" using sets by auto
  then have "\<not> lt y x" "\<not> lt x y"
    using Cons.prems(1,2) ys lt_asym [of x x] by auto
  then have xy: "x = y" using Cons.prems(4) sets by auto
  moreover have "mset xs = mset zs" using Cons.prems(3) ys xy by simp
  ultimately show ?case
    using Cons.IH [of zs] Cons.prems ys by auto
qed

lemma stable_sort_mset_cong:
  assumes "mset xs = mset ys"
    "\<And>a b. a \<in> set xs \<Longrightarrow> b \<in> set xs \<Longrightarrow> \<not> lt a b \<Longrightarrow> \<not> lt b a \<Longrightarrow> a = b"
  shows "stable_sort lt xs = stable_sort lt ys"
  by (rule sorted_unique [OF sorted_stable_sort sorted_stable_sort])
     (use assms in \<open>auto simp: assms(1) dest: mset_eq_setD\<close>)

end

section \<open>Ascending sequence numbers\<close>

text \<open>The check a snapshot's restore runs over its entries, sorted by sequence number.\<close>

fun ascending_below :: "('a \<Rightarrow> u64) \<Rightarrow> u64 \<Rightarrow> u64 \<Rightarrow> 'a list \<Rightarrow> bool" where
  "ascending_below seq limit previous [] = True"
| "ascending_below seq limit previous (x # xs) =
     (\<not> (seq x = 0 \<or> seq x \<ge> limit \<or> seq x = previous) \<and> ascending_below seq limit (seq x) xs)"

lemma ascending_below_iff:
  "sorted (map seq xs) \<Longrightarrow> \<forall>x\<in>set xs. previous \<le> seq x \<Longrightarrow>
     ascending_below seq limit previous xs \<longleftrightarrow>
       (\<forall>x\<in>set xs. seq x \<noteq> 0 \<and> seq x < limit) \<and> distinct (map seq xs) \<and> previous \<notin> seq ` set xs"
proof (induction xs arbitrary: previous)
  case Nil
  then show ?case by simp
next
  case (Cons x xs)
  then have IH: "ascending_below seq limit (seq x) xs \<longleftrightarrow>
       (\<forall>x\<in>set xs. seq x \<noteq> 0 \<and> seq x < limit) \<and> distinct (map seq xs) \<and> seq x \<notin> seq ` set xs"
    by simp
  have "previous \<in> seq ` set xs \<Longrightarrow> previous = seq x"
    using Cons.prems by (auto intro: order_antisym)
  with IH show ?case by (auto simp: not_le not_less)
qed

text \<open>After sorting, the check accepts exactly the valid, pairwise different numbers.\<close>

lemma ascending_below_sorted:
  "ascending_below seq limit 0 (stable_sort (lt_key seq) xs) \<longleftrightarrow>
     (\<forall>x\<in>set xs. seq x \<noteq> 0 \<and> seq x < limit) \<and> distinct (map seq xs)"
proof -
  have "distinct (map seq (stable_sort (lt_key seq) xs)) = distinct (map seq xs)"
    by (rule mset_eq_imp_distinct_iff) simp
  then show ?thesis
    by (subst ascending_below_iff) (auto simp: sorted_stable_sort_key)
qed


section \<open>Validation chains\<close>

text \<open>A chain of checks, each with its diagnostic: accepted if every check passes.\<close>

lemma fst_guard: "fst (if b then (False, m) else x) \<longleftrightarrow> \<not> b \<and> fst x"
  by simp

lemma diagnostic_guard:
  "m \<noteq> [] \<Longrightarrow> (fst x \<longleftrightarrow> snd x = []) \<Longrightarrow>
     fst (if b then (False, m) else x) \<longleftrightarrow> snd (if b then (False, m) else x) = []"
  by simp

end
