(* ===== verification/Foundation.thy ===== *)
theory Foundation
  imports Prelude Complex_Main
begin

text \<open>
  \<^verbatim>\<open>libs/foundation\<close>: the strong identifier types of \<^verbatim>\<open>ids.hpp\<close> and the random streams of
  \<^verbatim>\<open>random.hpp\<close> / \<^verbatim>\<open>random.cpp\<close>. The lemmas show that the generator visits all \<open>2 ^ 64\<close> outputs
  before it repeats one, and that a snapshot of the named streams restores them exactly.
\<close>

section \<open>Identifiers\<close>

datatype WorldId = WorldId (wid_value: u64)

instantiation WorldId :: linorder
begin

definition less_eq_WorldId :: "WorldId \<Rightarrow> WorldId \<Rightarrow> bool" where
  "less_eq_WorldId a b \<longleftrightarrow> wid_value a \<le> wid_value b"

definition less_WorldId :: "WorldId \<Rightarrow> WorldId \<Rightarrow> bool" where
  "less_WorldId a b \<longleftrightarrow> wid_value a < wid_value b"

instance
  by standard (auto simp: less_eq_WorldId_def less_WorldId_def WorldId.expand)

end

lemma less_WorldId_simps [simp]:
  "(WorldId a \<le> WorldId b) = (a \<le> b)" "(WorldId a < WorldId b) = (a < b)"
  by (simp_all add: less_eq_WorldId_def less_WorldId_def)

definition wid_valid :: "WorldId \<Rightarrow> bool" where
  "wid_valid i \<longleftrightarrow> wid_value i \<noteq> 0"

lemma wid_valid_simp [simp]: "wid_valid (WorldId v) \<longleftrightarrow> v \<noteq> 0"
  by (simp add: wid_valid_def)

datatype FeatureId = FeatureId (fid_value: u32)

instantiation FeatureId :: linorder
begin

definition less_eq_FeatureId :: "FeatureId \<Rightarrow> FeatureId \<Rightarrow> bool" where
  "less_eq_FeatureId a b \<longleftrightarrow> fid_value a \<le> fid_value b"

definition less_FeatureId :: "FeatureId \<Rightarrow> FeatureId \<Rightarrow> bool" where
  "less_FeatureId a b \<longleftrightarrow> fid_value a < fid_value b"

instance
  by standard (auto simp: less_eq_FeatureId_def less_FeatureId_def FeatureId.expand)

end

lemma less_FeatureId_simps [simp]:
  "(FeatureId a \<le> FeatureId b) = (a \<le> b)" "(FeatureId a < FeatureId b) = (a < b)"
  by (simp_all add: less_eq_FeatureId_def less_FeatureId_def)

record RuntimeId =
  rid_slot :: u32
  rid_generation :: u32

definition rid_valid :: "RuntimeId \<Rightarrow> bool" where
  "rid_valid i \<longleftrightarrow> rid_generation i \<noteq> 0"

section \<open>The deterministic generator\<close>

text \<open>A \<open>DeterministicRng\<close> is its 64-bit state; a draw returns the value and the next state.\<close>

type_synonym DeterministicRng = u64

definition mix_u64 :: "u64 \<Rightarrow> u64" where
  "mix_u64 state =
     (let value = state;
          value = (value XOR drop_bit 30 value) * 0xBF58476D1CE4E5B9;
          value = (value XOR drop_bit 27 value) * 0x94D049BB133111EB
      in value XOR drop_bit 31 value)"

definition next_u64 :: "DeterministicRng \<Rightarrow> u64 \<times> DeterministicRng" where
  "next_u64 state = (let state' = state + 0x9E3779B97F4A7C15 in (mix_u64 state', state'))"

text \<open>
  \<open>static_cast<double>(next_u64() >> 11) * (1.0 / 9007199254740992.0)\<close>: the operand is below
  \<open>2 ^ 53\<close> and the factor is \<open>2 ^ - 53\<close>, so conversion and product are exact in binary64 and the
  result is this rational number.
\<close>

definition next_unit :: "DeterministicRng \<Rightarrow> rat \<times> DeterministicRng" where
  "next_unit state =
     (let (v, state') = next_u64 state
      in (of_nat (unat (drop_bit 11 v)) * (1 / 9007199254740992), state'))"

fun draws :: "nat \<Rightarrow> DeterministicRng \<Rightarrow> u64 list \<times> DeterministicRng" where
  "draws 0 s = ([], s)"
| "draws (Suc n) s =
     (let (v, s') = next_u64 s; (vs, s'') = draws n s' in (v # vs, s''))"

subsection \<open>The mixing function is a bijection\<close>

lemma xorshift_inject:
  fixes x y :: "'a::len word"
  assumes k: "0 < k" and eq: "x XOR drop_bit k x = y XOR drop_bit k y"
  shows "x = y"
proof (rule bit_word_eqI)
  fix n
  assume "n < LENGTH('a)"
  have "bit x i = bit y i" if "LENGTH('a) - i \<le> d" for i d
    using that
  proof (induction d arbitrary: i)
    case 0
    then have "\<not> i < LENGTH('a)" by simp
    then show ?case by (auto dest: bit_imp_le_length)
  next
    case (Suc d)
    have "bit (x XOR drop_bit k x) i = bit (y XOR drop_bit k y) i"
      using eq by simp
    moreover have "bit x (k + i) = bit y (k + i)"
      using Suc.prems k by (intro Suc.IH) simp
    ultimately show ?case
      by (auto simp add: bit_xor_iff bit_drop_bit_eq)
  qed
  then show "bit x n = bit y n" by blast
qed

lemma inj_xorshift: "0 < k \<Longrightarrow> inj (\<lambda>x :: u64. x XOR drop_bit k x)"
  by (rule injI) (rule xorshift_inject)

lemma mult_inject_if_inverse:
  fixes c :: "'a::len word"
  assumes "c * d = 1" and "x * c = y * c"
  shows "x = y"
  using assms by (metis mult.assoc mult_1_right)

lemma inj_mult_if_inverse:
  fixes c :: "'a::len word"
  shows "c * d = 1 \<Longrightarrow> inj (\<lambda>x. x * c)"
  by (rule injI) (rule mult_inject_if_inverse)

lemma mix_u64_comp:
  "mix_u64 = (\<lambda>x. x XOR drop_bit 31 x) \<circ> (\<lambda>x. x * 0x94D049BB133111EB) \<circ>
     (\<lambda>x. x XOR drop_bit 27 x) \<circ> (\<lambda>x. x * 0xBF58476D1CE4E5B9) \<circ> (\<lambda>x. x XOR drop_bit 30 x)"
  by (simp only: fun_eq_iff comp_def mix_u64_def Let_def) blast

lemma inj_mix_u64: "inj mix_u64"
proof -
  have "inj (\<lambda>x :: u64. x * 0xBF58476D1CE4E5B9)"
    by (rule inj_mult_if_inverse [where d = 10871156337175269513]) simp
  moreover have "inj (\<lambda>x :: u64. x * 0x94D049BB133111EB)"
    by (rule inj_mult_if_inverse [where d = 3573116690164977347]) simp
  ultimately show ?thesis
    unfolding mix_u64_comp by (intro inj_compose inj_xorshift) simp_all
qed

lemma mix_u64_inject: "mix_u64 x = mix_u64 y \<longleftrightarrow> x = y"
  using inj_mix_u64 by (rule inj_eq)

lemma snd_draws: "snd (draws n s) = s + of_nat n * 0x9E3779B97F4A7C15"
  by (induction n arbitrary: s)
     (simp_all add: next_u64_def Let_def case_prod_beta algebra_simps)

lemma length_draws [simp]: "length (fst (draws n s)) = n"
  by (induction n arbitrary: s) (simp_all add: Let_def case_prod_beta)

lemma nth_draws:
  "i < n \<Longrightarrow> fst (draws n s) ! i = mix_u64 (s + of_nat (Suc i) * 0x9E3779B97F4A7C15)"
proof (induction n arbitrary: s i)
  case 0
  then show ?case by simp
next
  case (Suc n)
  obtain v s' where v: "next_u64 s = (v, s')" by fastforce
  obtain vs s'' where vs: "draws n s' = (vs, s'')" by fastforce
  have IH: "j < n \<Longrightarrow> vs ! j = mix_u64 (s' + of_nat (Suc j) * 0x9E3779B97F4A7C15)" for j
    using Suc.IH [of j s'] vs by simp
  show ?case
  proof (cases i)
    case 0
    with v vs show ?thesis by (auto simp: next_u64_def Let_def)
  next
    case (Suc j)
    with IH [of j] Suc.prems v vs show ?thesis
      by (auto simp: next_u64_def Let_def algebra_simps)
  qed
qed

lemma unat_of_nat_u64: "i < 2 ^ 64 \<Longrightarrow> unat (of_nat i :: u64) = i"
  by (simp add: unat_of_nat take_bit_nat_eq_self)

lemma of_nat_u64_inject:
  "i < 2 ^ 64 \<Longrightarrow> j < 2 ^ 64 \<Longrightarrow> (of_nat i :: u64) = of_nat j \<longleftrightarrow> i = j"
  by (metis unat_of_nat_u64)

text \<open>
  Any \<open>n \<le> 2 ^ 64\<close> consecutive draws of \<open>next_u64\<close> from any seed are pairwise distinct, so
  the generator has full period \<open>2 ^ 64\<close> and its state never enters a shorter cycle.
\<close>

lemma draws_distinct: "n \<le> 2 ^ 64 \<Longrightarrow> distinct (fst (draws n s))"
proof (unfold distinct_conv_nth, intro allI impI)
  fix i j
  assume n: "n \<le> 2 ^ 64" and i: "i < length (fst (draws n s))"
    and j: "j < length (fst (draws n s))" and neq: "i \<noteq> j"
  show "fst (draws n s) ! i \<noteq> fst (draws n s) ! j"
  proof
    assume "fst (draws n s) ! i = fst (draws n s) ! j"
    with i j have "of_nat (Suc i) * (0x9E3779B97F4A7C15 :: u64) = of_nat (Suc j) * 0x9E3779B97F4A7C15"
      by (simp add: nth_draws mix_u64_inject del: of_nat_Suc)
    then have "(of_nat (Suc i) :: u64) = of_nat (Suc j)"
      by (rule mult_inject_if_inverse [where d = "17428512612931826493", rotated]) simp
    then have "(of_nat i :: u64) = of_nat j" by simp
    with i j n neq show False
      by (simp add: of_nat_u64_inject)
  qed
qed

lemma next_unit_range: "0 \<le> fst (next_unit s)" "fst (next_unit s) < 1"
proof -
  let ?k = "unat (drop_bit 11 (fst (next_u64 s)))"
  have eq: "fst (next_unit s) = of_nat ?k * (1 / 9007199254740992)"
    by (simp add: next_unit_def Let_def split: prod.split)
  have "?k = unat (fst (next_u64 s)) div 2 ^ 11"
    by (metis unat_drop_bit_eq drop_bit_eq_div)
  also have "\<dots> < 2 ^ 53"
    using unsigned_less [of "fst (next_u64 s)", where 'a = nat] by (simp add: less_mult_imp_div_less)
  finally have "(of_nat ?k :: rat) < of_nat (2 ^ 53)"
    by (simp only: of_nat_less_iff)
  then show "fst (next_unit s) < 1" by (simp add: eq)
  show "0 \<le> fst (next_unit s)"
    unfolding eq by (rule mult_nonneg_nonneg [OF of_nat_0_le_iff]) simp
qed

section \<open>Named streams\<close>

type_synonym NamedRandomStreams = "(string, DeterministicRng) fmap"

record NamedRandomStreamState =
  nrs_name :: string
  nrs_state :: u64

definition streams_create :: "NamedRandomStreams \<Rightarrow> string \<Rightarrow> u64 \<Rightarrow> bool \<times> NamedRandomStreams" where
  "streams_create streams name seed =
     (if name = [] then (False, streams)
      else if fm_has streams name then (False, streams)
      else (True, fmupd name seed streams))"

definition streams_find :: "NamedRandomStreams \<Rightarrow> string \<Rightarrow> DeterministicRng option" where
  "streams_find streams name = fmlookup streams name"

definition streams_snapshot :: "NamedRandomStreams \<Rightarrow> NamedRandomStreamState list" where
  "streams_snapshot streams =
     map (\<lambda>(name, stream). \<lparr>nrs_name = name, nrs_state = stream\<rparr>) (fm_items streams)"

text \<open>The loop of \<open>restore\<close>: \<open>None\<close> is its early \<open>return false\<close>.\<close>

fun restore_streams_loop ::
  "NamedRandomStreams \<Rightarrow> NamedRandomStreamState list \<Rightarrow> NamedRandomStreams option" where
  "restore_streams_loop restored [] = Some restored"
| "restore_streams_loop restored (item # items) =
     (if nrs_name item = [] \<or> fm_has restored (nrs_name item) then None
      else restore_streams_loop (fmupd (nrs_name item) (nrs_state item) restored) items)"

definition streams_restore ::
  "NamedRandomStreams \<Rightarrow> NamedRandomStreamState list \<Rightarrow> bool \<times> NamedRandomStreams" where
  "streams_restore streams snapshot =
     (case restore_streams_loop fmempty snapshot of
        None \<Rightarrow> (False, streams)
      | Some restored \<Rightarrow> (True, restored))"

definition streams_wf :: "NamedRandomStreams \<Rightarrow> bool" where
  "streams_wf streams \<longleftrightarrow> \<not> fm_has streams []"

lemma streams_wf_create [wf_intros]:
  "streams_wf s \<Longrightarrow> streams_wf (snd (streams_create s name seed))"
  by (auto simp: streams_wf_def streams_create_def)

lemma restore_streams_loop_Some:
  "restore_streams_loop acc items = Some r \<longleftrightarrow>
     (\<forall>i\<in>set items. nrs_name i \<noteq> [] \<and> \<not> fm_has acc (nrs_name i)) \<and>
     distinct (map nrs_name items) \<and>
     r = acc ++\<^sub>f fmap_of_list (map (\<lambda>i. (nrs_name i, nrs_state i)) items)"
proof (induction items arbitrary: acc)
  case Nil
  then show ?case by auto
next
  case (Cons i items)
  have "fmupd (nrs_name i) (nrs_state i) acc ++\<^sub>f
          fmap_of_list (map (\<lambda>i. (nrs_name i, nrs_state i)) items) =
        acc ++\<^sub>f fmap_of_list (map (\<lambda>i. (nrs_name i, nrs_state i)) (i # items))"
    if "nrs_name i \<notin> nrs_name ` set items"
    using that
    by (intro fmap_ext)
       (auto simp: fmlookup_of_list fmlookup_dom_iff map_of_eq_None_iff image_iff fset_of_list_elem
             split: option.splits dest!: map_of_SomeD)
  with Cons show ?case by (auto simp: image_iff)
qed

lemma streams_wf_restore [wf_intros]:
  assumes "streams_wf s"
  shows "streams_wf (snd (streams_restore s items))"
proof (cases "restore_streams_loop fmempty items")
  case None
  with assms show ?thesis by (simp add: streams_restore_def)
next
  case (Some r)
  then have names: "\<forall>i\<in>set items. nrs_name i \<noteq> []"
    and r: "r = fmap_of_list (map (\<lambda>i. (nrs_name i, nrs_state i)) items)"
    by (auto simp: restore_streams_loop_Some)
  from names have "map_of (map (\<lambda>i. (nrs_name i, nrs_state i)) items) [] = None"
    by (auto simp: map_of_eq_None_iff)
  then have "\<not> fm_has r []"
    by (simp add: r fm_has_def fmlookup_of_list)
  with Some show ?thesis
    by (simp add: streams_restore_def streams_wf_def)
qed

text \<open>A snapshot restores every stream, over any previous contents.\<close>

lemma restore_snapshot_roundtrip:
  assumes "streams_wf s"
  shows "streams_restore t (streams_snapshot s) = (True, s)"
proof -
  have names: "map nrs_name (streams_snapshot s) = fm_keys s"
    by (simp add: streams_snapshot_def fm_items_def comp_def)
  have items: "map (\<lambda>i. (nrs_name i, nrs_state i)) (streams_snapshot s) = fm_items s"
    by (simp add: streams_snapshot_def comp_def case_prod_beta)
  have "nrs_name i \<noteq> []" if "i \<in> set (streams_snapshot s)" for i
    using that assms
    by (auto simp: streams_snapshot_def streams_wf_def fm_has_def set_fm_items)
  then have "restore_streams_loop fmempty (streams_snapshot s) = Some s"
    by (simp add: restore_streams_loop_Some names items fm_of_list_items)
  then show ?thesis by (simp add: streams_restore_def)
qed

end
