(* ===== verification/Schema.thy ===== *)
theory Schema
  imports Foundation
begin

text \<open>
  \<^verbatim>\<open>libs/schema\<close>: property values (\<^verbatim>\<open>value.hpp\<close>), the schema registry and the migration
  registry. The registry is append-only and first-come: a name never changes its descriptor.
  A migration either applies the whole chain of upcasts or leaves the values untouched.
\<close>

section \<open>Values\<close>

text \<open>
  A \<open>double\<close> is its IEEE-754 bit pattern, as \<open>std::bit_cast\<close> reads it. Operations on the number
  it denotes are defined where the code uses them (theory \<open>Float64\<close>).
\<close>

datatype f64 = F64 (f64_bits: u64)

datatype Value =
    VInt64 i64
  | VDouble f64
  | VBool bool
  | VString string

text \<open>\<open>std::variant::index\<close>.\<close>

fun value_index :: "Value \<Rightarrow> u64" where
  "value_index (VInt64 _) = 0"
| "value_index (VDouble _) = 1"
| "value_index (VBool _) = 2"
| "value_index (VString _) = 3"

type_synonym PropertyBag = "(string, Value) fmap"

section \<open>The schema registry\<close>

datatype SchemaKind = SK_component | SK_object_type | SK_relation

datatype FieldType = FT_int64 | FT_float64 | FT_boolean | FT_string

record FieldDescriptor =
  fd_name :: string
  fd_type :: FieldType

record SchemaDescriptor =
  sd_name :: string
  sd_version :: u32
  sd_kind :: SchemaKind
  sd_fields :: "FieldDescriptor list"

datatype RegistrationResult =
    registered
  | invalid_descriptor
  | already_registered
  | incompatible_version

type_synonym SchemaRegistry = "(string, SchemaDescriptor) fmap"

definition register_schema ::
  "SchemaRegistry \<Rightarrow> SchemaDescriptor \<Rightarrow> RegistrationResult \<times> SchemaRegistry" where
  "register_schema schemas descriptor =
     (if sd_name descriptor = [] \<or> sd_version descriptor = 0 then (invalid_descriptor, schemas)
      else case fmlookup schemas (sd_name descriptor) of
        Some current \<Rightarrow>
          (if sd_version current = sd_version descriptor \<and> sd_kind current = sd_kind descriptor
              \<and> sd_fields current = sd_fields descriptor
           then (already_registered, schemas)
           else (incompatible_version, schemas))
      | None \<Rightarrow> (registered, fmupd (sd_name descriptor) descriptor schemas))"

definition schema_find :: "SchemaRegistry \<Rightarrow> string \<Rightarrow> SchemaDescriptor option" where
  "schema_find schemas name = fmlookup schemas name"

definition schema_size :: "SchemaRegistry \<Rightarrow> nat" where
  "schema_size schemas = fm_size schemas"

text \<open>Every entry is filed under its own, valid name.\<close>

definition registry_wf :: "SchemaRegistry \<Rightarrow> bool" where
  "registry_wf schemas \<longleftrightarrow>
     (\<forall>n d. fmlookup schemas n = Some d \<longrightarrow> sd_name d = n \<and> n \<noteq> [] \<and> sd_version d \<noteq> 0)"

lemma registry_wf_empty [simp]: "registry_wf fmempty"
  by (simp add: registry_wf_def)

lemma registry_wf_register [wf_intros]:
  "registry_wf r \<Longrightarrow> registry_wf (snd (register_schema r d))"
  by (auto simp: registry_wf_def register_schema_def split: option.splits)

fun register_all :: "SchemaRegistry \<Rightarrow> SchemaDescriptor list \<Rightarrow> SchemaRegistry" where
  "register_all r [] = r"
| "register_all r (d # ds) = register_all (snd (register_schema r d)) ds"

lemma register_schema_keeps:
  "schema_find r n = Some d \<Longrightarrow> schema_find (snd (register_schema r d')) n = Some d"
  by (auto simp: schema_find_def register_schema_def split: option.splits)

lemma register_all_keeps:
  "schema_find r n = Some d \<Longrightarrow> schema_find (register_all r ds) n = Some d"
  by (induction ds arbitrary: r) (auto intro: register_schema_keeps)

text \<open>
  The registry is append-only. The answer of \<open>register_schema\<close> says exactly what the registry
  holds under the name afterwards, and no later registration changes it.
\<close>

lemma register_schema_outcome:
  assumes "registry_wf r" and "register_schema r d = (res, r')"
  shows "(res = invalid_descriptor \<longleftrightarrow> sd_name d = [] \<or> sd_version d = 0) \<and>
         (res = registered \<longrightarrow> schema_find r (sd_name d) = None \<and>
            schema_find (register_all r' ds) (sd_name d) = Some d) \<and>
         (res = already_registered \<longrightarrow> schema_find (register_all r' ds) (sd_name d) = Some d) \<and>
         (res = incompatible_version \<longrightarrow>
            (\<exists>e. schema_find (register_all r' ds) (sd_name d) = Some e \<and> e \<noteq> d)) \<and>
         (res \<noteq> registered \<longrightarrow> r' = r)"
proof -
  have keep: "schema_find r' n = Some e \<Longrightarrow> schema_find (register_all r' ds) n = Some e" for n e
    by (rule register_all_keeps)
  show ?thesis
  proof (cases "sd_name d = [] \<or> sd_version d = 0")
    case True
    with assms show ?thesis by (simp add: register_schema_def)
  next
    case valid: False
    show ?thesis
    proof (cases "fmlookup r (sd_name d)")
      case None
      with valid assms keep [of "sd_name d" d] show ?thesis
        by (auto simp: register_schema_def schema_find_def)
    next
      case (Some e)
      with assms(1) have "sd_name e = sd_name d" by (simp add: registry_wf_def)
      with valid assms Some keep [of "sd_name d" e] show ?thesis
        by (auto simp: register_schema_def schema_find_def split: if_splits)
    qed
  qed
qed

definition example_descriptor :: SchemaDescriptor where
  "example_descriptor =
     \<lparr>sd_name = ''world.object'', sd_version = 1, sd_kind = SK_object_type,
      sd_fields = [\<lparr>fd_name = ''semantic_type'', fd_type = FT_string\<rparr>]\<rparr>"

section \<open>Migration\<close>

text \<open>
  An upcast is a \<open>std::function<bool(PropertyBag&)>\<close>: it answers and leaves the bag changed, also
  when it answers \<open>false\<close>. An empty \<open>std::function\<close> is \<open>None\<close>.
\<close>

type_synonym Upcast = "PropertyBag \<Rightarrow> bool \<times> PropertyBag"
type_synonym MigrationRegistry = "(string \<times> u32, Upcast) fmap"

definition register_upcast ::
  "MigrationRegistry \<Rightarrow> string \<Rightarrow> u32 \<Rightarrow> Upcast option \<Rightarrow> bool \<times> MigrationRegistry" where
  "register_upcast upcasts schema_name from_version u =
     (if schema_name = [] \<or> from_version = 0 \<or> u = None then (False, upcasts)
      else if fm_has upcasts (schema_name, from_version) then (False, upcasts)
      else (True, fmupd (schema_name, from_version) (the u) upcasts))"

text \<open>The loop \<open>for (version = from; version < target; ++version)\<close>; \<open>None\<close> is \<open>return false\<close>.\<close>

function upcast_loop ::
  "MigrationRegistry \<Rightarrow> string \<Rightarrow> u32 \<Rightarrow> u32 \<Rightarrow> PropertyBag \<Rightarrow> PropertyBag option" where
  "upcast_loop upcasts schema_name version target migrated =
     (if version < target then
        (case fmlookup upcasts (schema_name, version) of
           None \<Rightarrow> None
         | Some u \<Rightarrow>
             (case u migrated of
                (False, _) \<Rightarrow> None
              | (True, migrated') \<Rightarrow>
                  upcast_loop upcasts schema_name (version + 1) target migrated'))
      else Some migrated)"
  by pat_completeness auto
termination
proof (relation "measure (\<lambda>(_, _, version, target, _). unat target - unat version)", goal_cases)
  case 1
  show ?case by simp
next
  case (2 upcasts schema_name version target migrated)
  then have lt: "unat version < unat target"
    by (simp add: word_less_nat_alt)
  have "version \<noteq> - 1"
    using 2(1) by auto
  then have "unat (version + 1) = Suc (unat version)"
    by (rule unat_inc)
  with lt show ?case by simp
qed

declare upcast_loop.simps [simp del]

definition upcast ::
  "MigrationRegistry \<Rightarrow> string \<Rightarrow> u32 \<Rightarrow> u32 \<Rightarrow> PropertyBag \<Rightarrow> bool \<times> PropertyBag" where
  "upcast upcasts schema_name from_version target_version values =
     (if schema_name = [] \<or> from_version = 0 \<or> from_version > target_version then (False, values)
      else case upcast_loop upcasts schema_name from_version target_version values of
        None \<Rightarrow> (False, values)
      | Some migrated \<Rightarrow> (True, migrated))"

lemma upcast_atomic: "fst (upcast r n v t b) = False \<Longrightarrow> snd (upcast r n v t b) = b"
  by (auto simp: upcast_def split: option.splits if_splits)

lemma upcast_loop_trans:
  "a \<le> b \<Longrightarrow> b \<le> c \<Longrightarrow>
     upcast_loop r n a c v = Option.bind (upcast_loop r n a b v) (upcast_loop r n b c)"
proof (induction r n a b v rule: upcast_loop.induct)
  case (1 r n a b v)
  show ?case
  proof (cases "a < b")
    case False
    with "1.prems" have "a = b" by simp
    then show ?thesis by (simp add: upcast_loop.simps [of r n b b])
  next
    case True
    with "1.prems" have ac: "a < c" by simp
    have "a \<noteq> - 1" using True by auto
    then have "a + 1 \<le> b"
      using True by (simp add: inc_le)
    with True ac "1.IH" "1.prems" show ?thesis
      by (simp add: upcast_loop.simps [of r n a] split: option.split prod.split bool.split)
  qed
qed

text \<open>Migrating in two legs is the same as migrating in one.\<close>

lemma upcast_compose:
  assumes "a \<le> b" "b \<le> c" "upcast r n a b v = (True, v')"
  shows "upcast r n a c v = (let (ok, w) = upcast r n b c v' in if ok then (True, w) else (False, v))"
proof -
  from assms(3) have ok: "n \<noteq> []" "a \<noteq> 0" "upcast_loop r n a b v = Some v'"
    by (auto simp: upcast_def split: if_splits option.splits)
  have "b \<noteq> 0" using assms(1) ok(2) by auto
  with assms(1,2) ok show ?thesis
    by (auto simp: upcast_def upcast_loop_trans [of a b c] Let_def split: option.split)
qed

end
