(* ===== verification/World_Refinement.thy ===== *)
theory World_Refinement
  imports World
begin

text \<open>
  The storage of \<open>World\<close> against its abstract specification, a plain map from ids to objects with
  two counters, and the isolation of frozen snapshots. Both rest on \<open>world_wf\<close>: addresses are
  allocated, two ids never share one, and no entry is newer than the current generation.
\<close>

section \<open>Well-formed storage\<close>

definition entries_ok :: "World \<Rightarrow> ObjectStorage \<Rightarrow> bool" where
  "entries_ok w objs \<longleftrightarrow>
     (\<forall>i e. fmlookup objs i = Some e \<longrightarrow> entry_object e < length (heap w))"

definition world_wf :: "World \<Rightarrow> bool" where
  "world_wf w \<longleftrightarrow>
     entries_ok w (objects w) \<and>
     (\<forall>i e j e'. fmlookup (objects w) i = Some e \<and> fmlookup (objects w) j = Some e' \<and>
        entry_object e = entry_object e' \<longrightarrow> i = j) \<and>
     (\<forall>i e. fmlookup (objects w) i = Some e \<longrightarrow> entry_cow_generation e \<le> cow_generation w) \<and>
     (\<forall>i e. fmlookup (objects w) i = Some e \<longrightarrow> wo_id (heap w ! entry_object e) = i) \<and>
     1 \<le> cow_generation w"

lemma world_wfD:
  assumes "world_wf w" "fmlookup (objects w) i = Some e"
  shows "entry_object e < length (heap w)"
    "entry_cow_generation e \<le> cow_generation w"
    "wo_id (heap w ! entry_object e) = i"
  using assms by (auto simp: world_wf_def entries_ok_def)

lemma world_wf_unique:
  "world_wf w \<Longrightarrow> fmlookup (objects w) i = Some e \<Longrightarrow> fmlookup (objects w) j = Some e' \<Longrightarrow>
     entry_object e = entry_object e' \<Longrightarrow> i = j"
  by (auto simp: world_wf_def)

lemma world_wf_empty [simp]: "world_wf empty_world"
  by (simp add: world_wf_def entries_ok_def empty_world_def)

lemmas entry_defs = find_entry_def set_entry_def erase_entry_def

lemma world_wf_counters [simp]:
  "world_wf (w\<lparr>next_revision := n\<rparr>) = world_wf w"
  "world_wf (w\<lparr>erase_revision := n\<rparr>) = world_wf w"
  "world_wf (w\<lparr>storage_revision := n\<rparr>) = world_wf w"
  by (simp_all add: world_wf_def entries_ok_def)

lemma world_find_counters [simp]:
  "world_find (w\<lparr>next_revision := n\<rparr>) = world_find w"
  "world_find (w\<lparr>erase_revision := n\<rparr>) = world_find w"
  "world_find (w\<lparr>storage_revision := n\<rparr>) = world_find w"
  by (simp_all add: world_find_def fun_eq_iff)

subsection \<open>Allocation\<close>

lemma store_simps [simp]:
  "heap (store w i obj) = heap w @ [obj]"
  "cow_generation (store w i obj) = cow_generation w"
  "next_revision (store w i obj) = next_revision w"
  "erase_revision (store w i obj) = erase_revision w"
  "storage_revision (store w i obj) = storage_revision w"
  by (simp_all add: store_def)

lemma lookup_store:
  "fmlookup (objects (store w i obj)) j =
     (if i = j then Some \<lparr>entry_object = length (heap w), entry_cow_generation = cow_generation w\<rparr>
      else fmlookup (objects w) j)"
  by (simp add: store_def set_entry_def)

lemma world_wf_store [wf_intros]:
  assumes "world_wf w" "wo_id obj = i"
  shows "world_wf (store w i obj)"
  using assms
  by (auto simp: world_wf_def entries_ok_def lookup_store nth_append less_Suc_eq
           split: if_splits) (metis less_irrefl)+

lemma world_find_store [simp]:
  "world_wf w \<Longrightarrow> world_find (store w i obj) = (world_find w)(i := Some obj)"
  by (rule ext) (auto simp: world_find_def find_entry_def lookup_store nth_append
                      world_wf_def entries_ok_def map_option_case split: option.split)

subsection \<open>Writing in place\<close>

definition write_at :: "World \<Rightarrow> addr \<Rightarrow> WorldObject \<Rightarrow> World" where
  "write_at w a obj = w\<lparr>heap := (heap w)[a := obj]\<rparr>"

lemma write_at_simps [simp]:
  "objects (write_at w a obj) = objects w"
  "heap (write_at w a obj) = (heap w)[a := obj]"
  "cow_generation (write_at w a obj) = cow_generation w"
  "next_revision (write_at w a obj) = next_revision w"
  "erase_revision (write_at w a obj) = erase_revision w"
  by (simp_all add: write_at_def)

lemma world_wf_write_at [wf_intros]:
  assumes "world_wf w" "wo_id obj = wo_id (heap w ! a)"
  shows "world_wf (write_at w a obj)"
proof -
  have "wo_id ((heap w)[a := obj] ! b) = wo_id (heap w ! b)" if "b < length (heap w)" for b
    using assms(2) that by (cases "a = b") auto
  with assms(1) show ?thesis
    by (auto simp: world_wf_def entries_ok_def)
qed

lemma world_find_write_at:
  assumes "world_wf w" "fmlookup (objects w) i = Some e" "entry_object e = a"
  shows "world_find (write_at w a obj) = (world_find w)(i := Some obj)"
proof (rule ext)
  fix j
  show "world_find (write_at w a obj) j = ((world_find w)(i := Some obj)) j"
  proof (cases "fmlookup (objects w) j")
    case None
    with assms(2) show ?thesis by (auto simp: world_find_def find_entry_def)
  next
    case (Some e')
    have "entry_object e' < length (heap w)"
      using assms(1) Some by (rule world_wfD)
    moreover have "entry_object e' = a \<longleftrightarrow> j = i"
      using world_wf_unique [OF assms(1,2) Some] assms(2,3) Some by auto
    ultimately show ?thesis
      using Some by (cases "j = i") (simp_all add: world_find_def find_entry_def nth_list_update)
  qed
qed

subsection \<open>The pointer for writing\<close>

lemma writable_find_None:
  "fst (writable_find w i) = None \<longleftrightarrow> world_find w i = None"
  "fst (writable_find w i) = None \<Longrightarrow> snd (writable_find w i) = w"
  by (auto simp: writable_find_def world_find_def split: option.splits)

lemma writable_find_Some:
  assumes "world_wf w" "writable_find w i = (Some a, w')"
  shows "world_wf w'" "world_find w' = world_find w" "world_find w i = Some (heap w' ! a)"
    "wo_id (heap w' ! a) = i" "next_revision w' = next_revision w"
    "erase_revision w' = erase_revision w" "cow_generation w' = cow_generation w"
    "\<exists>e. fmlookup (objects w') i = Some e \<and> entry_object e = a \<and>
         entry_cow_generation e = cow_generation w'"
proof -
  from assms(2) obtain e where e: "fmlookup (objects w) i = Some e"
    by (auto simp: writable_find_def find_entry_def split: option.splits)
  note eD = world_wfD [OF assms(1) e]
  have "world_wf w' \<and> world_find w' = world_find w \<and> world_find w i = Some (heap w' ! a) \<and>
    wo_id (heap w' ! a) = i \<and> next_revision w' = next_revision w \<and>
    erase_revision w' = erase_revision w \<and> cow_generation w' = cow_generation w \<and>
    (\<exists>e. fmlookup (objects w') i = Some e \<and> entry_object e = a \<and>
         entry_cow_generation e = cow_generation w')"
  proof (cases "entry_cow_generation e = cow_generation w")
    case True
    with assms e eD show ?thesis
      by (auto simp: writable_find_def find_entry_def world_find_def)
  next
    case False
    let ?w = "store w i (heap w ! entry_object e)"
    have w': "w' = ?w\<lparr>storage_revision := storage_revision w + 1\<rparr>" "a = length (heap w)"
      using assms(2) e False by (auto simp: writable_find_def find_entry_def)
    have wfw: "world_wf ?w"
      using assms(1) eD(3) by (rule world_wf_store)
    have find_i: "world_find w i = Some (heap w ! entry_object e)"
      using e by (simp add: world_find_def find_entry_def)
    then have "world_find ?w = world_find w"
      using assms(1) by (auto simp: fun_eq_iff)
    with w' wfw eD(3) find_i show ?thesis
      by (simp add: lookup_store nth_append)
  qed
  then show "world_wf w'" "world_find w' = world_find w" "world_find w i = Some (heap w' ! a)"
    "wo_id (heap w' ! a) = i" "next_revision w' = next_revision w"
    "erase_revision w' = erase_revision w" "cow_generation w' = cow_generation w"
    "\<exists>e. fmlookup (objects w') i = Some e \<and> entry_object e = a \<and>
         entry_cow_generation e = cow_generation w'"
    by auto
qed


section \<open>The abstract world\<close>

record AbstractWorld =
  aw_objects :: "WorldId \<rightharpoonup> WorldObject"
  aw_next :: u64
  aw_erased :: u64

definition world_abs :: "World \<Rightarrow> AbstractWorld" where
  "world_abs w =
     \<lparr>aw_objects = world_find w, aw_next = next_revision w, aw_erased = erase_revision w\<rparr>"

datatype WorldOp =
    OpInsert WorldObject
  | OpErase WorldId
  | OpUpdate WorldId "(WorldObject \<Rightarrow> WorldObject) option"
  | OpSetProperty WorldId string Value
  | OpAddRelation WorldId Relation
  | OpRestore "WorldObject list" u64 u64
  | OpFreeze

fun world_op :: "bool \<Rightarrow> World \<Rightarrow> WorldOp \<Rightarrow> bool \<times> World" where
  "world_op persistent w (OpInsert obj) = world_insert w obj"
| "world_op persistent w (OpErase i) = world_erase w i"
| "world_op persistent w (OpUpdate i f) = world_update w i f"
| "world_op persistent w (OpSetProperty i k v) = set_property w i k v"
| "world_op persistent w (OpAddRelation i r) = add_relation w i r"
| "world_op persistent w (OpRestore objs n e) = (True, world_restore w objs n e)"
| "world_op persistent w OpFreeze = (True, snd (freeze_snapshot persistent w))"

fun spec_op :: "AbstractWorld \<Rightarrow> WorldOp \<Rightarrow> bool \<times> AbstractWorld" where
  "spec_op A (OpInsert obj) =
     (if wid_value (wo_id obj) = 0 \<or> wo_version obj = 0 then (False, A)
      else let A1 = A\<lparr>aw_next := aw_next A + 1\<rparr> in
        if aw_objects A (wo_id obj) \<noteq> None then (False, A1)
        else (True, A1\<lparr>aw_objects :=
               (aw_objects A)(wo_id obj \<mapsto> obj\<lparr>wo_revision := aw_next A1\<rparr>)\<rparr>))"
| "spec_op A (OpErase i) =
     (if aw_objects A i = None then (False, A)
      else (True, A\<lparr>aw_objects := (aw_objects A)(i := None), aw_erased := aw_erased A + 1\<rparr>))"
| "spec_op A (OpUpdate i m) =
     (case (aw_objects A i, m) of
        (Some obj, Some f) \<Rightarrow> (True, A\<lparr>aw_objects := (aw_objects A)(i \<mapsto> f obj)\<rparr>)
      | _ \<Rightarrow> (False, A))"
| "spec_op A (OpSetProperty i k v) =
     (case aw_objects A i of
        None \<Rightarrow> (False, A)
      | Some obj \<Rightarrow>
          if wo_lifecycle obj = LS_retired then (False, A)
          else (True, A\<lparr>aw_objects := (aw_objects A)(i \<mapsto>
                 obj\<lparr>wo_properties := fmupd k v (wo_properties obj),
                     wo_version := wo_version obj + 1\<rparr>)\<rparr>))"
| "spec_op A (OpAddRelation i r) =
     (case (aw_objects A (rel_target r), aw_objects A i) of
        (Some _, Some obj) \<Rightarrow>
          if rel_type r = [] then (False, A)
          else (True, A\<lparr>aw_objects := (aw_objects A)(i \<mapsto>
                 obj\<lparr>wo_relations := wo_relations obj @ [r],
                     wo_version := wo_version obj + 1\<rparr>)\<rparr>)
      | _ \<Rightarrow> (False, A))"
| "spec_op A (OpRestore objs n e) =
     (True, \<lparr>aw_objects = map_of (rev (map (\<lambda>obj. (wo_id obj, obj)) objs)),
             aw_next = n, aw_erased = e\<rparr>)"
| "spec_op A OpFreeze = (True, A)"

text \<open>A mutation passed to \<open>update\<close> must not change the id the object is filed under.\<close>

definition keeps_id :: "WorldOp \<Rightarrow> bool" where
  "keeps_id p \<longleftrightarrow> (case p of OpUpdate i (Some f) \<Rightarrow> \<forall>obj. wo_id (f obj) = wo_id obj | _ \<Rightarrow> True)"

subsection \<open>Operation by operation\<close>

lemma insert_refines:
  assumes "world_wf w" "world_insert w obj = (ok, w')"
  shows "world_wf w'" "(ok, world_abs w') = spec_op (world_abs w) (OpInsert obj)"
  using assms
  by (auto simp: world_insert_def world_abs_def Let_def find_entry_def world_find_def [of _ "wo_id _"]
        wid_valid_def intro!: wf_intros split: if_splits)

lemma erase_wf [wf_intros]: "world_wf w \<Longrightarrow> world_wf (snd (world_erase w i))"
  by (auto simp: world_erase_def world_wf_def entries_ok_def entry_defs)

lemma erase_refines:
  assumes "world_erase w i = (ok, w')"
  shows "(ok, world_abs w') = spec_op (world_abs w) (OpErase i)"
  using assms
  by (auto simp: world_erase_def world_abs_def entry_defs world_find_def fun_eq_iff split: if_splits)

lemma update_refines:
  assumes wf: "world_wf w" and keeps: "keeps_id (OpUpdate i m)"
    and step: "world_update w i m = (ok, w')"
  shows "world_wf w' \<and> (ok, world_abs w') = spec_op (world_abs w) (OpUpdate i m)"
proof (cases "fmlookup (objects w) i")
  case None
  then have "world_find w i = None"
    by (simp add: world_find_def find_entry_def)
  with None wf step show ?thesis
    by (auto simp: world_update_def world_abs_def find_entry_def)
next
  case (Some e)
  note id_e = world_wfD(3) [OF wf Some]
  show ?thesis
  proof (cases m)
    case None
    with wf step show ?thesis
      by (auto simp: world_update_def world_abs_def split: option.splits)
  next
    case m: (Some f)
    with keeps id_e have "wo_id (f (heap w ! entry_object e)) = i"
      by (simp add: keeps_id_def)
    with wf have "world_wf (store w i (f (heap w ! entry_object e)))"
      by (rule world_wf_store)
    with wf step Some m show ?thesis
      by (auto simp: world_update_def world_abs_def find_entry_def world_find_def [of w i])
  qed
qed

lemma write_through:
  assumes "world_wf w" "writable_find w i = (Some a, w1)" "wo_id obj = i"
  shows "world_wf (write_at w1 a obj)"
    "world_find (write_at w1 a obj) = (world_find w)(i := Some obj)"
    "next_revision (write_at w1 a obj) = next_revision w"
    "erase_revision (write_at w1 a obj) = erase_revision w"
proof -
  note W = writable_find_Some [OF assms(1,2)]
  obtain e where e: "fmlookup (objects w1) i = Some e" "entry_object e = a"
    using W(8) by blast
  show "world_wf (write_at w1 a obj)"
    using W(1) W(4) assms(3) by (auto intro: wf_intros)
  show "world_find (write_at w1 a obj) = (world_find w)(i := Some obj)"
    using world_find_write_at [OF W(1) e] W(2) by simp
qed (use writable_find_Some [OF assms(1,2)] in simp_all)

lemma set_property_refines:
  assumes "world_wf w" "set_property w i k v = (ok, w')"
  shows "world_wf w' \<and> (ok, world_abs w') = spec_op (world_abs w) (OpSetProperty i k v)"
proof (cases "writable_find w i")
  case (Pair p w1)
  show ?thesis
  proof (cases p)
    case None
    with Pair assms writable_find_None [of w i] show ?thesis
      by (auto simp: set_property_def world_abs_def)
  next
    case (Some a)
    with Pair have wf: "writable_find w i = (Some a, w1)" by simp
    note W = writable_find_Some [OF assms(1) wf]
    define obj where "obj = (heap w1 ! a)\<lparr>wo_properties := fmupd k v (wo_properties (heap w1 ! a)),
                     wo_version := wo_version (heap w1 ! a) + 1\<rparr>"
    have "wo_id obj = i" using W(4) by (simp add: obj_def)
    note T = write_through [OF assms(1) wf this]
    have "(ok, w') = (if wo_lifecycle (heap w1 ! a) = LS_retired then (False, w1)
                      else (True, write_at w1 a obj))"
      using assms(2) wf by (auto simp add: set_property_def Let_def obj_def write_at_def)
    with T W show ?thesis
      by (auto simp: world_abs_def obj_def split: if_splits)
  qed
qed

lemma add_relation_refines:
  assumes "world_wf w" "add_relation w i r = (ok, w')"
  shows "world_wf w' \<and> (ok, world_abs w') = spec_op (world_abs w) (OpAddRelation i r)"
proof (cases "world_find w (rel_target r) = None \<or> rel_type r = []")
  case True
  with assms show ?thesis
    by (auto simp: add_relation_def world_abs_def split: option.splits)
next
  case guard: False
  show ?thesis
  proof (cases "writable_find w i")
    case (Pair p w1)
    show ?thesis
    proof (cases p)
      case None
      with Pair assms guard writable_find_None [of w i] show ?thesis
        by (auto simp: add_relation_def world_abs_def split: option.split)
    next
      case (Some a)
      with Pair have wf: "writable_find w i = (Some a, w1)" by simp
      note W = writable_find_Some [OF assms(1) wf]
      define obj where "obj = (heap w1 ! a)\<lparr>wo_relations := wo_relations (heap w1 ! a) @ [r],
                     wo_version := wo_version (heap w1 ! a) + 1\<rparr>"
      have "wo_id obj = i" using W(4) by (simp add: obj_def)
      note T = write_through [OF assms(1) wf this]
      have "(ok, w') = (True, write_at w1 a obj)"
        using assms(2) wf guard by (simp add: add_relation_def Let_def obj_def write_at_def)
      with T W guard show ?thesis
        by (auto simp: world_abs_def obj_def)
    qed
  qed
qed

lemma restore_objects_refines:
  "world_wf w \<Longrightarrow>
     world_wf (restore_objects w objs) \<and>
     world_find (restore_objects w objs) =
       world_find w ++ map_of (rev (map (\<lambda>obj. (wo_id obj, obj)) objs)) \<and>
     cow_generation (restore_objects w objs) = cow_generation w"
proof (induction objs arbitrary: w)
  case Nil
  then show ?case by simp
next
  case (Cons obj objs)
  then have wf: "world_wf (store w (wo_id obj) obj)"
    by (auto intro: wf_intros)
  from Cons.IH [OF wf] Cons.prems show ?case
    by (auto simp: fun_eq_iff map_add_def split: option.splits)
qed

lemma world_wf_clear: "world_wf w \<Longrightarrow> world_wf (w\<lparr>objects := fmempty\<rparr>)"
  by (simp add: world_wf_def entries_ok_def)

lemma restore_refines:
  assumes "world_wf w"
  shows "world_wf (world_restore w objs n e)"
    "world_abs (world_restore w objs n e) = snd (spec_op (world_abs w) (OpRestore objs n e))"
proof -
  note R = restore_objects_refines [OF world_wf_clear [OF assms], of objs]
  have "world_find (w\<lparr>objects := fmempty\<rparr>) = Map.empty"
    by (auto simp: world_find_def find_entry_def)
  with R show "world_abs (world_restore w objs n e) = snd (spec_op (world_abs w) (OpRestore objs n e))"
    by (simp add: world_restore_def world_abs_def)
  from R show "world_wf (world_restore w objs n e)"
    by (simp add: world_restore_def)
qed

subsection \<open>Freezing\<close>

lemma copy_entries_heap:
  "copy_entries h m es = (h', m') \<Longrightarrow> \<exists>new. h' = h @ new"
  by (induction h m es arbitrary: h' m' rule: copy_entries.induct) fastforce+

lemma copy_entries_other:
  "copy_entries h m es = (h', m') \<Longrightarrow> i \<notin> fst ` set es \<Longrightarrow> fmlookup m' i = fmlookup m i"
  by (induction h m es arbitrary: h' m' rule: copy_entries.induct) (auto simp: set_entry_def)

lemma copy_entries_lookup:
  assumes "copy_entries h m es = (h', m')" "distinct (map fst es)"
    "\<forall>(i, e)\<in>set es. entry_object e < length h" "(i, e) \<in> set es"
  shows "\<exists>e'. fmlookup m' i = Some e' \<and> length h \<le> entry_object e' \<and>
           entry_object e' < length h' \<and> h' ! entry_object e' = h ! entry_object e"
  using assms
proof (induction h m es arbitrary: h' m' rule: copy_entries.induct)
  case (1 h m)
  then show ?case by simp
next
  case (2 h m i0 e0 es)
  let ?h = "h @ [h ! entry_object e0]"
  let ?m = "set_entry m i0 \<lparr>entry_object = length h, entry_cow_generation = 1\<rparr>"
  from "2.prems" have c: "copy_entries ?h ?m es = (h', m')" and d: "distinct (map fst es)"
    and i0: "i0 \<notin> fst ` set es" and range: "\<forall>(i, e)\<in>set es. entry_object e < length ?h"
    by auto
  obtain new where new: "h' = ?h @ new" using copy_entries_heap [OF c] by blast
  show ?case
  proof (cases "(i, e) = (i0, e0)")
    case True
    with copy_entries_other [OF c i0] new show ?thesis
      by (simp add: set_entry_def nth_append)
  next
    case False
    with "2.prems"(4) have ie: "(i, e) \<in> set es" by auto
    have "entry_object e < length h" using "2.prems"(3) ie by auto
    with "2.IH" [OF c d range ie] show ?thesis by (auto simp: nth_append)
  qed
qed

text \<open>At the freeze the snapshot reads what the world reads, in both builds.\<close>

lemma freeze_reads_world:
  assumes "world_wf w" "freeze_snapshot persistent w = (s, w')"
  shows "frozen_find w' s = world_find w"
proof (cases persistent)
  case True
  with assms(2) show ?thesis
    by (auto simp: freeze_snapshot_def frozen_find_def world_find_def fun_eq_iff split: if_splits)
next
  case False
  obtain h m where c: "copy_entries (heap w) fmempty (fm_items (objects w)) = (h, m)"
    by fastforce
  have s: "s = Some \<lparr>fs_objects = m, fs_next_revision = next_revision w,
      fs_erase_revision = erase_revision w\<rparr>" and w': "w' = w\<lparr>heap := h\<rparr>"
    using assms(2) False c by (auto simp: freeze_snapshot_def)
  have range: "\<forall>(i, e)\<in>set (fm_items (objects w)). entry_object e < length (heap w)"
    using assms(1) by (auto simp: set_fm_items dest: world_wfD(1))
  show ?thesis
  proof (rule ext)
    fix i
    show "frozen_find w' s i = world_find w i"
    proof (cases "fmlookup (objects w) i")
      case None
      then have "i \<notin> fst ` set (fm_items (objects w))"
        by (auto simp: set_fm_items)
      with copy_entries_other [OF c] None show ?thesis
        by (simp add: frozen_find_def world_find_def find_entry_def s)
    next
      case (Some e)
      then have "(i, e) \<in> set (fm_items (objects w))"
        by (simp add: set_fm_items)
      from copy_entries_lookup [OF c _ range this] Some show ?thesis
        by (auto simp: frozen_find_def world_find_def find_entry_def s w')
    qed
  qed
qed

lemma freeze_refines:
  assumes "world_wf w" "freeze_snapshot persistent w = (s, w')"
  shows "world_wf w' \<and> world_abs w' = world_abs w"
proof (cases persistent)
  case True
  show ?thesis
  proof (cases "cow_generation w = - 1")
    case max: True
    with True assms show ?thesis
      by (auto simp: freeze_snapshot_def world_wf_def entries_ok_def world_abs_def world_find_def
            find_entry_def fun_eq_iff map_option_case split: option.splits)
  next
    case False
    then have "x \<le> cow_generation w \<Longrightarrow> x \<le> cow_generation w + 1" for x
      using less_inc [OF False] by simp
    moreover have "1 \<le> cow_generation w + 1"
      using inc_nonzero [OF False] by (simp add: word_le_nat_alt unat_eq_zero Suc_le_eq word_neq_0_conv
        unat_gt_0)
    ultimately show ?thesis
      using True False assms
      by (auto simp: freeze_snapshot_def world_wf_def entries_ok_def world_abs_def world_find_def
            find_entry_def fun_eq_iff)
  qed
next
  case False
  obtain h m where c: "copy_entries (heap w) fmempty (fm_items (objects w)) = (h, m)"
    by fastforce
  then obtain new where h: "h = heap w @ new" using copy_entries_heap by blast
  have w': "w' = w\<lparr>heap := h\<rparr>"
    using assms(2) False c by (auto simp: freeze_snapshot_def)
  have "h ! entry_object e = heap w ! entry_object e" if "fmlookup (objects w) i = Some e" for i e
    using world_wfD(1) [OF assms(1) that] by (simp add: h nth_append)
  with assms(1) w' show ?thesis
    by (auto simp: world_wf_def entries_ok_def world_abs_def world_find_def find_entry_def h
          fun_eq_iff map_option_case split: option.splits) (meson trans_less_add1)
qed

section \<open>Refinement\<close>

lemma world_op_simulates:
  assumes "world_wf w" "keeps_id p" "world_op persistent w p = (ok, w')"
  shows "world_wf w' \<and> (ok, world_abs w') = spec_op (world_abs w) p"
proof (cases p)
  case (OpInsert obj)
  with assms insert_refines show ?thesis by auto
next
  case (OpErase i)
  with assms erase_wf [of w i] erase_refines [of w i] show ?thesis by auto
next
  case (OpUpdate i m)
  with assms update_refines [of w i m] show ?thesis by auto
next
  case (OpSetProperty i k v)
  with assms set_property_refines [of w i k v] show ?thesis by auto
next
  case (OpAddRelation i r)
  with assms add_relation_refines [of w i r] show ?thesis by auto
next
  case (OpRestore objs n e)
  with assms restore_refines [of w objs n e] show ?thesis by auto
next
  case OpFreeze
  with assms freeze_refines [of w persistent] show ?thesis
    by (cases "freeze_snapshot persistent w") auto
qed

text \<open>
  C1: in both builds the copy-on-write storage implements the plain map. From a well-formed world
  every operation of \<open>World\<close> gives the answer of the specification, and the world it leaves is
  well-formed and reads as the specification's map and counters. Freezing is invisible.
\<close>

theorem world_op_refines:
  assumes "world_wf w" "keeps_id p" "world_op persistent w p = (ok, w')"
  shows "world_wf w' \<and> (ok, world_abs w') = spec_op (world_abs w) p"
  using assms by (rule world_op_simulates)

definition example_object :: "u64 \<Rightarrow> WorldObject" where
  "example_object i =
     \<lparr>wo_id = WorldId i, wo_geometry_ref = ''mesh'',
      wo_position = \<lparr>ecef_x = F64 0, ecef_y = F64 0, ecef_z = F64 0\<rparr>,
      wo_semantic_type = ''unit'', wo_properties = fmempty, wo_state = fmempty,
      wo_relations = [], wo_capabilities = [], wo_lifecycle = LS_active, wo_version = 1,
      wo_revision = 0\<rparr>"

text \<open>A persistent world with one object whose storage a frozen snapshot still shares.\<close>

definition example_shared :: World where
  "example_shared =
     snd (freeze_snapshot True (snd (world_insert empty_world (example_object 7))))"

lemma world_wf_example_shared: "world_wf example_shared"
proof -
  obtain ok w where i: "world_insert empty_world (example_object 7) = (ok, w)" by fastforce
  then have "world_wf w" by (rule insert_refines(1) [OF world_wf_empty])
  then show ?thesis
    using freeze_refines [of w True] i unfolding example_shared_def
    by (cases "freeze_snapshot True w") auto
qed

theorem world_op_refines_witness:
  "\<exists>w'. world_op True example_shared (OpSetProperty (WorldId 7) ''hp'' (VInt64 5)) = (True, w') \<and>
     world_wf w' \<and> aw_objects (world_abs w') (WorldId 7) \<noteq> None"
proof -
  obtain ok w' where op:
    "world_op True example_shared (OpSetProperty (WorldId 7) ''hp'' (VInt64 5)) = (ok, w')"
    by fastforce
  have "world_find example_shared (WorldId 7) = Some ((example_object 7)\<lparr>wo_revision := 1\<rparr>)"
    by (simp add: example_shared_def world_insert_def empty_world_def example_object_def store_def
          freeze_snapshot_def world_find_def entry_defs)
  with world_op_refines [OF world_wf_example_shared _ op] op show ?thesis
    by (auto simp: keeps_id_def world_abs_def example_object_def)
qed

section \<open>Isolation of frozen snapshots\<close>

text \<open>
  The generation protocol: the addresses of a snapshot are allocated, and the live world may write
  in place (its entry has the current generation) only to addresses the snapshot does not hold.
\<close>

definition isolated :: "World \<Rightarrow> FrozenStorage \<Rightarrow> bool" where
  "isolated w f \<longleftrightarrow>
     entries_ok w (fs_objects f) \<and>
     (\<forall>i e j e'. fmlookup (fs_objects f) i = Some e \<and> fmlookup (objects w) j = Some e' \<and>
        entry_cow_generation e' = cow_generation w \<longrightarrow> entry_object e' \<noteq> entry_object e)"

definition keeps :: "FrozenStorage \<Rightarrow> World \<Rightarrow> World \<Rightarrow> bool" where
  "keeps f w w' \<longleftrightarrow> isolated w' f \<and> frozen_find w' (Some f) = frozen_find w (Some f)"

lemma keeps_refl: "isolated w f \<Longrightarrow> keeps f w w"
  by (simp add: keeps_def)

lemma keeps_trans: "keeps f w w' \<Longrightarrow> keeps f w' w'' \<Longrightarrow> keeps f w w''"
  by (simp add: keeps_def)

lemma keepsD: "keeps f w w' \<Longrightarrow> isolated w' f"
  by (simp add: keeps_def)

lemma keeps_counters [simp]:
  "keeps f w (w'\<lparr>next_revision := n\<rparr>) = keeps f w w'"
  "keeps f w (w'\<lparr>erase_revision := n\<rparr>) = keeps f w w'"
  "keeps f w (w'\<lparr>storage_revision := n\<rparr>) = keeps f w w'"
  "isolated (w\<lparr>next_revision := n\<rparr>) f = isolated w f"
  "keeps f (w\<lparr>next_revision := n\<rparr>) w' = keeps f w w'"
  by (simp_all add: keeps_def isolated_def frozen_find_def entries_ok_def fun_eq_iff)

lemma keeps_store: "isolated w f \<Longrightarrow> keeps f w (store w i obj)"
  by (auto simp: keeps_def isolated_def entries_ok_def lookup_store frozen_find_def fun_eq_iff
        find_entry_def nth_append map_option_case split: option.splits if_splits)
     (metis less_irrefl less_SucI)+

lemma keeps_fewer:
  assumes "isolated w f" "\<And>i e. fmlookup objs i = Some e \<Longrightarrow> fmlookup (objects w) i = Some e"
  shows "keeps f w (w\<lparr>objects := objs\<rparr>)"
proof -
  have "entry_object e' \<noteq> entry_object e"
    if "fmlookup (fs_objects f) i = Some e" "fmlookup objs j = Some e'"
      "entry_cow_generation e' = cow_generation w" for i e j e'
    using assms(1) assms(2) [OF that(2)] that(1,3) unfolding isolated_def by blast
  with assms(1) show ?thesis
    by (auto simp: keeps_def isolated_def entries_ok_def frozen_find_def fun_eq_iff)
qed

lemma keeps_writable_find:
  assumes "isolated w f" "writable_find w i = (a, w')"
  shows "keeps f w w'"
  using assms keeps_store [of w f i]
  by (auto simp: writable_find_def keeps_refl split: option.splits if_splits)

lemma keeps_write_at:
  assumes "isolated w f" "fmlookup (objects w) i = Some e" "entry_object e = a"
    "entry_cow_generation e = cow_generation w"
  shows "keeps f w (write_at w a obj)"
proof -
  have "a \<noteq> entry_object e'" if "fmlookup (fs_objects f) j = Some e'" for j e'
    using assms that by (auto simp: isolated_def)
  then have "frozen_find (write_at w a obj) (Some f) = frozen_find w (Some f)"
    by (auto simp: frozen_find_def find_entry_def fun_eq_iff map_option_case split: option.splits)
  moreover have "isolated (write_at w a obj) f"
    using assms(1) unfolding isolated_def entries_ok_def write_at_simps length_list_update by blast
  ultimately show ?thesis by (simp add: keeps_def)
qed

lemma keeps_write_through:
  assumes "world_wf w" "isolated w f" "writable_find w i = (Some a, w1)"
  shows "keeps f w (write_at w1 a obj)"
proof -
  obtain e where "fmlookup (objects w1) i = Some e" "entry_object e = a"
    "entry_cow_generation e = cow_generation w1"
    using writable_find_Some(8) [OF assms(1,3)] by blast
  with keeps_writable_find [OF assms(2,3)] show ?thesis
    by (blast intro: keeps_trans keeps_write_at dest: keepsD)
qed

lemma keeps_restore_objects: "isolated w f \<Longrightarrow> keeps f w (restore_objects w objs)"
proof (induction objs arbitrary: w)
  case Nil
  then show ?case by (simp add: keeps_refl)
next
  case (Cons obj objs)
  have "keeps f w (store w (wo_id obj) obj)" by (rule keeps_store [OF Cons.prems])
  then show ?case by (auto intro: keeps_trans Cons.IH keepsD)
qed

lemma freeze_heap:
  assumes "freeze_snapshot persistent w = (s, w')"
  shows "\<exists>new. heap w' = heap w @ new"
proof (cases persistent)
  case False
  obtain h m where "copy_entries (heap w) fmempty (fm_items (objects w)) = (h, m)" by fastforce
  with assms False copy_entries_heap show ?thesis by (auto simp: freeze_snapshot_def)
qed (use assms in \<open>auto simp: freeze_snapshot_def split: if_splits\<close>)

lemma freeze_generations:
  assumes "world_wf w" "freeze_snapshot persistent w = (s, w')"
    "fmlookup (objects w') j = Some e'" "entry_cow_generation e' = cow_generation w'"
  shows "\<not> persistent \<and> fmlookup (objects w) j = Some e' \<and>
    entry_cow_generation e' = cow_generation w"
proof (cases persistent)
  case True
  show ?thesis
  proof (cases "cow_generation w = - 1")
    case max: True
    with True assms show ?thesis by (auto simp: freeze_snapshot_def)
  next
    case False
    with True assms have "entry_cow_generation e' \<le> cow_generation w"
      "entry_cow_generation e' = cow_generation w + 1"
      by (auto simp: freeze_snapshot_def dest: world_wfD(2))
    with less_inc [OF False] show ?thesis by simp
  qed
qed (use assms in \<open>auto simp: freeze_snapshot_def split: prod.splits\<close>)

lemma keeps_freeze:
  assumes "world_wf w" "isolated w f" "freeze_snapshot persistent w = (s, w')"
  shows "keeps f w w'"
proof -
  obtain new where h: "heap w' = heap w @ new" using freeze_heap [OF assms(3)] by blast
  have "entry_object e' \<noteq> entry_object e"
    if "fmlookup (fs_objects f) i = Some e" "fmlookup (objects w') j = Some e'"
      "entry_cow_generation e' = cow_generation w'" for i e j e'
    using freeze_generations [OF assms(1,3) that(2,3)] assms(2) that(1)
    unfolding isolated_def by blast
  then have "isolated w' f"
    using assms(2) unfolding isolated_def entries_ok_def h length_append
    by (blast intro: trans_less_add1)
  moreover have "frozen_find w' (Some f) = frozen_find w (Some f)"
    using assms(2)
    by (auto simp: frozen_find_def find_entry_def isolated_def entries_ok_def h nth_append
          fun_eq_iff map_option_case split: option.splits)
  ultimately show ?thesis by (simp add: keeps_def)
qed

lemma world_op_keeps:
  assumes "world_wf w" "isolated w f" "world_op persistent w p = (ok, w')"
  shows "keeps f w w'"
proof (cases p)
  case (OpInsert obj)
  have store: "keeps f w (store (w\<lparr>next_revision := n\<rparr>) i obj1)" for n i obj1
    using keeps_store [of "w\<lparr>next_revision := n\<rparr>" f i obj1] assms(2) by simp
  with OpInsert assms show ?thesis
    by (auto simp: world_insert_def Let_def keeps_refl split: if_splits)
next
  case (OpErase i)
  have "keeps f w (w\<lparr>objects := fmdrop i (objects w)\<rparr>)"
    by (rule keeps_fewer [OF assms(2)]) (simp split: if_splits)
  with OpErase assms show ?thesis
    by (auto simp: world_erase_def erase_entry_def keeps_refl split: if_splits)
next
  case (OpUpdate i m)
  with assms keeps_store [of w f] show ?thesis
    by (auto simp: world_update_def keeps_refl split: option.splits)
next
  case (OpSetProperty i k v)
  obtain q w1 where q: "writable_find w i = (q, w1)" by fastforce
  with assms OpSetProperty keeps_writable_find [OF assms(2) q]
    keeps_write_through [OF assms(1,2), of i _ w1, unfolded write_at_def]
  show ?thesis
    by (auto simp: set_property_def Let_def split: option.splits if_splits)
next
  case (OpAddRelation i r)
  obtain q w1 where q: "writable_find w i = (q, w1)" by fastforce
  with assms OpAddRelation keeps_writable_find [OF assms(2) q]
    keeps_write_through [OF assms(1,2), of i _ w1, unfolded write_at_def]
  show ?thesis
    by (auto simp: add_relation_def Let_def keeps_refl split: option.splits if_splits)
next
  case (OpRestore objs n e)
  have clear: "keeps f w (w\<lparr>objects := fmempty\<rparr>)"
    using assms(2) by (rule keeps_fewer) simp
  have "keeps f w (restore_objects (w\<lparr>objects := fmempty\<rparr>) objs)"
    by (rule keeps_trans [OF clear keeps_restore_objects [OF keepsD [OF clear]]])
  with assms OpRestore show ?thesis
    by (auto simp: world_restore_def)
next
  case OpFreeze
  with assms keeps_freeze [of w f persistent] show ?thesis
    by (cases "freeze_snapshot persistent w") auto
qed

lemma freeze_isolated:
  assumes "world_wf w" "freeze_snapshot persistent w = (s, w')"
  shows "\<exists>f. s = Some f \<and> isolated w' f"
proof (cases persistent)
  case True
  then obtain f where f: "s = Some f" "fs_objects f = objects w" "heap w' = heap w"
    using assms(2) by (auto simp: freeze_snapshot_def split: if_splits)
  with True freeze_generations [OF assms] assms(1) show ?thesis
    by (auto simp: isolated_def entries_ok_def dest: world_wfD(1))
next
  case False
  obtain h m where c: "copy_entries (heap w) fmempty (fm_items (objects w)) = (h, m)"
    by fastforce
  then obtain f where f: "s = Some f" "fs_objects f = m" "w' = w\<lparr>heap := h\<rparr>"
    using assms(2) False by (auto simp: freeze_snapshot_def)
  have fresh: "length (heap w) \<le> entry_object e \<and> entry_object e < length h"
    if "fmlookup m i = Some e" for i e
  proof -
    have range: "\<forall>(i, e)\<in>set (fm_items (objects w)). entry_object e < length (heap w)"
      using assms(1) by (auto simp: set_fm_items dest: world_wfD(1))
    have "i \<in> fst ` set (fm_items (objects w))"
      using copy_entries_other [OF c, of i] that by (metis fmempty_lookup option.distinct(1))
    then obtain e0 where "(i, e0) \<in> set (fm_items (objects w))" by auto
    from copy_entries_lookup [OF c _ range this] that show ?thesis by auto
  qed
  have "entry_object e < length (heap w)" if "fmlookup (objects w) i = Some e" for i e
    using assms(1) that by (rule world_wfD(1))
  with fresh f show ?thesis
    by (fastforce simp: isolated_def entries_ok_def)
qed

fun world_run :: "bool \<Rightarrow> World \<Rightarrow> WorldOp list \<Rightarrow> World" where
  "world_run persistent w [] = w"
| "world_run persistent w (p # ps) = world_run persistent (snd (world_op persistent w p)) ps"

lemma world_run_keeps:
  "world_wf w \<Longrightarrow> isolated w f \<Longrightarrow> \<forall>p\<in>set ps. keeps_id p \<Longrightarrow>
     world_wf (world_run persistent w ps) \<and> keeps f w (world_run persistent w ps)"
proof (induction ps arbitrary: w)
  case Nil
  then show ?case by (simp add: keeps_refl)
next
  case (Cons p ps)
  obtain ok w1 where op: "world_op persistent w p = (ok, w1)" by fastforce
  have "keeps f w w1" using Cons.prems(1,2) op by (rule world_op_keeps)
  moreover have "world_wf w1" using world_op_simulates [OF Cons.prems(1) _ op] Cons.prems(3) by simp
  ultimately show ?case
    using Cons.IH [of w1] Cons.prems(3) op by (auto dest: keepsD intro: keeps_trans)
qed

text \<open>
  C2: whatever runs on the world after \<open>freeze_snapshot\<close> (inserts, erasures, property and relation
  writes, restores, further freezes), the frozen snapshot keeps reading exactly the objects the
  world held when it was taken, in the persistent and in the copying build.
\<close>

theorem frozen_snapshot_isolated:
  assumes "world_wf w" "freeze_snapshot persistent w = (s, w1)" "\<forall>p\<in>set ps. keeps_id p"
  shows "frozen_find (world_run persistent w1 ps) s = world_find w"
proof -
  obtain f where f: "s = Some f" "isolated w1 f"
    using freeze_isolated [OF assms(1,2)] by blast
  have "world_wf w1" using freeze_refines [OF assms(1,2)] by simp
  from world_run_keeps [OF this f(2) assms(3)] freeze_reads_world [OF assms(1,2)] f(1)
  show ?thesis by (simp add: keeps_def)
qed

theorem frozen_snapshot_isolated_witness:
  "frozen_find (world_run True (snd (freeze_snapshot True example_shared))
     [OpSetProperty (WorldId 7) ''hp'' (VInt64 5), OpErase (WorldId 7)])
     (fst (freeze_snapshot True example_shared)) = world_find example_shared"
  by (rule frozen_snapshot_isolated [OF world_wf_example_shared]) (auto simp: keeps_id_def)

end
