(* ===== verification/Simulation.thy ===== *)
theory Simulation
  imports World_Refinement
begin

text \<open>
  \<^verbatim>\<open>libs/simulation\<close>: the tick clock and the command buffer through which every external change
  reaches the world. The lemmas show that no command is lost, duplicated or reordered: over any
  run, what was executed and what is still pending is exactly what was accepted. A second write
  with the same expected object version is always rejected. A snapshot restores the buffer.
\<close>

section \<open>Commands\<close>

datatype CommandPayload =
    CreateObjectCommand WorldObject
  | DestroyObjectCommand WorldId
  | SetPropertyCommand WorldId string Value

record CommandMeta =
  cm_ingress_sequence :: u64
  cm_expected_object_version :: u64
  cm_durable_lsn :: u64

definition default_meta :: CommandMeta where
  "default_meta = \<lparr>cm_ingress_sequence = 0, cm_expected_object_version = 0, cm_durable_lsn = 0\<rparr>"

datatype CommandRejectReason = CR_none | CR_missing_object | CR_version_conflict | CR_apply_failed

record CommandOutcome =
  co_sequence :: u64
  co_ingress_sequence :: u64
  co_applied :: bool
  co_reason :: CommandRejectReason
  co_durable_lsn :: u64

record Command =
  cmd_sequence :: u64
  cmd_target_tick :: u64
  cmd_payload :: CommandPayload
  cmd_meta :: CommandMeta

record ApplyReport =
  ar_applied :: nat
  ar_rejected :: nat
  ar_deferred :: nat
  ar_outcomes :: "CommandOutcome list"

definition kFirstCommandSequence :: u64 where
  "kFirstCommandSequence = 1"

record CommandBufferSnapshot =
  cbs_next_sequence :: u64
  cbs_included_durable_lsn :: u64
  cbs_pending :: "Command list"

record CommandBuffer =
  cb_next_sequence :: u64
  cb_included_durable_lsn :: u64
  cb_pending :: "Command list"

definition command_buffer :: "u64 \<Rightarrow> CommandBuffer" where
  "command_buffer first_sequence =
     \<lparr>cb_next_sequence = first_sequence, cb_included_durable_lsn = 0, cb_pending = []\<rparr>"

section \<open>Operations of the command buffer\<close>

definition enqueue ::
  "CommandBuffer \<Rightarrow> u64 \<Rightarrow> CommandPayload \<Rightarrow> CommandMeta \<Rightarrow> u64 \<times> CommandBuffer" where
  "enqueue b target_tick payload meta =
     (if cb_next_sequence b = 0 then (0, b)
      else let sequence = cb_next_sequence b in
        (sequence,
         \<lparr>cb_next_sequence = cb_next_sequence b + 1,
          cb_included_durable_lsn = max (cb_included_durable_lsn b) (cm_durable_lsn meta),
          cb_pending = cb_pending b @
            [\<lparr>cmd_sequence = sequence, cmd_target_tick = target_tick,
              cmd_payload = payload, cmd_meta = meta\<rparr>]\<rparr>))"

definition enqueue_plain :: "CommandBuffer \<Rightarrow> u64 \<Rightarrow> CommandPayload \<Rightarrow> u64 \<times> CommandBuffer" where
  "enqueue_plain b target_tick payload = enqueue b target_tick payload default_meta"

text \<open>The optimistic precondition, checked when the command runs.\<close>

definition precondition :: "World \<Rightarrow> Command \<Rightarrow> CommandRejectReason" where
  "precondition w c =
     (case cmd_payload c of
        SetPropertyCommand i _ _ \<Rightarrow>
          if cm_expected_object_version (cmd_meta c) \<noteq> 0 then
            (case world_find w i of
               None \<Rightarrow> CR_missing_object
             | Some obj \<Rightarrow>
                 if wo_version obj \<noteq> cm_expected_object_version (cmd_meta c)
                 then CR_version_conflict else CR_none)
          else CR_none
      | _ \<Rightarrow> CR_none)"

text \<open>\<open>std::visit\<close> over the payload.\<close>

fun visit_payload :: "World \<Rightarrow> CommandPayload \<Rightarrow> bool \<times> World" where
  "visit_payload w (CreateObjectCommand obj) = world_insert w obj"
| "visit_payload w (DestroyObjectCommand i) = world_erase w i"
| "visit_payload w (SetPropertyCommand i key v) = set_property w i key v"

definition execute_command :: "World \<Rightarrow> Command \<Rightarrow> CommandOutcome \<times> World" where
  "execute_command w c =
     (let reason = precondition w c;
          (applied, w', reason') =
            (if reason = CR_none then
               (let (applied, w') = visit_payload w (cmd_payload c)
                in (applied, w', if applied then reason else CR_apply_failed))
             else (False, w, reason))
      in (\<lparr>co_sequence = cmd_sequence c, co_ingress_sequence = cm_ingress_sequence (cmd_meta c),
           co_applied = applied, co_reason = reason', co_durable_lsn = cm_durable_lsn (cmd_meta c)\<rparr>,
          w'))"

fun apply_loop ::
  "u64 \<Rightarrow> World \<Rightarrow> ApplyReport \<Rightarrow> Command list \<Rightarrow> Command list \<Rightarrow>
     ApplyReport \<times> Command list \<times> World" where
  "apply_loop tick w report deferred [] = (report, deferred, w)"
| "apply_loop tick w report deferred (c # cs) =
     (if cmd_target_tick c > tick then apply_loop tick w report (deferred @ [c]) cs
      else let (outcome, w') = execute_command w c;
               report' = (if co_applied outcome
                          then report\<lparr>ar_applied := ar_applied report + 1\<rparr>
                          else report\<lparr>ar_rejected := ar_rejected report + 1\<rparr>)
           in apply_loop tick w' (report'\<lparr>ar_outcomes := ar_outcomes report' @ [outcome]\<rparr>)
                deferred cs)"

definition empty_report :: ApplyReport where
  "empty_report = \<lparr>ar_applied = 0, ar_rejected = 0, ar_deferred = 0, ar_outcomes = []\<rparr>"

definition apply_commands ::
  "CommandBuffer \<Rightarrow> World \<Rightarrow> u64 \<Rightarrow> ApplyReport \<times> CommandBuffer \<times> World" where
  "apply_commands b w tick =
     (let (report, deferred, w') =
        apply_loop tick w empty_report [] (stable_sort (lt_key cmd_sequence) (cb_pending b))
      in (report\<lparr>ar_deferred := length deferred\<rparr>, b\<lparr>cb_pending := deferred\<rparr>, w'))"

definition cb_size :: "CommandBuffer \<Rightarrow> nat" where
  "cb_size b = length (cb_pending b)"

definition cb_snapshot :: "CommandBuffer \<Rightarrow> CommandBufferSnapshot" where
  "cb_snapshot b =
     \<lparr>cbs_next_sequence = cb_next_sequence b,
      cbs_included_durable_lsn = cb_included_durable_lsn b, cbs_pending = cb_pending b\<rparr>"

text \<open>The loop of \<open>restore\<close> over the sorted commands.\<close>

fun restorable :: "u64 \<Rightarrow> u64 \<Rightarrow> Command list \<Rightarrow> bool" where
  "restorable next_sequence previous [] = True"
| "restorable next_sequence previous (c # cs) =
     (if cmd_sequence c = 0 \<or> cmd_sequence c \<ge> next_sequence \<or> cmd_sequence c = previous
      then False else restorable next_sequence (cmd_sequence c) cs)"

definition cb_restore :: "CommandBuffer \<Rightarrow> CommandBufferSnapshot \<Rightarrow> bool \<times> CommandBuffer" where
  "cb_restore b s =
     (if cbs_next_sequence s = 0 then (False, b)
      else let pending = stable_sort (lt_key cmd_sequence) (cbs_pending s) in
        if restorable (cbs_next_sequence s) 0 pending then
          (True, \<lparr>cb_next_sequence = cbs_next_sequence s,
                  cb_included_durable_lsn = cbs_included_durable_lsn s, cb_pending = pending\<rparr>)
        else (False, b))"

section \<open>The tick clock\<close>

record TickClock =
  dt_microseconds :: i64
  clock_tick :: i64

definition tick_clock :: "i64 \<Rightarrow> TickClock" where
  "tick_clock dt = \<lparr>dt_microseconds = dt, clock_tick = 0\<rparr>"

definition simulation_time_microseconds :: "TickClock \<Rightarrow> i64" where
  "simulation_time_microseconds c = clock_tick c * dt_microseconds c"

definition clock_advance :: "TickClock \<Rightarrow> TickClock" where
  "clock_advance c = c\<lparr>clock_tick := clock_tick c + 1\<rparr>"

definition restore_tick :: "TickClock \<Rightarrow> i64 \<Rightarrow> TickClock" where
  "restore_tick c t = c\<lparr>clock_tick := t\<rparr>"


section \<open>What \<open>apply\<close> does\<close>

fun run_commands :: "World \<Rightarrow> Command list \<Rightarrow> CommandOutcome list \<times> World" where
  "run_commands w [] = ([], w)"
| "run_commands w (c # cs) =
     (let (outcome, w1) = execute_command w c; (outcomes, w2) = run_commands w1 cs
      in (outcome # outcomes, w2))"

definition is_due :: "u64 \<Rightarrow> Command \<Rightarrow> bool" where
  "is_due tick c \<longleftrightarrow> \<not> cmd_target_tick c > tick"

lemma execute_command_outcome [simp]:
  "co_sequence (fst (execute_command w c)) = cmd_sequence c"
  "co_ingress_sequence (fst (execute_command w c)) = cm_ingress_sequence (cmd_meta c)"
  "co_durable_lsn (fst (execute_command w c)) = cm_durable_lsn (cmd_meta c)"
  by (auto simp: execute_command_def Let_def case_prod_beta)

lemma map_co_sequence_run_commands [simp]:
  "map co_sequence (fst (run_commands w cs)) = map cmd_sequence cs"
  by (induction cs arbitrary: w) (simp_all add: Let_def case_prod_beta)

lemma apply_loop_eq:
  "apply_loop tick w report deferred cs =
     (let (outcomes, w') = run_commands w (filter (is_due tick) cs)
      in (report\<lparr>ar_applied := ar_applied report + length (filter co_applied outcomes),
                 ar_rejected := ar_rejected report + length (filter (\<lambda>o'. \<not> co_applied o') outcomes),
                 ar_outcomes := ar_outcomes report @ outcomes\<rparr>,
          deferred @ filter (\<lambda>c. \<not> is_due tick c) cs, w'))"
proof (induction tick w report deferred cs rule: apply_loop.induct)
  case (1 tick w report deferred)
  then show ?case by simp
next
  case (2 tick w report deferred c cs)
  then show ?case
    by (cases "cmd_target_tick c > tick")
       (simp_all add: is_due_def Let_def case_prod_beta)
qed

lemma apply_commands_eq:
  "apply_commands b w tick =
     (let cs = stable_sort (lt_key cmd_sequence) (cb_pending b);
          (outcomes, w') = run_commands w (filter (is_due tick) cs);
          later = filter (\<lambda>c. \<not> is_due tick c) cs
      in (\<lparr>ar_applied = length (filter co_applied outcomes),
           ar_rejected = length (filter (\<lambda>o'. \<not> co_applied o') outcomes),
           ar_deferred = length later, ar_outcomes = outcomes\<rparr>,
          b\<lparr>cb_pending := later\<rparr>, w'))"
  by (simp add: apply_commands_def apply_loop_eq empty_report_def Let_def case_prod_beta)

text \<open>The buffer's invariant: live sequence numbers are valid, unique and already handed out.\<close>

definition cb_wf :: "CommandBuffer \<Rightarrow> bool" where
  "cb_wf b \<longleftrightarrow>
     distinct (map cmd_sequence (cb_pending b)) \<and>
     (\<forall>c\<in>set (cb_pending b). cmd_sequence c \<noteq> 0 \<and> cmd_sequence c \<le> cb_next_sequence b - 1)"

lemma strictly_sorted_pending:
  "distinct (map cmd_sequence cs) \<Longrightarrow>
     sorted_wrt (<) (map cmd_sequence (stable_sort (lt_key cmd_sequence) cs))"
proof -
  assume "distinct (map cmd_sequence cs)"
  then have "distinct (map cmd_sequence (stable_sort (lt_key cmd_sequence) cs))"
    by (metis mset_eq_imp_distinct_iff mset_map mset_stable_sort)
  with sorted_stable_sort_key show ?thesis by (rule strict_sorted_if_distinct)
qed

lemma sorted_wrt_map_filter: "sorted_wrt R (map f xs) \<Longrightarrow> sorted_wrt R (map f (filter P xs))"
  by (induction xs) auto


section \<open>Conservation of commands\<close>

datatype CbOp = CbEnqueue u64 CommandPayload CommandMeta | CbApply u64

text \<open>The state of a run with its history: accepted sequence numbers and reported outcomes.\<close>

record CbRun =
  run_buffer :: CommandBuffer
  run_world :: World
  run_accepted :: "u64 list"
  run_executed :: "CommandOutcome list"

fun cb_step :: "CbRun \<Rightarrow> CbOp \<Rightarrow> CbRun" where
  "cb_step s (CbEnqueue t p m) =
     (let (sequence, b') = enqueue (run_buffer s) t p m
      in s\<lparr>run_buffer := b',
           run_accepted := run_accepted s @ (if sequence = 0 then [] else [sequence])\<rparr>)"
| "cb_step s (CbApply t) =
     (let (report, b', w') = apply_commands (run_buffer s) (run_world s) t
      in s\<lparr>run_buffer := b', run_world := w',
           run_executed := run_executed s @ ar_outcomes report\<rparr>)"

definition start_run :: "u64 \<Rightarrow> World \<Rightarrow> CbRun" where
  "start_run first_sequence w =
     \<lparr>run_buffer = command_buffer first_sequence, run_world = w,
      run_accepted = [], run_executed = []\<rparr>"

definition run_inv :: "CbRun \<Rightarrow> bool" where
  "run_inv s \<longleftrightarrow>
     sorted_wrt (<) (run_accepted s) \<and>
     (\<forall>n\<in>set (run_accepted s). n \<noteq> 0 \<and> n \<le> cb_next_sequence (run_buffer s) - 1) \<and>
     mset (run_accepted s) =
       mset (map co_sequence (run_executed s)) + mset (map cmd_sequence (cb_pending (run_buffer s)))"

lemma mset_map_stable_sort: "mset (map f (stable_sort lt xs)) = mset (map f xs)"
  by simp

lemma mset_map_split:
  "mset (map f (filter P xs)) + mset (map f (filter (\<lambda>x. \<not> P x) xs)) = mset (map f xs)"
  by (induction xs) auto

lemma run_inv_step [wf_intros]: "run_inv s \<Longrightarrow> run_inv (cb_step s p)"
proof (cases p)
  case (CbEnqueue t q m)
  assume inv: "run_inv s"
  show ?thesis
  proof (cases "cb_next_sequence (run_buffer s) = 0")
    case True
    with inv CbEnqueue show ?thesis by (simp add: enqueue_def run_inv_def)
  next
    case False
    note le_dec_iff [OF this]
    with inv CbEnqueue False show ?thesis
      by (auto simp: enqueue_def run_inv_def Let_def sorted_wrt_append)
  qed
next
  case (CbApply t)
  assume inv: "run_inv s"
  define cs where "cs = stable_sort (lt_key cmd_sequence) (cb_pending (run_buffer s))"
  have "mset (map cmd_sequence (filter (is_due t) cs)) +
      mset (map cmd_sequence (filter (\<lambda>c. \<not> is_due t c) cs)) =
      mset (map cmd_sequence (cb_pending (run_buffer s)))"
    unfolding mset_map_split by (simp add: cs_def)
  with inv CbApply show ?thesis
    by (simp add: apply_commands_eq run_inv_def Let_def case_prod_beta cs_def [symmetric]
          del: mset_map)
qed

lemma run_inv_steps: "run_inv s \<Longrightarrow> run_inv (foldl cb_step s ps)"
  by (induction ps arbitrary: s) (auto intro: run_inv_step)

lemma run_inv_start: "run_inv (start_run n w)"
  by (simp add: run_inv_def start_run_def command_buffer_def)

text \<open>
  C12: over any sequence of \<open>enqueue\<close> and \<open>apply\<close> calls on a new buffer, the accepted sequence
  numbers are strictly increasing (none is handed out twice, also where the counter is
  exhausted), and every accepted command is either still pending or was executed exactly once.
\<close>

theorem commands_conserved:
  "let s = foldl cb_step (start_run first_sequence w) ps in
     sorted_wrt (<) (run_accepted s) \<and>
     mset (run_accepted s) =
       mset (map co_sequence (run_executed s)) +
       mset (map cmd_sequence (cb_pending (run_buffer s))) \<and>
     distinct (map co_sequence (run_executed s))"
proof -
  define s where "s = foldl cb_step (start_run first_sequence w) ps"
  have inv: "run_inv s"
    unfolding s_def by (rule run_inv_steps [OF run_inv_start])
  then have acc: "mset (run_accepted s) = mset (map co_sequence (run_executed s)) +
       mset (map cmd_sequence (cb_pending (run_buffer s)))"
    by (simp add: run_inv_def)
  have "distinct (run_accepted s)"
    using inv by (simp add: run_inv_def strict_sorted_iff)
  then have "distinct (map co_sequence (run_executed s) @ map cmd_sequence (cb_pending (run_buffer s)))"
    using acc by (metis mset_eq_imp_distinct_iff mset_append)
  with inv acc show ?thesis
    unfolding s_def [symmetric] Let_def by (simp add: run_inv_def)
qed


section \<open>Snapshots of the buffer\<close>

lemma cb_wf_enqueue [wf_intros]: "cb_wf b \<Longrightarrow> cb_wf (snd (enqueue b t p m))"
proof (cases "cb_next_sequence b = 0")
  case False
  assume "cb_wf b"
  with False le_dec_iff [OF False] show ?thesis
    by (auto simp: cb_wf_def enqueue_def Let_def)
qed (simp add: enqueue_def)

lemma cb_wf_apply [wf_intros]:
  assumes "cb_wf b"
  shows "cb_wf (fst (snd (apply_commands b w t)))"
proof -
  define cs where "cs = stable_sort (lt_key cmd_sequence) (cb_pending b)"
  have "distinct (map cmd_sequence cs)"
    using assms by (simp add: cb_wf_def cs_def strictly_sorted_pending strict_sorted_iff [THEN iffD1])
  moreover have "set cs = set (cb_pending b)" by (simp add: cs_def)
  ultimately show ?thesis
    using assms
    by (auto simp: cb_wf_def apply_commands_eq Let_def case_prod_beta cs_def [symmetric]
          intro!: distinct_map_filter)
qed

lemma restorable_eq: "restorable limit previous cs = ascending_below cmd_sequence limit previous cs"
  by (induction cs arbitrary: previous) simp_all

text \<open>The snapshots that \<open>restore\<close> accepts.\<close>

definition snapshot_valid :: "CommandBufferSnapshot \<Rightarrow> bool" where
  "snapshot_valid s \<longleftrightarrow>
     cbs_next_sequence s \<noteq> 0 \<and> distinct (map cmd_sequence (cbs_pending s)) \<and>
     (\<forall>c\<in>set (cbs_pending s). cmd_sequence c \<noteq> 0 \<and> cmd_sequence c < cbs_next_sequence s)"

lemma cb_restore_iff: "fst (cb_restore b s) \<longleftrightarrow> snapshot_valid s"
  by (auto simp: cb_restore_def snapshot_valid_def Let_def restorable_eq ascending_below_sorted)

lemma cb_restore_wf [wf_intros]:
  assumes "cb_wf b"
  shows "cb_wf (snd (cb_restore b s))"
proof (cases "fst (cb_restore b s)")
  case False
  with assms show ?thesis by (auto simp: cb_restore_def Let_def split: if_splits)
next
  case True
  then have v: "snapshot_valid s" by (simp add: cb_restore_iff)
  then have ne: "cbs_next_sequence s \<noteq> 0" by (simp add: snapshot_valid_def)
  from v le_dec_iff [OF ne] True show ?thesis
    by (auto simp: cb_wf_def snapshot_valid_def cb_restore_def Let_def strict_sorted_iff
          dest: strictly_sorted_pending split: if_splits)
qed

text \<open>
  \<open>restore\<close> accepts exactly the valid snapshots and leaves the buffer alone otherwise. A
  snapshot taken from a live buffer whose sequence space is not exhausted is accepted, and the
  restored buffer is indistinguishable: the same next sequence number, the same durable position,
  and at every tick the same report, the same remaining buffer and the same world.
\<close>

lemma cb_restore_snapshot:
  "fst (cb_restore b0 s) = snapshot_valid s \<and>
   (\<not> snapshot_valid s \<longrightarrow> snd (cb_restore b0 s) = b0) \<and>
   (cb_wf b \<and> cb_next_sequence b \<noteq> 0 \<longrightarrow>
     (\<exists>b'. cb_restore b0 (cb_snapshot b) = (True, b') \<and>
       cb_next_sequence b' = cb_next_sequence b \<and>
       cb_included_durable_lsn b' = cb_included_durable_lsn b \<and>
       (\<forall>w tick. apply_commands b' w tick = apply_commands b w tick)))"
proof (intro conjI impI)
  show "fst (cb_restore b0 s) = snapshot_valid s" by (rule cb_restore_iff)
  show "snd (cb_restore b0 s) = b0" if "\<not> snapshot_valid s"
    using that cb_restore_iff [of b0 s] by (auto simp: cb_restore_def Let_def split: if_splits)
  assume b: "cb_wf b \<and> cb_next_sequence b \<noteq> 0"
  with le_dec_iff [of "cb_next_sequence b"] have "snapshot_valid (cb_snapshot b)"
    by (auto simp: snapshot_valid_def cb_snapshot_def cb_wf_def)
  then have "fst (cb_restore b0 (cb_snapshot b))" by (simp add: cb_restore_iff)
  then have "cb_restore b0 (cb_snapshot b) =
      (True, b\<lparr>cb_pending := stable_sort (lt_key cmd_sequence) (cb_pending b)\<rparr>)"
    by (auto simp: cb_restore_def cb_snapshot_def Let_def split: if_splits)
  moreover have "stable_sort (lt_key cmd_sequence)
      (stable_sort (lt_key cmd_sequence) (cb_pending b)) =
      stable_sort (lt_key cmd_sequence) (cb_pending b)"
    by (rule stable_sort_key_sorted) (rule sorted_stable_sort_key)
  ultimately show "\<exists>b'. cb_restore b0 (cb_snapshot b) = (True, b') \<and>
       cb_next_sequence b' = cb_next_sequence b \<and>
       cb_included_durable_lsn b' = cb_included_durable_lsn b \<and>
       (\<forall>w tick. apply_commands b' w tick = apply_commands b w tick)"
    by (simp add: apply_commands_eq Let_def case_prod_beta)
qed

section \<open>Optimistic concurrency\<close>

text \<open>
  A store whose keys carry a version. A step names a key and a nonzero expected version; it takes
  effect only at that version, and then increments it.
\<close>

fun run_steps :: "('w \<Rightarrow> 'c \<Rightarrow> bool \<times> 'w) \<Rightarrow> 'w \<Rightarrow> 'c list \<Rightarrow> bool list \<times> 'w" where
  "run_steps step w [] = ([], w)"
| "run_steps step w (c # cs) =
     (let (ok, w1) = step w c; (oks, w2) = run_steps step w1 cs in (ok # oks, w2))"

locale versioned_store =
  fixes wf :: "'w \<Rightarrow> bool" and version :: "'w \<Rightarrow> 'k \<Rightarrow> u64 option"
    and step :: "'w \<Rightarrow> 'c \<Rightarrow> bool \<times> 'w" and key :: "'c \<Rightarrow> 'k" and expected :: "'c \<Rightarrow> u64"
  assumes wf_step: "wf w \<Longrightarrow> wf (snd (step w c))"
    and step_expected:
      "wf w \<Longrightarrow> fst (step w c) \<Longrightarrow> expected c \<noteq> 0 \<Longrightarrow> version w (key c) = Some (expected c)"
    and step_version:
      "wf w \<Longrightarrow> version (snd (step w c)) k =
         (if fst (step w c) \<and> k = key c then map_option (\<lambda>v. v + 1) (version w k)
          else version w k)"
begin

text \<open>The version counts the steps that took effect on the key.\<close>

lemma version_counts:
  "wf w \<Longrightarrow> version w k = Some v \<Longrightarrow>
     \<exists>n \<le> length cs. version (snd (run_steps step w cs)) k = Some (v + of_nat n)"
proof (induction cs arbitrary: w v)
  case Nil
  then show ?case by simp
next
  case (Cons c cs)
  define w1 where "w1 = snd (step w c)"
  define m :: nat where "m = (if fst (step w c) \<and> k = key c then 1 else 0)"
  have "wf w1" using Cons.prems(1) by (simp add: w1_def wf_step)
  moreover have "version w1 k = Some (v + of_nat m)"
    using Cons.prems by (cases "fst (step w c) \<and> k = key c") (auto simp: w1_def m_def step_version)
  ultimately obtain n where "n \<le> length cs"
    "version (snd (run_steps step w1 cs)) k = Some (v + of_nat m + of_nat n)"
    using Cons.IH by blast
  moreover have "m \<le> 1" by (simp add: m_def)
  ultimately show ?case
    by (intro exI [of _ "m + n"]) (simp add: w1_def Let_def case_prod_beta add.assoc)
qed

lemma wf_run: "wf w \<Longrightarrow> wf (snd (run_steps step w cs))"
  by (induction cs arbitrary: w) (auto simp: Let_def case_prod_beta wf_step)

lemma first_writer_wins:
  assumes wf: "wf w" and c: "fst (step w c)"
    and same: "key d = key c" "expected d = expected c" "expected c \<noteq> 0"
    and len: "length cs < 2 ^ 64 - 1"
  shows "\<not> fst (step (snd (run_steps step (snd (step w c)) cs)) d)"
proof
  let ?w1 = "snd (step w c)" let ?w2 = "snd (run_steps step ?w1 cs)"
  assume d: "fst (step ?w2 d)"
  have v: "version w (key c) = Some (expected c)"
    by (rule step_expected [OF wf c same(3)])
  have wf1: "wf ?w1" using wf by (rule wf_step)
  have v1: "version ?w1 (key c) = Some (expected c + 1)"
    using wf c v by (simp add: step_version)
  obtain n where n: "n \<le> length cs" "version ?w2 (key c) = Some (expected c + 1 + of_nat n)"
    using version_counts [OF wf1 v1] by blast
  have "version ?w2 (key d) = Some (expected d)"
    by (rule step_expected [OF wf_run [OF wf1] d]) (use same in simp)
  with n same have "of_nat (Suc n) = (0 :: u64)"
    by (simp add: algebra_simps)
  moreover have "Suc n < 2 ^ 64" using n len by simp
  ultimately show False
    using of_nat_u64_inject [of "Suc n" 0] by simp
qed

end

text \<open>Running a \<open>SetPropertyCommand\<close> on a well-formed world is such a step.\<close>

record PropertyWrite =
  pw_command :: Command
  pw_object :: WorldId
  pw_key :: string
  pw_value :: Value

definition write_command :: "PropertyWrite \<Rightarrow> Command" where
  "write_command p =
     (pw_command p)\<lparr>cmd_payload := SetPropertyCommand (pw_object p) (pw_key p) (pw_value p)\<rparr>"

definition write_step :: "World \<Rightarrow> PropertyWrite \<Rightarrow> bool \<times> World" where
  "write_step w p = (let (outcome, w') = execute_command w (write_command p)
                     in (co_applied outcome, w'))"

definition write_expected :: "PropertyWrite \<Rightarrow> u64" where
  "write_expected p = cm_expected_object_version (cmd_meta (pw_command p))"

definition object_version :: "World \<Rightarrow> WorldId \<Rightarrow> u64 option" where
  "object_version w i = map_option wo_version (world_find w i)"

lemma set_property_version:
  assumes "world_wf w" "set_property w i k v = (ok, w')"
  shows "world_wf w' \<and> object_version w' =
    (if ok then (object_version w)(i := map_option (\<lambda>n. n + 1) (object_version w i))
     else object_version w)"
proof -
  have R: "world_wf w'" "(ok, world_abs w') = spec_op (world_abs w) (OpSetProperty i k v)"
    using set_property_refines [OF assms] by auto
  have abs: "aw_objects (world_abs w'') = world_find w''" for w''
    by (simp add: world_abs_def)
  have "if ok then \<exists>obj obj'. world_find w i = Some obj \<and>
          world_find w' = (world_find w)(i \<mapsto> obj') \<and> wo_version obj' = wo_version obj + 1
        else world_find w' = world_find w"
  proof (cases "world_find w i")
    case None
    with R(2) abs show ?thesis by (auto simp: world_abs_def)
  next
    case (Some obj)
    with R(2) abs show ?thesis by (cases "wo_lifecycle obj = LS_retired") (auto simp: world_abs_def)
  qed
  with R(1) show ?thesis
    by (cases ok) (auto simp: object_version_def)
qed

interpretation property_writes:
  versioned_store world_wf object_version write_step pw_object write_expected
proof
  fix w :: World and p :: PropertyWrite
  assume wf: "world_wf w"
  obtain ok w1 where set: "set_property w (pw_object p) (pw_key p) (pw_value p) = (ok, w1)"
    by fastforce
  note V = set_property_version [OF wf set]
  show "world_wf (snd (write_step w p))"
    using wf V set by (auto simp: write_step_def execute_command_def write_command_def Let_def)
  show "object_version w (pw_object p) = Some (write_expected p)"
    if "fst (write_step w p)" "write_expected p \<noteq> 0"
    using that
    by (auto simp: write_step_def execute_command_def write_command_def Let_def precondition_def
          write_expected_def object_version_def split: option.splits if_splits)
  show "object_version (snd (write_step w p)) k =
      (if fst (write_step w p) \<and> k = pw_object p
       then map_option (\<lambda>v. v + 1) (object_version w k) else object_version w k)" for k
    using V set by (auto simp: write_step_def execute_command_def write_command_def Let_def)
qed



definition example_write :: PropertyWrite where
  "example_write =
     \<lparr>pw_command = \<lparr>cmd_sequence = 1, cmd_target_tick = 0,
        cmd_payload = DestroyObjectCommand (WorldId 7),
        cmd_meta = default_meta\<lparr>cm_expected_object_version := 1\<rparr>\<rparr>,
      pw_object = WorldId 7, pw_key = ''hp'', pw_value = VInt64 5\<rparr>"


definition example_buffer :: CommandBuffer where
  "example_buffer =
     \<lparr>cb_next_sequence = 4, cb_included_durable_lsn = 9, cb_pending =
       [\<lparr>cmd_sequence = 3, cmd_target_tick = 1, cmd_payload = DestroyObjectCommand (WorldId 7),
         cmd_meta = default_meta\<rparr>,
        \<lparr>cmd_sequence = 1, cmd_target_tick = 0,
         cmd_payload = CreateObjectCommand (example_object 7), cmd_meta = default_meta\<rparr>,
        \<lparr>cmd_sequence = 2, cmd_target_tick = 8, cmd_payload = DestroyObjectCommand (WorldId 9),
         cmd_meta = default_meta\<rparr>]\<rparr>"

lemma cb_wf_example_buffer: "cb_wf example_buffer"
  by (simp add: cb_wf_def example_buffer_def)


end
