(* ===== verification/Codes.thy ===== *)
theory Codes
  imports Schema
begin

text \<open>
  Byte codes shared by the hashes and the record formats: the bytes of integers, strings, values and
  property bags. A code is uniquely decodable in front of any continuation (\<open>prefix_code\<close>); the
  locale carries this property from elements to counted sequences.
\<close>

section \<open>Prefix codes\<close>

locale prefix_code =
  fixes valid :: "'a \<Rightarrow> bool" and enc :: "'a \<Rightarrow> bytes"
  assumes unique: "valid x \<Longrightarrow> valid y \<Longrightarrow> enc x @ r = enc y @ s \<Longrightarrow> x = y \<and> r = s"
begin

lemma inject: "valid x \<Longrightarrow> valid y \<Longrightarrow> enc x = enc y \<longleftrightarrow> x = y"
  using unique [of x y "[]" "[]"] by auto

lemma concat_unique:
  "list_all valid xs \<Longrightarrow> list_all valid ys \<Longrightarrow> length xs = length ys \<Longrightarrow>
     concat (map enc xs) @ r = concat (map enc ys) @ s \<Longrightarrow> xs = ys \<and> r = s"
proof (induction xs arbitrary: ys)
  case Nil
  then show ?case by simp
next
  case (Cons x xs)
  then obtain y zs where ys: "ys = y # zs" by (cases ys) auto
  with Cons.prems have "x = y \<and> concat (map enc xs) @ r = concat (map enc zs) @ s"
    by (intro unique) simp_all
  with Cons ys show ?case by auto
qed

end

text \<open>A 64-bit count followed by the elements, as the hashes write their sequences.\<close>

definition counted :: "('a \<Rightarrow> bytes) \<Rightarrow> 'a list \<Rightarrow> bytes" where
  "counted enc xs = le_bytes 8 (of_nat (length xs)) @ concat (map enc xs)"

definition counted_valid :: "('a \<Rightarrow> bool) \<Rightarrow> 'a list \<Rightarrow> bool" where
  "counted_valid valid xs \<longleftrightarrow> list_all valid xs \<and> length xs < 2 ^ 64"

context prefix_code
begin

lemma counted_unique:
  assumes "counted_valid valid xs" "counted_valid valid ys"
    and eq: "counted enc xs @ r = counted enc ys @ s"
  shows "xs = ys \<and> r = s"
proof (rule concat_unique)
  show "list_all valid xs" "list_all valid ys"
    using assms by (simp_all add: counted_valid_def)
  from eq have "le_bytes 8 (of_nat (length xs) :: u64) = le_bytes 8 (of_nat (length ys))"
    and rest: "concat (map enc xs) @ r = concat (map enc ys) @ s"
    by (simp_all add: counted_def)
  then have "(of_nat (length xs) :: u64) = of_nat (length ys)"
    by (simp only: le_bytes_64_inject)
  then show "length xs = length ys"
    using assms by (simp add: counted_valid_def of_nat_u64_inject)
  show "concat (map enc xs) @ r = concat (map enc ys) @ s" by (rule rest)
qed

end

text \<open>Two codes in a row, of the fields of one record.\<close>

lemma fixed_prefix: "length a = length b \<Longrightarrow> a @ r = b @ s \<longleftrightarrow> a = b \<and> r = s"
  by auto

section \<open>Integers, strings, values\<close>

definition char_byte :: "char \<Rightarrow> u8" where
  "char_byte c = word_of_nat (of_char c)"

lemma char_byte_inject [simp]: "char_byte c = char_byte d \<longleftrightarrow> c = d"
proof -
  have "(of_char e :: nat) < 256" for e
    by (cases e) (auto simp: of_char_def split: if_splits intro: order.strict_trans2)
  then have "unat (char_byte e) = of_char e" for e
    by (simp add: char_byte_def unat_of_nat take_bit_nat_eq_self)
  then show ?thesis
    by (metis of_char_eq_iff)
qed


subsection \<open>Combinators\<close>

lemma prefix_codeD: "prefix_code v e \<Longrightarrow> v x \<Longrightarrow> v y \<Longrightarrow> e x @ r = e y @ s \<Longrightarrow> x = y \<and> r = s"
  by (rule prefix_code.unique)

lemma prefix_code_pair:
  assumes "prefix_code v1 e1" "prefix_code v2 e2"
  shows "prefix_code (\<lambda>(x, y). v1 x \<and> v2 y) (\<lambda>(x, y). e1 x @ e2 y)"
proof
  fix p q r s
  assume "case p of (x, y) \<Rightarrow> v1 x \<and> v2 y" "case q of (x, y) \<Rightarrow> v1 x \<and> v2 y"
    "(case p of (x, y) \<Rightarrow> e1 x @ e2 y) @ r = (case q of (x, y) \<Rightarrow> e1 x @ e2 y) @ s"
  then show "p = q \<and> r = s"
    by (cases p; cases q)
       (auto dest: prefix_codeD [OF assms(1)] prefix_codeD [OF assms(2)])
qed

lemma prefix_code_map:
  assumes "prefix_code v e" "\<And>x. w x \<Longrightarrow> v (f x)" "\<And>x y. w x \<Longrightarrow> w y \<Longrightarrow> f x = f y \<Longrightarrow> x = y"
    "\<And>x. w x \<Longrightarrow> e' x = e (f x)"
  shows "prefix_code w e'"
proof
  fix x y r s
  assume w: "w x" "w y" and eq: "e' x @ r = e' y @ s"
  then have "f x = f y \<and> r = s"
    using prefix_codeD [OF assms(1), of "f x" "f y" r s] assms(2,4) by simp
  with assms(3) w show "x = y \<and> r = s" by blast
qed

lemma prefix_code_counted:
  assumes "prefix_code v e"
  shows "prefix_code (counted_valid v) (counted e)"
  using prefix_code.counted_unique [OF assms] by (intro prefix_code.intro)

lemma prefix_code_unit: "prefix_code (\<lambda>_ :: unit. True) (\<lambda>_. [])"
  by unfold_locales auto

interpretation u64_code: prefix_code "\<lambda>_. True" "le_bytes 8"
  by unfold_locales (simp add: fixed_prefix le_bytes_64_inject)

interpretation char_code: prefix_code "\<lambda>_. True" "\<lambda>c. [char_byte c]"
  by unfold_locales auto

abbreviation string_ok :: "string \<Rightarrow> bool" where
  "string_ok \<equiv> counted_valid (\<lambda>_. True)"

definition string_bytes :: "string \<Rightarrow> bytes" where
  "string_bytes = counted (\<lambda>c. [char_byte c])"

interpretation string_code: prefix_code string_ok string_bytes
  unfolding string_bytes_def by (rule prefix_code_counted) (rule char_code.prefix_code_axioms)

text \<open>The payload of a value as 8 bytes or a counted string.\<close>

fun payload_bytes :: "Value \<Rightarrow> bytes" where
  "payload_bytes (VInt64 n) = le_bytes 8 n"
| "payload_bytes (VDouble d) = le_bytes 8 (f64_bits d)"
| "payload_bytes (VBool b) = le_bytes 8 (of_bool b)"
| "payload_bytes (VString t) = string_bytes t"

fun value_ok :: "Value \<Rightarrow> bool" where
  "value_ok (VString t) = string_ok t"
| "value_ok _ = True"

definition value_bytes :: "Value \<Rightarrow> bytes" where
  "value_bytes v = le_bytes 8 (value_index v) @ payload_bytes v"

interpretation value_code: prefix_code value_ok value_bytes
proof
  fix v w r s
  assume ok: "value_ok v" "value_ok w" and eq: "value_bytes v @ r = value_bytes w @ s"
  from eq have ix: "value_index v = value_index w" and rest: "payload_bytes v @ r = payload_bytes w @ s"
    by (auto simp: value_bytes_def fixed_prefix le_bytes_64_inject)
  from ok ix rest show "v = w \<and> r = s"
    by (cases v; cases w)
       (auto simp: fixed_prefix le_bytes_64_inject f64.expand dest: string_code.unique)
qed

definition bag_ok :: "PropertyBag \<Rightarrow> bool" where
  "bag_ok bag \<longleftrightarrow> counted_valid (\<lambda>(name, v). string_ok name \<and> value_ok v) (fm_items bag)"

definition bag_bytes :: "PropertyBag \<Rightarrow> bytes" where
  "bag_bytes bag = counted (\<lambda>(name, v). string_bytes name @ value_bytes v) (fm_items bag)"

interpretation bag_code: prefix_code bag_ok bag_bytes
  by (rule prefix_code_map [OF prefix_code_counted [OF prefix_code_pair [OF
        string_code.prefix_code_axioms value_code.prefix_code_axioms]], where f = fm_items])
     (simp_all add: bag_ok_def bag_bytes_def fm_items_inject)

end
