(* ===== verification/Debug.thy ===== *)
theory Debug
  imports World_Refinement Codes
begin

text \<open>
  \<^verbatim>\<open>libs/debug\<close>: the state hash by which replicas and replays are compared, the inspector and the
  tick controller. The hash is FNV-1a over a byte string; the lemmas show that this byte string
  determines the objects up to their revision, and that two worlds with the same objects (up to
  revision) have the same hash, whatever storage history produced them.
\<close>

section \<open>The hash builder\<close>

type_synonym HashBuilder = u64

definition hash_builder :: HashBuilder where
  "hash_builder = 14695981039346656037"

definition hash_byte :: "HashBuilder \<Rightarrow> u8 \<Rightarrow> HashBuilder" where
  "hash_byte h b = (h XOR ucast b) * 1099511628211"

text \<open>\<open>add(std::uint64_t)\<close>: eight bytes, least significant first.\<close>

fun hash_add_loop :: "nat \<Rightarrow> HashBuilder \<Rightarrow> u64 \<Rightarrow> HashBuilder" where
  "hash_add_loop 0 h v = h"
| "hash_add_loop (Suc n) h v = hash_add_loop n (hash_byte h (ucast v)) (drop_bit 8 v)"

definition hash_add :: "HashBuilder \<Rightarrow> u64 \<Rightarrow> HashBuilder" where
  "hash_add h v = hash_add_loop 8 h v"

definition hash_add_string :: "HashBuilder \<Rightarrow> string \<Rightarrow> HashBuilder" where
  "hash_add_string h s =
     foldl (\<lambda>h c. hash_byte h (char_byte c)) (hash_add h (of_nat (length s))) s"

definition add_property :: "HashBuilder \<Rightarrow> Value \<Rightarrow> HashBuilder" where
  "add_property h v =
     (let h = hash_add h (value_index v) in
      case v of
        VString t \<Rightarrow> hash_add_string h t
      | VDouble d \<Rightarrow> hash_add h (f64_bits d)
      | VInt64 n \<Rightarrow> hash_add h n
      | VBool b \<Rightarrow> hash_add h (of_bool b))"

definition add_properties :: "HashBuilder \<Rightarrow> PropertyBag \<Rightarrow> HashBuilder" where
  "add_properties h properties =
     foldl (\<lambda>h (name, v). add_property (hash_add_string h name) v)
       (hash_add h (of_nat (fm_size properties))) (fm_items properties)"

fun lifecycle_value :: "LifecycleState \<Rightarrow> u64" where
  "lifecycle_value LS_staged = 0"
| "lifecycle_value LS_active = 1"
| "lifecycle_value LS_suspended = 2"
| "lifecycle_value LS_retired = 3"

definition hash_relation :: "HashBuilder \<Rightarrow> Relation \<Rightarrow> HashBuilder" where
  "hash_relation h r =
     add_properties (hash_add_string (hash_add h (wid_value (rel_target r))) (rel_type r))
       (rel_attributes r)"

definition hash_object :: "HashBuilder \<Rightarrow> WorldObject \<Rightarrow> HashBuilder" where
  "hash_object h obj =
     (let h = hash_add h (wid_value (wo_id obj));
          h = hash_add_string h (wo_geometry_ref obj);
          h = hash_add h (f64_bits (ecef_x (wo_position obj)));
          h = hash_add h (f64_bits (ecef_y (wo_position obj)));
          h = hash_add h (f64_bits (ecef_z (wo_position obj)));
          h = hash_add_string h (wo_semantic_type obj);
          h = add_properties h (wo_properties obj);
          h = add_properties h (wo_state obj);
          h = hash_add h (lifecycle_value (wo_lifecycle obj));
          h = hash_add h (wo_version obj);
          h = foldl hash_add_string (hash_add h (of_nat (length (wo_capabilities obj))))
                (wo_capabilities obj)
      in foldl hash_relation (hash_add h (of_nat (length (wo_relations obj)))) (wo_relations obj))"

definition world_state_hash :: "World \<Rightarrow> u64" where
  "world_state_hash w =
     (let objs = world_snapshot w
      in foldl hash_object (hash_add hash_builder (of_nat (length objs))) objs)"

section \<open>The inspector\<close>

record ObjectSummary =
  os_id :: WorldId
  os_semantic_type :: string
  os_lifecycle :: LifecycleState
  os_version :: u64

definition inspector_list :: "World \<Rightarrow> ObjectSummary list" where
  "inspector_list w =
     map (\<lambda>obj. \<lparr>os_id = wo_id obj, os_semantic_type = wo_semantic_type obj,
                 os_lifecycle = wo_lifecycle obj, os_version = wo_version obj\<rparr>)
       (world_snapshot w)"

definition inspect :: "World \<Rightarrow> WorldId \<Rightarrow> WorldObject option" where
  "inspect w i = world_find w i"

section \<open>The tick controller\<close>

record TickController =
  tc_paused :: bool
  tc_pending_steps :: u64
  tc_target_tick :: "u64 option"

definition tick_controller :: TickController where
  "tick_controller = \<lparr>tc_paused = False, tc_pending_steps = 0, tc_target_tick = None\<rparr>"

definition tc_pause :: "TickController \<Rightarrow> TickController" where
  "tc_pause c = c\<lparr>tc_paused := True\<rparr>"

definition tc_resume :: "TickController \<Rightarrow> TickController" where
  "tc_resume c = c\<lparr>tc_paused := False, tc_pending_steps := 0, tc_target_tick := None\<rparr>"

definition tc_step :: "TickController \<Rightarrow> u64 \<Rightarrow> TickController" where
  "tc_step c n = c\<lparr>tc_paused := True, tc_pending_steps := tc_pending_steps c + n\<rparr>"

definition tc_run_to :: "TickController \<Rightarrow> u64 \<Rightarrow> TickController" where
  "tc_run_to c tick = c\<lparr>tc_paused := True, tc_target_tick := Some tick\<rparr>"

definition should_advance :: "TickController \<Rightarrow> u64 \<Rightarrow> bool \<times> TickController" where
  "should_advance c current_tick =
     (if \<not> tc_paused c then (True, c)
      else if tc_pending_steps c \<noteq> 0 then (True, c\<lparr>tc_pending_steps := tc_pending_steps c - 1\<rparr>)
      else case tc_target_tick c of
        Some target \<Rightarrow>
          if current_tick < target then (True, c) else (False, c\<lparr>tc_target_tick := None\<rparr>)
      | None \<Rightarrow> (False, c\<lparr>tc_target_tick := None\<rparr>))"

section \<open>The bytes under the hash\<close>

definition relation_bytes :: "Relation \<Rightarrow> bytes" where
  "relation_bytes r =
     le_bytes 8 (wid_value (rel_target r)) @ string_bytes (rel_type r) @ bag_bytes (rel_attributes r)"

definition object_bytes :: "WorldObject \<Rightarrow> bytes" where
  "object_bytes obj =
     le_bytes 8 (wid_value (wo_id obj)) @ string_bytes (wo_geometry_ref obj) @
     le_bytes 8 (f64_bits (ecef_x (wo_position obj))) @
     le_bytes 8 (f64_bits (ecef_y (wo_position obj))) @
     le_bytes 8 (f64_bits (ecef_z (wo_position obj))) @
     string_bytes (wo_semantic_type obj) @ bag_bytes (wo_properties obj) @ bag_bytes (wo_state obj) @
     le_bytes 8 (lifecycle_value (wo_lifecycle obj)) @ le_bytes 8 (wo_version obj) @
     counted string_bytes (wo_capabilities obj) @ counted relation_bytes (wo_relations obj)"

definition world_bytes :: "World \<Rightarrow> bytes" where
  "world_bytes w = counted object_bytes (world_snapshot w)"

definition fnv1a :: "HashBuilder \<Rightarrow> bytes \<Rightarrow> u64" where
  "fnv1a h bs = foldl hash_byte h bs"

lemma fnv1a_append [simp]: "fnv1a h (xs @ ys) = fnv1a (fnv1a h xs) ys"
  by (simp add: fnv1a_def)

lemma hash_add_eq: "hash_add h v = fnv1a h (le_bytes 8 v)"
proof -
  have "hash_add_loop n h v = fnv1a h (le_bytes n v)" for n
    by (induction n h v rule: hash_add_loop.induct) (simp_all add: fnv1a_def)
  then show ?thesis by (simp add: hash_add_def)
qed

lemma foldl_fnv1a:
  "(\<And>h x. x \<in> set xs \<Longrightarrow> f h x = fnv1a h (enc x)) \<Longrightarrow> foldl f h xs = fnv1a h (concat (map enc xs))"
  by (induction xs arbitrary: h) (simp_all add: fnv1a_def)

lemma hash_add_string_eq: "hash_add_string h s = fnv1a h (string_bytes s)"
  by (simp add: hash_add_string_def hash_add_eq string_bytes_def counted_def
        foldl_fnv1a [where enc = "\<lambda>c. [char_byte c]"] fnv1a_def)

lemma add_property_eq: "add_property h v = fnv1a h (value_bytes v)"
  by (cases v) (simp_all add: add_property_def hash_add_eq hash_add_string_eq value_bytes_def Let_def)

lemma add_properties_eq: "add_properties h bag = fnv1a h (bag_bytes bag)"
  unfolding add_properties_def bag_bytes_def counted_def
  by (subst foldl_fnv1a [where enc = "\<lambda>(name, v). string_bytes name @ value_bytes v"])
     (auto simp: hash_add_eq hash_add_string_eq add_property_eq)

lemma hash_relation_eq: "hash_relation h r = fnv1a h (relation_bytes r)"
  by (simp add: hash_relation_def relation_bytes_def hash_add_eq hash_add_string_eq add_properties_eq)

lemma hash_object_eq: "hash_object h obj = fnv1a h (object_bytes obj)"
  by (simp add: hash_object_def object_bytes_def Let_def hash_add_eq hash_add_string_eq
        add_properties_eq counted_def foldl_fnv1a [where enc = string_bytes]
        foldl_fnv1a [where enc = relation_bytes] hash_relation_eq)

lemma world_state_hash_eq: "world_state_hash w = fnv1a hash_builder (world_bytes w)"
  by (simp add: world_state_hash_def world_bytes_def Let_def hash_add_eq counted_def
        foldl_fnv1a [where enc = object_bytes] hash_object_eq)


subsection \<open>The bytes determine the content\<close>

definition strip_revision :: "WorldObject \<Rightarrow> WorldObject" where
  "strip_revision obj = obj\<lparr>wo_revision := 0\<rparr>"

definition relation_ok :: "Relation \<Rightarrow> bool" where
  "relation_ok r \<longleftrightarrow> string_ok (rel_type r) \<and> bag_ok (rel_attributes r)"

text \<open>Every size fits the \<open>std::size_t\<close> that is hashed.\<close>

definition object_ok :: "WorldObject \<Rightarrow> bool" where
  "object_ok obj \<longleftrightarrow>
     string_ok (wo_geometry_ref obj) \<and> string_ok (wo_semantic_type obj) \<and>
     bag_ok (wo_properties obj) \<and> bag_ok (wo_state obj) \<and>
     counted_valid string_ok (wo_capabilities obj) \<and> counted_valid relation_ok (wo_relations obj)"

lemma wid_code: "prefix_code (\<lambda>_. True) (\<lambda>i. le_bytes 8 (wid_value i))"
  by (rule prefix_code_map [OF u64_code.prefix_code_axioms, where f = wid_value])
     (simp_all add: WorldId.expand)

lemma f64_code: "prefix_code (\<lambda>_. True) (\<lambda>d. le_bytes 8 (f64_bits d))"
  by (rule prefix_code_map [OF u64_code.prefix_code_axioms, where f = f64_bits])
     (simp_all add: f64.expand)

lemma lifecycle_code: "prefix_code (\<lambda>_. True) (\<lambda>l. le_bytes 8 (lifecycle_value l))"
proof (rule prefix_code_map [OF u64_code.prefix_code_axioms, where f = lifecycle_value])
  show "lifecycle_value x = lifecycle_value y \<Longrightarrow> x = y" for x y
    by (cases x; cases y) simp_all
qed simp_all

lemma relation_code: "prefix_code relation_ok relation_bytes"
  by (rule prefix_code_map [OF prefix_code_pair [OF wid_code prefix_code_pair [OF
        string_code.prefix_code_axioms bag_code.prefix_code_axioms]],
        where f = "\<lambda>r. (rel_target r, rel_type r, rel_attributes r)"])
     (simp_all add: relation_ok_def relation_bytes_def)

lemmas object_field_codes =
  string_code.prefix_code_axioms bag_code.prefix_code_axioms wid_code f64_code lifecycle_code
  u64_code.prefix_code_axioms prefix_code_counted [OF string_code.prefix_code_axioms]
  prefix_code_counted [OF relation_code]

interpretation object_code:
  prefix_code "\<lambda>obj. object_ok obj \<and> wo_revision obj = 0" object_bytes
  by (rule prefix_code_map [OF prefix_code_pair [OF wid_code
        prefix_code_pair [OF string_code.prefix_code_axioms
        prefix_code_pair [OF f64_code prefix_code_pair [OF f64_code prefix_code_pair [OF f64_code
        prefix_code_pair [OF string_code.prefix_code_axioms
        prefix_code_pair [OF bag_code.prefix_code_axioms
        prefix_code_pair [OF bag_code.prefix_code_axioms
        prefix_code_pair [OF lifecycle_code prefix_code_pair [OF u64_code.prefix_code_axioms
        prefix_code_pair [OF prefix_code_counted [OF string_code.prefix_code_axioms]
          prefix_code_counted [OF relation_code]]]]]]]]]]]],
        where f = "\<lambda>obj. (wo_id obj, wo_geometry_ref obj, ecef_x (wo_position obj),
          ecef_y (wo_position obj), ecef_z (wo_position obj), wo_semantic_type obj,
          wo_properties obj, wo_state obj, wo_lifecycle obj, wo_version obj,
          wo_capabilities obj, wo_relations obj)"])
     (simp_all add: object_ok_def object_bytes_def)

lemma object_bytes_strip [simp]: "object_bytes (strip_revision obj) = object_bytes obj"
  by (simp add: object_bytes_def strip_revision_def)

lemma object_ok_strip [simp]: "object_ok (strip_revision obj) = object_ok obj"
  by (simp add: object_ok_def strip_revision_def)

lemma counted_strip [simp]: "counted object_bytes (map strip_revision xs) = counted object_bytes xs"
  by (simp add: counted_def comp_def)

section \<open>Worlds with the same content\<close>

definition world_content :: "World \<Rightarrow> WorldId \<Rightarrow> WorldObject option" where
  "world_content w i = map_option strip_revision (world_find w i)"

lemma world_snapshot_eq:
  assumes "world_wf w"
  shows "world_snapshot w = map (\<lambda>i. the (world_find w i)) (fm_keys (objects w))"
proof -
  have find: "world_find w i = Some (heap w ! entry_object (the (fmlookup (objects w) i)))"
    and id: "wo_id (the (world_find w i)) = i" if "i |\<in>| fmdom (objects w)" for i
    using assms that
    by (auto simp: world_find_def find_entry_def fmlookup_dom_iff dest: world_wfD(3))
  have list: "map (\<lambda>e. heap w ! entry_object e) (fm_values (objects w)) =
      map (\<lambda>i. the (world_find w i)) (fm_keys (objects w))"
    by (simp add: fm_values_def find)
  have ids: "map wo_id (map (\<lambda>i. the (world_find w i)) (fm_keys (objects w))) = fm_keys (objects w)"
    unfolding map_map comp_def by (rule map_idI) (simp add: id)
  show ?thesis
    unfolding world_snapshot_def list
    by (intro stable_sort_key_sorted) (simp only: ids sorted_fm_keys)
qed

lemma content_dom: "i \<in> set (fm_keys (objects w)) \<longleftrightarrow> world_content w i \<noteq> None"
  by (auto simp: world_content_def world_find_def find_entry_def fmlookup_dom_iff)

lemma fm_keys_content:
  assumes "world_content w1 = world_content w2"
  shows "fm_keys (objects w1) = fm_keys (objects w2)"
proof (rule sorted_distinct_set_unique)
  show "set (fm_keys (objects w1)) = set (fm_keys (objects w2))"
    using assms content_dom by (metis subset_antisym subsetI)
qed simp_all

lemma strip_snapshot:
  assumes "world_wf w"
  shows "map strip_revision (world_snapshot w) = map (\<lambda>i. the (world_content w i)) (fm_keys (objects w))"
  using content_dom [of _ w]
  by (auto simp: world_snapshot_eq [OF assms] world_content_def)

lemma map_of_map_pair:
  "map_of (map (\<lambda>j. (j, f j)) xs) i = (if i \<in> set xs then Some (f i) else None)"
  by (induction xs) auto

lemma strip_snapshot_inject:
  assumes "world_wf w1" "world_wf w2"
  shows "map strip_revision (world_snapshot w1) = map strip_revision (world_snapshot w2) \<longleftrightarrow>
    world_content w1 = world_content w2"
proof
  assume eq: "map strip_revision (world_snapshot w1) = map strip_revision (world_snapshot w2)"
  have content: "world_content w = map_of (map (\<lambda>obj. (wo_id obj, obj))
      (map strip_revision (world_snapshot w)))" if "world_wf w" for w
  proof
    fix i
    have "wo_id (the (world_content w j)) = j" if "j \<in> set (fm_keys (objects w))" for j
      using \<open>world_wf w\<close> that
      by (auto simp: world_content_def world_find_def find_entry_def fmlookup_dom_iff
            strip_revision_def dest: world_wfD(3))
    then have "map (\<lambda>obj. (wo_id obj, obj)) (map strip_revision (world_snapshot w)) =
        map (\<lambda>j. (j, the (world_content w j))) (fm_keys (objects w))"
      by (simp add: strip_snapshot [OF that])
    then have "map_of (map (\<lambda>obj. (wo_id obj, obj)) (map strip_revision (world_snapshot w))) i =
        (if i \<in> set (fm_keys (objects w)) then Some (the (world_content w i)) else None)"
      by (simp only: map_of_map_pair)
    then show "world_content w i = map_of (map (\<lambda>obj. (wo_id obj, obj))
      (map strip_revision (world_snapshot w))) i"
      using content_dom [of i w] by (cases "world_content w i") simp_all
  qed
  show "world_content w1 = world_content w2"
    unfolding content [OF assms(1)] content [OF assms(2)] eq ..
next
  assume "world_content w1 = world_content w2"
  from fm_keys_content [OF this] this
  show "map strip_revision (world_snapshot w1) = map strip_revision (world_snapshot w2)"
    unfolding strip_snapshot [OF assms(1)] strip_snapshot [OF assms(2)] by simp
qed


text \<open>
  C38: the state hash is FNV-1a over a byte string that determines, and is determined by, what the
  world holds under every id up to the revision: two worlds hash the same byte string exactly if
  their contents agree. In particular the storage history (generations, addresses, erasures,
  revisions, the persistent or the copying build) cannot make the hashes of equal contents differ.
\<close>

theorem world_hash_of_content:
  assumes "world_wf w1" "world_wf w2"
    and "counted_valid object_ok (world_snapshot w1)" "counted_valid object_ok (world_snapshot w2)"
  shows "(\<forall>w. world_state_hash w = fnv1a hash_builder (world_bytes w)) \<and>
    (world_bytes w1 = world_bytes w2 \<longleftrightarrow> world_content w1 = world_content w2) \<and>
    (world_content w1 = world_content w2 \<longrightarrow> world_state_hash w1 = world_state_hash w2)"
proof -
  let ?valid = "counted_valid (\<lambda>obj. object_ok obj \<and> wo_revision obj = 0)"
  have valid: "?valid (map strip_revision (world_snapshot w1))"
    "?valid (map strip_revision (world_snapshot w2))"
    using assms(3,4)
    by (auto simp: counted_valid_def list_all_iff) (simp_all add: strip_revision_def)
  have "world_bytes w1 = world_bytes w2 \<longleftrightarrow>
    map strip_revision (world_snapshot w1) = map strip_revision (world_snapshot w2)"
    using object_code.counted_unique [OF valid, of "[]" "[]"]
    by (metis append_Nil2 counted_strip world_bytes_def)
  then have "world_bytes w1 = world_bytes w2 \<longleftrightarrow> world_content w1 = world_content w2"
    by (simp only: strip_snapshot_inject [OF assms(1,2)])
  then show ?thesis
    by (auto simp only: world_state_hash_eq)
qed

definition example_renumbered :: World where
  "example_renumbered =
     snd (world_insert (empty_world\<lparr>next_revision := 41\<rparr>) (example_object 7))"

theorem world_hash_of_content_witness:
  "next_revision example_renumbered \<noteq> next_revision example_shared \<and>
   world_state_hash example_renumbered = world_state_hash example_shared"
proof -
  have wf: "world_wf example_renumbered"
    unfolding example_renumbered_def
    using insert_refines(1) [of "empty_world\<lparr>next_revision := 41\<rparr>" "example_object 7"]
    by (metis surjective_pairing world_wf_counters(1) world_wf_empty)
  have "world_find w (WorldId 7) = Some obj \<and> (\<forall>i. i \<noteq> WorldId 7 \<longrightarrow> world_find w i = None) \<Longrightarrow>
    world_wf w \<Longrightarrow> object_ok obj \<Longrightarrow> counted_valid object_ok (world_snapshot w)" for w obj
  proof -
    assume f: "world_find w (WorldId 7) = Some obj \<and> (\<forall>i. i \<noteq> WorldId 7 \<longrightarrow> world_find w i = None)"
      and w: "world_wf w" and obj: "object_ok obj"
    have "set (fm_keys (objects w)) = {WorldId 7}"
      using f by (auto simp: content_dom world_content_def simp del: set_fm_keys)
    then have "fm_keys (objects w) = [WorldId 7]"
      using sorted_distinct_set_unique [of "fm_keys (objects w)" "[WorldId 7]"] by simp
    with f obj show "counted_valid object_ok (world_snapshot w)"
      by (simp add: world_snapshot_eq [OF w] counted_valid_def)
  qed
  note valid = this
  have shared: "world_find example_shared = [WorldId 7 \<mapsto> (example_object 7)\<lparr>wo_revision := 1\<rparr>]"
    by (auto simp: example_shared_def world_insert_def empty_world_def example_object_def store_def
          freeze_snapshot_def world_find_def entry_defs)
  have renum: "world_find example_renumbered = [WorldId 7 \<mapsto> (example_object 7)\<lparr>wo_revision := 42\<rparr>]"
    by (auto simp: example_renumbered_def world_insert_def empty_world_def example_object_def store_def
          world_find_def entry_defs)
  have ok: "object_ok ((example_object 7)\<lparr>wo_revision := n\<rparr>)" for n
    by (simp add: object_ok_def example_object_def counted_valid_def bag_ok_def fm_items_def)
  have "world_content example_renumbered = world_content example_shared"
    by (auto simp: fun_eq_iff world_content_def shared renum strip_revision_def)
  moreover have "next_revision example_renumbered = 42" "next_revision example_shared = 1"
    by (simp_all add: example_renumbered_def example_shared_def world_insert_def empty_world_def
          example_object_def entry_defs freeze_snapshot_def)
  ultimately show ?thesis
    using world_hash_of_content [OF wf world_wf_example_shared
        valid [OF _ wf ok] valid [OF _ world_wf_example_shared ok]] shared renum
    by simp
qed

section \<open>Pausing and stepping\<close>

fun poll :: "TickController \<Rightarrow> u64 list \<Rightarrow> bool list \<times> TickController" where
  "poll c [] = ([], c)"
| "poll c (t # ts) = (let (b, c1) = should_advance c t; (bs, c2) = poll c1 ts in (b # bs, c2))"

lemma poll_stopped:
  "tc_paused c \<Longrightarrow> tc_pending_steps c = 0 \<Longrightarrow> tc_target_tick c = None \<Longrightarrow>
     fst (poll c ts) = replicate (length ts) False"
  by (induction ts arbitrary: c) (simp_all add: should_advance_def Let_def case_prod_beta)



end
