(* ===== verification/Float64.thy ===== *)
theory Float64
  imports Schema
begin

text \<open>
  What the code uses of IEEE-754 binary64, on the bit patterns of type \<open>f64\<close>: classification, the
  rational value of a finite number, the comparison operators, and the conversion of a
  \<open>std::int64_t\<close> (round to nearest, ties to even). The lemmas show that the conversion is exact up
  to \<open>2 ^ 53\<close>.
\<close>

section \<open>Bit patterns\<close>

definition f64_nat :: "f64 \<Rightarrow> nat" where
  "f64_nat d = unat (f64_bits d)"

definition f64_negative :: "f64 \<Rightarrow> bool" where
  "f64_negative d \<longleftrightarrow> 2 ^ 63 \<le> f64_nat d"

definition f64_exponent :: "f64 \<Rightarrow> nat" where
  "f64_exponent d = f64_nat d div 2 ^ 52 mod 2 ^ 11"

definition f64_fraction :: "f64 \<Rightarrow> nat" where
  "f64_fraction d = f64_nat d mod 2 ^ 52"

definition f64_finite :: "f64 \<Rightarrow> bool" where
  "f64_finite d \<longleftrightarrow> f64_exponent d \<noteq> 2047"

definition f64_nan :: "f64 \<Rightarrow> bool" where
  "f64_nan d \<longleftrightarrow> f64_exponent d = 2047 \<and> f64_fraction d \<noteq> 0"

text \<open>The value of a finite number; subnormals have exponent field 0.\<close>

definition f64_magnitude :: "f64 \<Rightarrow> rat" where
  "f64_magnitude d =
     (if f64_exponent d = 0 then of_nat (f64_fraction d) / 2 ^ 1074
      else of_nat (2 ^ 52 + f64_fraction d) * 2 ^ f64_exponent d / 2 ^ 1075)"

definition f64_rat :: "f64 \<Rightarrow> rat" where
  "f64_rat d = (if f64_negative d then - f64_magnitude d else f64_magnitude d)"

section \<open>Comparison\<close>

text \<open>An order key: finite numbers by value, infinities beyond all of them.\<close>

definition f64_lt :: "f64 \<Rightarrow> f64 \<Rightarrow> bool" where
  "f64_lt a b \<longleftrightarrow>
     \<not> f64_nan a \<and> \<not> f64_nan b \<and>
     (if f64_finite a then
        (if f64_finite b then f64_rat a < f64_rat b else \<not> f64_negative b)
      else f64_negative a \<and> (f64_finite b \<or> \<not> f64_negative b))"

definition f64_eq :: "f64 \<Rightarrow> f64 \<Rightarrow> bool" where
  "f64_eq a b \<longleftrightarrow>
     \<not> f64_nan a \<and> \<not> f64_nan b \<and>
     (if f64_finite a \<and> f64_finite b then f64_rat a = f64_rat b else a = b)"

definition f64_le :: "f64 \<Rightarrow> f64 \<Rightarrow> bool" where
  "f64_le a b \<longleftrightarrow> f64_lt a b \<or> f64_eq a b"

lemma f64_lt_finite: "f64_finite a \<Longrightarrow> f64_finite b \<Longrightarrow> f64_lt a b \<longleftrightarrow> f64_rat a < f64_rat b"
  by (auto simp: f64_lt_def f64_nan_def f64_finite_def)

lemma f64_eq_finite: "f64_finite a \<Longrightarrow> f64_finite b \<Longrightarrow> f64_eq a b \<longleftrightarrow> f64_rat a = f64_rat b"
  by (auto simp: f64_eq_def f64_nan_def f64_finite_def)

lemma f64_le_finite: "f64_finite a \<Longrightarrow> f64_finite b \<Longrightarrow> f64_le a b \<longleftrightarrow> f64_rat a \<le> f64_rat b"
  by (auto simp: f64_le_def f64_lt_finite f64_eq_finite)

section \<open>Conversion from integers\<close>

fun bit_length :: "nat \<Rightarrow> nat" where
  "bit_length n = (if n = 0 then 0 else Suc (bit_length (n div 2)))"

declare bit_length.simps [simp del]

text \<open>\<open>n / 2 ^ k\<close>, rounded to nearest, ties to even.\<close>

definition round_shift :: "nat \<Rightarrow> nat \<Rightarrow> nat" where
  "round_shift n k =
     (let q = n div 2 ^ k; r = n mod 2 ^ k in
      if 2 ^ k < 2 * r \<or> (2 ^ k = 2 * r \<and> odd q) then q + 1 else q)"

text \<open>
  A rounding that carries into the next power of two increments the exponent field by itself,
  because the significand with its leading bit is added to the exponent field minus one.
\<close>

definition nat_to_f64 :: "nat \<Rightarrow> nat" where
  "nat_to_f64 n =
     (if n = 0 then 0
      else let e = bit_length n - 1 in
        (e + 1022) * 2 ^ 52 +
          (if e \<le> 52 then n * 2 ^ (52 - e) else round_shift n (e - 52)))"

definition i64_to_f64 :: "i64 \<Rightarrow> f64" where
  "i64_to_f64 x =
     F64 (word_of_nat ((if sint x < 0 then 2 ^ 63 else 0) + nat_to_f64 (nat \<bar>sint x\<bar>)))"

lemma bit_length_bounds:
  "0 < n \<Longrightarrow> 2 ^ (bit_length n - 1) \<le> n \<and> n < 2 ^ bit_length n \<and> 0 < bit_length n"
proof (induction n rule: bit_length.induct)
  case (1 n)
  show ?case
  proof (cases "n div 2 = 0")
    case True
    with "1.prems" have "n = 1" by auto
    moreover have "bit_length 1 = 1"
      by (subst bit_length.simps) (simp add: bit_length.simps [of 0])
    ultimately show ?thesis by simp
  next
    case False
    with "1.IH" "1.prems" have IH: "2 ^ (bit_length (n div 2) - 1) \<le> n div 2"
      "n div 2 < 2 ^ bit_length (n div 2)" "0 < bit_length (n div 2)" by auto
    have "bit_length n = Suc (bit_length (n div 2))"
      using "1.prems" by (simp add: bit_length.simps [of n])
    moreover have "(2::nat) ^ bit_length (n div 2) = 2 * 2 ^ (bit_length (n div 2) - 1)"
      using IH(3) by (metis Suc_diff_1 power_Suc)
    moreover have "2 * (n div 2) \<le> n" "n < 2 * (n div 2) + 2" by presburger+
    ultimately show ?thesis using IH by (simp only: diff_Suc_1 power_Suc) linarith
  qed
qed

lemma bit_length_le: "n < 2 ^ k \<Longrightarrow> bit_length n \<le> k"
proof (cases "n = 0")
  case False
  assume "n < 2 ^ k"
  moreover have "2 ^ (bit_length n - 1) \<le> n" using bit_length_bounds [of n] False by blast
  ultimately have "(2::nat) ^ (bit_length n - 1) < 2 ^ k" by linarith
  then have "bit_length n - 1 < k" by (rule power_less_imp_less_exp [rotated]) simp
  then show ?thesis by simp
qed (simp add: bit_length.simps)

lemma round_shift_bounds:
  assumes "2 ^ (52 + k) \<le> n" "n < 2 ^ (53 + k)"
  shows "2 ^ 52 \<le> round_shift n k \<and> round_shift n k \<le> 2 ^ 53"
proof -
  have "2 ^ 52 \<le> n div 2 ^ k" "n div 2 ^ k < 2 ^ 53"
    using assms by (simp_all add: less_eq_div_iff_mult_less_eq div_less_iff_less_mult power_add)
  then show ?thesis by (auto simp: round_shift_def Let_def)
qed

lemma nat_to_f64_bounds:
  assumes "n < 2 ^ 64"
  shows "nat_to_f64 n \<le> 1087 * 2 ^ 52"
proof (cases "n = 0")
  case False
  define e where "e = bit_length n - 1"
  have e: "e \<le> 63" using bit_length_le [OF assms] by (simp add: e_def)
  have n: "2 ^ e \<le> n" "n < 2 ^ Suc e"
    using bit_length_bounds [of n] False by (auto simp: e_def)
  have "(if e \<le> 52 then n * 2 ^ (52 - e) else round_shift n (e - 52)) \<le> 2 ^ 53"
  proof (cases "e \<le> 52")
    case True
    have "n * 2 ^ (52 - e) \<le> 2 ^ Suc e * 2 ^ (52 - e)" using n by (intro mult_right_mono) simp_all
    also have "\<dots> = 2 ^ 53" using True by (simp flip: power_add)
    finally show ?thesis using True by simp
  next
    case high: False
    then have "52 + (e - 52) = e" "53 + (e - 52) = Suc e" by auto
    with round_shift_bounds [of "e - 52" n] n high show ?thesis by simp
  qed
  moreover have "(e + 1022) * 2 ^ 52 \<le> (1085 :: nat) * 2 ^ 52"
    using e by (intro mult_right_mono) simp_all
  moreover have "nat_to_f64 n = (e + 1022) * 2 ^ 52 +
      (if e \<le> 52 then n * 2 ^ (52 - e) else round_shift n (e - 52))"
    using False by (simp add: nat_to_f64_def e_def Let_def)
  ultimately show ?thesis by simp
qed (simp add: nat_to_f64_def)

lemma nat_sint_bound: "nat \<bar>sint (x :: i64)\<bar> < 2 ^ 64"
  using sint_ge [of x] sint_lt [of x] by (auto simp: abs_if nat_less_iff)

lemma f64_nat_i64:
  "f64_nat (i64_to_f64 x) = (if sint x < 0 then 2 ^ 63 else 0) + nat_to_f64 (nat \<bar>sint x\<bar>)"
proof -
  let ?n = "(if sint x < 0 then 2 ^ 63 else 0) + nat_to_f64 (nat \<bar>sint x\<bar>)"
  have "?n < 2 ^ 64"
    using nat_to_f64_bounds [OF nat_sint_bound, of x] by (cases "sint x < 0") simp_all
  then show ?thesis
    unfolding i64_to_f64_def f64_nat_def f64.sel by (rule unat_of_nat_u64)
qed

lemma i64_to_f64_finite [simp]: "f64_finite (i64_to_f64 x)"
proof -
  note B = nat_to_f64_bounds [OF nat_sint_bound, of x]
  have "f64_nat (i64_to_f64 x) div 2 ^ 52 mod 2 ^ 11 < 2047"
  proof (cases "sint x < 0")
    case True
    then have "f64_nat (i64_to_f64 x) div 2 ^ 52 = 2 ^ 11 + nat_to_f64 (nat \<bar>sint x\<bar>) div 2 ^ 52"
      by (simp add: f64_nat_i64)
    with B show ?thesis by simp
  next
    case False
    with B show ?thesis by (simp add: f64_nat_i64)
  qed
  then show ?thesis by (simp add: f64_finite_def f64_exponent_def)
qed

text \<open>Integers up to \<open>2 ^ 53\<close> in magnitude convert exactly.\<close>

lemma nat_to_f64_exact:
  assumes "0 < n" "n < 2 ^ 53"
  shows "nat_to_f64 n div 2 ^ 52 = bit_length n + 1022 \<and>
    nat_to_f64 n mod 2 ^ 52 + 2 ^ 52 = n * 2 ^ (53 - bit_length n) \<and> bit_length n \<le> 53"
proof -
  have le: "bit_length n \<le> 53" using bit_length_le [OF assms(2)] .
  note B = bit_length_bounds [OF assms(1)]
  define m where "m = n * 2 ^ (53 - bit_length n)"
  have "(2::nat) ^ (bit_length n - 1) * 2 ^ (53 - bit_length n) = 2 ^ 52"
    using le B by (simp flip: power_add)
  then have lo: "2 ^ 52 \<le> m"
    using B by (metis m_def mult_le_mono1)
  have "(2::nat) ^ bit_length n * 2 ^ (53 - bit_length n) = 2 ^ 53"
    using le by (simp flip: power_add)
  then have hi: "m < 2 ^ 53"
    using B by (metis m_def mult_less_mono1 zero_less_numeral zero_less_power)
  have "nat_to_f64 n = (bit_length n + 1021) * 2 ^ 52 + m"
    using assms(1) le B
    by (auto simp: nat_to_f64_def m_def Let_def algebra_simps)
  also have "\<dots> = (bit_length n + 1022) * 2 ^ 52 + (m - 2 ^ 52)"
    using lo by simp
  finally have eq: "nat_to_f64 n = (bit_length n + 1022) * 2 ^ 52 + (m - 2 ^ 52)" .
  have small: "m - 2 ^ 52 < 2 ^ 52" using lo hi by simp
  have "nat_to_f64 n div 2 ^ 52 = bit_length n + 1022"
    unfolding eq using small by simp
  moreover have "nat_to_f64 n mod 2 ^ 52 = m - 2 ^ 52"
    unfolding eq using small mod_mult_self3 [of "bit_length n + 1022" "2 ^ 52" "m - 2 ^ 52"]
    by (simp only: mod_less)
  ultimately show ?thesis using lo le by (simp add: m_def)
qed


lemma i64_to_f64_negative: "f64_negative (i64_to_f64 x) \<longleftrightarrow> sint x < 0"
  using nat_to_f64_bounds [OF nat_sint_bound, of x]
  by (cases "sint x < 0") (simp_all add: f64_negative_def f64_nat_i64)

lemma i64_to_f64_fields:
  "f64_exponent (i64_to_f64 x) = nat_to_f64 (nat \<bar>sint x\<bar>) div 2 ^ 52 mod 2 ^ 11"
  "f64_fraction (i64_to_f64 x) = nat_to_f64 (nat \<bar>sint x\<bar>) mod 2 ^ 52"
proof -
  let ?n = "nat_to_f64 (nat \<bar>sint x\<bar>)"
  have "(2 ^ 63 + ?n) div 2 ^ 52 = 2 ^ 11 + ?n div 2 ^ 52" by simp
  moreover have "(2 ^ 63 + ?n) mod 2 ^ 52 = ?n mod 2 ^ 52"
    using mod_mult_self3 [of "2 ^ 11" "2 ^ 52" ?n] by simp
  moreover have "(2 ^ 11 + m) mod 2 ^ 11 = m mod 2 ^ 11" for m :: nat by simp
  ultimately show "f64_exponent (i64_to_f64 x) = ?n div 2 ^ 52 mod 2 ^ 11"
    "f64_fraction (i64_to_f64 x) = ?n mod 2 ^ 52"
    unfolding f64_exponent_def f64_fraction_def f64_nat_i64 by (simp_all only: if_distrib add_0) auto
qed

lemma f64_rat_i64:
  assumes "\<bar>sint x\<bar> < 2 ^ 53"
  shows "f64_rat (i64_to_f64 x) = of_int (sint x)"
proof (cases "sint x = 0")
  case True
  then show ?thesis
    by (simp add: f64_rat_def f64_magnitude_def i64_to_f64_fields nat_to_f64_def)
next
  case False
  define n where "n = nat \<bar>sint x\<bar>"
  have n: "0 < n" "n < 2 ^ 53" using False assms by (auto simp: n_def nat_less_iff)
  note E = nat_to_f64_exact [OF n]
  have "f64_exponent (i64_to_f64 x) = bit_length n + 1022"
    using E by (simp add: i64_to_f64_fields n_def [symmetric])
  moreover have "2 ^ 52 + f64_fraction (i64_to_f64 x) = n * 2 ^ (53 - bit_length n)"
    using E by (simp add: i64_to_f64_fields n_def [symmetric])
  ultimately have "f64_magnitude (i64_to_f64 x) =
      of_nat (n * 2 ^ (53 - bit_length n)) * 2 ^ (bit_length n + 1022) / 2 ^ 1075"
    unfolding f64_magnitude_def by simp
  also have "\<dots> = of_nat n * (2 ^ (53 - bit_length n) * 2 ^ (bit_length n + 1022)) / 2 ^ 1075"
    by simp
  also have "(2 :: rat) ^ (53 - bit_length n) * 2 ^ (bit_length n + 1022) = 2 ^ 1075"
    using E by (simp only: power_add [symmetric]) simp
  finally have "f64_magnitude (i64_to_f64 x) = of_nat n" by simp
  moreover have "(of_nat n :: rat) = of_int \<bar>sint x\<bar>"
    unfolding n_def by (rule of_nat_nat) simp
  ultimately show ?thesis
    by (cases "sint x < 0") (simp_all add: f64_rat_def i64_to_f64_negative del: of_int_sint)
qed


section \<open>Arithmetic\<close>

text \<open>
  Rounding of a nonnegative rational to the bits of the nearest binary64, ties to even: \<open>u\<close> is the
  exponent of the unit in the last place, never below that of the subnormals; the bits beyond the
  largest finite number are those of infinity.
\<close>

definition rat_log2 :: "rat \<Rightarrow> int" where
  "rat_log2 m =
     (let (a, b) = quotient_of m;
          e = int (bit_length (nat a)) - int (bit_length (nat b))
      in if (if 0 \<le> e then m < 2 ^ nat e else m * 2 ^ nat (- e) < 1) then e - 1 else e)"

definition round_nearest :: "rat \<Rightarrow> nat" where
  "round_nearest x =
     (let q = nat \<lfloor>x\<rfloor>; r = x - of_nat q in
      if 1 / 2 < r \<or> (r = 1 / 2 \<and> odd q) then q + 1 else q)"

definition f64_infinity_bits :: nat where
  "f64_infinity_bits = 2047 * 2 ^ 52"

definition round_bits :: "rat \<Rightarrow> nat" where
  "round_bits m =
     (if m = 0 then 0
      else let u = max (rat_log2 m - 52) (- 1074);
               n = round_nearest (if 0 \<le> u then m / 2 ^ nat u else m * 2 ^ nat (- u))
           in min (nat (u + 1074) * 2 ^ 52 + n) f64_infinity_bits)"

definition f64_make :: "bool \<Rightarrow> nat \<Rightarrow> f64" where
  "f64_make neg n = F64 (word_of_nat ((if neg then 2 ^ 63 else 0) + n))"

definition f64_round :: "bool \<Rightarrow> rat \<Rightarrow> f64" where
  "f64_round neg m = f64_make neg (round_bits m)"

text \<open>The quiet NaN an invalid operation produces (its sign and payload are not observed).\<close>

definition f64_nan_value :: f64 where
  "f64_nan_value = F64 0x7FF8000000000000"

definition f64_infinity :: "bool \<Rightarrow> f64" where
  "f64_infinity neg = f64_make neg f64_infinity_bits"

definition f64_neg :: "f64 \<Rightarrow> f64" where
  "f64_neg d = F64 (f64_bits d XOR push_bit 63 1)"

definition f64_add :: "f64 \<Rightarrow> f64 \<Rightarrow> f64" where
  "f64_add a b =
     (if f64_nan a \<or> f64_nan b then f64_nan_value
      else if f64_finite a \<and> f64_finite b then
        let s = f64_rat a + f64_rat b in
        if s = 0 then f64_make (f64_negative a \<and> f64_negative b) 0 else f64_round (s < 0) \<bar>s\<bar>
      else if f64_finite a then b
      else if f64_finite b \<or> f64_negative a = f64_negative b then a
      else f64_nan_value)"

definition f64_sub :: "f64 \<Rightarrow> f64 \<Rightarrow> f64" where
  "f64_sub a b = (if f64_nan b then f64_nan_value else f64_add a (f64_neg b))"

definition f64_mul :: "f64 \<Rightarrow> f64 \<Rightarrow> f64" where
  "f64_mul a b =
     (let neg = (f64_negative a \<noteq> f64_negative b) in
      if f64_nan a \<or> f64_nan b then f64_nan_value
      else if f64_finite a \<and> f64_finite b then f64_round neg (f64_magnitude a * f64_magnitude b)
      else if (f64_finite a \<and> f64_rat a = 0) \<or> (f64_finite b \<and> f64_rat b = 0) then f64_nan_value
      else f64_infinity neg)"

definition f64_div :: "f64 \<Rightarrow> f64 \<Rightarrow> f64" where
  "f64_div a b =
     (let neg = (f64_negative a \<noteq> f64_negative b) in
      if f64_nan a \<or> f64_nan b \<or> (\<not> f64_finite a \<and> \<not> f64_finite b) then f64_nan_value
      else if \<not> f64_finite a then f64_infinity neg
      else if \<not> f64_finite b then f64_make neg 0
      else if f64_rat b = 0 then (if f64_rat a = 0 then f64_nan_value else f64_infinity neg)
      else f64_round neg (f64_magnitude a / f64_magnitude b))"

lemma round_bits_le: "round_bits m \<le> f64_infinity_bits"
  by (simp add: round_bits_def Let_def)

lemma f64_nat_make: "n \<le> f64_infinity_bits \<Longrightarrow> f64_nat (f64_make neg n) = (if neg then 2 ^ 63 else 0) + n"
proof -
  assume "n \<le> f64_infinity_bits"
  then have "(if neg then 2 ^ 63 else 0) + n < 2 ^ 64" by (simp add: f64_infinity_bits_def)
  then show ?thesis unfolding f64_make_def f64_nat_def f64.sel by (rule unat_of_nat_u64)
qed

lemma f64_negative_make: "n \<le> f64_infinity_bits \<Longrightarrow> f64_negative (f64_make neg n) = neg"
  by (simp add: f64_negative_def f64_nat_make f64_infinity_bits_def)

lemma f64_fields_make:
  assumes "n \<le> f64_infinity_bits"
  shows "f64_exponent (f64_make neg n) = n div 2 ^ 52" "f64_fraction (f64_make neg n) = n mod 2 ^ 52"
proof -
  have "(2 ^ 63 + n) div 2 ^ 52 = 2 ^ 11 + n div 2 ^ 52" by simp
  moreover have "(2 ^ 63 + n) mod 2 ^ 52 = n mod 2 ^ 52"
    using mod_mult_self3 [of "2 ^ 11" "2 ^ 52" n] by simp
  moreover have "n div 2 ^ 52 < 2 ^ 11" using assms by (simp add: f64_infinity_bits_def)
  ultimately show "f64_exponent (f64_make neg n) = n div 2 ^ 52"
    "f64_fraction (f64_make neg n) = n mod 2 ^ 52"
    using assms by (auto simp: f64_exponent_def f64_fraction_def f64_nat_make)
qed

lemma f64_not_nan_make:
  assumes "n \<le> f64_infinity_bits"
  shows "\<not> f64_nan (f64_make neg n)"
proof
  assume "f64_nan (f64_make neg n)"
  then have "n div 2 ^ 52 = 2047" "n mod 2 ^ 52 \<noteq> 0"
    using assms by (simp_all add: f64_nan_def f64_fields_make)
  moreover have "n = n div 2 ^ 52 * 2 ^ 52 + n mod 2 ^ 52"
    by (simp only: div_mult_mod_eq)
  ultimately have "f64_infinity_bits < n" by (simp add: f64_infinity_bits_def)
  with assms show False by simp
qed

lemma f64_round_simps [simp]:
  "f64_negative (f64_round neg m) = neg" "\<not> f64_nan (f64_round neg m)"
  by (simp_all add: f64_round_def round_bits_le f64_negative_make f64_not_nan_make)

lemma f64_infinity_simps [simp]:
  "f64_negative (f64_infinity neg) = neg" "\<not> f64_nan (f64_infinity neg)"
  by (simp_all add: f64_infinity_def f64_negative_make f64_not_nan_make)

lemma f64_zero_simps [simp]:
  "f64_negative (f64_make neg 0) = neg" "\<not> f64_nan (f64_make neg 0)"
  by (simp_all add: f64_infinity_bits_def f64_negative_make f64_not_nan_make)

text \<open>Numbers without sign, infinity included, are closed under sum, product and quotient by a positive.\<close>

definition f64_nonneg :: "f64 \<Rightarrow> bool" where
  "f64_nonneg d \<longleftrightarrow> \<not> f64_nan d \<and> \<not> f64_negative d"

lemma f64_magnitude_nonneg: "0 \<le> f64_magnitude d"
  by (simp add: f64_magnitude_def)

lemma f64_rat_nonneg: "f64_nonneg d \<Longrightarrow> 0 \<le> f64_rat d"
  by (simp add: f64_nonneg_def f64_rat_def f64_magnitude_nonneg)

lemma f64_nonneg_add: "f64_nonneg a \<Longrightarrow> f64_nonneg b \<Longrightarrow> f64_nonneg (f64_add a b)"
  using f64_rat_nonneg [of a] f64_rat_nonneg [of b]
  by (auto simp: f64_add_def f64_nonneg_def Let_def)

lemma f64_nonneg_mul:
  "f64_nonneg a \<Longrightarrow> f64_nonneg b \<Longrightarrow> f64_finite b \<Longrightarrow> f64_rat b \<noteq> 0 \<Longrightarrow> f64_finite a \<Longrightarrow>
     f64_nonneg (f64_mul a b)"
  by (auto simp: f64_mul_def f64_nonneg_def Let_def)

lemma f64_nonneg_i64: "0 \<le> sint x \<Longrightarrow> f64_nonneg (i64_to_f64 x)"
  using i64_to_f64_finite [of x] i64_to_f64_negative [of x]
  by (auto simp: f64_nonneg_def f64_nan_def f64_finite_def)


section \<open>Minimum, maximum, scaling and conversion to integers\<close>

text \<open>\<open>std::min(a, b)\<close> is \<open>b < a ? b : a\<close>, \<open>std::max(a, b)\<close> is \<open>a < b ? b : a\<close>.\<close>

definition f64_min :: "f64 \<Rightarrow> f64 \<Rightarrow> f64" where
  "f64_min a b = (if f64_lt b a then b else a)"

definition f64_max :: "f64 \<Rightarrow> f64 \<Rightarrow> f64" where
  "f64_max a b = (if f64_lt a b then b else a)"

text \<open>\<open>std::ldexp\<close> with a nonnegative exponent.\<close>

definition f64_ldexp :: "f64 \<Rightarrow> nat \<Rightarrow> f64" where
  "f64_ldexp d n =
     (if f64_finite d then f64_round (f64_negative d) (f64_magnitude d * 2 ^ n) else d)"

text \<open>
  \<open>static_cast<std::int64_t>(std::floor(d))\<close> and the same to \<open>std::int32_t\<close>. Outside of the range of
  the target C++ leaves the result open; the model has the value of the x86-64 conversion
  instruction there, and the lemmas ask for values in range.
\<close>

definition f64_floor_int :: "f64 \<Rightarrow> int" where
  "f64_floor_int d = \<lfloor>f64_rat d\<rfloor>"

definition floor_fits :: "nat \<Rightarrow> f64 \<Rightarrow> bool" where
  "floor_fits n d \<longleftrightarrow> f64_finite d \<and> - (2 ^ n) \<le> f64_floor_int d \<and> f64_floor_int d < 2 ^ n"

definition f64_floor_i64 :: "f64 \<Rightarrow> i64" where
  "f64_floor_i64 d = (if floor_fits 63 d then word_of_int (f64_floor_int d) else push_bit 63 1)"

definition f64_floor_i32 :: "f64 \<Rightarrow> i32" where
  "f64_floor_i32 d = (if floor_fits 31 d then word_of_int (f64_floor_int d) else push_bit 31 1)"

text \<open>\<open>std::llround\<close>: to nearest, halves away from zero.\<close>

definition f64_llround :: "f64 \<Rightarrow> i64" where
  "f64_llround d =
     (let n = \<lfloor>f64_magnitude d + 1 / 2\<rfloor>; n = (if f64_negative d then - n else n) in
      if f64_finite d \<and> - (2 ^ 63) \<le> n \<and> n < 2 ^ 63 then word_of_int n else push_bit 63 1)"

end
