(* ===== verification/Expression.thy ===== *)
theory Expression
  imports Float64
begin

text \<open>
  \<^verbatim>\<open>libs/rules/expression\<close>: the conditions of rules. Equality compares values of one type exactly;
  everything else goes through \<open>double\<close>. The lemmas give the meaning of each comparison on
  integers, where the detour through \<open>double\<close> is exact, and show where it is not.
\<close>

datatype Comparison = CMP_equal | CMP_not_equal | CMP_less | CMP_less_equal | CMP_greater
  | CMP_greater_equal

record Condition =
  cond_field :: string
  cond_comparison :: Comparison
  cond_expected :: Value

type_synonym Expression = "Condition list"

text \<open>The \<open>bool\<close> result and the out parameter of \<open>numeric_value\<close>, in one option.\<close>

fun numeric_value :: "Value \<Rightarrow> f64 option" where
  "numeric_value (VInt64 n) = Some (i64_to_f64 n)"
| "numeric_value (VDouble d) = (if f64_finite d then Some d else None)"
| "numeric_value _ = None"

text \<open>\<open>operator==\<close> of the variant, on alternatives of the same index.\<close>

fun value_eq :: "Value \<Rightarrow> Value \<Rightarrow> bool" where
  "value_eq (VInt64 a) (VInt64 b) = (a = b)"
| "value_eq (VDouble a) (VDouble b) = f64_eq a b"
| "value_eq (VBool a) (VBool b) = (a = b)"
| "value_eq (VString a) (VString b) = (a = b)"
| "value_eq _ _ = False"

definition compare :: "Value \<Rightarrow> Value \<Rightarrow> Comparison \<Rightarrow> bool" where
  "compare left right comparison =
     (if comparison = CMP_equal \<or> comparison = CMP_not_equal then
        let eq = (if value_index left = value_index right then value_eq left right
                  else case (numeric_value left, numeric_value right) of
                    (Some a, Some b) \<Rightarrow> f64_eq a b
                  | _ \<Rightarrow> False)
        in (if comparison = CMP_equal then eq else \<not> eq)
      else case (numeric_value left, numeric_value right) of
        (Some a, Some b) \<Rightarrow>
          (case comparison of
             CMP_less \<Rightarrow> f64_lt a b
           | CMP_less_equal \<Rightarrow> f64_le a b
           | CMP_greater \<Rightarrow> f64_lt b a
           | CMP_greater_equal \<Rightarrow> f64_le b a
           | _ \<Rightarrow> False)
      | _ \<Rightarrow> False)"

definition condition_valid :: "Condition \<Rightarrow> bool" where
  "condition_valid c \<longleftrightarrow> cond_field c \<noteq> []"

definition condition_matches :: "Condition \<Rightarrow> PropertyBag \<Rightarrow> bool" where
  "condition_matches c values =
     (case fmlookup values (cond_field c) of
        None \<Rightarrow> False
      | Some v \<Rightarrow> compare v (cond_expected c) (cond_comparison c))"

fun expression_valid :: "Expression \<Rightarrow> bool" where
  "expression_valid [] = True"
| "expression_valid (c # cs) = (if \<not> condition_valid c then False else expression_valid cs)"

fun all_match :: "Expression \<Rightarrow> PropertyBag \<Rightarrow> bool" where
  "all_match [] values = True"
| "all_match (c # cs) values = (if \<not> condition_matches c values then False else all_match cs values)"

definition expression_evaluate :: "Expression \<Rightarrow> PropertyBag \<Rightarrow> bool" where
  "expression_evaluate cs values = (if \<not> expression_valid cs then False else all_match cs values)"

lemma expression_valid_iff: "expression_valid cs \<longleftrightarrow> list_all condition_valid cs"
  by (induction cs) auto

lemma all_match_iff: "all_match cs values \<longleftrightarrow> list_all (\<lambda>c. condition_matches c values) cs"
  by (induction cs) auto

lemma expression_evaluate_iff:
  "expression_evaluate cs values \<longleftrightarrow>
     (\<forall>c\<in>set cs. cond_field c \<noteq> [] \<and>
        (\<exists>v. fmlookup values (cond_field c) = Some v \<and>
             compare v (cond_expected c) (cond_comparison c)))"
  by (auto simp: expression_evaluate_def expression_valid_iff all_match_iff list_all_iff
        condition_valid_def condition_matches_def split: option.splits)

text \<open>The comparison as it is meant, on a linear order.\<close>

fun ordered_by :: "Comparison \<Rightarrow> 'a::linorder \<Rightarrow> 'a \<Rightarrow> bool" where
  "ordered_by CMP_equal x y = (x = y)"
| "ordered_by CMP_not_equal x y = (x \<noteq> y)"
| "ordered_by CMP_less x y = (x < y)"
| "ordered_by CMP_less_equal x y = (x \<le> y)"
| "ordered_by CMP_greater x y = (x > y)"
| "ordered_by CMP_greater_equal x y = (x \<ge> y)"

lemma compare_numeric:
  assumes "numeric_value v = Some a" "numeric_value w = Some b" "f64_finite a" "f64_finite b"
    "value_index v \<noteq> value_index w \<or> cmp \<notin> {CMP_equal, CMP_not_equal}"
  shows "compare v w cmp = ordered_by cmp (f64_rat a) (f64_rat b)"
  using assms
  by (cases cmp) (auto simp: compare_def f64_lt_finite f64_le_finite f64_eq_finite)

text \<open>
  On integers of magnitude below \<open>2 ^ 53\<close>, and between such an integer and any finite double,
  every comparison of a rule condition is the exact comparison of the two numbers.
\<close>

lemma compare_int_exact:
  assumes "\<bar>sint a\<bar> < 2 ^ 53"
  shows "(\<bar>sint b\<bar> < 2 ^ 53 \<longrightarrow>
           compare (VInt64 a) (VInt64 b) cmp = ordered_by cmp (sint a) (sint b)) \<and>
    (f64_finite d \<longrightarrow>
       compare (VInt64 a) (VDouble d) cmp = ordered_by cmp (of_int (sint a)) (f64_rat d) \<and>
       compare (VDouble d) (VInt64 a) cmp = ordered_by cmp (f64_rat d) (of_int (sint a)))"
proof (intro conjI impI)
  have of_int: "ordered_by cmp (of_int i :: rat) (of_int j) = ordered_by cmp i j" for i j
    by (cases cmp) simp_all
  assume b: "\<bar>sint b\<bar> < 2 ^ 53"
  show "compare (VInt64 a) (VInt64 b) cmp = ordered_by cmp (sint a) (sint b)"
  proof (cases "cmp \<in> {CMP_equal, CMP_not_equal}")
    case True
    then show ?thesis by (auto simp: compare_def signed_word_eqI)
  next
    case False
    then have "compare (VInt64 a) (VInt64 b) cmp =
        ordered_by cmp (f64_rat (i64_to_f64 a)) (f64_rat (i64_to_f64 b))"
      by (intro compare_numeric) simp_all
    then show ?thesis
      unfolding f64_rat_i64 [OF assms] f64_rat_i64 [OF b] of_int .
  qed
next
  assume d: "f64_finite d"
  then have "compare (VInt64 a) (VDouble d) cmp =
      ordered_by cmp (f64_rat (i64_to_f64 a)) (f64_rat d)"
    by (intro compare_numeric) simp_all
  then show "compare (VInt64 a) (VDouble d) cmp = ordered_by cmp (of_int (sint a)) (f64_rat d)"
    unfolding f64_rat_i64 [OF assms] .
  from d have "compare (VDouble d) (VInt64 a) cmp =
      ordered_by cmp (f64_rat d) (f64_rat (i64_to_f64 a))"
    by (intro compare_numeric) simp_all
  then show "compare (VDouble d) (VInt64 a) cmp = ordered_by cmp (f64_rat d) (of_int (sint a))"
    unfolding f64_rat_i64 [OF assms] .
qed

text \<open>
  Above \<open>2 ^ 53\<close> the ordering of two integers collapses: of two different integers each is
  \<open>less_equal\<close> and \<open>greater_equal\<close> the other while \<open>equal\<close> and \<open>less\<close> are false.
\<close>

lemma compare_int_collapses:
  "let a = VInt64 9007199254740992; b = VInt64 9007199254740993 in
     compare a b CMP_less_equal \<and> compare a b CMP_greater_equal \<and>
     compare a b CMP_not_equal \<and> \<not> compare a b CMP_less"
proof -
  have "nat_to_f64 9007199254740992 = nat_to_f64 9007199254740993"
    by (simp add: nat_to_f64_def bit_length.simps round_shift_def Let_def)
  then have same: "i64_to_f64 9007199254740992 = i64_to_f64 9007199254740993"
    by (simp add: i64_to_f64_def)
  have "f64_eq x x" if "f64_finite x" for x using that by (simp add: f64_eq_finite)
  moreover have "\<not> f64_lt x x" for x by (auto simp: f64_lt_def)
  ultimately show ?thesis
    by (simp add: compare_def same f64_le_def)
qed

end
