(* ===== verification/Rules.thy ===== *)
theory Rules
  imports Expression Simulation
begin

text \<open>
  \<^verbatim>\<open>libs/rules\<close>: the event bus, the decision table and the rule engine, which turns due events into
  property commands. The lemmas show that delivery order is a function of the set of pending
  events alone, that the table's rows do not depend on the order of registration, and exactly
  which commands an evaluation enqueues.
\<close>

section \<open>The event bus\<close>

record Event =
  ev_sequence :: u64
  ev_target_tick :: u64
  ev_priority :: i32
  ev_type :: string
  ev_subject :: WorldId
  ev_payload :: PropertyBag

record EventBusSnapshot =
  ebs_next_sequence :: u64
  ebs_pending :: "Event list"

text \<open>
  The queue of the bus, apart from its subscriptions: a handler may publish on the bus that calls
  it, so a handler is a step on the queue and on the state \<open>'s\<close> of its own environment.
\<close>

record EventQueue =
  eq_next_sequence :: u64
  eq_pending :: "Event list"

type_synonym 's Handler = "Event \<Rightarrow> EventQueue \<times> 's \<Rightarrow> EventQueue \<times> 's"

record 's Subscription =
  sub_type :: string
  sub_handler :: "'s Handler"

definition event_queue :: EventQueue where
  "event_queue = \<lparr>eq_next_sequence = 1, eq_pending = []\<rparr>"

definition schedule :: "EventQueue \<Rightarrow> Event \<Rightarrow> u64 \<times> EventQueue" where
  "schedule q event =
     (let event = event\<lparr>ev_sequence := eq_next_sequence q\<rparr>;
          q = \<lparr>eq_next_sequence = eq_next_sequence q + 1, eq_pending = eq_pending q @ [event]\<rparr>
      in (ev_sequence (last (eq_pending q)), q))"

definition publish ::
  "EventQueue \<Rightarrow> u64 \<Rightarrow> i32 \<Rightarrow> string \<Rightarrow> WorldId \<Rightarrow> PropertyBag \<Rightarrow> u64 \<times> EventQueue" where
  "publish q target_tick priority type subject payload =
     schedule q \<lparr>ev_sequence = 0, ev_target_tick = target_tick, ev_priority = priority,
                 ev_type = type, ev_subject = subject, ev_payload = payload\<rparr>"

definition subscribe ::
  "'s Subscription list \<Rightarrow> string \<Rightarrow> 's Handler option \<Rightarrow> bool \<times> 's Subscription list" where
  "subscribe subs type handler =
     (case handler of
        None \<Rightarrow> (False, subs)
      | Some f \<Rightarrow>
          if type = [] then (False, subs)
          else (True, subs @ [\<lparr>sub_type = type, sub_handler = f\<rparr>]))"

definition event_before :: "Event \<Rightarrow> Event \<Rightarrow> bool" where
  "event_before left right =
     (if ev_target_tick left \<noteq> ev_target_tick right then ev_target_tick left < ev_target_tick right
      else if ev_priority left \<noteq> ev_priority right
      then sint (ev_priority left) > sint (ev_priority right)
      else ev_sequence left < ev_sequence right)"

text \<open>\<open>std::stable_partition\<close> keeps the relative order on both sides.\<close>

definition drain :: "EventQueue \<Rightarrow> u64 \<Rightarrow> Event list \<times> EventQueue" where
  "drain q tick =
     (let pending = stable_sort event_before (eq_pending q);
          due = filter (\<lambda>e. ev_target_tick e \<le> tick) pending;
          rest = filter (\<lambda>e. \<not> ev_target_tick e \<le> tick) pending
      in (due, q\<lparr>eq_pending := rest\<rparr>))"

fun notify ::
  "Event \<Rightarrow> 's Subscription list \<Rightarrow> nat \<Rightarrow> EventQueue \<times> 's \<Rightarrow> nat \<times> EventQueue \<times> 's" where
  "notify event [] dispatched s = (dispatched, s)"
| "notify event (sub # subs) dispatched s =
     (if sub_type sub = ev_type event \<or> sub_type sub = ''*''
      then notify event subs (dispatched + 1) (sub_handler sub event s)
      else notify event subs dispatched s)"

fun dispatch_loop ::
  "'s Subscription list \<Rightarrow> Event list \<Rightarrow> nat \<Rightarrow> EventQueue \<times> 's \<Rightarrow> nat \<times> EventQueue \<times> 's" where
  "dispatch_loop subs [] dispatched s = (dispatched, s)"
| "dispatch_loop subs (event # events) dispatched s =
     (let (dispatched, s) = notify event subs dispatched s
      in dispatch_loop subs events dispatched s)"

definition dispatch_due ::
  "'s Subscription list \<Rightarrow> EventQueue \<times> 's \<Rightarrow> u64 \<Rightarrow> nat \<times> EventQueue \<times> 's" where
  "dispatch_due subs s tick =
     (let (due, q) = drain (fst s) tick in dispatch_loop subs due 0 (q, snd s))"

definition eq_size :: "EventQueue \<Rightarrow> nat" where
  "eq_size q = length (eq_pending q)"

definition eq_snapshot :: "EventQueue \<Rightarrow> EventBusSnapshot" where
  "eq_snapshot q = \<lparr>ebs_next_sequence = eq_next_sequence q, ebs_pending = eq_pending q\<rparr>"

fun events_restorable :: "u64 \<Rightarrow> u64 \<Rightarrow> Event list \<Rightarrow> bool" where
  "events_restorable next_sequence previous [] = True"
| "events_restorable next_sequence previous (e # es) =
     (if ev_sequence e = 0 \<or> ev_sequence e \<ge> next_sequence \<or> ev_sequence e = previous
         \<or> ev_type e = []
      then False else events_restorable next_sequence (ev_sequence e) es)"

definition eq_restore :: "EventQueue \<Rightarrow> EventBusSnapshot \<Rightarrow> bool \<times> EventQueue" where
  "eq_restore q s =
     (if ebs_next_sequence s = 0 then (False, q)
      else let pending = stable_sort (lt_key ev_sequence) (ebs_pending s) in
        if events_restorable (ebs_next_sequence s) 0 pending
        then (True, \<lparr>eq_next_sequence = ebs_next_sequence s, eq_pending = pending\<rparr>)
        else (False, q))"

section \<open>Rules\<close>

datatype RuleAction = SetPropertyAction WorldId string Value

record Rule =
  rule_id :: string
  rule_version :: u32
  rule_priority :: i32
  rule_event_type :: string
  rule_condition :: Expression
  rule_actions :: "RuleAction list"

datatype RuleRegistrationResult = RR_registered | RR_invalid_rule | RR_duplicate_id

type_synonym DecisionTable = "Rule list"

definition rule_before :: "Rule \<Rightarrow> Rule \<Rightarrow> bool" where
  "rule_before left right =
     (if rule_priority left \<noteq> rule_priority right
      then sint (rule_priority left) > sint (rule_priority right)
      else rule_id left < rule_id right)"

definition table_insert :: "DecisionTable \<Rightarrow> Rule \<Rightarrow> RuleRegistrationResult \<times> DecisionTable" where
  "table_insert rows rule =
     (if rule_id rule = [] \<or> rule_version rule = 0 \<or> rule_event_type rule = []
         \<or> \<not> expression_valid (rule_condition rule)
      then (RR_invalid_rule, rows)
      else if list_ex (\<lambda>existing. rule_id existing = rule_id rule) rows
      then (RR_duplicate_id, rows)
      else (RR_registered, stable_sort rule_before (rows @ [rule])))"

text \<open>\<open>find_if\<close> and \<open>erase\<close>: the first row with the id goes.\<close>

fun remove_first :: "('a \<Rightarrow> bool) \<Rightarrow> 'a list \<Rightarrow> 'a list option" where
  "remove_first P [] = None"
| "remove_first P (x # xs) = (if P x then Some xs else map_option ((#) x) (remove_first P xs))"

definition table_erase :: "DecisionTable \<Rightarrow> string \<Rightarrow> bool \<times> DecisionTable" where
  "table_erase rows i =
     (case remove_first (\<lambda>rule. rule_id rule = i) rows of
        None \<Rightarrow> (False, rows)
      | Some rows' \<Rightarrow> (True, rows'))"

record RuleEvaluationReport =
  rr_events_processed :: nat
  rr_rules_fired :: nat
  rr_commands_enqueued :: nat

record RuleEngine =
  re_events :: EventQueue
  re_table :: DecisionTable

definition register_rule :: "RuleEngine \<Rightarrow> Rule \<Rightarrow> RuleRegistrationResult \<times> RuleEngine" where
  "register_rule e rule =
     (let (res, rows) = table_insert (re_table e) rule in (res, e\<lparr>re_table := rows\<rparr>))"

definition remove_rule :: "RuleEngine \<Rightarrow> string \<Rightarrow> bool \<times> RuleEngine" where
  "remove_rule e i = (let (ok, rows) = table_erase (re_table e) i in (ok, e\<lparr>re_table := rows\<rparr>))"

definition engine_publish ::
  "RuleEngine \<Rightarrow> u64 \<Rightarrow> i32 \<Rightarrow> string \<Rightarrow> WorldId \<Rightarrow> PropertyBag \<Rightarrow> u64 \<times> RuleEngine" where
  "engine_publish e target_tick priority type subject payload =
     (let (n, q) = publish (re_events e) target_tick priority type subject payload
      in (n, e\<lparr>re_events := q\<rparr>))"

text \<open>The three nested loops of \<open>evaluate\<close>: events, rows, actions.\<close>

fun run_actions ::
  "u64 \<Rightarrow> Event \<Rightarrow> RuleAction list \<Rightarrow> RuleEvaluationReport \<times> CommandBuffer \<Rightarrow>
     RuleEvaluationReport \<times> CommandBuffer" where
  "run_actions tick event [] s = s"
| "run_actions tick event (SetPropertyAction target key v # actions) (report, commands) =
     (let target = (if wid_valid target then target else ev_subject event);
          commands = snd (enqueue_plain commands tick (SetPropertyCommand target key v))
      in run_actions tick event actions
           (report\<lparr>rr_commands_enqueued := rr_commands_enqueued report + 1\<rparr>, commands))"

fun run_rules ::
  "u64 \<Rightarrow> Event \<Rightarrow> Rule list \<Rightarrow> RuleEvaluationReport \<times> CommandBuffer \<Rightarrow>
     RuleEvaluationReport \<times> CommandBuffer" where
  "run_rules tick event [] s = s"
| "run_rules tick event (rule # rules) (report, commands) =
     (if rule_event_type rule \<noteq> ev_type event
         \<or> \<not> expression_evaluate (rule_condition rule) (ev_payload event)
      then run_rules tick event rules (report, commands)
      else run_rules tick event rules
             (run_actions tick event (rule_actions rule)
               (report\<lparr>rr_rules_fired := rr_rules_fired report + 1\<rparr>, commands)))"

fun run_events ::
  "u64 \<Rightarrow> Rule list \<Rightarrow> Event list \<Rightarrow> RuleEvaluationReport \<times> CommandBuffer \<Rightarrow>
     RuleEvaluationReport \<times> CommandBuffer" where
  "run_events tick rows [] s = s"
| "run_events tick rows (event # events) s =
     run_events tick rows events (run_rules tick event rows s)"

definition engine_evaluate ::
  "RuleEngine \<Rightarrow> u64 \<Rightarrow> CommandBuffer \<Rightarrow> RuleEvaluationReport \<times> RuleEngine \<times> CommandBuffer" where
  "engine_evaluate e tick commands =
     (let (due, q) = drain (re_events e) tick;
          report = \<lparr>rr_events_processed = length due, rr_rules_fired = 0,
                    rr_commands_enqueued = 0\<rparr>;
          (report, commands) = run_events tick (re_table e) due (report, commands)
      in (report, e\<lparr>re_events := q\<rparr>, commands))"

definition rule_count :: "RuleEngine \<Rightarrow> nat" where
  "rule_count e = length (re_table e)"

section \<open>Delivery order\<close>

lemma sint_eq_iff: "sint a = sint b \<longleftrightarrow> a = b"
  by (auto dest: signed_word_eqI)

interpretation event_order: strict_weak_order event_before
  by unfold_locales (auto simp: sint_eq_iff event_before_def split: if_splits)

interpretation rule_order: strict_weak_order rule_before
  by unfold_locales (auto simp: sint_eq_iff rule_before_def split: if_splits)

lemma event_before_total:
  "\<not> event_before a b \<Longrightarrow> \<not> event_before b a \<Longrightarrow> ev_sequence a = ev_sequence b"
  by (auto simp: event_before_def split: if_splits dest: signed_word_eqI)

lemma rule_before_total: "\<not> rule_before a b \<Longrightarrow> \<not> rule_before b a \<Longrightarrow> rule_id a = rule_id b"
  by (auto simp: rule_before_def split: if_splits dest: signed_word_eqI)

lemma distinct_map_eqD: "distinct (map f xs) \<Longrightarrow> x \<in> set xs \<Longrightarrow> y \<in> set xs \<Longrightarrow> f x = f y \<Longrightarrow> x = y"
  by (auto simp: distinct_map dest: inj_onD)

lemma sorted_wrt_filterI: "sorted_wrt R xs \<Longrightarrow> sorted_wrt R (filter P xs)"
  by (induction xs) auto

text \<open>
  C37: \<open>drain\<close> hands out exactly the events due by \<open>tick\<close>, each once, with no event before one it
  must follow (earlier tick, then higher priority, then earlier publication), and keeps the rest.
  The order in which the queue happens to hold its events has no influence.
\<close>

theorem drain_deterministic:
  assumes "distinct (map ev_sequence (eq_pending q))" "mset (eq_pending q') = mset (eq_pending q)"
    "eq_next_sequence q' = eq_next_sequence q"
  shows "drain q' tick = drain q tick \<and>
    sorted_wrt (\<lambda>a b. \<not> event_before b a) (fst (drain q tick)) \<and>
    mset (fst (drain q tick)) + mset (eq_pending (snd (drain q tick))) = mset (eq_pending q) \<and>
    set (fst (drain q tick)) = {e \<in> set (eq_pending q). ev_target_tick e \<le> tick}"
proof -
  have "stable_sort event_before (eq_pending q) = stable_sort event_before (eq_pending q')"
    by (rule event_order.stable_sort_mset_cong)
       (use assms in \<open>auto intro: distinct_map_eqD [where f = ev_sequence] event_before_total\<close>)
  then have "drain q' tick = drain q tick"
    using assms(3) by (simp add: drain_def Let_def)
  moreover have "mset (filter P xs) + mset (filter (\<lambda>x. \<not> P x) xs) = mset xs"
    for P and xs :: "Event list"
    by (induction xs) auto
  ultimately show ?thesis
    by (auto simp: drain_def Let_def intro: sorted_wrt_filterI event_order.sorted_stable_sort)
qed


lemma drain_frame [frame_simps]: "eq_next_sequence (snd (drain q tick)) = eq_next_sequence q"
  by (simp add: drain_def Let_def)

definition example_event :: "u64 \<Rightarrow> u64 \<Rightarrow> i32 \<Rightarrow> Event" where
  "example_event n tick priority =
     \<lparr>ev_sequence = n, ev_target_tick = tick, ev_priority = priority, ev_type = ''hit'',
      ev_subject = WorldId 7, ev_payload = fmempty\<rparr>"

theorem drain_deterministic_witness:
  "drain \<lparr>eq_next_sequence = 4, eq_pending = [example_event 3 1 5, example_event 1 1 0]\<rparr> 1 =
   drain \<lparr>eq_next_sequence = 4, eq_pending = [example_event 1 1 0, example_event 3 1 5]\<rparr> 1"
  using drain_deterministic
    [of "\<lparr>eq_next_sequence = 4, eq_pending = [example_event 1 1 0, example_event 3 1 5]\<rparr>"
        "\<lparr>eq_next_sequence = 4, eq_pending = [example_event 3 1 5, example_event 1 1 0]\<rparr>" 1]
  by (simp add: example_event_def)

section \<open>Dispatch\<close>

definition listens :: "Event \<Rightarrow> 's Subscription \<Rightarrow> bool" where
  "listens e sub \<longleftrightarrow> sub_type sub = ev_type e \<or> sub_type sub = ''*''"

lemma fst_notify: "fst (notify e subs n s) = n + length (filter (listens e) subs)"
  by (induction subs arbitrary: n s) (simp_all add: listens_def)

lemma fst_dispatch_loop:
  "fst (dispatch_loop subs es n s) = n + (\<Sum>e\<leftarrow>es. length (filter (listens e) subs))"
proof (induction es arbitrary: n s)
  case Nil
  then show ?case by simp
next
  case (Cons e es)
  obtain m s' where "notify e subs n s = (m, s')" by (metis surj_pair)
  with Cons fst_notify [of e subs n s] show ?case by simp
qed

text \<open>
  A dispatch calls, for every event that was due when it began, every subscription of its type
  or of the wildcard once, whatever the handlers do: an event that a handler publishes, even one
  due at this very tick, is not delivered in the same dispatch.
\<close>

lemma dispatch_due_count:
  "fst (dispatch_due subs s tick) =
     (\<Sum>e\<leftarrow>fst (drain (fst s) tick). length (filter (listens e) subs))"
  by (simp add: dispatch_due_def case_prod_beta fst_dispatch_loop)

section \<open>Snapshots of the bus\<close>

lemma events_restorable_eq:
  "events_restorable limit previous es \<longleftrightarrow>
     ascending_below ev_sequence limit previous es \<and> (\<forall>e\<in>set es. ev_type e \<noteq> [])"
  by (induction es arbitrary: previous) auto

definition events_valid :: "EventBusSnapshot \<Rightarrow> bool" where
  "events_valid s \<longleftrightarrow>
     ebs_next_sequence s \<noteq> 0 \<and> distinct (map ev_sequence (ebs_pending s)) \<and>
     (\<forall>e\<in>set (ebs_pending s).
        ev_sequence e \<noteq> 0 \<and> ev_sequence e < ebs_next_sequence s \<and> ev_type e \<noteq> [])"

lemma eq_restore_iff: "fst (eq_restore q s) \<longleftrightarrow> events_valid s"
  by (auto simp: eq_restore_def events_valid_def Let_def events_restorable_eq ascending_below_sorted)

text \<open>
  \<open>restore\<close> of the bus accepts exactly the snapshots with a nonzero next sequence and pending
  events of pairwise different, already issued sequence numbers and nonempty types; the restored
  queue then drains, at every tick, the same events in the same order as the original.
\<close>

lemma eq_restore_snapshot:
  "(fst (eq_restore q0 s) \<longleftrightarrow> events_valid s) \<and>
   (\<not> events_valid s \<longrightarrow> snd (eq_restore q0 s) = q0) \<and>
   (events_valid (eq_snapshot q) \<longrightarrow>
      (\<forall>tick. fst (drain (snd (eq_restore q0 (eq_snapshot q))) tick) = fst (drain q tick)))"
proof (intro conjI impI allI)
  show "fst (eq_restore q0 s) \<longleftrightarrow> events_valid s" by (rule eq_restore_iff)
  show "snd (eq_restore q0 s) = q0" if "\<not> events_valid s"
    using that eq_restore_iff [of q0 s] by (auto simp: eq_restore_def Let_def split: if_splits)
  fix tick
  assume v: "events_valid (eq_snapshot q)"
  then have "snd (eq_restore q0 (eq_snapshot q)) =
      q\<lparr>eq_pending := stable_sort (lt_key ev_sequence) (eq_pending q)\<rparr>"
    using eq_restore_iff [of q0 "eq_snapshot q"]
    by (auto simp: eq_restore_def eq_snapshot_def Let_def split: if_splits)
  moreover have "stable_sort event_before (stable_sort (lt_key ev_sequence) (eq_pending q)) =
      stable_sort event_before (eq_pending q)"
    by (rule event_order.stable_sort_mset_cong)
       (use v in \<open>auto simp: events_valid_def eq_snapshot_def
          intro: distinct_map_eqD [where f = ev_sequence] event_before_total\<close>)
  ultimately show "fst (drain (snd (eq_restore q0 (eq_snapshot q))) tick) = fst (drain q tick)"
    by (simp add: drain_def Let_def)
qed

text \<open>
  \<open>publish\<close> does not check the type, \<open>restore\<close> does: a pending event with an empty type makes
  every snapshot of the bus unrestorable.
\<close>

lemma empty_type_blocks_restore:
  "\<not> fst (eq_restore q0 (eq_snapshot (snd (publish q tick priority [] subject payload))))"
  unfolding eq_restore_iff
  by (simp add: events_valid_def eq_snapshot_def publish_def schedule_def Let_def)

section \<open>The decision table\<close>

definition rule_ok :: "Rule \<Rightarrow> bool" where
  "rule_ok r \<longleftrightarrow> rule_id r \<noteq> [] \<and> rule_version r \<noteq> 0 \<and> rule_event_type r \<noteq> [] \<and>
     expression_valid (rule_condition r)"

definition table_wf :: "DecisionTable \<Rightarrow> bool" where
  "table_wf rows \<longleftrightarrow>
     sorted_wrt (\<lambda>a b. \<not> rule_before b a) rows \<and> distinct (map rule_id rows) \<and>
     (\<forall>r\<in>set rows. rule_ok r)"

lemma table_wf_insert [wf_intros]:
  assumes "table_wf rows"
  shows "table_wf (snd (table_insert rows r))"
proof (cases "rule_ok r \<and> rule_id r \<notin> rule_id ` set rows")
  case True
  have "distinct (map rule_id (stable_sort rule_before (rows @ [r]))) =
      distinct (map rule_id (rows @ [r]))"
    by (rule mset_eq_imp_distinct_iff) simp
  with True assms rule_order.sorted_stable_sort [of "rows @ [r]"] show ?thesis
    by (auto simp: table_insert_def table_wf_def rule_ok_def list_ex_iff)
next
  case False
  with assms show ?thesis
    by (auto simp: table_insert_def rule_ok_def list_ex_iff)
qed

lemma remove_first_Some:
  "remove_first P xs = Some ys \<Longrightarrow> \<exists>us x vs. xs = us @ x # vs \<and> P x \<and> ys = us @ vs"
proof (induction xs arbitrary: ys)
  case Nil
  then show ?case by simp
next
  case (Cons x xs)
  show ?case
  proof (cases "P x")
    case True
    with Cons.prems show ?thesis by (intro exI [of _ "[]"]) auto
  next
    case False
    with Cons.prems obtain zs where "remove_first P xs = Some zs" "ys = x # zs" by auto
    with Cons.IH obtain us y vs where "xs = us @ y # vs" "P y" "zs = us @ vs" by blast
    with \<open>ys = x # zs\<close> show ?thesis by (intro exI [of _ "x # us"]) auto
  qed
qed

lemma table_wf_erase [wf_intros]: "table_wf rows \<Longrightarrow> table_wf (snd (table_erase rows i))"
  by (auto simp: table_erase_def table_wf_def sorted_wrt_append split: option.split
        dest!: remove_first_Some)

fun insert_all :: "DecisionTable \<Rightarrow> Rule list \<Rightarrow> DecisionTable" where
  "insert_all rows [] = rows"
| "insert_all rows (r # rs) = insert_all (snd (table_insert rows r)) rs"

lemma table_wf_insert_all: "table_wf rows \<Longrightarrow> table_wf (insert_all rows rs)"
  by (induction rs arbitrary: rows) (auto intro: table_wf_insert)

lemma mset_insert_all:
  "distinct (map rule_id rs) \<Longrightarrow> \<forall>r\<in>set rs. rule_ok r \<Longrightarrow>
     \<forall>r\<in>set rs. rule_id r \<notin> rule_id ` set rows \<Longrightarrow>
     mset (insert_all rows rs) = mset rows + mset rs"
proof (induction rs arbitrary: rows)
  case Nil
  then show ?case by simp
next
  case (Cons r rs)
  have "rule_id r \<notin> rule_id ` set rows" using Cons.prems(3) by simp
  then have "\<not> list_ex (\<lambda>existing. rule_id existing = rule_id r) rows"
    unfolding list_ex_iff by (metis image_eqI)
  with Cons.prems(2) have "snd (table_insert rows r) = stable_sort rule_before (rows @ [r])"
    by (simp add: table_insert_def rule_ok_def)
  moreover have "mset (insert_all (stable_sort rule_before (rows @ [r])) rs) =
      mset (stable_sort rule_before (rows @ [r])) + mset rs"
  proof (rule Cons.IH)
    show "distinct (map rule_id rs)" "\<forall>r\<in>set rs. rule_ok r" using Cons.prems(1,2) by simp_all
    show "\<forall>x\<in>set rs. rule_id x \<notin> rule_id ` set (stable_sort rule_before (rows @ [r]))"
      using Cons.prems(1,3) by (auto simp: image_iff)
  qed
  ultimately show ?case by simp
qed

text \<open>
  The order of the rows, and with it the order in which rules fire, does not depend on the order
  in which rules of different ids were registered; it is by descending priority, then by id.
\<close>

lemma rule_order_independent:
  assumes "distinct (map rule_id rs)" "\<forall>r\<in>set rs. rule_ok r" "mset rs' = mset rs"
  shows "insert_all [] rs' = insert_all [] rs \<and> mset (insert_all [] rs) = mset rs \<and>
    sorted_wrt rule_before (insert_all [] rs)"
proof -
  have wf: "table_wf (insert_all [] xs)" for xs
    by (rule table_wf_insert_all) (simp add: table_wf_def)
  have rs': "distinct (map rule_id rs')" "\<forall>r\<in>set rs'. rule_ok r"
    using assms(1) mset_eq_imp_distinct_iff [of "map rule_id rs'" "map rule_id rs"]
      assms(2) mset_eq_setD [OF assms(3)] by (simp_all add: assms(3))
  have M: "mset (insert_all [] rs) = mset rs" "mset (insert_all [] rs') = mset rs'"
    using mset_insert_all [OF assms(1,2), of "[]"] mset_insert_all [OF rs', of "[]"] by simp_all
  have sets: "set (insert_all [] rs) = set rs"
    using M(1) by (rule mset_eq_setD)
  have "insert_all [] rs = insert_all [] rs'"
  proof (rule rule_order.sorted_unique)
    show "sorted_wrt (\<lambda>a b. \<not> rule_before b a) (insert_all [] rs)"
      "sorted_wrt (\<lambda>a b. \<not> rule_before b a) (insert_all [] rs')"
      using wf by (simp_all add: table_wf_def)
    show "mset (insert_all [] rs) = mset (insert_all [] rs')"
      using M assms(3) by simp
    show "a = b" if "a \<in> set (insert_all [] rs)" "b \<in> set (insert_all [] rs)"
      "\<not> rule_before a b" "\<not> rule_before b a" for a b
      using distinct_map_eqD [OF assms(1)] rule_before_total that sets by blast
  qed
  moreover have "sorted_wrt rule_before (insert_all [] rs)"
  proof -
    have "sorted_wrt (\<lambda>a b. \<not> rule_before b a) xs \<Longrightarrow> distinct (map rule_id xs) \<Longrightarrow>
        sorted_wrt rule_before xs" for xs
    proof (induction xs)
      case (Cons a xs)
      have "rule_before a x" if "x \<in> set xs" for x
        using Cons.prems that rule_before_total [of a x] by force
      with Cons show ?case by simp
    qed simp
    then show ?thesis using wf [of rs] by (simp add: table_wf_def)
  qed
  ultimately show ?thesis using M by simp
qed

definition example_rule :: "string \<Rightarrow> i32 \<Rightarrow> Rule" where
  "example_rule i priority =
     \<lparr>rule_id = i, rule_version = 1, rule_priority = priority, rule_event_type = ''hit'',
      rule_condition = [], rule_actions = [SetPropertyAction (WorldId 0) ''hp'' (VInt64 0)]\<rparr>"

section \<open>Evaluation\<close>

definition fires :: "Event \<Rightarrow> Rule \<Rightarrow> bool" where
  "fires e r \<longleftrightarrow> rule_event_type r = ev_type e \<and> expression_evaluate (rule_condition r) (ev_payload e)"

fun action_payload :: "Event \<Rightarrow> RuleAction \<Rightarrow> CommandPayload" where
  "action_payload e (SetPropertyAction target key v) =
     SetPropertyCommand (if wid_valid target then target else ev_subject e) key v"

definition event_payloads :: "Rule list \<Rightarrow> Event \<Rightarrow> CommandPayload list" where
  "event_payloads rows e =
     concat (map (\<lambda>r. map (action_payload e) (rule_actions r)) (filter (fires e) rows))"

definition enqueue_all :: "u64 \<Rightarrow> CommandPayload list \<Rightarrow> CommandBuffer \<Rightarrow> CommandBuffer" where
  "enqueue_all tick payloads b = foldl (\<lambda>b p. snd (enqueue_plain b tick p)) b payloads"

lemma enqueue_all_append [simp]:
  "enqueue_all tick (xs @ ys) b = enqueue_all tick ys (enqueue_all tick xs b)"
  by (simp add: enqueue_all_def)

lemma enqueue_all_Nil [simp]: "enqueue_all tick [] b = b"
  by (simp add: enqueue_all_def)

lemma run_actions_eq:
  "run_actions tick e actions (report, b) =
     (report\<lparr>rr_commands_enqueued := rr_commands_enqueued report + length actions\<rparr>,
      enqueue_all tick (map (action_payload e) actions) b)"
proof (induction actions arbitrary: report b)
  case Nil
  then show ?case by simp
next
  case (Cons a actions)
  then show ?case by (cases a) (simp add: enqueue_all_def Let_def)
qed

lemma run_rules_eq:
  "run_rules tick e rows (report, b) =
     (report\<lparr>rr_rules_fired := rr_rules_fired report + length (filter (fires e) rows),
             rr_commands_enqueued := rr_commands_enqueued report + length (event_payloads rows e)\<rparr>,
      enqueue_all tick (event_payloads rows e) b)"
  by (induction rows arbitrary: report b)
     (simp_all add: fires_def event_payloads_def run_actions_eq)

lemma run_events_eq:
  "run_events tick rows es (report, b) =
     (report\<lparr>rr_rules_fired := rr_rules_fired report + (\<Sum>e\<leftarrow>es. length (filter (fires e) rows)),
             rr_commands_enqueued :=
               rr_commands_enqueued report + length (concat (map (event_payloads rows) es))\<rparr>,
      enqueue_all tick (concat (map (event_payloads rows) es)) b)"
  by (induction es arbitrary: report b) (simp_all add: run_rules_eq)

lemma enqueue_all_pending:
  assumes "cb_next_sequence b \<noteq> 0" "unat (cb_next_sequence b) + length payloads \<le> 2 ^ 64"
  shows "\<exists>new. cb_pending (enqueue_all tick payloads b) = cb_pending b @ new \<and>
     map cmd_payload new = payloads \<and>
     map (unat \<circ> cmd_sequence) new =
       [unat (cb_next_sequence b) ..< unat (cb_next_sequence b) + length payloads] \<and>
     (\<forall>c\<in>set new. cmd_target_tick c = tick \<and> cmd_meta c = default_meta)"
  using assms
proof (induction payloads arbitrary: b)
  case Nil
  then show ?case by simp
next
  case (Cons p payloads)
  define b1 where "b1 = snd (enqueue_plain b tick p)"
  have b1: "cb_next_sequence b1 = cb_next_sequence b + 1"
    "cb_pending b1 = cb_pending b @ [\<lparr>cmd_sequence = cb_next_sequence b, cmd_target_tick = tick,
       cmd_payload = p, cmd_meta = default_meta\<rparr>]"
    using Cons.prems(1) by (simp_all add: b1_def enqueue_plain_def enqueue_def Let_def)
  have all: "enqueue_all tick (p # payloads) b = enqueue_all tick payloads b1"
    by (simp add: enqueue_all_def b1_def)
  show ?case
  proof (cases payloads)
    case Nil
    with all b1 show ?thesis by simp
  next
    case more: (Cons q qs)
    then have "unat (cb_next_sequence b) < 2 ^ 64 - 1" using Cons.prems(2) by simp
    then have "cb_next_sequence b \<noteq> - 1" by (auto simp: unsigned_minus_1_eq_mask mask_eq_exp_minus_1)
    then have next1: "unat (cb_next_sequence b1) = Suc (unat (cb_next_sequence b))"
      "cb_next_sequence b1 \<noteq> 0"
      using unat_inc inc_nonzero b1(1) by auto
    then have "unat (cb_next_sequence b1) + length payloads \<le> 2 ^ 64" using Cons.prems(2) by simp
    from Cons.IH [OF next1(2) this] obtain new where
      "cb_pending (enqueue_all tick payloads b1) = cb_pending b1 @ new"
      "map cmd_payload new = payloads"
      "map (unat \<circ> cmd_sequence) new =
         [unat (cb_next_sequence b1) ..< unat (cb_next_sequence b1) + length payloads]"
      "\<forall>c\<in>set new. cmd_target_tick c = tick \<and> cmd_meta c = default_meta"
      by blast
    with all b1(2) next1(1) show ?thesis
      by (intro exI [of _ "\<lparr>cmd_sequence = cb_next_sequence b, cmd_target_tick = tick,
           cmd_payload = p, cmd_meta = default_meta\<rparr> # new"])
         (simp add: upt_conv_Cons comp_def del: upt_Suc)
  qed
qed

text \<open>
  An evaluation drains the due events and, for each of them in delivery order, for each rule
  that fires in row order, enqueues one property command per action, for the evaluated tick,
  addressed to the action's target or else to the event's subject. The commands get consecutive
  sequence numbers and the report's counters are exact, as long as sequence numbers last.
\<close>

lemma engine_evaluate_commands:
  assumes "engine_evaluate e tick b = (report, e', b')"
    and "payloads = concat (map (event_payloads (re_table e)) (fst (drain (re_events e) tick)))"
    and "cb_next_sequence b \<noteq> 0" "unat (cb_next_sequence b) + length payloads \<le> 2 ^ 64"
  shows "(\<exists>new. cb_pending b' = cb_pending b @ new \<and> map cmd_payload new = payloads \<and>
       map (unat \<circ> cmd_sequence) new =
         [unat (cb_next_sequence b) ..< unat (cb_next_sequence b) + length payloads] \<and>
       (\<forall>c\<in>set new. cmd_target_tick c = tick \<and> cmd_meta c = default_meta)) \<and>
    rr_events_processed report = length (fst (drain (re_events e) tick)) \<and>
    rr_commands_enqueued report = length payloads \<and>
    rr_rules_fired report =
      (\<Sum>ev\<leftarrow>fst (drain (re_events e) tick). length (filter (fires ev) (re_table e))) \<and>
    re_table e' = re_table e \<and> re_events e' = snd (drain (re_events e) tick)"
proof -
  have "b' = enqueue_all tick payloads b"
    using assms(1,2) by (simp add: engine_evaluate_def case_prod_beta Let_def run_events_eq)
  moreover have "rr_events_processed report = length (fst (drain (re_events e) tick)) \<and>
    rr_commands_enqueued report = length payloads \<and>
    rr_rules_fired report =
      (\<Sum>ev\<leftarrow>fst (drain (re_events e) tick). length (filter (fires ev) (re_table e))) \<and>
    re_table e' = re_table e \<and> re_events e' = snd (drain (re_events e) tick)"
    using assms(1,2) by (auto simp: engine_evaluate_def case_prod_beta Let_def run_events_eq)
  ultimately show ?thesis
    using enqueue_all_pending [OF assms(3,4)] by blast
qed

end
