(* ===== verification/Gateway_Types.thy ===== *)
theory Gateway_Types
  imports World Float64
begin

text \<open>
  \<^verbatim>\<open>libs/gateway\<close>: the vocabulary of the gateway (\<^verbatim>\<open>types.hpp\<close>), its stable error codes
  (\<^verbatim>\<open>errors.cpp\<close>), the validation of its configuration (\<^verbatim>\<open>config.cpp\<close>) and the fixture
  implementations of authentication and authorization (\<^verbatim>\<open>auth.cpp\<close>).
\<close>

section \<open>Types\<close>

datatype SessionId = SessionId (sid_value: u64)

instantiation SessionId :: linorder
begin

definition less_eq_SessionId :: "SessionId \<Rightarrow> SessionId \<Rightarrow> bool" where
  "less_eq_SessionId a b \<longleftrightarrow> sid_value a \<le> sid_value b"

definition less_SessionId :: "SessionId \<Rightarrow> SessionId \<Rightarrow> bool" where
  "less_SessionId a b \<longleftrightarrow> sid_value a < sid_value b"

instance
  by standard (auto simp: less_eq_SessionId_def less_SessionId_def SessionId.expand)

end

definition sid_valid :: "SessionId \<Rightarrow> bool" where
  "sid_valid i \<longleftrightarrow> sid_value i \<noteq> 0"

record Principal =
  pr_id :: string
  pr_administrator :: bool

datatype CommandParams =
    SetPropertyParams (sp_key: string) (sp_value: Value)
  | CreateObjectParams (cp_requested_id: WorldId) (cp_semantic_type: string)
      (cp_geometry_ref: string) (cp_position: PositionEcef) (cp_properties: PropertyBag)
  | DestroyObjectParams

text \<open>Sixteen raw bytes.\<close>

definition durable_request_id_bytes :: nat where
  "durable_request_id_bytes = 16"

type_synonym DurableRequestId = bytes

record ExternalCommand =
  ec_session :: SessionId
  ec_client_sequence :: u64
  ec_target_wid :: WorldId
  ec_params :: CommandParams
  ec_expected_object_version :: u64
  ec_target_tick_hint :: u64
  ec_request_id :: "DurableRequestId option"

datatype ReceiptStatus = RS_accepted | RS_applied | RS_rejected | RS_duplicate | RS_durable_accepted

section \<open>Errors\<close>

datatype GatewayError =
    GE_none
  | GE_protocol_incompatible
  | GE_auth_failed
  | GE_permission_denied
  | GE_rate_limited
  | GE_invalid_request
  | GE_limit_exceeded
  | GE_ticket_invalid
  | GE_epoch_mismatch
  | GE_ack_unknown
  | GE_baseline_unavailable
  | GE_slow_client
  | GE_version_conflict
  | GE_missing_object
  | GE_tick_out_of_window
  | GE_unsupported_operation
  | GE_idempotency_conflict
  | GE_durability_unavailable

fun error_code :: "GatewayError \<Rightarrow> string" where
  "error_code GE_none = ''''"
| "error_code GE_protocol_incompatible = ''GWG001''"
| "error_code GE_auth_failed = ''GWG002''"
| "error_code GE_permission_denied = ''GWG003''"
| "error_code GE_rate_limited = ''GWG004''"
| "error_code GE_invalid_request = ''GWG005''"
| "error_code GE_limit_exceeded = ''GWG006''"
| "error_code GE_ticket_invalid = ''GWG101''"
| "error_code GE_epoch_mismatch = ''GWG102''"
| "error_code GE_ack_unknown = ''GWG103''"
| "error_code GE_baseline_unavailable = ''GWG104''"
| "error_code GE_slow_client = ''GWG105''"
| "error_code GE_version_conflict = ''GWG201''"
| "error_code GE_missing_object = ''GWG202''"
| "error_code GE_tick_out_of_window = ''GWG203''"
| "error_code GE_unsupported_operation = ''GWG204''"
| "error_code GE_idempotency_conflict = ''GWG205''"
| "error_code GE_durability_unavailable = ''GWG206''"

lemma error_code_inject: "error_code a = error_code b \<Longrightarrow> a = b"
  by (cases a; cases b) simp_all

record CommandReceipt =
  rc_status :: ReceiptStatus
  rc_error :: GatewayError
  rc_client_sequence :: u64
  rc_ingress_sequence :: u64
  rc_durable_lsn :: u64

section \<open>Configuration\<close>

record GatewayConfig =
  gc_max_state_queue_bytes :: u64
  gc_max_reliable_queue_bytes :: u64
  gc_ack_timeout_seconds :: u32
  gc_heartbeat_interval_seconds :: u32
  gc_stream_ticket_ttl_seconds :: u32
  gc_command_rate_per_session :: u32
  gc_command_lead_ticks :: u64
  gc_max_command_lead_ticks :: u64
  gc_gateway_io_threads :: u32
  gc_encoding_workers :: u32
  gc_max_sessions :: u64
  gc_max_command_parameters :: u64
  gc_max_aoi_extent_meters :: f64
  gc_initial_ingress_sequence :: u64

text \<open>The diagnostic is the second component; it is left alone on success.\<close>

definition validate_gateway :: "GatewayConfig \<Rightarrow> string \<Rightarrow> bool \<times> string" where
  "validate_gateway c diagnostic =
     (if gc_max_state_queue_bytes c = 0
        then (False, ''gateway: max_state_queue_bytes must be positive'')
      else if gc_max_reliable_queue_bytes c = 0
        then (False, ''gateway: max_reliable_queue_bytes must be positive'')
      else if gc_ack_timeout_seconds c = 0
        then (False, ''gateway: ack_timeout_seconds must be positive'')
      else if gc_heartbeat_interval_seconds c = 0
        then (False, ''gateway: heartbeat_interval_seconds must be positive'')
      else if gc_stream_ticket_ttl_seconds c = 0
        then (False, ''gateway: stream_ticket_ttl_seconds must be positive'')
      else if gc_command_rate_per_session c = 0
        then (False, ''gateway: command_rate_per_session must be positive'')
      else if gc_command_lead_ticks c = 0
        then (False, ''gateway: command_lead_ticks must be positive'')
      else if gc_max_command_lead_ticks c < gc_command_lead_ticks c
        then (False, ''gateway: max_command_lead_ticks must be at least command_lead_ticks'')
      else if gc_gateway_io_threads c = 0
        then (False, ''gateway: gateway_io_threads must be positive'')
      else if gc_encoding_workers c = 0
        then (False, ''gateway: encoding_workers must be positive'')
      else if gc_max_sessions c = 0
        then (False, ''gateway: max_sessions must be positive'')
      else if f64_le (gc_max_aoi_extent_meters c) (F64 0)
        then (False, ''gateway: max_aoi_extent_meters must be positive'')
      else (True, diagnostic))"

text \<open>
  Validation accepts exactly the configurations whose counts and intervals are positive, whose
  largest command lead is not below the least, and whose AOI extent is positive, or is not a
  number: the last check is written with an operator that is false on NaN. A diagnostic is set
  exactly on refusal.
\<close>

lemma validate_gateway_iff:
  "(fst (validate_gateway c d) \<longleftrightarrow>
      gc_max_state_queue_bytes c \<noteq> 0 \<and> gc_max_reliable_queue_bytes c \<noteq> 0 \<and>
      gc_ack_timeout_seconds c \<noteq> 0 \<and> gc_heartbeat_interval_seconds c \<noteq> 0 \<and>
      gc_stream_ticket_ttl_seconds c \<noteq> 0 \<and> gc_command_rate_per_session c \<noteq> 0 \<and>
      gc_command_lead_ticks c \<noteq> 0 \<and> gc_command_lead_ticks c \<le> gc_max_command_lead_ticks c \<and>
      gc_gateway_io_threads c \<noteq> 0 \<and> gc_encoding_workers c \<noteq> 0 \<and> gc_max_sessions c \<noteq> 0 \<and>
      (f64_nan (gc_max_aoi_extent_meters c) \<or> f64_lt (F64 0) (gc_max_aoi_extent_meters c))) \<and>
   (fst (validate_gateway c []) \<longleftrightarrow> snd (validate_gateway c []) = [])"
proof -
  have zero: "f64_finite (F64 0)" "f64_rat (F64 0) = 0" "\<not> f64_negative (F64 0)" "\<not> f64_nan (F64 0)"
    by (simp_all add: f64_finite_def f64_rat_def f64_magnitude_def f64_exponent_def f64_fraction_def
          f64_nat_def f64_negative_def f64_nan_def)
  have "f64_le x (F64 0) \<longleftrightarrow> \<not> (f64_nan x \<or> f64_lt (F64 0) x)" for x
  proof (cases "f64_nan x")
    case False
    show ?thesis
    proof (cases "f64_finite x")
      case True
      with False zero show ?thesis by (auto simp: f64_le_finite f64_lt_finite)
    next
      case inf: False
      then have "x \<noteq> F64 0" using zero by auto
      with False inf zero show ?thesis
        by (auto simp: f64_le_def f64_lt_def f64_eq_def)
    qed
  qed (simp add: f64_le_def f64_lt_def f64_eq_def)
  note extent = this
  have "fst (validate_gateway c []) \<longleftrightarrow> snd (validate_gateway c []) = []"
    unfolding validate_gateway_def by (intro diagnostic_guard) simp_all
  then show ?thesis
    unfolding validate_gateway_def fst_guard extent by (simp add: not_less)
qed

section \<open>Fixtures\<close>

type_synonym FixtureAuthentication = "(string, Principal) fmap"
type_synonym FixtureAuthorization = "(string, bool) fmap"

text \<open>\<open>emplace\<close> keeps an existing entry.\<close>

definition add_credential :: "FixtureAuthentication \<Rightarrow> string \<Rightarrow> Principal \<Rightarrow> FixtureAuthentication" where
  "add_credential credentials token p =
     (if fm_has credentials token then credentials else fmupd token p credentials)"

definition authenticate :: "FixtureAuthentication \<Rightarrow> string \<Rightarrow> Principal option" where
  "authenticate credentials token = fmlookup credentials token"

definition allow_writable_property :: "FixtureAuthorization \<Rightarrow> string \<Rightarrow> FixtureAuthorization" where
  "allow_writable_property keys key = (if fm_has keys key then keys else fmupd key True keys)"

definition can_observe :: "Principal \<Rightarrow> bool" where
  "can_observe p \<longleftrightarrow> pr_id p \<noteq> []"

definition can_write_property :: "FixtureAuthorization \<Rightarrow> Principal \<Rightarrow> WorldId \<Rightarrow> string \<Rightarrow> bool" where
  "can_write_property keys p target key = (if pr_administrator p then True else fm_has keys key)"

definition can_manage_objects :: "Principal \<Rightarrow> bool" where
  "can_manage_objects p = pr_administrator p"

end
