(* ===== verification/Gateway_Queues.thy ===== *)
theory Gateway_Queues
  imports Gateway_Types
begin

text \<open>
  \<^verbatim>\<open>libs/gateway/queues\<close> and \<^verbatim>\<open>ownership\<close>: the two outgoing queues of a connection and the registry
  of property leases. The lemmas show that the byte counters are exact, that both queues respect
  their limit, that the state queue holds at most one delta per baseline and that merging loses
  nothing but superseded frames, and that a property never has two writers at once.
\<close>

section \<open>The state queue\<close>

type_synonym FrameBytes = bytes

record QueuedFrame =
  qf_snapshot_id :: u64
  qf_baseline_snapshot_id :: u64
  qf_is_keyframe :: bool
  qf_bytes :: FrameBytes

text \<open>\<open>std::size_t\<close> counters are machine words: the limit comes from the configuration.\<close>

record StateQueue =
  sq_max_bytes :: u64
  sq_bytes :: u64
  sq_resync_required :: bool
  sq_frames :: "QueuedFrame list"

definition state_queue :: "u64 \<Rightarrow> StateQueue" where
  "state_queue max_bytes =
     \<lparr>sq_max_bytes = max_bytes, sq_bytes = 0, sq_resync_required = False, sq_frames = []\<rparr>"

definition frame_size :: "QueuedFrame \<Rightarrow> u64" where
  "frame_size f = of_nat (length (qf_bytes f))"

text \<open>The loop that erases the deltas of the same baseline.\<close>

fun erase_superseded :: "u64 \<Rightarrow> u64 \<Rightarrow> QueuedFrame list \<Rightarrow> u64 \<times> QueuedFrame list" where
  "erase_superseded baseline bytes [] = (bytes, [])"
| "erase_superseded baseline bytes (f # fs) =
     (if \<not> qf_is_keyframe f \<and> qf_baseline_snapshot_id f = baseline
      then erase_superseded baseline (bytes - frame_size f) fs
      else let (bytes, rest) = erase_superseded baseline bytes fs in (bytes, f # rest))"

text \<open>The loop that drops the oldest frames while over the limit.\<close>

fun drop_oldest ::
  "u64 \<Rightarrow> u64 \<Rightarrow> bool \<Rightarrow> QueuedFrame list \<Rightarrow> u64 \<times> bool \<times> QueuedFrame list" where
  "drop_oldest max_bytes bytes resync (f # g # fs) =
     (if bytes > max_bytes then drop_oldest max_bytes (bytes - frame_size f) True (g # fs)
      else (bytes, resync, f # g # fs))"
| "drop_oldest max_bytes bytes resync fs = (bytes, resync, fs)"

definition sq_push :: "StateQueue \<Rightarrow> QueuedFrame \<Rightarrow> StateQueue" where
  "sq_push q frame =
     (let (bytes, frames) =
        (if qf_is_keyframe frame then (0, [])
         else erase_superseded (qf_baseline_snapshot_id frame) (sq_bytes q) (sq_frames q));
          bytes = bytes + frame_size frame;
          frames = frames @ [frame];
          (bytes, resync, frames) =
            drop_oldest (sq_max_bytes q) bytes (sq_resync_required q) frames
      in q\<lparr>sq_bytes := bytes, sq_resync_required := resync, sq_frames := frames\<rparr>)"

definition sq_pop :: "StateQueue \<Rightarrow> QueuedFrame option \<times> StateQueue" where
  "sq_pop q =
     (case sq_frames q of
        [] \<Rightarrow> (None, q)
      | f # fs \<Rightarrow> (Some f, q\<lparr>sq_bytes := sq_bytes q - frame_size f, sq_frames := fs\<rparr>))"

definition sq_empty :: "StateQueue \<Rightarrow> bool" where
  "sq_empty q \<longleftrightarrow> sq_frames q = []"

definition sq_size :: "StateQueue \<Rightarrow> nat" where
  "sq_size q = length (sq_frames q)"

definition sq_clear_resync :: "StateQueue \<Rightarrow> StateQueue" where
  "sq_clear_resync q = q\<lparr>sq_resync_required := False\<rparr>"

section \<open>The reliable queue\<close>

record ReliableQueue =
  rq_max_bytes :: u64
  rq_bytes :: u64
  rq_frames :: "FrameBytes list"

definition reliable_queue :: "u64 \<Rightarrow> ReliableQueue" where
  "reliable_queue max_bytes = \<lparr>rq_max_bytes = max_bytes, rq_bytes = 0, rq_frames = []\<rparr>"

definition rq_push :: "ReliableQueue \<Rightarrow> FrameBytes \<Rightarrow> bool \<times> ReliableQueue" where
  "rq_push q frame =
     (if rq_bytes q + of_nat (length frame) > rq_max_bytes q then (False, q)
      else (True, q\<lparr>rq_bytes := rq_bytes q + of_nat (length frame),
                    rq_frames := rq_frames q @ [frame]\<rparr>))"

definition rq_pop :: "ReliableQueue \<Rightarrow> FrameBytes option \<times> ReliableQueue" where
  "rq_pop q =
     (case rq_frames q of
        [] \<Rightarrow> (None, q)
      | f # fs \<Rightarrow> (Some f, q\<lparr>rq_bytes := rq_bytes q - of_nat (length f), rq_frames := fs\<rparr>))"

definition rq_empty :: "ReliableQueue \<Rightarrow> bool" where
  "rq_empty q \<longleftrightarrow> rq_frames q = []"

definition rq_size :: "ReliableQueue \<Rightarrow> nat" where
  "rq_size q = length (rq_frames q)"

section \<open>Property ownership\<close>

record Grant =
  grant_owner :: SessionId
  grant_lease_until_tick :: u64

type_synonym OwnershipRegistry = "(WorldId \<times> string, Grant) fmap"

definition own_acquire ::
  "OwnershipRegistry \<Rightarrow> SessionId \<Rightarrow> WorldId \<Rightarrow> string \<Rightarrow> u64 \<Rightarrow> u64 \<Rightarrow> bool \<times> OwnershipRegistry" where
  "own_acquire grants session target key lease_until_tick current_tick =
     (let granted = (True, fmupd (target, key)
            \<lparr>grant_owner = session, grant_lease_until_tick = lease_until_tick\<rparr> grants)
      in case fmlookup grants (target, key) of
        Some grant \<Rightarrow>
          if grant_owner grant \<noteq> session \<and> grant_lease_until_tick grant > current_tick
          then (False, grants) else granted
      | None \<Rightarrow> granted)"

definition own_release ::
  "OwnershipRegistry \<Rightarrow> SessionId \<Rightarrow> WorldId \<Rightarrow> string \<Rightarrow> bool \<times> OwnershipRegistry" where
  "own_release grants session target key =
     (case fmlookup grants (target, key) of
        None \<Rightarrow> (True, grants)
      | Some grant \<Rightarrow>
          if grant_owner grant \<noteq> session then (False, grants)
          else (True, fmdrop (target, key) grants))"

definition own_holds ::
  "OwnershipRegistry \<Rightarrow> SessionId \<Rightarrow> WorldId \<Rightarrow> string \<Rightarrow> u64 \<Rightarrow> bool" where
  "own_holds grants session target key current_tick =
     (case fmlookup grants (target, key) of
        None \<Rightarrow> False
      | Some grant \<Rightarrow>
          grant_owner grant = session \<and> grant_lease_until_tick grant > current_tick)"

definition own_release_all :: "OwnershipRegistry \<Rightarrow> SessionId \<Rightarrow> OwnershipRegistry" where
  "own_release_all grants session =
     fmfilter (\<lambda>k. \<not> (\<exists>g. fmlookup grants k = Some g \<and> grant_owner g = session)) grants"

definition own_size :: "OwnershipRegistry \<Rightarrow> nat" where
  "own_size grants = fm_size grants"


section \<open>What a queue of frames promises\<close>

fun pops :: "('q \<Rightarrow> 'a option \<times> 'q) \<Rightarrow> nat \<Rightarrow> 'q \<Rightarrow> 'a list \<times> 'q" where
  "pops pop 0 q = ([], q)"
| "pops pop (Suc n) q =
     (case pop q of
        (None, q1) \<Rightarrow> ([], q1)
      | (Some x, q1) \<Rightarrow> let (xs, q2) = pops pop n q1 in (x # xs, q2))"

locale frame_queue =
  fixes wf :: "'q \<Rightarrow> bool" and items :: "'q \<Rightarrow> 'a list" and pop :: "'q \<Rightarrow> 'a option \<times> 'q"
  assumes pop_empty: "items q = [] \<Longrightarrow> pop q = (None, q)"
    and pop_head: "wf q \<Longrightarrow> items q = x # xs \<Longrightarrow> fst (pop q) = Some x \<and> items (snd (pop q)) = xs"
    and pop_wf: "wf q \<Longrightarrow> wf (snd (pop q))"
begin

text \<open>Frames leave in their order, each once.\<close>

lemma pops_items:
  "wf q \<Longrightarrow> fst (pops pop n q) = take n (items q) \<and> items (snd (pops pop n q)) = drop n (items q) \<and>
     wf (snd (pops pop n q))"
proof (induction n arbitrary: q)
  case 0
  then show ?case by simp
next
  case (Suc n)
  show ?case
  proof (cases "items q")
    case Nil
    with Suc.prems pop_empty [OF Nil] show ?thesis by simp
  next
    case (Cons x xs)
    obtain q1 where p: "pop q = (Some x, q1)" "items q1 = xs"
      using pop_head [OF Suc.prems Cons] by (cases "pop q") auto
    moreover have "wf q1" using pop_wf [OF Suc.prems] p by simp
    ultimately show ?thesis
      using Suc.IH [of q1] Cons by (simp add: Let_def case_prod_beta)
  qed
qed

end

definition total_bytes :: "FrameBytes list \<Rightarrow> nat" where
  "total_bytes fs = sum_list (map length fs)"

lemma total_bytes_simps [simp]:
  "total_bytes [] = 0" "total_bytes (f # fs) = length f + total_bytes fs"
  "total_bytes (fs @ gs) = total_bytes fs + total_bytes gs"
  by (simp_all add: total_bytes_def)

section \<open>The reliable queue keeps everything it accepts\<close>

definition rq_wf :: "ReliableQueue \<Rightarrow> bool" where
  "rq_wf q \<longleftrightarrow> total_bytes (rq_frames q) = unat (rq_bytes q) \<and> rq_bytes q \<le> rq_max_bytes q"

lemma rq_wf_new [simp]: "rq_wf (reliable_queue n)"
  by (simp add: rq_wf_def reliable_queue_def)

lemma unat_add_of_nat:
  "unat (x :: u64) + n < 2 ^ 64 \<Longrightarrow> unat (x + of_nat n) = unat x + n"
  by (simp add: unat_word_ariths unat_of_nat take_bit_nat_eq_self)

lemma unat_sub_of_nat:
  "n \<le> unat (x :: u64) \<Longrightarrow> unat (x - of_nat n) = unat x - n"
proof -
  assume n: "n \<le> unat x"
  have "unat x < 2 ^ 64" using unsigned_less [of x] by simp
  with n have "unat (of_nat n :: u64) = n" by (simp add: unat_of_nat_u64)
  with n show ?thesis by (simp add: unat_sub word_le_nat_alt)
qed

lemma rq_push_wf:
  assumes "rq_wf q" "unat (rq_max_bytes q) + length f < 2 ^ 64"
  shows "rq_wf (snd (rq_push q f)) \<and>
    (fst (rq_push q f) \<longleftrightarrow> total_bytes (rq_frames q) + length f \<le> unat (rq_max_bytes q)) \<and>
    rq_frames (snd (rq_push q f)) = rq_frames q @ (if fst (rq_push q f) then [f] else []) \<and>
    rq_max_bytes (snd (rq_push q f)) = rq_max_bytes q"
proof -
  have "unat (rq_bytes q) + length f < 2 ^ 64"
    using assms by (simp add: rq_wf_def word_le_nat_alt)
  note S = unat_add_of_nat [OF this]
  show ?thesis
    using assms(1) S by (auto simp: rq_push_def rq_wf_def word_less_nat_alt word_le_nat_alt)
qed

interpretation rq: frame_queue rq_wf rq_frames rq_pop
proof
  fix q :: ReliableQueue and x xs
  assume wf: "rq_wf q"
  show "rq_wf (snd (rq_pop q))"
  proof (cases "rq_frames q")
    case (Cons f fs)
    with wf have "length f \<le> unat (rq_bytes q)" by (simp add: rq_wf_def)
    from unat_sub_of_nat [OF this] wf Cons show ?thesis
      by (auto simp: rq_wf_def rq_pop_def word_le_nat_alt)
  qed (use wf in \<open>simp add: rq_pop_def\<close>)
qed (simp_all add: rq_pop_def)

datatype RqOp = RqPush FrameBytes | RqPop

text \<open>The run keeps what was accepted and what was delivered.\<close>

fun rq_run ::
  "ReliableQueue \<Rightarrow> RqOp list \<Rightarrow> FrameBytes list \<times> FrameBytes list \<times> ReliableQueue" where
  "rq_run q [] = ([], [], q)"
| "rq_run q (RqPush f # ops) =
     (let (ok, q1) = rq_push q f; (acc, out, q2) = rq_run q1 ops
      in ((if ok then f # acc else acc), out, q2))"
| "rq_run q (RqPop # ops) =
     (let (x, q1) = rq_pop q; (acc, out, q2) = rq_run q1 ops
      in (acc, (case x of None \<Rightarrow> out | Some f \<Rightarrow> f # out), q2))"

lemma rq_max_pop [simp]: "rq_max_bytes (snd (rq_pop q)) = rq_max_bytes q"
  by (simp add: rq_pop_def split: list.split)

text \<open>
  C32: over any pushes and pops, the frames that left the reliable queue followed by the frames
  still in it are exactly the accepted frames in their order: none is lost, duplicated or
  reordered. The byte counter is exact and never above the limit.
\<close>

theorem reliable_queue_delivers:
  assumes "rq_wf q" "\<forall>f. RqPush f \<in> set ops \<longrightarrow> unat (rq_max_bytes q) + length f < 2 ^ 64"
    "rq_run q ops = (acc, out, q')"
  shows "out @ rq_frames q' = rq_frames q @ acc \<and>
    unat (rq_bytes q') = total_bytes (rq_frames q') \<and> rq_bytes q' \<le> rq_max_bytes q"
  using assms
proof (induction q ops arbitrary: acc out q' rule: rq_run.induct)
  case (1 q)
  then show ?case by (simp add: rq_wf_def)
next
  case (2 q f ops)
  obtain ok q1 where p: "rq_push q f = (ok, q1)" by fastforce
  obtain acc1 out1 where r: "rq_run q1 ops = (acc1, out1, q')"
    using "2.prems"(3) p by (auto simp: Let_def split: prod.splits)
  have W: "rq_wf q1" "rq_frames q1 = rq_frames q @ (if ok then [f] else [])"
    "rq_max_bytes q1 = rq_max_bytes q"
    using rq_push_wf [OF "2.prems"(1), of f] "2.prems"(2) p by auto
  have "out1 @ rq_frames q' = rq_frames q1 @ acc1 \<and>
    unat (rq_bytes q') = total_bytes (rq_frames q') \<and> rq_bytes q' \<le> rq_max_bytes q1"
    by (rule "2.IH" [OF p [symmetric] refl W(1) _ r]) (use "2.prems"(2) W(3) in auto)
  with W "2.prems"(3) p r show ?case by (auto split: if_splits)
next
  case (3 q ops)
  obtain x q1 where p: "rq_pop q = (x, q1)" by fastforce
  obtain acc1 out1 where r: "rq_run q1 ops = (acc1, out1, q')"
    using "3.prems"(3) p by (auto simp: Let_def split: prod.splits)
  have W: "rq_wf q1" "rq_max_bytes q1 = rq_max_bytes q"
    using rq.pop_wf [OF "3.prems"(1)] rq_max_pop [of q] p by auto
  have "out1 @ rq_frames q' = rq_frames q1 @ acc1 \<and>
    unat (rq_bytes q') = total_bytes (rq_frames q') \<and> rq_bytes q' \<le> rq_max_bytes q1"
    by (rule "3.IH" [OF p [symmetric] refl W(1) _ r]) (use "3.prems"(2) W(2) in auto)
  moreover have "rq_frames q = (case x of None \<Rightarrow> [] | Some f \<Rightarrow> [f]) @ rq_frames q1"
    using p by (auto simp: rq_pop_def split: list.splits)
  ultimately show ?case
    using W(2) "3.prems"(3) p r by (auto split: option.splits)
qed

theorem reliable_queue_delivers_witness:
  "\<exists>acc out q'. rq_run (reliable_queue 3) [RqPush [1, 2], RqPush [3, 4], RqPop, RqPush [5]] =
     (acc, out, q') \<and> out @ rq_frames q' = acc \<and> acc = [[1, 2], [5]]"
proof -
  obtain acc out q' where r:
    "rq_run (reliable_queue 3) [RqPush [1, 2], RqPush [3, 4], RqPop, RqPush [5]] = (acc, out, q')"
    by (metis surj_pair)
  moreover have "acc = [[1, 2], [5]]"
    using r by (auto simp: reliable_queue_def rq_push_def rq_pop_def word_less_nat_alt)
  ultimately show ?thesis
    using reliable_queue_delivers [OF rq_wf_new _ r] by (simp add: reliable_queue_def)
qed


section \<open>The state queue drops only what is superseded, or says so\<close>

definition sq_total :: "QueuedFrame list \<Rightarrow> nat" where
  "sq_total fs = total_bytes (map qf_bytes fs)"

lemma sq_total_simps [simp]:
  "sq_total [] = 0" "sq_total (f # fs) = length (qf_bytes f) + sq_total fs"
  "sq_total (fs @ gs) = sq_total fs + sq_total gs"
  by (simp_all add: sq_total_def)

definition superseded :: "QueuedFrame \<Rightarrow> QueuedFrame \<Rightarrow> bool" where
  "superseded frame f \<longleftrightarrow>
     qf_is_keyframe frame \<or>
     \<not> qf_is_keyframe f \<and> qf_baseline_snapshot_id f = qf_baseline_snapshot_id frame"

text \<open>
  The byte counter is exact, a keyframe can only be the first frame, and two queued deltas never
  share a baseline.
\<close>

definition sq_wf :: "StateQueue \<Rightarrow> bool" where
  "sq_wf q \<longleftrightarrow>
     sq_bytes q = of_nat (sq_total (sq_frames q)) \<and>
     (\<forall>f\<in>set (tl (sq_frames q)). \<not> qf_is_keyframe f) \<and>
     distinct (map qf_baseline_snapshot_id (filter (\<lambda>f. \<not> qf_is_keyframe f) (sq_frames q)))"

lemma erase_superseded_eq:
  "erase_superseded baseline (of_nat (sq_total fs) + c) fs =
     (of_nat (sq_total (filter (\<lambda>f. qf_is_keyframe f \<or> qf_baseline_snapshot_id f \<noteq> baseline) fs)) + c,
      filter (\<lambda>f. qf_is_keyframe f \<or> qf_baseline_snapshot_id f \<noteq> baseline) fs)"
proof (induction fs arbitrary: c)
  case Nil
  then show ?case by simp
next
  case (Cons f fs)
  have "of_nat (sq_total (f # fs)) + c - frame_size f = of_nat (sq_total fs) + c"
    by (simp add: frame_size_def)
  moreover have "of_nat (sq_total (f # fs)) + c = of_nat (sq_total fs) + (frame_size f + c)"
    by (simp add: frame_size_def)
  ultimately show ?case
    using Cons.IH [of c] Cons.IH [of "frame_size f + c"]
    by (auto simp: frame_size_def algebra_simps simp del: sq_total_simps(2)) (auto simp: algebra_simps)
qed

lemma drop_oldest_eq:
  assumes "drop_oldest limit (of_nat (sq_total fs)) resync fs = (bytes, resync', gs)"
  shows "\<exists>k. gs = drop k fs \<and> bytes = of_nat (sq_total gs) \<and> (fs \<noteq> [] \<longrightarrow> gs \<noteq> []) \<and>
     (length gs \<le> 1 \<or> bytes \<le> limit) \<and> (resync' \<longleftrightarrow> resync \<or> k \<noteq> 0) \<and>
     (\<forall>j<k. limit < of_nat (sq_total (drop j fs)))"
  using assms
proof (induction fs arbitrary: resync)
  case Nil
  then show ?case by (intro exI [of _ 0]) simp
next
  case (Cons f fs)
  show ?case
  proof (cases "fs = [] \<or> \<not> limit < of_nat (sq_total (f # fs))")
    case True
    with Cons.prems have "gs = f # fs \<and> bytes = of_nat (sq_total gs) \<and> resync' = resync \<and>
        (length gs \<le> 1 \<or> bytes \<le> limit)"
      by (cases fs) (auto simp: not_less split: if_splits)
    then show ?thesis by (intro exI [of _ 0]) auto
  next
    case over: False
    then obtain g hs where fs: "fs = g # hs" by (cases fs) auto
    have "of_nat (sq_total (f # fs)) - frame_size f = (of_nat (sq_total fs) :: u64)"
      by (simp add: frame_size_def)
    with over Cons.prems fs have "drop_oldest limit (of_nat (sq_total fs)) True fs = (bytes, resync', gs)"
      by (simp del: sq_total_simps)
    from Cons.IH [OF this] obtain k where k: "gs = drop k fs" "bytes = of_nat (sq_total gs)"
      "fs \<noteq> [] \<longrightarrow> gs \<noteq> []" "length gs \<le> 1 \<or> bytes \<le> limit" "resync'"
      "\<forall>j<k. limit < of_nat (sq_total (drop j fs))" by auto
    have "\<forall>j<Suc k. limit < of_nat (sq_total (drop j (f # fs)))"
      using k(6) over by (auto simp: less_Suc_eq_0_disj)
    with k fs show ?thesis by (intro exI [of _ "Suc k"]) auto
  qed
qed

lemma tl_subset: "x \<in> set (tl xs) \<Longrightarrow> x \<in> set xs"
  by (cases xs) simp_all

text \<open>
  After a push the newest frame is queued last, preceded by a suffix of the frames it does not
  supersede (a keyframe supersedes everything, a delta the delta of its baseline). A frame that is
  missing otherwise was the oldest and over the limit, and the resync flag is set then and only
  then. The byte counter is exact and within the limit unless only the new frame is left.
\<close>

lemma sq_push_outcome:
  assumes "sq_wf q" and "q' = sq_push q frame"
  shows "sq_wf q' \<and> sq_max_bytes q' = sq_max_bytes q \<and>
    (\<exists>lost kept. filter (\<lambda>f. \<not> superseded frame f) (sq_frames q) @ [frame] = lost @ kept @ [frame] \<and>
       sq_frames q' = kept @ [frame] \<and>
       (sq_resync_required q' \<longleftrightarrow> sq_resync_required q \<or> lost \<noteq> [])) \<and>
    (sq_bytes q' \<le> sq_max_bytes q \<or> sq_frames q' = [frame])"
proof -
  let ?kept = "filter (\<lambda>f. \<not> superseded frame f) (sq_frames q)"
  have base: "(if qf_is_keyframe frame then (0, [])
       else erase_superseded (qf_baseline_snapshot_id frame) (sq_bytes q) (sq_frames q)) =
      (of_nat (sq_total ?kept), ?kept)"
    using assms(1) erase_superseded_eq [of "qf_baseline_snapshot_id frame" "sq_frames q" 0]
    by (auto simp: sq_wf_def superseded_def cong: filter_cong)
  obtain bytes resync gs where d:
    "drop_oldest (sq_max_bytes q) (of_nat (sq_total (?kept @ [frame]))) (sq_resync_required q)
       (?kept @ [frame]) = (bytes, resync, gs)"
    by (metis surj_pair)
  then have q': "q' = q\<lparr>sq_bytes := bytes, sq_resync_required := resync, sq_frames := gs\<rparr>"
    using assms(2) base by (simp add: sq_push_def Let_def frame_size_def)
  obtain k where K: "gs = drop k (?kept @ [frame]) \<and> bytes = of_nat (sq_total gs) \<and>
     (?kept @ [frame] \<noteq> [] \<longrightarrow> gs \<noteq> []) \<and> (length gs \<le> 1 \<or> bytes \<le> sq_max_bytes q) \<and>
     (resync \<longleftrightarrow> sq_resync_required q \<or> k \<noteq> 0)"
    using drop_oldest_eq [OF d] by blast
  then have k: "gs = drop k (?kept @ [frame])"
    "bytes = of_nat (sq_total gs)" "gs \<noteq> []" "length gs \<le> 1 \<or> bytes \<le> sq_max_bytes q"
    "resync \<longleftrightarrow> sq_resync_required q \<or> k \<noteq> 0" by blast+
  have len: "k \<le> length ?kept"
    using k(1,3) by (metis Suc_leI drop_eq_Nil2 leI le_Suc_eq length_append_singleton)
  then have gs: "gs = drop k ?kept @ [frame]" and split: "?kept = take k ?kept @ drop k ?kept"
    using k(1) by simp_all
  have "filter (\<lambda>f. \<not> qf_is_keyframe f) ?kept =
      filter (\<lambda>f. \<not> superseded frame f) (filter (\<lambda>f. \<not> qf_is_keyframe f) (sq_frames q))"
    by (simp add: conj_commute)
  then have "distinct (map qf_baseline_snapshot_id (filter (\<lambda>f. \<not> qf_is_keyframe f) ?kept))"
    using assms(1) by (simp only: sq_wf_def distinct_map_filter)
  moreover have "qf_baseline_snapshot_id frame \<notin>
      qf_baseline_snapshot_id ` set (filter (\<lambda>f. \<not> qf_is_keyframe f) ?kept)"
    by (auto simp: superseded_def)
  ultimately have "distinct (map qf_baseline_snapshot_id
      (filter (\<lambda>f. \<not> qf_is_keyframe f) (?kept @ [frame])))"
    by simp
  then have dist: "distinct (map qf_baseline_snapshot_id (filter (\<lambda>f. \<not> qf_is_keyframe f) gs))"
    unfolding k(1) using split
    by (metis (no_types, lifting) append_take_drop_id distinct_append filter_append map_append)
  have nokey: "\<forall>f\<in>set (tl gs). \<not> qf_is_keyframe f"
  proof -
    have "\<forall>f\<in>set (tl (filter P fs)). \<not> qf_is_keyframe f"
      if "\<forall>f\<in>set (tl fs). \<not> qf_is_keyframe f" for P fs
      using that by (cases fs) (auto dest: tl_subset)
    then have "\<forall>f\<in>set (tl ?kept). \<not> qf_is_keyframe f"
      using assms(1) unfolding sq_wf_def by blast
    moreover have "?kept = [] \<or> \<not> qf_is_keyframe frame" by (auto simp: superseded_def)
    moreover have "set (tl (drop k xs)) \<subseteq> set (tl xs)" for xs :: "QueuedFrame list"
      by (metis drop_Suc set_drop_subset tl_drop)
    ultimately show ?thesis
      unfolding gs by (cases "drop k ?kept") (auto, metis list.sel(3) subsetD)
  qed
  have lost: "take k ?kept \<noteq> [] \<longleftrightarrow> k \<noteq> 0"
    using len by (cases k) auto
  show ?thesis
  proof (intro conjI)
    show "sq_wf q'" using dist nokey k(2) by (simp add: sq_wf_def q')
    show "sq_max_bytes q' = sq_max_bytes q" by (simp add: q')
    have "?kept @ [frame] = take k ?kept @ drop k ?kept @ [frame] \<and>
        sq_frames q' = drop k ?kept @ [frame] \<and>
        (sq_resync_required q' \<longleftrightarrow> sq_resync_required q \<or> take k ?kept \<noteq> [])"
      by (simp only: q' StateQueue.simps StateQueue.select_convs StateQueue.update_convs gs k(5) lost
            append_assoc [symmetric] append_take_drop_id simp_thms) simp
    then show "\<exists>lost kept. ?kept @ [frame] = lost @ kept @ [frame] \<and>
       sq_frames q' = kept @ [frame] \<and>
       (sq_resync_required q' \<longleftrightarrow> sq_resync_required q \<or> lost \<noteq> [])"
      by blast
    have "length gs \<le> 1 \<Longrightarrow> gs = [frame]" unfolding gs by simp
    then show "sq_bytes q' \<le> sq_max_bytes q \<or> sq_frames q' = [frame]"
      using k(4) by (auto simp: q')
  qed
qed

definition example_delta :: "u64 \<Rightarrow> u64 \<Rightarrow> QueuedFrame" where
  "example_delta n baseline =
     \<lparr>qf_snapshot_id = n, qf_baseline_snapshot_id = baseline, qf_is_keyframe = False,
      qf_bytes = [1, 2]\<rparr>"

text \<open>The state queue's pop; the frames leave in order.\<close>

interpretation sq: frame_queue sq_wf sq_frames sq_pop
proof
  fix q :: StateQueue
  assume wf: "sq_wf q"
  show "sq_wf (snd (sq_pop q))"
  proof (cases "sq_frames q")
    case (Cons f fs)
    then have "\<forall>g\<in>set (tl fs). \<not> qf_is_keyframe g"
      using wf by (cases fs) (simp_all add: sq_wf_def)
    with wf Cons show ?thesis
      by (auto simp: sq_wf_def sq_pop_def frame_size_def split: if_splits)
  qed (use wf in \<open>simp add: sq_pop_def\<close>)
qed (simp_all add: sq_pop_def)

section \<open>Leases\<close>

lemma own_acquire_lookup:
  "own_acquire g s t k l now = (ok, g') \<Longrightarrow>
     fmlookup g' key =
       (if ok \<and> key = (t, k) then Some \<lparr>grant_owner = s, grant_lease_until_tick = l\<rparr>
        else fmlookup g key)"
  by (auto simp: own_acquire_def Let_def split: option.splits if_splits)

datatype OwnOp =
    OwnAcquire SessionId WorldId string u64 u64
  | OwnRelease SessionId WorldId string
  | OwnReleaseAll SessionId

fun own_step :: "OwnershipRegistry \<Rightarrow> OwnOp \<Rightarrow> OwnershipRegistry" where
  "own_step g (OwnAcquire s t k l now) = snd (own_acquire g s t k l now)"
| "own_step g (OwnRelease s t k) = snd (own_release g s t k)"
| "own_step g (OwnReleaseAll s) = own_release_all g s"

text \<open>Operations of other sessions, at or before the tick.\<close>

fun foreign_until :: "SessionId \<Rightarrow> u64 \<Rightarrow> OwnOp \<Rightarrow> bool" where
  "foreign_until s tick (OwnAcquire s' t k l now) \<longleftrightarrow> s' \<noteq> s \<and> now \<le> tick"
| "foreign_until s tick (OwnRelease s' t k) \<longleftrightarrow> s' \<noteq> s"
| "foreign_until s tick (OwnReleaseAll s') \<longleftrightarrow> s' \<noteq> s"

lemma foreign_step_keeps:
  assumes "own_holds g s t k tick" "foreign_until s tick p"
  shows "own_holds (own_step g p) s t k tick"
proof -
  obtain gr where gr: "fmlookup g (t, k) = Some gr" "grant_owner gr = s"
    "grant_lease_until_tick gr > tick"
    using assms(1) by (auto simp: own_holds_def split: option.splits)
  show ?thesis
  proof (cases p)
    case (OwnAcquire s' t' k' l now)
    show ?thesis
    proof (cases "(t', k') = (t, k)")
      case True
      then have "own_acquire g s' t k l now = (False, g)"
        using gr assms(2) OwnAcquire by (auto simp: own_acquire_def)
      with assms(1) OwnAcquire True show ?thesis by simp
    next
      case False
      obtain ok g' where "own_acquire g s' t' k' l now = (ok, g')" by fastforce
      with own_acquire_lookup [OF this, of "(t, k)"] False gr OwnAcquire show ?thesis
        by (auto simp: own_holds_def)
    qed
  next
    case (OwnRelease s' t' k')
    with gr assms(2) show ?thesis
      by (auto simp: own_holds_def own_release_def split: option.splits)
  next
    case (OwnReleaseAll s')
    with gr assms(2) show ?thesis
      by (auto simp: own_holds_def own_release_all_def)
  qed
qed

text \<open>
  C31: mutual exclusion of property writers. A lease excludes every other session: at any tick at
  most one session holds a property, and a session that holds it keeps holding it until its lease
  expires, whatever acquisitions and releases other sessions perform up to that tick.
\<close>

theorem ownership_exclusive:
  assumes "own_holds g s t k tick"
  shows "(own_holds g s' t k tick \<longrightarrow> s' = s) \<and>
    (list_all (foreign_until s tick) ops \<longrightarrow> own_holds (foldl own_step g ops) s t k tick) \<and>
    (s' \<noteq> s \<longrightarrow> fst (own_acquire g s' t k l tick) = False)"
proof (intro conjI impI)
  show "s' = s" if "own_holds g s' t k tick"
    using that assms by (auto simp: own_holds_def split: option.splits)
  show "own_holds (foldl own_step g ops) s t k tick" if "list_all (foreign_until s tick) ops"
    using that assms
    by (induction ops arbitrary: g) (auto intro: foreign_step_keeps)
  show "fst (own_acquire g s' t k l tick) = False" if "s' \<noteq> s"
    using that assms by (auto simp: own_holds_def own_acquire_def split: option.splits)
qed

theorem ownership_exclusive_witness:
  "let g = snd (own_acquire fmempty (SessionId 1) (WorldId 7) ''hp'' 10 0) in
     own_holds (foldl own_step g [OwnAcquire (SessionId 2) (WorldId 7) ''hp'' 99 3,
        OwnReleaseAll (SessionId 2)]) (SessionId 1) (WorldId 7) ''hp'' 5"
proof -
  let ?g = "snd (own_acquire fmempty (SessionId 1) (WorldId 7) ''hp'' 10 0)"
  have "own_holds ?g (SessionId 1) (WorldId 7) ''hp'' 5"
    by (simp add: own_holds_def own_acquire_def)
  from ownership_exclusive [OF this, of "SessionId 2" "[OwnAcquire (SessionId 2) (WorldId 7) ''hp'' 99 3,
        OwnReleaseAll (SessionId 2)]" 0]
  show ?thesis unfolding Let_def by (simp add: word_le_nat_alt)
qed

end
