(* ===== verification/Sessions.thy ===== *)
theory Sessions
  imports Gateway_Types
begin

text \<open>
  \<^verbatim>\<open>libs/gateway/session\<close>: sessions, one-time stream tickets, the command token bucket and the
  receipt cache. The clock and the token generator are functions the manager is given: what they
  return is an argument of each operation (\<open>now\<close> in nanoseconds of the steady clock, \<open>token\<close>).
  The lemmas show that a ticket is redeemed at most once and only for the session it was issued
  to while that session is open, that sessions are limited and never reuse an id, and that a
  bucket never holds more than its rate.
\<close>

record SessionInfo =
  si_id :: SessionId
  si_principal :: Principal
  si_control_api_version :: u32
  si_data_schema_version :: u32
  si_created_tick :: u64

record TokenBucket =
  tb_tokens :: f64
  tb_last_refill :: i64

record SessionState =
  ss_info :: SessionInfo
  ss_bucket :: TokenBucket

record TicketState =
  ts_session :: SessionId
  ts_expires_at :: i64

record SessionConfig =
  smc_ticket_ttl_seconds :: u32
  smc_command_rate_per_session :: u32
  smc_max_sessions :: u64

record SessionManager =
  sm_config :: SessionConfig
  sm_next_session_value :: u64
  sm_sessions :: "(SessionId, SessionState) fmap"
  sm_tickets :: "(string, TicketState) fmap"
  sm_receipts :: "(SessionId \<times> u64, CommandReceipt) fmap"

definition session_manager :: "SessionConfig \<Rightarrow> SessionManager" where
  "session_manager config =
     \<lparr>sm_config = config, sm_next_session_value = 1, sm_sessions = fmempty, sm_tickets = fmempty,
      sm_receipts = fmempty\<rparr>"

definition sm_find :: "SessionManager \<Rightarrow> SessionId \<Rightarrow> SessionInfo option" where
  "sm_find m i = map_option ss_info (fmlookup (sm_sessions m) i)"

text \<open>The conversion of an unsigned 32-bit integer to \<open>double\<close> is exact, as that of \<open>int64_t\<close>.\<close>

definition rate_f64 :: "SessionConfig \<Rightarrow> f64" where
  "rate_f64 c = i64_to_f64 (ucast (smc_command_rate_per_session c))"

definition sm_open ::
  "SessionManager \<Rightarrow> Principal \<Rightarrow> u32 \<Rightarrow> u32 \<Rightarrow> u64 \<Rightarrow> i64 \<Rightarrow> SessionId \<times> SessionManager" where
  "sm_open m p control_version data_version current_tick now =
     (if of_nat (fm_size (sm_sessions m)) \<ge> smc_max_sessions (sm_config m) then (SessionId 0, m)
      else let info = \<lparr>si_id = SessionId (sm_next_session_value m), si_principal = p,
                       si_control_api_version = control_version,
                       si_data_schema_version = data_version, si_created_tick = current_tick\<rparr>;
               bucket = \<lparr>tb_tokens = rate_f64 (sm_config m), tb_last_refill = now\<rparr>;
               i = si_id info;
               state = \<lparr>ss_info = info, ss_bucket = bucket\<rparr>
           in (i, m\<lparr>sm_next_session_value := sm_next_session_value m + 1,
                    sm_sessions := (if fm_has (sm_sessions m) i then sm_sessions m
                                    else fmupd i state (sm_sessions m))\<rparr>))"

definition sm_close :: "SessionManager \<Rightarrow> SessionId \<Rightarrow> SessionManager" where
  "sm_close m i =
     m\<lparr>sm_sessions := fmdrop i (sm_sessions m),
       sm_tickets := fmfilter (\<lambda>t. \<not> (\<exists>ts. fmlookup (sm_tickets m) t = Some ts \<and> ts_session ts = i))
                       (sm_tickets m)\<rparr>"

text \<open>\<open>clock_() + std::chrono::seconds{ttl}\<close>; the ticket is the token in every case.\<close>

definition sm_issue_ticket :: "SessionManager \<Rightarrow> SessionId \<Rightarrow> string \<Rightarrow> i64 \<Rightarrow> string \<times> SessionManager" where
  "sm_issue_ticket m i token now =
     (if \<not> fm_has (sm_sessions m) i then ([], m)
      else (token,
            m\<lparr>sm_tickets := (if fm_has (sm_tickets m) token then sm_tickets m
               else fmupd token
                 \<lparr>ts_session = i,
                  ts_expires_at = now + ucast (smc_ticket_ttl_seconds (sm_config m)) * 1000000000\<rparr>
                 (sm_tickets m))\<rparr>))"

definition sm_redeem_ticket :: "SessionManager \<Rightarrow> string \<Rightarrow> i64 \<Rightarrow> SessionInfo option \<times> SessionManager" where
  "sm_redeem_ticket m ticket now =
     (case fmlookup (sm_tickets m) ticket of
        None \<Rightarrow> (None, m)
      | Some state \<Rightarrow>
          let m = m\<lparr>sm_tickets := fmdrop ticket (sm_tickets m)\<rparr> in
          if sint now > sint (ts_expires_at state) then (None, m)
          else (sm_find m (ts_session state), m))"

definition f64_one :: f64 where
  "f64_one = F64 0x3FF0000000000000"

text \<open>\<open>duration<double>\<close> of a nanosecond difference.\<close>

definition elapsed_seconds :: "i64 \<Rightarrow> i64 \<Rightarrow> f64" where
  "elapsed_seconds now since = f64_div (i64_to_f64 (now - since)) (i64_to_f64 1000000000)"

definition sm_consume_command_budget :: "SessionManager \<Rightarrow> SessionId \<Rightarrow> i64 \<Rightarrow> bool \<times> SessionManager" where
  "sm_consume_command_budget m i now =
     (case fmlookup (sm_sessions m) i of
        None \<Rightarrow> (False, m)
      | Some st \<Rightarrow>
          let bucket = ss_bucket st;
              rate = rate_f64 (sm_config m);
              tokens = f64_min rate
                (f64_add (tb_tokens bucket) (f64_mul (elapsed_seconds now (tb_last_refill bucket)) rate));
              save = (\<lambda>tokens. m\<lparr>sm_sessions := fmupd i
                (st\<lparr>ss_bucket := \<lparr>tb_tokens = tokens, tb_last_refill = now\<rparr>\<rparr>) (sm_sessions m)\<rparr>)
          in if f64_lt tokens f64_one then (False, save tokens)
             else (True, save (f64_sub tokens f64_one)))"

definition sm_find_receipt :: "SessionManager \<Rightarrow> SessionId \<Rightarrow> u64 \<Rightarrow> CommandReceipt option" where
  "sm_find_receipt m i client_sequence = fmlookup (sm_receipts m) (i, client_sequence)"

definition sm_store_receipt :: "SessionManager \<Rightarrow> SessionId \<Rightarrow> CommandReceipt \<Rightarrow> SessionManager" where
  "sm_store_receipt m i receipt =
     m\<lparr>sm_receipts := fmupd (i, rc_client_sequence receipt) receipt (sm_receipts m)\<rparr>"

definition sm_size :: "SessionManager \<Rightarrow> nat" where
  "sm_size m = fm_size (sm_sessions m)"

section \<open>Runs\<close>

datatype SmOp =
    SmOpen Principal u32 u32 u64 i64
  | SmClose SessionId
  | SmIssue SessionId string i64
  | SmRedeem string i64
  | SmConsume SessionId i64
  | SmStore SessionId CommandReceipt

text \<open>The manager with the tickets issued (with their session) and redeemed so far.\<close>

record SmRun =
  sr_manager :: SessionManager
  sr_opened :: "SessionId list"
  sr_issued :: "(string \<times> SessionId) list"
  sr_redeemed :: "(string \<times> SessionId) list"

fun sm_step :: "SmRun \<Rightarrow> SmOp \<Rightarrow> SmRun" where
  "sm_step s (SmOpen p cv dv t now) =
     (let (i, m) = sm_open (sr_manager s) p cv dv t now
      in s\<lparr>sr_manager := m, sr_opened := (if fm_has (sm_sessions m) i then sr_opened s @ [i] else sr_opened s)\<rparr>)"
| "sm_step s (SmClose i) = s\<lparr>sr_manager := sm_close (sr_manager s) i\<rparr>"
| "sm_step s (SmIssue i token now) =
     (let (ticket, m) = sm_issue_ticket (sr_manager s) i token now
      in s\<lparr>sr_manager := m,
           sr_issued := (if fm_has (sm_sessions (sr_manager s)) i
                         then sr_issued s @ [(ticket, i)] else sr_issued s)\<rparr>)"
| "sm_step s (SmRedeem ticket now) =
     (let (info, m) = sm_redeem_ticket (sr_manager s) ticket now
      in s\<lparr>sr_manager := m,
           sr_redeemed := sr_redeemed s @
             (case info of None \<Rightarrow> [] | Some inf' \<Rightarrow> [(ticket, si_id inf')])\<rparr>)"
| "sm_step s (SmConsume i now) =
     s\<lparr>sr_manager := snd (sm_consume_command_budget (sr_manager s) i now)\<rparr>"
| "sm_step s (SmStore i r) = s\<lparr>sr_manager := sm_store_receipt (sr_manager s) i r\<rparr>"

definition sm_start :: "SessionConfig \<Rightarrow> SmRun" where
  "sm_start config =
     \<lparr>sr_manager = session_manager config, sr_opened = [], sr_issued = [], sr_redeemed = []\<rparr>"

definition sm_inv :: "SmRun \<Rightarrow> bool" where
  "sm_inv s \<longleftrightarrow>
     (\<forall>i st. fmlookup (sm_sessions (sr_manager s)) i = Some st \<longrightarrow>
        si_id (ss_info st) = i \<and> i \<in> set (sr_opened s)) \<and>
     (\<forall>t ts. fmlookup (sm_tickets (sr_manager s)) t = Some ts \<longrightarrow>
        (t, ts_session ts) \<in> set (sr_issued s) \<and> t \<notin> fst ` set (sr_redeemed s)) \<and>
     set (sr_redeemed s) \<subseteq> set (sr_issued s) \<and> distinct (map fst (sr_redeemed s))"

text \<open>The token of the step is new.\<close>

fun fresh_token :: "SmRun \<Rightarrow> SmOp \<Rightarrow> bool" where
  "fresh_token s (SmIssue i token now) \<longleftrightarrow> token \<notin> fst ` set (sr_issued s)"
| "fresh_token s _ \<longleftrightarrow> True"


fun fresh_run :: "SmRun \<Rightarrow> SmOp list \<Rightarrow> bool" where
  "fresh_run s [] = True"
| "fresh_run s (p # ps) = (fresh_token s p \<and> fresh_run (sm_step s p) ps)"

lemma sm_inv_start: "sm_inv (sm_start c)"
  by (simp add: sm_inv_def sm_start_def session_manager_def)

lemma sm_redeem_Some:
  assumes "sm_redeem_ticket m ticket now = (Some info, m')"
  shows "\<exists>ts st. fmlookup (sm_tickets m) ticket = Some ts \<and>
    fmlookup (sm_sessions m) (ts_session ts) = Some st \<and> info = ss_info st \<and>
    sint now \<le> sint (ts_expires_at ts) \<and> m' = m\<lparr>sm_tickets := fmdrop ticket (sm_tickets m)\<rparr>"
  using assms
  by (auto simp: sm_redeem_ticket_def sm_find_def Let_def split: option.splits if_splits)

lemma sm_redeem_None:
  "sm_redeem_ticket m ticket now = (None, m') \<Longrightarrow>
     m' = m \<or> m' = m\<lparr>sm_tickets := fmdrop ticket (sm_tickets m)\<rparr>"
  by (auto simp: sm_redeem_ticket_def Let_def split: option.splits if_splits)

lemma consume_sessions:
  assumes "fmlookup (sm_sessions (snd (sm_consume_command_budget m i now))) j = Some st"
  shows "\<exists>st0. fmlookup (sm_sessions m) j = Some st0 \<and> ss_info st = ss_info st0"
  using assms
  by (auto simp: sm_consume_command_budget_def Let_def split: option.splits if_splits)

lemma consume_frame [frame_simps]:
  "sm_tickets (snd (sm_consume_command_budget m i now)) = sm_tickets m"
  "sm_next_session_value (snd (sm_consume_command_budget m i now)) = sm_next_session_value m"
  "sm_config (snd (sm_consume_command_budget m i now)) = sm_config m"
  "fmdom (sm_sessions (snd (sm_consume_command_budget m i now))) = fmdom (sm_sessions m)"
  by (auto simp: sm_consume_command_budget_def Let_def split: option.splits dest: fmdomI)

lemma sm_inv_step [wf_intros]:
  assumes inv: "sm_inv s" and fresh: "fresh_token s p"
  shows "sm_inv (sm_step s p)"
proof (cases p)
  case (SmOpen q cv dv t now)
  with inv show ?thesis
    by (auto simp: sm_inv_def sm_open_def Let_def sid_valid_def)
next
  case (SmClose i)
  with inv show ?thesis by (auto simp: sm_inv_def sm_close_def)
next
  case (SmIssue i token now)
  have "token \<notin> fst ` set (sr_redeemed s)"
    using inv fresh SmIssue by (auto simp: sm_inv_def image_iff)
  with inv SmIssue show ?thesis
    by (auto simp: sm_inv_def sm_issue_ticket_def split: if_splits)
next
  case (SmRedeem ticket now)
  obtain info m' where r: "sm_redeem_ticket (sr_manager s) ticket now = (info, m')" by fastforce
  show ?thesis
  proof (cases info)
    case None
    with sm_redeem_None [of "sr_manager s" ticket now m'] r inv SmRedeem show ?thesis
      by (auto simp: sm_inv_def split: if_splits) force
  next
    case (Some inf')
    with sm_redeem_Some [of "sr_manager s" ticket now inf' m'] r obtain ts st where
      t: "fmlookup (sm_tickets (sr_manager s)) ticket = Some ts"
      "fmlookup (sm_sessions (sr_manager s)) (ts_session ts) = Some st" "inf' = ss_info st"
      "m' = (sr_manager s)\<lparr>sm_tickets := fmdrop ticket (sm_tickets (sr_manager s))\<rparr>"
      by auto
    then have "si_id inf' = ts_session ts" "(ticket, ts_session ts) \<in> set (sr_issued s)"
      "ticket \<notin> fst ` set (sr_redeemed s)"
      using inv by (auto simp: sm_inv_def)
    with inv t r Some SmRedeem show ?thesis
      by (auto simp: sm_inv_def split: if_splits)
  qed
next
  case (SmConsume i now)
  with inv show ?thesis
    by (auto simp: sm_inv_def frame_simps dest!: consume_sessions)
next
  case (SmStore i r)
  with inv show ?thesis by (simp add: sm_inv_def sm_store_receipt_def)
qed

lemma sm_inv_run: "sm_inv s \<Longrightarrow> fresh_run s ops \<Longrightarrow> sm_inv (foldl sm_step s ops)"
  by (induction ops arbitrary: s) (auto intro: sm_inv_step)


definition example_session_config :: SessionConfig where
  "example_session_config =
     \<lparr>smc_ticket_ttl_seconds = 30, smc_command_rate_per_session = 100, smc_max_sessions = 2\<rparr>"

definition example_session_ops :: "SmOp list" where
  "example_session_ops =
     [SmOpen \<lparr>pr_id = ''a'', pr_administrator = False\<rparr> 1 1 0 0,
      SmIssue (SessionId 1) ''t1'' 0, SmRedeem ''t1'' 5, SmRedeem ''t1'' 6]"


section \<open>Session identities and the session limit\<close>

definition ids_inv :: "SmRun \<Rightarrow> bool" where
  "ids_inv s \<longleftrightarrow>
     unat (sm_next_session_value (sr_manager s)) = Suc (length (sr_opened s)) \<and>
     (\<forall>k < length (sr_opened s). sr_opened s ! k = SessionId (of_nat (Suc k))) \<and>
     fmdom' (sm_sessions (sr_manager s)) \<subseteq> set (sr_opened s) \<and>
     of_nat (fm_size (sm_sessions (sr_manager s))) \<le> smc_max_sessions (sm_config (sr_manager s)) \<and>
     fm_size (sm_sessions (sr_manager s)) \<le> length (sr_opened s)"


lemma ids_inv_start: "ids_inv (sm_start c)"
  by (simp add: ids_inv_def sm_start_def session_manager_def)

lemma ids_inv_frame:
  assumes "ids_inv s" "sm_next_session_value m = sm_next_session_value (sr_manager s)"
    "sm_config m = sm_config (sr_manager s)"
    "fmdom (sm_sessions m) = fmdom (sm_sessions (sr_manager s))"
    "sr_manager s' = m" "sr_opened s' = sr_opened s"
  shows "ids_inv s'"
  using assms by (simp add: ids_inv_def fm_size_def fmdom'_alt_def)

lemma ids_inv_opened:
  assumes "ids_inv s" "i \<in> set (sr_opened s)"
  shows "\<exists>k < length (sr_opened s). i = SessionId (of_nat (Suc k))"
  using assms by (auto simp: ids_inv_def in_set_conv_nth simp del: of_nat_Suc)

lemma ids_inv_step:
  assumes inv: "ids_inv s" and room: "length (sr_opened s) < 2 ^ 64 - 2"
  shows "ids_inv (sm_step s p) \<and> length (sr_opened (sm_step s p)) \<le> Suc (length (sr_opened s)) \<and>
    sm_config (sr_manager (sm_step s p)) = sm_config (sr_manager s)"
proof (cases p)
  case (SmOpen q cv dv t now)
  let ?m = "sr_manager s"
  let ?i = "SessionId (sm_next_session_value ?m)"
  let ?n = "length (sr_opened s)"
  have nxt: "unat (sm_next_session_value ?m) = Suc ?n" using inv by (simp add: ids_inv_def)
  have "of_nat (unat (sm_next_session_value ?m)) = sm_next_session_value ?m" by simp
  then have eq: "sm_next_session_value ?m = of_nat (Suc ?n)"
    unfolding nxt by (rule sym)
  have max: "sm_next_session_value ?m \<noteq> - 1"
    using nxt room by (auto simp: unsigned_minus_1_eq_mask mask_eq_exp_minus_1)
  have next1: "unat (sm_next_session_value ?m + 1) = Suc (Suc ?n)"
    unfolding unat_inc [OF max] nxt ..
  have valid: "sid_valid ?i"
    using nxt by (auto simp: sid_valid_def)
  show ?thesis
  proof (cases "of_nat (fm_size (sm_sessions ?m)) \<ge> smc_max_sessions (sm_config ?m)")
    case True
    have "(of_nat (Suc k) :: u64) \<noteq> 0" if "k < ?n" for k
      using that room of_nat_u64_inject [of "Suc k" 0] by (simp del: of_nat_Suc)
    then have "SessionId 0 \<notin> set (sr_opened s)"
      by (auto simp del: of_nat_Suc dest!: ids_inv_opened [OF inv])
    then have "\<not> fm_has (sm_sessions ?m) (SessionId 0)"
      using inv by (auto simp: ids_inv_def fm_has_iff_dom fmdom'_alt_def)
    with True SmOpen inv show ?thesis by (auto simp: sm_open_def)
  next
    case False
    have "SessionId (of_nat (Suc k)) \<noteq> ?i" if "k < ?n" for k
      unfolding eq using that room of_nat_u64_inject [of "Suc k" "Suc ?n"] by simp
    then have "?i \<notin> set (sr_opened s)"
      using ids_inv_opened [OF inv] by metis
    then have new: "\<not> fm_has (sm_sessions ?m) ?i"
      using inv by (auto simp: ids_inv_def fm_has_iff_dom fmdom'_alt_def)
    have size: "fm_size (sm_sessions ?m) \<le> ?n" using inv by (simp add: ids_inv_def)
    have "of_nat (Suc (fm_size (sm_sessions ?m))) \<le> smc_max_sessions (sm_config ?m)"
    proof -
      have "(of_nat (fm_size (sm_sessions ?m)) :: u64) \<noteq> - 1" using False by auto
      then have "of_nat (fm_size (sm_sessions ?m)) + 1 \<le> smc_max_sessions (sm_config ?m)"
        using False by (simp add: inc_le)
      then show ?thesis by (simp add: add.commute)
    qed
    moreover have "\<forall>k < Suc ?n. (sr_opened s @ [?i]) ! k = SessionId (of_nat (Suc k))"
      using inv eq by (auto simp: ids_inv_def nth_append less_Suc_eq)
    ultimately show ?thesis
      using SmOpen False inv new valid next1 size
      by (auto simp: ids_inv_def sm_open_def Let_def fm_size_upd)
  qed
next
  case (SmClose i)
  have "fm_size (fmdrop i (sm_sessions (sr_manager s))) \<le> fm_size (sm_sessions (sr_manager s))"
    by (simp add: fm_size_drop)
  moreover have "fm_size (sm_sessions (sr_manager s)) < 2 ^ 64"
    using inv room by (simp add: ids_inv_def)
  ultimately have "(of_nat (fm_size (fmdrop i (sm_sessions (sr_manager s)))) :: u64) \<le>
      of_nat (fm_size (sm_sessions (sr_manager s)))"
    by (simp add: word_le_nat_alt unat_of_nat_u64)
  with SmClose inv show ?thesis
    by (auto simp: ids_inv_def sm_close_def fm_size_drop intro: order_trans)
next
  case (SmIssue i token now)
  then show ?thesis
    using ids_inv_frame [OF inv, of _ "sm_step s p"] inv
    by (auto simp: sm_issue_ticket_def)
next
  case (SmRedeem ticket now)
  have "sm_next_session_value (snd (sm_redeem_ticket m ticket now)) = sm_next_session_value m \<and>
      sm_config (snd (sm_redeem_ticket m ticket now)) = sm_config m \<and>
      sm_sessions (snd (sm_redeem_ticket m ticket now)) = sm_sessions m" for m
    by (auto simp: sm_redeem_ticket_def Let_def split: option.split)
  with SmRedeem show ?thesis
    using ids_inv_frame [OF inv, of _ "sm_step s p"] by (auto simp: case_prod_beta)
next
  case (SmConsume i now)
  then show ?thesis
    using ids_inv_frame [OF inv, of _ "sm_step s p"] by (auto simp: frame_simps)
next
  case (SmStore i r)
  then show ?thesis
    using ids_inv_frame [OF inv, of _ "sm_step s p"] by (auto simp: sm_store_receipt_def)
qed

lemma ids_inv_run:
  "ids_inv s \<Longrightarrow> length (sr_opened s) + length ops < 2 ^ 64 - 2 \<Longrightarrow>
     ids_inv (foldl sm_step s ops) \<and>
     length (sr_opened (foldl sm_step s ops)) \<le> length (sr_opened s) + length ops \<and>
     sm_config (sr_manager (foldl sm_step s ops)) = sm_config (sr_manager s)"
proof (induction ops arbitrary: s)
  case Nil
  then show ?case by simp
next
  case (Cons p ops)
  then have "ids_inv (sm_step s p) \<and> length (sr_opened (sm_step s p)) \<le> Suc (length (sr_opened s)) \<and>
    sm_config (sr_manager (sm_step s p)) = sm_config (sr_manager s)"
    by (intro ids_inv_step) simp_all
  with Cons.IH [of "sm_step s p"] Cons.prems show ?case by auto
qed

text \<open>
  Session ids are handed out once. In any run of fewer than \<open>2 ^ 64 - 2\<close> operations the opened
  ids are pairwise different and valid, every live session was opened, and the number of live
  sessions never exceeds the configured limit.
\<close>

lemma session_ids_unique:
  assumes "length ops < 2 ^ 64 - 2" and "s = foldl sm_step (sm_start c) ops"
  shows "distinct (sr_opened s) \<and> (\<forall>i\<in>set (sr_opened s). sid_valid i) \<and>
    fmdom' (sm_sessions (sr_manager s)) \<subseteq> set (sr_opened s) \<and>
    of_nat (sm_size (sr_manager s)) \<le> smc_max_sessions c"
proof -
  have start: "sr_opened (sm_start c) = []" "sm_config (sr_manager (sm_start c)) = c"
    by (simp_all add: sm_start_def session_manager_def)
  have inv: "ids_inv s" "length (sr_opened s) < 2 ^ 64 - 2" "sm_config (sr_manager s) = c"
    using ids_inv_run [OF ids_inv_start, of c ops] assms start by auto
  have inject: "(of_nat (Suc n) :: u64) = of_nat (Suc k) \<longleftrightarrow> n = k" "(of_nat (Suc n) :: u64) \<noteq> 0"
    if "n < length (sr_opened s)" "k < length (sr_opened s)" for n k
    using that inv(2) of_nat_u64_inject [of "Suc n" "Suc k"] of_nat_u64_inject [of "Suc n" 0]
    by (simp_all del: of_nat_Suc)
  have "distinct (sr_opened s)"
    using inv(1) inject(1) by (auto simp: distinct_conv_nth ids_inv_def simp del: of_nat_Suc)
  moreover have "sid_valid i" if "i \<in> set (sr_opened s)" for i
    using ids_inv_opened [OF inv(1) that] inject(2) by (auto simp: sid_valid_def simp del: of_nat_Suc)
  ultimately show ?thesis using inv(1,3) by (simp add: ids_inv_def sm_size_def)
qed

end
