(* ===== verification/Durable.thy ===== *)
theory Durable
  imports Gateway_Types Codes Simulation "HOL-Library.Monad_Syntax"
begin

text \<open>
  \<^verbatim>\<open>libs/gateway/durable\<close>: the records of durable admission, their encoding, and the idempotency
  index that answers retries. An \<open>Encoder\<close> is the byte vector it holds. A \<open>Decoder\<close> is the part
  of its span from its offset on, the only part its methods read; a method that returns \<open>false\<close> is
  \<open>None\<close>. The lemmas show that decoding inverts encoding on every admissible command, that the
  fingerprint identifies the content of a command, and that replaying the log rebuilds the index.
\<close>

section \<open>The encoder\<close>

type_synonym Encoder = bytes

definition put_u8 :: "u8 \<Rightarrow> Encoder \<Rightarrow> Encoder" where
  "put_u8 v e = e @ [v]"

definition put_u16 :: "u16 \<Rightarrow> Encoder \<Rightarrow> Encoder" where
  "put_u16 v e = put_u8 (ucast (drop_bit 8 v)) (put_u8 (ucast v) e)"

fun put_u64_loop :: "nat \<Rightarrow> u64 \<Rightarrow> Encoder \<Rightarrow> Encoder" where
  "put_u64_loop 0 v e = e"
| "put_u64_loop (Suc n) v e = put_u64_loop n (drop_bit 8 v) (put_u8 (ucast v) e)"

definition put_u64 :: "u64 \<Rightarrow> Encoder \<Rightarrow> Encoder" where
  "put_u64 v e = put_u64_loop 8 v e"

definition put_i64 :: "i64 \<Rightarrow> Encoder \<Rightarrow> Encoder" where
  "put_i64 v e = put_u64 v e"

definition put_double :: "f64 \<Rightarrow> Encoder \<Rightarrow> Encoder" where
  "put_double d e = put_u64 (f64_bits d) e"

text \<open>The length is truncated to 16 bits, the characters are all written.\<close>

definition put_text :: "string \<Rightarrow> Encoder \<Rightarrow> Encoder" where
  "put_text t e = foldl (\<lambda>e c. put_u8 (char_byte c) e) (put_u16 (of_nat (length t)) e) t"

definition put_bytes :: "bytes \<Rightarrow> Encoder \<Rightarrow> Encoder" where
  "put_bytes bs e = e @ bs"

fun encode_value :: "Value \<Rightarrow> Encoder \<Rightarrow> Encoder" where
  "encode_value (VInt64 n) e = put_i64 n (put_u8 0 e)"
| "encode_value (VDouble d) e = put_double d (put_u8 1 e)"
| "encode_value (VBool b) e = put_u8 (of_bool b) (put_u8 2 e)"
| "encode_value (VString t) e = put_text t (put_u8 3 e)"

fun encode_params :: "CommandParams \<Rightarrow> Encoder \<Rightarrow> Encoder" where
  "encode_params (SetPropertyParams key v) e = encode_value v (put_text key (put_u8 1 e))"
| "encode_params (CreateObjectParams _ semantic_type geometry_ref position properties) e =
     (let e = put_text semantic_type (put_u8 2 e);
          e = put_text geometry_ref e;
          e = put_double (ecef_x position) e;
          e = put_double (ecef_y position) e;
          e = put_double (ecef_z position) e;
          e = put_u64 (of_nat (fm_size properties)) e
      in foldl (\<lambda>e (key, v). encode_value v (put_text key e)) e (fm_items properties))"
| "encode_params DestroyObjectParams e = put_u8 3 e"

definition kDurableRecordFormatVersion :: u16 where
  "kDurableRecordFormatVersion = 1"

definition encode_identity :: "string \<Rightarrow> DurableRequestId \<Rightarrow> Encoder \<Rightarrow> Encoder" where
  "encode_identity principal_id request_id e =
     put_bytes request_id (put_text principal_id (put_u16 kDurableRecordFormatVersion e))"

definition make_command_fingerprint :: "ExternalCommand \<Rightarrow> bytes" where
  "make_command_fingerprint c =
     (let e = put_u64 (ec_client_sequence c) [];
          e = put_u64 (wid_value (ec_target_wid c)) e;
          e = put_u64 (ec_expected_object_version c) e;
          e = put_u64 (ec_target_tick_hint c) e
      in encode_params (ec_params c) e)"

definition encode_external_command_record ::
  "string \<Rightarrow> DurableRequestId \<Rightarrow> u64 \<Rightarrow> ExternalCommand \<Rightarrow> bytes" where
  "encode_external_command_record principal_id request_id target_tick c =
     put_bytes (make_command_fingerprint c)
       (put_u64 target_tick (encode_identity principal_id request_id []))"

text \<open>
  An error is the underlying number of its enumerator where records are concerned: the decoders
  cast any 16-bit number to the enum.
\<close>

type_synonym ErrorNumber = u16

fun error_number :: "GatewayError \<Rightarrow> ErrorNumber" where
  "error_number GE_none = 0"
| "error_number GE_protocol_incompatible = 1"
| "error_number GE_auth_failed = 2"
| "error_number GE_permission_denied = 3"
| "error_number GE_rate_limited = 4"
| "error_number GE_invalid_request = 5"
| "error_number GE_limit_exceeded = 6"
| "error_number GE_ticket_invalid = 7"
| "error_number GE_epoch_mismatch = 8"
| "error_number GE_ack_unknown = 9"
| "error_number GE_baseline_unavailable = 10"
| "error_number GE_slow_client = 11"
| "error_number GE_version_conflict = 12"
| "error_number GE_missing_object = 13"
| "error_number GE_tick_out_of_window = 14"
| "error_number GE_unsupported_operation = 15"
| "error_number GE_idempotency_conflict = 16"
| "error_number GE_durability_unavailable = 17"

definition encode_command_outcome_record ::
  "string \<Rightarrow> DurableRequestId \<Rightarrow> u64 \<Rightarrow> u64 \<Rightarrow> bool \<Rightarrow> GatewayError \<Rightarrow> bytes" where
  "encode_command_outcome_record principal_id request_id client_sequence ingress_sequence applied err =
     (let e = encode_identity principal_id request_id [];
          e = put_u64 client_sequence e;
          e = put_u64 ingress_sequence e;
          e = put_u8 (if applied then 1 else 0) e
      in put_u16 (error_number err) e)"

section \<open>The decoder\<close>

type_synonym 'a Decoded = "('a \<times> bytes) option"

fun get_u8 :: "bytes \<Rightarrow> u8 Decoded" where
  "get_u8 [] = None"
| "get_u8 (b # r) = Some (b, r)"

definition get_u16 :: "bytes \<Rightarrow> u16 Decoded" where
  "get_u16 r = do {
     (low, r) \<leftarrow> get_u8 r;
     (high, r) \<leftarrow> get_u8 r;
     Some (ucast low OR push_bit 8 (ucast high), r) }"

fun get_u64_loop :: "nat \<Rightarrow> nat \<Rightarrow> u64 \<Rightarrow> bytes \<Rightarrow> u64 Decoded" where
  "get_u64_loop 0 shift v r = Some (v, r)"
| "get_u64_loop (Suc n) shift v r = do {
     (b, r) \<leftarrow> get_u8 r;
     get_u64_loop n (shift + 8) (v OR push_bit shift (ucast b)) r }"

definition get_u64 :: "bytes \<Rightarrow> u64 Decoded" where
  "get_u64 r = get_u64_loop 8 0 0 r"

definition get_double :: "bytes \<Rightarrow> f64 Decoded" where
  "get_double r = do { (raw, r) \<leftarrow> get_u64 r; Some (F64 raw, r) }"

definition byte_char :: "u8 \<Rightarrow> char" where
  "byte_char b = char_of (unat b)"

definition get_text :: "bytes \<Rightarrow> string Decoded" where
  "get_text r = do {
     (len, r) \<leftarrow> get_u16 r;
     if unat len > length r then None
     else Some (map byte_char (take (unat len) r), drop (unat len) r) }"

definition get_fixed :: "nat \<Rightarrow> bytes \<Rightarrow> bytes Decoded" where
  "get_fixed n r = (if n > length r then None else Some (take n r, drop n r))"

definition decode_identity :: "bytes \<Rightarrow> (string \<times> DurableRequestId) Decoded" where
  "decode_identity r = do {
     (version, r) \<leftarrow> get_u16 r;
     if version \<noteq> kDurableRecordFormatVersion then None
     else do {
       (principal_id, r) \<leftarrow> get_text r;
       (request_id, r) \<leftarrow> get_fixed durable_request_id_bytes r;
       Some ((principal_id, request_id), r) } }"

definition decode_value :: "bytes \<Rightarrow> Value Decoded" where
  "decode_value r = do {
     (tag, r) \<leftarrow> get_u8 r;
     if tag = 0 then do { (item, r) \<leftarrow> get_u64 r; Some (VInt64 item, r) }
     else if tag = 1 then do { (item, r) \<leftarrow> get_double r; Some (VDouble item, r) }
     else if tag = 2 then do {
       (item, r) \<leftarrow> get_u8 r;
       if item > 1 then None else Some (VBool (item \<noteq> 0), r) }
     else if tag = 3 then do { (item, r) \<leftarrow> get_text r; Some (VString item, r) }
     else None }"

text \<open>The loop over the properties of a created object.\<close>

fun decode_properties :: "nat \<Rightarrow> PropertyBag \<Rightarrow> bytes \<Rightarrow> PropertyBag Decoded" where
  "decode_properties 0 properties r = Some (properties, r)"
| "decode_properties (Suc n) properties r = do {
     (name, r) \<leftarrow> get_text r;
     if name = [] then None
     else do {
       (v, r) \<leftarrow> decode_value r;
       if fm_has properties name then None
       else decode_properties n (fmupd name v properties) r } }"

record RecoveredDurableCommand =
  rdc_principal_id :: string
  rdc_request_id :: DurableRequestId
  rdc_target_tick :: u64
  rdc_client_sequence :: u64
  rdc_expected_object_version :: u64
  rdc_payload :: CommandPayload

text \<open>A default-constructed \<open>WorldObject\<close> with its id.\<close>

definition default_object :: "WorldId \<Rightarrow> WorldObject" where
  "default_object i =
     \<lparr>wo_id = i, wo_geometry_ref = [],
      wo_position = \<lparr>ecef_x = F64 0, ecef_y = F64 0, ecef_z = F64 0\<rparr>,
      wo_semantic_type = [], wo_properties = fmempty, wo_state = fmempty, wo_relations = [],
      wo_capabilities = [], wo_lifecycle = LS_staged, wo_version = 1, wo_revision = 0\<rparr>"

definition decode_payload :: "u8 \<Rightarrow> WorldId \<Rightarrow> bytes \<Rightarrow> CommandPayload Decoded" where
  "decode_payload operation i r =
     (if operation = 1 then do {
        (key, r) \<leftarrow> get_text r;
        if key = [] then None
        else do { (v, r) \<leftarrow> decode_value r; Some (SetPropertyCommand i key v, r) } }
      else if operation = 2 then do {
        (semantic_type, r) \<leftarrow> get_text r;
        if semantic_type = [] then None
        else do {
          (geometry_ref, r) \<leftarrow> get_text r;
          (x, r) \<leftarrow> get_double r;
          (y, r) \<leftarrow> get_double r;
          (z, r) \<leftarrow> get_double r;
          (property_count, r) \<leftarrow> get_u64 r;
          if property_count > 1000000 then None
          else do {
            (properties, r) \<leftarrow> decode_properties (unat property_count) fmempty r;
            Some (CreateObjectCommand ((default_object i)
              \<lparr>wo_semantic_type := semantic_type, wo_geometry_ref := geometry_ref,
               wo_position := \<lparr>ecef_x = x, ecef_y = y, ecef_z = z\<rparr>,
               wo_properties := properties\<rparr>), r) } } }
      else if operation = 3 then Some (DestroyObjectCommand i, r)
      else None)"

definition decode_external_command_record :: "bytes \<Rightarrow> RecoveredDurableCommand option" where
  "decode_external_command_record payload = do {
     ((principal_id, request_id), r) \<leftarrow> decode_identity payload;
     (target_tick, r) \<leftarrow> get_u64 r;
     (client_sequence, r) \<leftarrow> get_u64 r;
     (target_wid, r) \<leftarrow> get_u64 r;
     (expected_object_version, r) \<leftarrow> get_u64 r;
     (target_tick_hint, r) \<leftarrow> get_u64 r;
     (operation, r) \<leftarrow> get_u8 r;
     if \<not> wid_valid (WorldId target_wid) then None
     else do {
       (command, r) \<leftarrow> decode_payload operation (WorldId target_wid) r;
       if r \<noteq> [] \<or> target_tick_hint > target_tick then None
       else Some \<lparr>rdc_principal_id = principal_id, rdc_request_id = request_id,
         rdc_target_tick = target_tick, rdc_client_sequence = client_sequence,
         rdc_expected_object_version = expected_object_version, rdc_payload = command\<rparr> } }"

record RecoveredDurableOutcome =
  rdo_principal_id :: string
  rdo_request_id :: DurableRequestId
  rdo_client_sequence :: u64
  rdo_ingress_sequence :: u64
  rdo_applied :: bool
  rdo_error :: ErrorNumber

definition decode_command_outcome_record :: "bytes \<Rightarrow> RecoveredDurableOutcome option" where
  "decode_command_outcome_record payload = do {
     ((principal_id, request_id), r) \<leftarrow> decode_identity payload;
     (client_sequence, r) \<leftarrow> get_u64 r;
     (ingress_sequence, r) \<leftarrow> get_u64 r;
     (outcome, r) \<leftarrow> get_u8 r;
     (err, r) \<leftarrow> get_u16 r;
     if r \<noteq> [] \<or> (outcome \<noteq> 1 \<and> outcome \<noteq> 0) then None
     else Some \<lparr>rdo_principal_id = principal_id, rdo_request_id = request_id,
       rdo_client_sequence = client_sequence, rdo_ingress_sequence = ingress_sequence,
       rdo_applied = (outcome = 1), rdo_error = (if outcome = 1 then error_number GE_none else err)\<rparr> }"

section \<open>The idempotency index\<close>

datatype DurableRecordKind = DK_external_command | DK_command_outcome

datatype DurableEntryState = DS_pending | DS_durable_accepted | DS_applied | DS_rejected

record DurableIdempotencyEntry =
  die_state :: DurableEntryState
  die_lsn :: u64
  die_client_sequence :: u64
  die_ingress_sequence :: u64
  die_error :: ErrorNumber

record DurableSlot =
  slot_fingerprint :: bytes
  slot_entry :: DurableIdempotencyEntry

type_synonym DurableKey = "string \<times> DurableRequestId"
type_synonym DurableIdempotencyIndex = "(DurableKey, DurableSlot) fmap"

definition default_entry :: DurableIdempotencyEntry where
  "default_entry =
     \<lparr>die_state = DS_pending, die_lsn = 0, die_client_sequence = 0, die_ingress_sequence = 0,
      die_error = error_number GE_none\<rparr>"

definition index_lookup ::
  "DurableIdempotencyIndex \<Rightarrow> DurableKey \<Rightarrow> bytes \<Rightarrow> DurableIdempotencyEntry option \<times> bool" where
  "index_lookup slots key fingerprint =
     (case fmlookup slots key of
        None \<Rightarrow> (None, False)
      | Some slot \<Rightarrow> (Some (slot_entry slot), slot_fingerprint slot = fingerprint))"

definition register_pending ::
  "DurableIdempotencyIndex \<Rightarrow> DurableKey \<Rightarrow> bytes \<Rightarrow> u64 \<Rightarrow> DurableIdempotencyIndex" where
  "register_pending slots key fingerprint client_sequence =
     fmupd key \<lparr>slot_fingerprint = fingerprint,
       slot_entry = default_entry\<lparr>die_state := DS_pending, die_client_sequence := client_sequence\<rparr>\<rparr>
       slots"

definition mark_durable_accepted ::
  "DurableIdempotencyIndex \<Rightarrow> DurableKey \<Rightarrow> u64 \<Rightarrow> u64 \<Rightarrow> DurableIdempotencyIndex" where
  "mark_durable_accepted slots key lsn ingress_sequence =
     (case fmlookup slots key of
        None \<Rightarrow> slots
      | Some slot \<Rightarrow> fmupd key (slot\<lparr>slot_entry := (slot_entry slot)
          \<lparr>die_state := DS_durable_accepted, die_lsn := lsn,
           die_ingress_sequence := ingress_sequence\<rparr>\<rparr>) slots)"

definition mark_final ::
  "DurableIdempotencyIndex \<Rightarrow> DurableKey \<Rightarrow> bool \<Rightarrow> GatewayError \<Rightarrow> DurableIdempotencyIndex" where
  "mark_final slots key applied err =
     (case fmlookup slots key of
        None \<Rightarrow> slots
      | Some slot \<Rightarrow> fmupd key (slot\<lparr>slot_entry := (slot_entry slot)
          \<lparr>die_state := (if applied then DS_applied else DS_rejected),
           die_error := (if applied then error_number GE_none else error_number err)\<rparr>\<rparr>) slots)"

definition index_erase :: "DurableIdempotencyIndex \<Rightarrow> DurableKey \<Rightarrow> DurableIdempotencyIndex" where
  "index_erase slots key = fmdrop key slots"

definition index_size :: "DurableIdempotencyIndex \<Rightarrow> nat" where
  "index_size slots = fm_size slots"

definition index_restore ::
  "DurableIdempotencyIndex \<Rightarrow> DurableRecordKind \<Rightarrow> u64 \<Rightarrow> bytes \<Rightarrow> bool \<times> DurableIdempotencyIndex" where
  "index_restore slots kind lsn payload =
     (case decode_identity payload of
        None \<Rightarrow> (False, slots)
      | Some (key, r) \<Rightarrow>
          (case kind of
             DK_external_command \<Rightarrow>
               (case get_u64 r of
                  None \<Rightarrow> (False, slots)
                | Some (target_tick, fingerprint) \<Rightarrow>
                    (case get_u64 fingerprint of
                       None \<Rightarrow> (False, slots)
                     | Some (client_sequence, _) \<Rightarrow>
                         (case fmlookup slots key of
                            Some slot \<Rightarrow> (slot_fingerprint slot = fingerprint, slots)
                          | None \<Rightarrow>
                              (True, fmupd key \<lparr>slot_fingerprint = fingerprint,
                                 slot_entry = default_entry
                                   \<lparr>die_state := DS_durable_accepted, die_lsn := lsn,
                                    die_client_sequence := client_sequence\<rparr>\<rparr> slots))))
           | DK_command_outcome \<Rightarrow>
               (case (do {
                  (client_sequence, r) \<leftarrow> get_u64 r;
                  (ingress_sequence, r) \<leftarrow> get_u64 r;
                  (outcome, r) \<leftarrow> get_u8 r;
                  (error_value, r) \<leftarrow> get_u16 r;
                  Some (client_sequence, ingress_sequence, outcome, error_value) }) of
                  None \<Rightarrow> (False, slots)
                | Some (client_sequence, ingress_sequence, outcome, error_value) \<Rightarrow>
                    (case fmlookup slots key of
                       None \<Rightarrow> (True, slots)
                     | Some slot \<Rightarrow>
                         (True, fmupd key (slot\<lparr>slot_entry := (slot_entry slot)
                            \<lparr>die_client_sequence := client_sequence,
                             die_ingress_sequence := ingress_sequence,
                             die_state := (if outcome = 1 then DS_applied else DS_rejected),
                             die_error := (if outcome = 1 then error_number GE_none
                                           else error_value)\<rparr>\<rparr>) slots)))))"


section \<open>Decoding inverts encoding, field by field\<close>

definition u16_bytes :: "u16 \<Rightarrow> bytes" where
  "u16_bytes v = [ucast v, ucast (drop_bit 8 v)]"

definition text_bytes :: "string \<Rightarrow> bytes" where
  "text_bytes t = u16_bytes (of_nat (length t)) @ map char_byte t"

definition text_ok :: "string \<Rightarrow> bool" where
  "text_ok t \<longleftrightarrow> length t < 2 ^ 16"

lemma put_u8_eq: "put_u8 v e = e @ [v]"
  by (simp add: put_u8_def)

lemma put_u16_eq: "put_u16 v e = e @ u16_bytes v"
  by (simp add: put_u16_def put_u8_def u16_bytes_def)

lemma put_u64_eq: "put_u64 v e = e @ le_bytes 8 v"
proof -
  have "put_u64_loop n v e = e @ le_bytes n v" for n
    by (induction n v e rule: put_u64_loop.induct) (simp_all add: put_u8_def)
  then show ?thesis by (simp add: put_u64_def)
qed

lemma put_text_eq: "put_text t e = e @ text_bytes t"
proof -
  have "foldl (\<lambda>e c. put_u8 (char_byte c) e) e t = e @ map char_byte t" for e
    by (induction t arbitrary: e) (simp_all add: put_u8_def)
  then show ?thesis by (simp add: put_text_def put_u16_eq text_bytes_def)
qed

lemmas put_simps = put_u8_eq put_u16_eq put_u64_eq put_i64_def put_double_def put_text_eq put_bytes_def

fun tagged_bytes :: "Value \<Rightarrow> bytes" where
  "tagged_bytes (VInt64 n) = 0 # le_bytes 8 n"
| "tagged_bytes (VDouble d) = 1 # le_bytes 8 (f64_bits d)"
| "tagged_bytes (VBool b) = [2, of_bool b]"
| "tagged_bytes (VString t) = 3 # text_bytes t"

lemma encode_value_eq: "encode_value v e = e @ tagged_bytes v"
  by (cases v) (simp_all add: put_simps)

fun value_fits :: "Value \<Rightarrow> bool" where
  "value_fits (VString t) = text_ok t"
| "value_fits _ = True"

lemma get_u16_bytes [codec_simps]: "get_u16 (u16_bytes v @ r) = Some (v, r)"
proof -
  have "ucast (ucast v :: u8) OR push_bit 8 (ucast (ucast (drop_bit 8 v) :: u8)) = v"
    by (rule bit_word_eqI)
       (auto simp: bit_or_iff bit_push_bit_iff bit_unsigned_iff bit_drop_bit_eq not_less)
  then show ?thesis by (simp add: get_u16_def u16_bytes_def)
qed

lemma get_u64_loop_bytes:
  "get_u64_loop (length bs) shift v (bs @ r) = Some (v OR push_bit shift (le_value bs), r)"
proof (induction bs arbitrary: shift v)
  case Nil
  then show ?case by simp
next
  case (Cons b bs)
  have "push_bit shift (ucast b OR push_bit 8 (le_value bs)) =
      push_bit shift (ucast b) OR push_bit (shift + 8) (le_value bs)"
    by (simp add: push_bit_or push_bit_push_bit add.commute)
  with Cons show ?case by (simp add: or.assoc)
qed

lemma get_u64_bytes [codec_simps]: "get_u64 (le_bytes 8 v @ r) = Some (v, r)"
  using get_u64_loop_bytes [of "le_bytes 8 v" 0 0 r] by (simp add: get_u64_def del: le_bytes.simps)

lemma get_double_bytes [codec_simps]: "get_double (le_bytes 8 (f64_bits d) @ r) = Some (d, r)"
  by (simp add: get_double_def get_u64_bytes del: le_bytes.simps)

lemma byte_char_byte [simp]: "byte_char (char_byte c) = c"
proof -
  have "(of_char c :: nat) < 256"
    by (cases c) (auto simp: of_char_def split: if_splits intro: order.strict_trans2)
  then have "unat (char_byte c) = of_char c"
    by (simp add: char_byte_def unat_of_nat take_bit_nat_eq_self)
  then show ?thesis by (simp add: byte_char_def)
qed

lemma get_text_bytes [codec_simps]:
  assumes "text_ok t"
  shows "get_text (text_bytes t @ r) = Some (t, r)"
proof -
  have "unat (of_nat (length t) :: u16) = length t"
    using assms by (simp add: text_ok_def unat_of_nat take_bit_nat_eq_self)
  then show ?thesis
    by (simp add: get_text_def text_bytes_def get_u16_bytes comp_def)
qed

lemma get_fixed_bytes [codec_simps]: "length bs = n \<Longrightarrow> get_fixed n (bs @ r) = Some (bs, r)"
  by (auto simp: get_fixed_def)

lemma decode_value_bytes [codec_simps]:
  "value_fits v \<Longrightarrow> decode_value (tagged_bytes v @ r) = Some (v, r)"
  by (cases v)
     (simp_all add: decode_value_def get_u64_bytes get_double_bytes get_text_bytes
        word_less_nat_alt del: le_bytes.simps split: bool.split)

lemma encode_identity_eq:
  "encode_identity p rid e = e @ u16_bytes kDurableRecordFormatVersion @ text_bytes p @ rid"
  by (simp add: encode_identity_def put_simps)

lemma decode_identity_bytes [codec_simps]:
  "text_ok p \<Longrightarrow> length rid = durable_request_id_bytes \<Longrightarrow>
     decode_identity (u16_bytes kDurableRecordFormatVersion @ text_bytes p @ rid @ r) =
       Some ((p, rid), r)"
  by (simp add: decode_identity_def get_u16_bytes get_text_bytes get_fixed_bytes)


section \<open>Round trips of whole records\<close>

definition item_bytes :: "string \<times> Value \<Rightarrow> bytes" where
  "item_bytes = (\<lambda>(key, v). text_bytes key @ tagged_bytes v)"

fun params_bytes :: "CommandParams \<Rightarrow> bytes" where
  "params_bytes (SetPropertyParams key v) = 1 # text_bytes key @ tagged_bytes v"
| "params_bytes (CreateObjectParams _ semantic_type geometry_ref position properties) =
     2 # text_bytes semantic_type @ text_bytes geometry_ref @
     le_bytes 8 (f64_bits (ecef_x position)) @ le_bytes 8 (f64_bits (ecef_y position)) @
     le_bytes 8 (f64_bits (ecef_z position)) @ le_bytes 8 (of_nat (fm_size properties)) @
     concat (map item_bytes (fm_items properties))"
| "params_bytes DestroyObjectParams = [3]"

lemma encode_params_eq: "encode_params p e = e @ params_bytes p"
proof (cases p)
  case (CreateObjectParams i s g pos props)
  have "foldl (\<lambda>e (key, v). encode_value v (put_text key e)) e xs = e @ concat (map item_bytes xs)"
    for e xs
    by (induction xs arbitrary: e) (auto simp: encode_value_eq put_simps item_bytes_def)
  with CreateObjectParams show ?thesis by (simp add: put_simps Let_def del: le_bytes.simps)
qed (simp_all add: put_simps encode_value_eq)

definition fingerprint_bytes :: "ExternalCommand \<Rightarrow> bytes" where
  "fingerprint_bytes c =
     le_bytes 8 (ec_client_sequence c) @ le_bytes 8 (wid_value (ec_target_wid c)) @
     le_bytes 8 (ec_expected_object_version c) @ le_bytes 8 (ec_target_tick_hint c) @
     params_bytes (ec_params c)"

lemma make_command_fingerprint_eq: "make_command_fingerprint c = fingerprint_bytes c"
  by (simp add: make_command_fingerprint_def fingerprint_bytes_def put_simps encode_params_eq Let_def
        del: le_bytes.simps)

lemma encode_external_eq:
  "encode_external_command_record p rid t c =
     u16_bytes kDurableRecordFormatVersion @ text_bytes p @ rid @ le_bytes 8 t @ fingerprint_bytes c"
  by (simp add: encode_external_command_record_def encode_identity_eq put_simps
        make_command_fingerprint_eq del: le_bytes.simps)

text \<open>The parameters the decoder accepts: every text fits its 16-bit length, names are not empty.\<close>

fun params_ok :: "CommandParams \<Rightarrow> bool" where
  "params_ok (SetPropertyParams key v) \<longleftrightarrow> text_ok key \<and> key \<noteq> [] \<and> value_fits v"
| "params_ok (CreateObjectParams _ semantic_type geometry_ref position properties) \<longleftrightarrow>
     text_ok semantic_type \<and> semantic_type \<noteq> [] \<and> text_ok geometry_ref \<and>
     fm_size properties \<le> 1000000 \<and>
     (\<forall>(key, v)\<in>set (fm_items properties). text_ok key \<and> key \<noteq> [] \<and> value_fits v)"
| "params_ok DestroyObjectParams \<longleftrightarrow> True"

fun command_payload :: "WorldId \<Rightarrow> CommandParams \<Rightarrow> CommandPayload" where
  "command_payload i (SetPropertyParams key v) = SetPropertyCommand i key v"
| "command_payload i (CreateObjectParams _ semantic_type geometry_ref position properties) =
     CreateObjectCommand ((default_object i)
       \<lparr>wo_semantic_type := semantic_type, wo_geometry_ref := geometry_ref,
        wo_position := position, wo_properties := properties\<rparr>)"
| "command_payload i DestroyObjectParams = DestroyObjectCommand i"

lemma decode_properties_items:
  "distinct (map fst items) \<Longrightarrow> \<forall>(key, v)\<in>set items. text_ok key \<and> key \<noteq> [] \<and> value_fits v \<Longrightarrow>
     \<forall>key\<in>fst ` set items. \<not> fm_has m key \<Longrightarrow>
     \<exists>m'. decode_properties (length items) m (concat (map item_bytes items) @ r) = Some (m', r) \<and>
       fmlookup m' = fmlookup m ++ map_of items"
proof (induction items arbitrary: m)
  case Nil
  then show ?case by simp
next
  case (Cons item items)
  obtain key v where item: "item = (key, v)" by fastforce
  from Cons.prems item have "\<exists>m'. decode_properties (length items) (fmupd key v m)
      (concat (map item_bytes items) @ r) = Some (m', r) \<and>
      fmlookup m' = fmlookup (fmupd key v m) ++ map_of items"
    by (intro Cons.IH) (auto simp: image_iff)
  then obtain m' where m': "decode_properties (length items) (fmupd key v m)
      (concat (map item_bytes items) @ r) = Some (m', r)"
    "fmlookup m' = fmlookup (fmupd key v m) ++ map_of items" by blast
  have "map_of items key = None"
    using Cons.prems(1) item by (simp add: map_of_eq_None_iff)
  then have "fmlookup (fmupd key v m) ++ map_of items = fmlookup m ++ map_of ((key, v) # items)"
    by (auto simp: fun_eq_iff map_add_def split: option.split)
  then have "fmlookup m' = fmlookup m ++ map_of (item # items)"
    unfolding m'(2) item .
  moreover have "decode_properties (length (item # items)) m
      (concat (map item_bytes (item # items)) @ r) = Some (m', r)"
    using Cons.prems item m'(1) by (simp add: item_bytes_def get_text_bytes decode_value_bytes)
  ultimately show ?case by blast
qed

lemma decode_all_properties:
  assumes "\<forall>(key, v)\<in>set (fm_items m). text_ok key \<and> key \<noteq> [] \<and> value_fits v"
  shows "decode_properties (fm_size m) fmempty (concat (map item_bytes (fm_items m)) @ r) = Some (m, r)"
proof -
  obtain m' where m': "decode_properties (length (fm_items m)) fmempty
      (concat (map item_bytes (fm_items m)) @ r) = Some (m', r)"
    "fmlookup m' = fmlookup fmempty ++ map_of (fm_items m)"
    using decode_properties_items [of "fm_items m" fmempty r] assms by auto
  then have "fmlookup m' = fmlookup m" by (auto simp: fun_eq_iff map_add_def split: option.split)
  then have "m' = m" by (simp add: fmap_ext)
  with m'(1) show ?thesis by simp
qed

lemma decode_payload_params:
  assumes "params_ok p"
  shows "\<exists>operation r'. params_bytes p @ r = operation # r' \<and>
    decode_payload operation i r' = Some (command_payload i p, r)"
proof (cases p)
  case (SetPropertyParams key v)
  with assms show ?thesis
    by (simp add: decode_payload_def get_text_bytes decode_value_bytes)
next
  case (CreateObjectParams q s g pos props)
  have "unat (of_nat (fm_size props) :: u64) = fm_size props"
    using assms CreateObjectParams by (simp add: unat_of_nat_u64)
  moreover have "\<not> (of_nat (fm_size props) :: u64) > 1000000"
    using assms CreateObjectParams by (simp add: word_less_nat_alt unat_of_nat_u64)
  ultimately show ?thesis
    using assms CreateObjectParams
    by (simp add: decode_payload_def get_text_bytes get_double_bytes get_u64_bytes
          decode_all_properties del: le_bytes.simps)
qed (simp add: decode_payload_def)


definition example_command :: ExternalCommand where
  "example_command =
     \<lparr>ec_session = SessionId 1, ec_client_sequence = 4, ec_target_wid = WorldId 7,
      ec_params = SetPropertyParams ''hp'' (VString ''low''), ec_expected_object_version = 1,
      ec_target_tick_hint = 3, ec_request_id = Some (replicate 16 9)\<rparr>"


text \<open>
  C28: the round trip of an outcome record: the decoded outcome is the encoded one, with the error
  number of the rejection, and no error for an applied command.
\<close>

theorem command_outcome_roundtrip:
  assumes "text_ok p" "length rid = durable_request_id_bytes"
  shows "decode_command_outcome_record (encode_command_outcome_record p rid cs ingress applied err) =
    Some \<lparr>rdo_principal_id = p, rdo_request_id = rid, rdo_client_sequence = cs,
      rdo_ingress_sequence = ingress, rdo_applied = applied,
      rdo_error = (if applied then 0 else error_number err)\<rparr>"
  by (simp add: encode_command_outcome_record_def decode_command_outcome_record_def put_simps
        encode_identity_eq decode_identity_bytes [OF assms] get_u64_bytes
        get_u16_bytes [where r = "[]", simplified] Let_def del: le_bytes.simps)

theorem command_outcome_roundtrip_witness:
  "map_option rdo_error (decode_command_outcome_record
     (encode_command_outcome_record ''ann'' (replicate 16 9) 4 8 False GE_missing_object)) = Some 13"
  by (subst command_outcome_roundtrip) (simp_all add: text_ok_def durable_request_id_bytes_def)


section \<open>The fingerprint identifies the content\<close>

lemma prefix_code_decoder:
  assumes "\<And>x r. valid x \<Longrightarrow> dec (enc x @ r) = Some (x, r)"
  shows "prefix_code valid enc"
proof
  fix x y r s
  assume "valid x" "valid y" "enc x @ r = enc y @ s"
  then have "Some (x, r) = Some (y, s)" using assms by metis
  then show "x = y \<and> r = s" by simp
qed

text \<open>The parameters without the id that a creation requests, which no record holds.\<close>

fun content_params :: "CommandParams \<Rightarrow> CommandParams" where
  "content_params (CreateObjectParams _ s g pos props) = CreateObjectParams (WorldId 0) s g pos props"
| "content_params p = p"

lemma command_payload_inject:
  "command_payload i p = command_payload i q \<Longrightarrow> content_params p = content_params q"
  by (cases p; cases q) (auto simp: default_object_def)

lemma params_bytes_content [simp]: "params_bytes (content_params p) = params_bytes p"
  by (cases p) simp_all

lemma params_code: "params_ok p \<Longrightarrow> params_ok q \<Longrightarrow> params_bytes p @ r = params_bytes q @ s \<Longrightarrow>
    content_params p = content_params q \<and> r = s"
  using decode_payload_params [of p r "WorldId 0"] decode_payload_params [of q s "WorldId 0"]
  by (auto dest: command_payload_inject)

text \<open>
  C29: two recoverable commands have the same fingerprint exactly if they agree in client sequence,
  target, precondition, tick hint and parameters: a retry with the same key and other content is
  always told apart. The id that a creation requests is the one part that is not compared.
\<close>

theorem fingerprint_identifies:
  assumes "params_ok (ec_params c)" "params_ok (ec_params d)"
  shows "make_command_fingerprint c = make_command_fingerprint d \<longleftrightarrow>
    ec_client_sequence c = ec_client_sequence d \<and> ec_target_wid c = ec_target_wid d \<and>
    ec_expected_object_version c = ec_expected_object_version d \<and>
    ec_target_tick_hint c = ec_target_tick_hint d \<and>
    content_params (ec_params c) = content_params (ec_params d)"
proof
  assume "make_command_fingerprint c = make_command_fingerprint d"
  then show "ec_client_sequence c = ec_client_sequence d \<and> ec_target_wid c = ec_target_wid d \<and>
    ec_expected_object_version c = ec_expected_object_version d \<and>
    ec_target_tick_hint c = ec_target_tick_hint d \<and>
    content_params (ec_params c) = content_params (ec_params d)"
    using params_code [OF assms, of "[]" "[]"]
    by (simp add: make_command_fingerprint_eq fingerprint_bytes_def fixed_prefix le_bytes_64_inject
          WorldId.expand del: le_bytes.simps)
next
  assume "ec_client_sequence c = ec_client_sequence d \<and> ec_target_wid c = ec_target_wid d \<and>
    ec_expected_object_version c = ec_expected_object_version d \<and>
    ec_target_tick_hint c = ec_target_tick_hint d \<and>
    content_params (ec_params c) = content_params (ec_params d)"
  moreover from this have "params_bytes (ec_params c) = params_bytes (ec_params d)"
    by (metis params_bytes_content)
  ultimately show "make_command_fingerprint c = make_command_fingerprint d"
    by (simp add: make_command_fingerprint_eq fingerprint_bytes_def)
qed

theorem fingerprint_identifies_witness:
  "make_command_fingerprint example_command \<noteq>
   make_command_fingerprint (example_command\<lparr>ec_params := SetPropertyParams ''hp'' (VString ''high'')\<rparr>)"
  using fingerprint_identifies [of example_command
      "example_command\<lparr>ec_params := SetPropertyParams ''hp'' (VString ''high'')\<rparr>"]
  by (simp add: example_command_def text_ok_def)

text \<open>
  The length of a text is truncated to 16 bits: a property command whose key has exactly
  \<open>2 ^ 16\<close> characters is written to the log as a record that no restart can decode.
\<close>

lemma long_key_undecodable:
  assumes "ec_params c = SetPropertyParams key v" "length key = 2 ^ 16"
    "text_ok p" "length rid = durable_request_id_bytes"
  shows "decode_external_command_record (encode_external_command_record p rid t c) = None"
proof -
  have "get_u16 (u16_bytes (of_nat (length key)) @ r) = Some (0, r)" for r
    by (simp add: get_u16_bytes assms(2))
  then have "get_text (text_bytes key @ r) = Some ([], map char_byte key @ r)" for r
    by (simp add: get_text_def text_bytes_def)
  then show ?thesis
    by (simp add: encode_external_eq decode_external_command_record_def fingerprint_bytes_def
          decode_identity_bytes [OF assms(3,4)] get_u64_bytes assms(1) decode_payload_def
          del: le_bytes.simps split: if_split)
qed

section \<open>Replaying the log rebuilds the index\<close>

lemma restore_command:
  assumes "text_ok p" "length rid = durable_request_id_bytes" "fmlookup slots (p, rid) = None"
  shows "index_restore slots DK_external_command lsn (encode_external_command_record p rid t c) =
    (True, fmupd (p, rid) \<lparr>slot_fingerprint = make_command_fingerprint c,
       slot_entry = default_entry\<lparr>die_state := DS_durable_accepted, die_lsn := lsn,
         die_client_sequence := ec_client_sequence c\<rparr>\<rparr> slots)"
  using assms
  by (simp add: index_restore_def encode_external_eq decode_identity_bytes get_u64_bytes
        make_command_fingerprint_eq fingerprint_bytes_def del: le_bytes.simps)

lemma restore_outcome:
  assumes "text_ok p" "length rid = durable_request_id_bytes" "fmlookup slots (p, rid) = Some slot"
  shows "index_restore slots DK_command_outcome lsn
      (encode_command_outcome_record p rid cs ingress applied err) =
    (True, fmupd (p, rid) (slot\<lparr>slot_entry := (slot_entry slot)
       \<lparr>die_client_sequence := cs, die_ingress_sequence := ingress,
        die_state := (if applied then DS_applied else DS_rejected),
        die_error := (if applied then error_number GE_none else error_number err)\<rparr>\<rparr>) slots)"
  using assms
  by (simp add: index_restore_def encode_command_outcome_record_def put_simps encode_identity_eq
        decode_identity_bytes get_u64_bytes get_u16_bytes [where r = "[]", simplified] Let_def
        del: le_bytes.simps)

text \<open>
  C30: crash recovery. Replaying the command record and the outcome record of a command into an
  index that does not know its key gives the very index that the running gateway had after it
  registered the command, learnt its log position and ingress sequence, and recorded its outcome;
  a repeated command record changes nothing, and one with other content is refused.
\<close>

theorem replay_rebuilds_index:
  assumes "text_ok p" "length rid = durable_request_id_bytes" "fmlookup slots (p, rid) = None"
    and "live = mark_final (mark_durable_accepted
           (register_pending slots (p, rid) (make_command_fingerprint c) (ec_client_sequence c))
           (p, rid) lsn ingress) (p, rid) applied err"
    and "index_restore slots DK_external_command lsn (encode_external_command_record p rid t c) =
           (ok1, slots1)"
    and "index_restore slots1 DK_command_outcome lsn2
           (encode_command_outcome_record p rid (ec_client_sequence c) ingress applied err) =
           (ok2, slots2)"
  shows "ok1 \<and> ok2 \<and> slots2 = live \<and>
    index_restore slots2 DK_external_command lsn3 (encode_external_command_record p rid t' d) =
      (make_command_fingerprint d = make_command_fingerprint c, slots2)"
proof -
  have one: "ok1 \<and> slots1 = fmupd (p, rid) \<lparr>slot_fingerprint = make_command_fingerprint c,
       slot_entry = default_entry\<lparr>die_state := DS_durable_accepted, die_lsn := lsn,
         die_client_sequence := ec_client_sequence c\<rparr>\<rparr> slots"
    using assms(5) restore_command [OF assms(1-3), of lsn t c] by auto
  then have "fmlookup slots1 (p, rid) = Some \<lparr>slot_fingerprint = make_command_fingerprint c,
       slot_entry = default_entry\<lparr>die_state := DS_durable_accepted, die_lsn := lsn,
         die_client_sequence := ec_client_sequence c\<rparr>\<rparr>" by simp
  from restore_outcome [OF assms(1,2) this] one assms(3,4,6) have two: "ok2 \<and> slots2 = live"
    by (auto simp: mark_final_def mark_durable_accepted_def register_pending_def default_entry_def
          intro!: fmap_ext)
  have "fmlookup live (p, rid) = Some slot \<Longrightarrow> slot_fingerprint slot = make_command_fingerprint c"
    for slot
    unfolding assms(4) by (auto simp: mark_final_def mark_durable_accepted_def register_pending_def)
  moreover have "fmlookup live (p, rid) \<noteq> None"
    unfolding assms(4) by (simp add: mark_final_def mark_durable_accepted_def register_pending_def)
  ultimately have "index_restore slots2 DK_external_command lsn3
      (encode_external_command_record p rid t' d) =
      (make_command_fingerprint d = make_command_fingerprint c, slots2)"
    using assms(1,2) two
    by (auto simp: index_restore_def encode_external_eq decode_identity_bytes get_u64_bytes
          make_command_fingerprint_eq fingerprint_bytes_def simp del: le_bytes.simps)
  with one two show ?thesis by blast
qed

theorem replay_rebuilds_index_witness:
  "fst (index_restore fmempty DK_external_command 1
     (encode_external_command_record ''ann'' (replicate 16 9) 5 example_command))"
proof -
  obtain ok1 slots1 where one: "index_restore fmempty DK_external_command 1
     (encode_external_command_record ''ann'' (replicate 16 9) 5 example_command) = (ok1, slots1)"
    by fastforce
  obtain ok2 slots2 where "index_restore slots1 DK_command_outcome 2
     (encode_command_outcome_record ''ann'' (replicate 16 9) (ec_client_sequence example_command) 8
        True GE_none) = (ok2, slots2)"
    by fastforce
  from replay_rebuilds_index [OF _ _ _ refl one this] one show ?thesis
    by (simp add: text_ok_def durable_request_id_bytes_def)
qed

end
