(* ===== verification/Float_Monotone.thy ===== *)
theory Float_Monotone
  imports Float64
begin

text \<open>
  Rounding is monotone: the order of two numbers survives rounding to binary64, and with it a
  division by the same positive number and the conversion of the quotient's floor to an integer.
\<close>

section \<open>The binary logarithm\<close>

lemma less_powi:
  "(if 0 \<le> e then m < 2 ^ nat e else m * 2 ^ nat (- e) < 1) \<longleftrightarrow> (m :: rat) < 2 powi e"
  by (auto simp: power_int_def field_simps)

lemma rat_log2_bounds:
  assumes "0 < m"
  shows "2 powi rat_log2 m \<le> m" "m < 2 powi (rat_log2 m + 1)"
proof -
  obtain a b where ab: "quotient_of m = (a, b)" by fastforce
  have pos: "0 < a" "0 < b" and m: "m = of_int a / of_int b"
    using assms ab quotient_of_div [OF ab] quotient_of_denom_pos [OF ab]
    by (auto simp: zero_less_divide_iff)
  define la where "la = bit_length (nat a)"
  define lb where "lb = bit_length (nat b)"
  have la: "2 ^ (la - 1) \<le> nat a" "nat a < 2 ^ la" "0 < la"
    and lb: "2 ^ (lb - 1) \<le> nat b" "nat b < 2 ^ lb" "0 < lb"
    using bit_length_bounds [of "nat a"] bit_length_bounds [of "nat b"] pos
    by (auto simp: la_def lb_def)
  have real: "(2 :: rat) ^ i \<le> of_int c" if "2 ^ i \<le> nat c" "0 < c" for i c
  proof -
    have "int (2 ^ i) \<le> c" using that by (subst (asm) le_nat_iff) auto
    then have "(of_int (int (2 ^ i)) :: rat) \<le> of_int c" by (simp only: of_int_le_iff)
    then show ?thesis by simp
  qed
  have real': "of_int c < (2 :: rat) ^ i" if "nat c < 2 ^ i" "0 < c" for i c
  proof -
    have "c < int (2 ^ i)" using that by (subst (asm) nat_less_iff) auto
    then have "(of_int c :: rat) < of_int (int (2 ^ i))" by (simp only: of_int_less_iff)
    then show ?thesis by simp
  qed
  note A = real [OF la(1) pos(1)] real' [OF la(2) pos(1)]
  note B = real [OF lb(1) pos(2)] real' [OF lb(2) pos(2)]
  define e where "e = int la - int lb"
  have P: "(2 :: rat) powi (int i - int j) = 2 ^ i / 2 ^ j" for i j
    by (simp add: power_int_diff)
  have "(2 :: rat) powi (e - 1) = 2 ^ (la - 1) / 2 ^ lb"
    using la(3) P [of "la - 1" lb] by (simp add: e_def of_nat_diff algebra_simps)
  also have "\<dots> \<le> m"
    using A B pos by (auto simp: m intro!: frac_le)
  finally have lower: "2 powi (e - 1) \<le> m" .
  have "m \<le> of_int a / 2 ^ (lb - 1)"
    using B pos by (auto simp: m intro!: divide_left_mono)
  also have "\<dots> < 2 ^ la / 2 ^ (lb - 1)"
    using A by (simp add: divide_strict_right_mono)
  also have "\<dots> = 2 powi (e + 1)"
    using lb(3) P [of la "lb - 1"] by (simp add: e_def of_nat_diff algebra_simps)
  finally have upper: "m < 2 powi (e + 1)" .
  have log: "rat_log2 m = (if m < 2 powi e then e - 1 else e)"
    unfolding rat_log2_def ab prod.case Let_def less_powi la_def [symmetric] lb_def [symmetric] e_def
    by (rule refl)
  show "2 powi rat_log2 m \<le> m" "m < 2 powi (rat_log2 m + 1)"
    using lower upper by (auto simp: log)
qed

lemma powi_less_iff: "(2 :: rat) powi i < 2 powi j \<longleftrightarrow> i < j"
  by (metis one_less_numeral_iff power_int_strict_increasing power_int_increasing not_le
      order_less_imp_le one_le_numeral semiring_norm(76))

lemma rat_log2_mono: "0 < m \<Longrightarrow> m \<le> n \<Longrightarrow> rat_log2 m \<le> rat_log2 n"
proof -
  assume "0 < m" "m \<le> n"
  then have "(2 :: rat) powi rat_log2 m < 2 powi (rat_log2 n + 1)"
    using rat_log2_bounds [of m] rat_log2_bounds [of n] by linarith
  then show ?thesis by (simp add: powi_less_iff)
qed

section \<open>Rounding\<close>

lemma round_nearest_cases:
  assumes "0 \<le> x"
  shows "nat \<lfloor>x\<rfloor> \<le> round_nearest x" "round_nearest x \<le> nat \<lfloor>x\<rfloor> + 1"
  by (auto simp: round_nearest_def Let_def)

lemma round_nearest_mono:
  assumes "0 \<le> x" "x \<le> y"
  shows "round_nearest x \<le> round_nearest y"
proof (cases "\<lfloor>x\<rfloor> = \<lfloor>y\<rfloor>")
  case True
  then show ?thesis using assms(2) by (auto simp: round_nearest_def Let_def)
next
  case False
  then have "\<lfloor>x\<rfloor> < \<lfloor>y\<rfloor>" using floor_mono [OF assms(2)] by simp
  moreover have "0 \<le> \<lfloor>x\<rfloor>" using assms(1) by simp
  ultimately have "nat \<lfloor>x\<rfloor> + 1 \<le> nat \<lfloor>y\<rfloor>" by linarith
  then show ?thesis using round_nearest_cases [of x] round_nearest_cases [of y] assms by linarith
qed

lemma round_nearest_nat: "round_nearest (of_nat n) = n"
  by (simp add: round_nearest_def Let_def)

definition round_unit :: "rat \<Rightarrow> int" where
  "round_unit m = max (rat_log2 m - 52) (- 1074)"

definition round_scaled :: "rat \<Rightarrow> nat" where
  "round_scaled m = round_nearest (m / 2 powi round_unit m)"

lemma round_bits_scaled:
  "0 < m \<Longrightarrow>
     round_bits m = min (nat (round_unit m + 1074) * 2 ^ 52 + round_scaled m) f64_infinity_bits"
  by (auto simp: round_bits_def round_scaled_def round_unit_def Let_def power_int_def field_simps)

lemma round_scaled_bounds:
  assumes "0 < m"
  shows "round_scaled m \<le> 2 ^ 53" "- 1074 < round_unit m \<Longrightarrow> 2 ^ 52 \<le> round_scaled m"
proof -
  have scale: "(2 :: rat) powi (i + int k) / 2 powi i = 2 ^ k" for i k
    by (simp add: power_int_add)
  have "m < 2 powi (round_unit m + 53)"
    using rat_log2_bounds(2) [OF assms]
    by (rule order.strict_trans2) (auto simp: round_unit_def intro!: power_int_increasing)
  then have "m / 2 powi round_unit m < 2 ^ 53"
    using scale [of "round_unit m" 53] by (simp add: field_simps)
  then have "round_scaled m \<le> round_nearest (of_nat (2 ^ 53))"
    using assms unfolding round_scaled_def by (intro round_nearest_mono) auto
  then show "round_scaled m \<le> 2 ^ 53" by (simp only: round_nearest_nat)
  assume "- 1074 < round_unit m"
  then have "rat_log2 m = round_unit m + 52" by (simp add: round_unit_def max_def split: if_splits)
  then have "2 powi (round_unit m + 52) \<le> m" using rat_log2_bounds(1) [OF assms] by simp
  then have "2 ^ 52 \<le> m / 2 powi round_unit m"
    using scale [of "round_unit m" 52] by (simp add: field_simps)
  then have "round_nearest (of_nat (2 ^ 52)) \<le> round_scaled m"
    unfolding round_scaled_def by (intro round_nearest_mono) auto
  then show "2 ^ 52 \<le> round_scaled m" by (simp only: round_nearest_nat)
qed

lemma round_bits_mono:
  assumes "0 \<le> m" "m \<le> n"
  shows "round_bits m \<le> round_bits n"
proof (cases "m = 0")
  case False
  with assms have pos: "0 < m" "0 < n" by auto
  have units: "round_unit m \<le> round_unit n" "- 1074 \<le> round_unit m"
    using rat_log2_mono [OF pos(1) assms(2)] by (auto simp: round_unit_def)
  have "nat (round_unit m + 1074) * 2 ^ 52 + round_scaled m
      \<le> nat (round_unit n + 1074) * 2 ^ 52 + round_scaled n"
  proof (cases "round_unit m = round_unit n")
    case True
    have "m / 2 powi round_unit n \<le> n / 2 powi round_unit n"
      using assms by (simp add: divide_right_mono)
    then have "round_scaled m \<le> round_scaled n"
      using pos unfolding round_scaled_def True by (intro round_nearest_mono) auto
    with True show ?thesis by simp
  next
    case False
    with units have "nat (round_unit m + 1074) + 1 \<le> nat (round_unit n + 1074)"
      "- 1074 < round_unit n" by auto
    then have "(nat (round_unit m + 1074) + 1) * 2 ^ 52 \<le> nat (round_unit n + 1074) * 2 ^ 52"
      by (intro mult_right_mono) auto
    with round_scaled_bounds(1) [OF pos(1)] round_scaled_bounds(2) [OF pos(2) \<open>- 1074 < round_unit n\<close>]
    show ?thesis by simp
  qed
  then show ?thesis by (simp add: round_bits_scaled pos)
qed (simp add: round_bits_def)

section \<open>Values of bit patterns\<close>

definition bits_magnitude :: "nat \<Rightarrow> rat" where
  "bits_magnitude n =
     (if n div 2 ^ 52 = 0 then of_nat (n mod 2 ^ 52) / 2 ^ 1074
      else of_nat (2 ^ 52 + n mod 2 ^ 52) * 2 ^ (n div 2 ^ 52) / 2 ^ 1075)"

lemma f64_magnitude_make:
  "n \<le> f64_infinity_bits \<Longrightarrow> f64_magnitude (f64_make neg n) = bits_magnitude n"
  by (simp add: f64_magnitude_def bits_magnitude_def f64_fields_make)

lemma bits_magnitude_Suc: "bits_magnitude n \<le> bits_magnitude (Suc n)"
proof (cases "n mod 2 ^ 52 + 1 < 2 ^ 52")
  case True
  then have "Suc n mod 2 ^ 52 = n mod 2 ^ 52 + 1" "Suc n div 2 ^ 52 = n div 2 ^ 52"
    by (simp_all add: mod_Suc div_Suc)
  then show ?thesis
    by (auto simp: bits_magnitude_def divide_right_mono mult_right_mono)
next
  case False
  then have mods: "n mod 2 ^ 52 = 2 ^ 52 - 1" "Suc n mod 2 ^ 52 = 0"
    "Suc n div 2 ^ 52 = Suc (n div 2 ^ 52)"
    using mod_less_divisor [of "2 ^ 52" n] by (simp_all add: mod_Suc div_Suc)
  have "(2 :: rat) ^ 1075 = 2 * 2 ^ 1074" by (simp only: power_Suc [symmetric]) simp
  then show ?thesis
    unfolding bits_magnitude_def mods
    by (simp add: divide_right_mono mult_right_mono del: power_Suc)
       (simp add: power_Suc divide_right_mono)
qed

lemma bits_magnitude_mono: "m \<le> n \<Longrightarrow> bits_magnitude m \<le> bits_magnitude n"
  by (rule lift_Suc_mono_le [of bits_magnitude]) (rule bits_magnitude_Suc)

lemma round_magnitude_mono:
  "0 \<le> m \<Longrightarrow> m \<le> n \<Longrightarrow> f64_magnitude (f64_round s m) \<le> f64_magnitude (f64_round t n)"
  by (simp add: f64_round_def f64_magnitude_make round_bits_le bits_magnitude_mono round_bits_mono)

lemma f64_rat_round:
  "f64_rat (f64_round neg m) = (if neg then - 1 else 1) * f64_magnitude (f64_round neg m)"
  by (simp add: f64_rat_def)

lemma f64_magnitude_round_zero [simp]: "f64_magnitude (f64_round s 0) = 0"
  by (simp add: f64_round_def f64_magnitude_make round_bits_le round_bits_def bits_magnitude_def
      f64_infinity_bits_def)

section \<open>Division and floor\<close>

lemma f64_div_mono:
  assumes "f64_finite a" "f64_finite b" "f64_rat a \<le> f64_rat b"
    and s: "f64_finite s" "0 < f64_rat s"
  shows "f64_rat (f64_div a s) \<le> f64_rat (f64_div b s)"
proof -
  have sp: "\<not> f64_negative s" "f64_rat s = f64_magnitude s"
    using s(2) f64_magnitude_nonneg [of s] by (auto simp: f64_rat_def split: if_splits)
  have nn: "\<not> f64_nan d" if "f64_finite d" for d
    using that by (auto simp: f64_nan_def f64_finite_def)
  have D: "f64_div d s = f64_round (f64_negative d) (f64_magnitude d / f64_magnitude s)"
    if "f64_finite d" for d
    using that s sp by (auto simp: f64_div_def Let_def nn)
  have M: "0 \<le> f64_magnitude d / f64_magnitude s" for d
    using s(2) by (simp add: sp f64_magnitude_nonneg)
  have mono: "f64_magnitude x / f64_magnitude s \<le> f64_magnitude y / f64_magnitude s"
    if "f64_magnitude x \<le> f64_magnitude y" for x y
    using that s(2) by (simp add: sp divide_right_mono)
  note signs = assms(3) [unfolded f64_rat_def] f64_magnitude_nonneg [of a] f64_magnitude_nonneg [of b]
  consider "f64_negative a" "f64_negative b" "f64_magnitude b \<le> f64_magnitude a"
    | "f64_negative a" "\<not> f64_negative b"
    | "\<not> f64_negative a" "f64_negative b" "f64_magnitude a = 0" "f64_magnitude b = 0"
    | "\<not> f64_negative a" "\<not> f64_negative b" "f64_magnitude a \<le> f64_magnitude b"
    using signs by (cases "f64_negative a"; cases "f64_negative b") auto
  then show ?thesis
    unfolding D [OF assms(1)] D [OF assms(2)] f64_rat_round
  proof cases
    case 2
    then show "(if f64_negative a then - 1 else 1)
        * f64_magnitude (f64_round (f64_negative a) (f64_magnitude a / f64_magnitude s))
      \<le> (if f64_negative b then - 1 else 1)
        * f64_magnitude (f64_round (f64_negative b) (f64_magnitude b / f64_magnitude s))"
      using f64_magnitude_nonneg by (simp add: order.trans [of _ 0])
  qed (auto simp: round_magnitude_mono M mono)
qed

lemma sint_f64_floor_i64: "floor_fits 63 d \<Longrightarrow> sint (f64_floor_i64 d) = f64_floor_int d"
  unfolding f64_floor_i64_def floor_fits_def
  by (simp add: sint_sbintrunc' signed_take_bit_int_eq_self)

lemma sint_f64_floor_i32: "floor_fits 31 d \<Longrightarrow> sint (f64_floor_i32 d) = f64_floor_int d"
  unfolding f64_floor_i32_def floor_fits_def
  by (simp add: sint_sbintrunc' signed_take_bit_int_eq_self)

lemma f64_floor_int_mono: "f64_rat a \<le> f64_rat b \<Longrightarrow> f64_floor_int a \<le> f64_floor_int b"
  by (simp add: f64_floor_int_def floor_mono)

lemma f64_min_le:
  "f64_finite a \<Longrightarrow> f64_finite b \<Longrightarrow>
     f64_finite (f64_min a b) \<and> f64_rat (f64_min a b) = min (f64_rat a) (f64_rat b)"
  by (auto simp: f64_min_def f64_lt_finite)

lemma f64_max_ge:
  "f64_finite a \<Longrightarrow> f64_finite b \<Longrightarrow>
     f64_finite (f64_max a b) \<and> f64_rat (f64_max a b) = max (f64_rat a) (f64_rat b)"
  by (auto simp: f64_max_def f64_lt_finite)

end
