(* ===== verification/Spatial.thy ===== *)
theory Spatial
  imports World Float_Monotone
begin

text \<open>
  \<^verbatim>\<open>libs/spatial\<close>: coordinates, the cell grid, the dynamic cell index behind the area-of-interest
  queries, the AOI manager, the cell lifecycle and the streaming planner.

  The functions of \<open>libm\<close> are parameters (the record \<open>Libm\<close>); floating point is that of
  \<open>Float64\<close>. The static index of \<^verbatim>\<open>spatial_query.cpp\<close> is a Boost R-tree; its query is an argument.
  The lemmas show that the cell index never loses an object: the two directions of the index agree
  under every operation, and a query returns every object whose position lies in the box.
\<close>

section \<open>Coordinates\<close>

record Geodetic =
  geo_latitude_degrees :: f64
  geo_longitude_degrees :: f64
  geo_height_meters :: f64

record Enu =
  enu_east :: f64
  enu_north :: f64
  enu_up :: f64

record Aabb =
  aabb_minimum :: Enu
  aabb_maximum :: Enu

record Libm =
  m_sin :: "f64 \<Rightarrow> f64"
  m_cos :: "f64 \<Rightarrow> f64"
  m_sqrt :: "f64 \<Rightarrow> f64"
  m_atan2 :: "f64 \<Rightarrow> f64 \<Rightarrow> f64"
  m_hypot :: "f64 \<Rightarrow> f64 \<Rightarrow> f64"

text \<open>The constants, with the bits of the literals of the source.\<close>

definition semi_major_axis :: f64 where
  "semi_major_axis = F64 0x415854A640000000"

definition eccentricity_squared :: f64 where
  "eccentricity_squared = F64 0x3F7B6B90F1FE94F0"

definition degrees_to_radians :: f64 where
  "degrees_to_radians = F64 0x3F91DF46A2529D39"

definition radians_to_degrees :: f64 where
  "radians_to_degrees = F64 0x404CA5DC1A63C1F8"

definition f64_1 :: f64 where
  "f64_1 = F64 0x3FF0000000000000"

definition f64_2 :: f64 where
  "f64_2 = F64 0x4000000000000000"

definition f64_0 :: f64 where
  "f64_0 = F64 0"

definition geodetic_to_ecef :: "Libm \<Rightarrow> Geodetic \<Rightarrow> PositionEcef" where
  "geodetic_to_ecef m coordinate =
     (let latitude = f64_mul (geo_latitude_degrees coordinate) degrees_to_radians;
          longitude = f64_mul (geo_longitude_degrees coordinate) degrees_to_radians;
          sin_latitude = m_sin m latitude; cos_latitude = m_cos m latitude;
          sin_longitude = m_sin m longitude; cos_longitude = m_cos m longitude;
          radius = f64_div semi_major_axis
            (m_sqrt m (f64_sub f64_1
               (f64_mul (f64_mul eccentricity_squared sin_latitude) sin_latitude)));
          height = geo_height_meters coordinate
      in \<lparr>ecef_x = f64_mul (f64_mul (f64_add radius height) cos_latitude) cos_longitude,
          ecef_y = f64_mul (f64_mul (f64_add radius height) cos_latitude) sin_longitude,
          ecef_z = f64_mul
            (f64_add (f64_mul radius (f64_sub f64_1 eccentricity_squared)) height) sin_latitude\<rparr>)"

definition ecef_to_geodetic :: "Libm \<Rightarrow> PositionEcef \<Rightarrow> Geodetic" where
  "ecef_to_geodetic m coordinate =
     (let longitude = m_atan2 m (ecef_y coordinate) (ecef_x coordinate);
          horizontal = m_hypot m (ecef_x coordinate) (ecef_y coordinate);
          semi_minor_axis =
            f64_mul semi_major_axis (m_sqrt m (f64_sub f64_1 eccentricity_squared));
          second_eccentricity_squared =
            f64_div (f64_sub (f64_mul semi_major_axis semi_major_axis)
                             (f64_mul semi_minor_axis semi_minor_axis))
                    (f64_mul semi_minor_axis semi_minor_axis);
          theta = m_atan2 m (f64_mul (ecef_z coordinate) semi_major_axis)
                            (f64_mul horizontal semi_minor_axis);
          sin_theta = m_sin m theta; cos_theta = m_cos m theta;
          latitude = m_atan2 m
            (f64_add (ecef_z coordinate)
               (f64_mul (f64_mul (f64_mul (f64_mul second_eccentricity_squared semi_minor_axis)
                  sin_theta) sin_theta) sin_theta))
            (f64_sub horizontal
               (f64_mul (f64_mul (f64_mul (f64_mul eccentricity_squared semi_major_axis)
                  cos_theta) cos_theta) cos_theta));
          sin_latitude = m_sin m latitude;
          radius = f64_div semi_major_axis
            (m_sqrt m (f64_sub f64_1
               (f64_mul (f64_mul eccentricity_squared sin_latitude) sin_latitude)))
      in \<lparr>geo_latitude_degrees = f64_mul latitude radians_to_degrees,
          geo_longitude_degrees = f64_mul longitude radians_to_degrees,
          geo_height_meters = f64_sub (f64_div horizontal (m_cos m latitude)) radius\<rparr>)"

definition ecef_to_enu :: "Libm \<Rightarrow> PositionEcef \<Rightarrow> Geodetic \<Rightarrow> PositionEcef \<Rightarrow> Enu" where
  "ecef_to_enu m origin origin_geodetic point =
     (let latitude = f64_mul (geo_latitude_degrees origin_geodetic) degrees_to_radians;
          longitude = f64_mul (geo_longitude_degrees origin_geodetic) degrees_to_radians;
          sin_latitude = m_sin m latitude; cos_latitude = m_cos m latitude;
          sin_longitude = m_sin m longitude; cos_longitude = m_cos m longitude;
          dx = f64_sub (ecef_x point) (ecef_x origin);
          dy = f64_sub (ecef_y point) (ecef_y origin);
          dz = f64_sub (ecef_z point) (ecef_z origin)
      in \<lparr>enu_east = f64_add (f64_mul (f64_neg sin_longitude) dx) (f64_mul cos_longitude dy),
          enu_north = f64_add
            (f64_sub (f64_mul (f64_mul (f64_neg sin_latitude) cos_longitude) dx)
                     (f64_mul (f64_mul sin_latitude sin_longitude) dy))
            (f64_mul cos_latitude dz),
          enu_up = f64_add
            (f64_add (f64_mul (f64_mul cos_latitude cos_longitude) dx)
                     (f64_mul (f64_mul cos_latitude sin_longitude) dy))
            (f64_mul sin_latitude dz)\<rparr>)"

definition enu_to_ecef :: "Libm \<Rightarrow> PositionEcef \<Rightarrow> Geodetic \<Rightarrow> Enu \<Rightarrow> PositionEcef" where
  "enu_to_ecef m origin origin_geodetic point =
     (let latitude = f64_mul (geo_latitude_degrees origin_geodetic) degrees_to_radians;
          longitude = f64_mul (geo_longitude_degrees origin_geodetic) degrees_to_radians;
          sin_latitude = m_sin m latitude; cos_latitude = m_cos m latitude;
          sin_longitude = m_sin m longitude; cos_longitude = m_cos m longitude
      in \<lparr>ecef_x = f64_add (f64_sub
            (f64_sub (ecef_x origin) (f64_mul sin_longitude (enu_east point)))
            (f64_mul (f64_mul sin_latitude cos_longitude) (enu_north point)))
            (f64_mul (f64_mul cos_latitude cos_longitude) (enu_up point)),
          ecef_y = f64_add (f64_sub
            (f64_add (ecef_y origin) (f64_mul cos_longitude (enu_east point)))
            (f64_mul (f64_mul sin_latitude sin_longitude) (enu_north point)))
            (f64_mul (f64_mul cos_latitude sin_longitude) (enu_up point)),
          ecef_z = f64_add
            (f64_add (ecef_z origin) (f64_mul cos_latitude (enu_north point)))
            (f64_mul sin_latitude (enu_up point))\<rparr>)"

section \<open>The cell grid\<close>

datatype CellKey = CellKey (ck_x: i64) (ck_y: i64) (ck_level: u8) (ck_z: i32)

text \<open>The defaulted three-way comparison: by member, the integers signed.\<close>

definition ck_tuple :: "CellKey \<Rightarrow> int list" where
  "ck_tuple k = [sint (ck_x k), sint (ck_y k), uint (ck_level k), sint (ck_z k)]"

lemma sint_inject: "sint v = sint w \<longleftrightarrow> v = w"
  using word_eq_iff_signed [of v w, where 'a = int] by simp

lemma ck_tuple_inject: "ck_tuple a = ck_tuple b \<longleftrightarrow> a = b"
  by (cases a; cases b) (simp add: ck_tuple_def sint_inject word_uint_eq_iff)

instantiation CellKey :: linorder
begin

definition less_eq_CellKey :: "CellKey \<Rightarrow> CellKey \<Rightarrow> bool" where
  "less_eq_CellKey a b \<longleftrightarrow> ck_tuple a \<le> ck_tuple b"

definition less_CellKey :: "CellKey \<Rightarrow> CellKey \<Rightarrow> bool" where
  "less_CellKey a b \<longleftrightarrow> ck_tuple a < ck_tuple b"

instance
  by standard
    (auto simp: less_eq_CellKey_def less_CellKey_def less_le_not_le dest: order_antisym
      intro: order_trans simp flip: ck_tuple_inject)

end

record CellGrid =
  cg_base_cell_size_meters :: f64
  cg_max_level :: u8

definition cell_grid :: "f64 \<Rightarrow> u8 \<Rightarrow> CellGrid" where
  "cell_grid base_cell_size_meters max_level =
     \<lparr>cg_base_cell_size_meters =
        (if f64_lt f64_0 base_cell_size_meters then base_cell_size_meters else f64_1),
      cg_max_level = max_level\<rparr>"

definition clamp_level :: "CellGrid \<Rightarrow> u8 \<Rightarrow> u8" where
  "clamp_level g level = (if level > cg_max_level g then cg_max_level g else level)"

definition cell_size :: "CellGrid \<Rightarrow> u8 \<Rightarrow> f64" where
  "cell_size g level = f64_ldexp (cg_base_cell_size_meters g) (unat (clamp_level g level))"

definition cell_for :: "CellGrid \<Rightarrow> Enu \<Rightarrow> u8 \<Rightarrow> CellKey" where
  "cell_for g position level =
     (let level = clamp_level g level; size = cell_size g level
      in CellKey (f64_floor_i64 (f64_div (enu_east position) size))
                 (f64_floor_i64 (f64_div (enu_north position) size)) level 0)"

definition cell_for_2_5d :: "CellGrid \<Rightarrow> Enu \<Rightarrow> u8 \<Rightarrow> f64 \<Rightarrow> CellKey" where
  "cell_for_2_5d g position level floor_height_meters =
     (let level = clamp_level g level; size = cell_size g level;
          floor_size = (if f64_lt f64_0 floor_height_meters then floor_height_meters else f64_1)
      in CellKey (f64_floor_i64 (f64_div (enu_east position) size))
                 (f64_floor_i64 (f64_div (enu_north position) size)) level
                 (f64_floor_i32 (f64_div (enu_up position) floor_size)))"

definition cell_parent :: "CellGrid \<Rightarrow> CellKey \<Rightarrow> CellKey" where
  "cell_parent g child =
     (if ck_level child \<ge> cg_max_level g then child
      else CellKey (f64_floor_i64 (f64_div (i64_to_f64 (ck_x child)) f64_2))
                   (f64_floor_i64 (f64_div (i64_to_f64 (ck_y child)) f64_2))
                   (ck_level child + 1) (ck_z child))"

definition cell_neighbors :: "CellKey \<Rightarrow> CellKey list" where
  "cell_neighbors cell =
     concat (map (\<lambda>dy. concat (map (\<lambda>dx.
       if dx \<noteq> 0 \<or> dy \<noteq> 0
       then [CellKey (ck_x cell + word_of_int dx) (ck_y cell + word_of_int dy)
               (ck_level cell) (ck_z cell)] else []) [-1..1])) [-1..1])"

section \<open>The dynamic index\<close>

record CellMigration =
  cmig_world_id :: WorldId
  cmig_previous :: CellKey
  cmig_current :: CellKey

record DynamicCellIndex =
  di_grid :: CellGrid
  di_level :: u8
  di_floor_height_meters :: f64
  di_members :: "(CellKey, WorldId fset) fmap"
  di_locations :: "(WorldId, CellKey) fmap"

definition dynamic_index :: "CellGrid \<Rightarrow> u8 \<Rightarrow> f64 \<Rightarrow> DynamicCellIndex" where
  "dynamic_index g level floor_height_meters =
     \<lparr>di_grid = g, di_level = level,
      di_floor_height_meters =
        (if f64_lt f64_0 floor_height_meters then floor_height_meters else f64_0),
      di_members = fmempty, di_locations = fmempty\<rparr>"

definition index_cell :: "DynamicCellIndex \<Rightarrow> Enu \<Rightarrow> CellKey" where
  "index_cell s position =
     (if f64_lt f64_0 (di_floor_height_meters s)
      then cell_for_2_5d (di_grid s) position (di_level s) (di_floor_height_meters s)
      else cell_for (di_grid s) position (di_level s))"

text \<open>\<open>members_[cell]\<close> creates an empty set for a new cell.\<close>

definition cell_set :: "(CellKey, WorldId fset) fmap \<Rightarrow> CellKey \<Rightarrow> WorldId fset" where
  "cell_set members cell = (case fmlookup members cell of None \<Rightarrow> {||} | Some s \<Rightarrow> s)"

definition members_insert ::
  "(CellKey, WorldId fset) fmap \<Rightarrow> CellKey \<Rightarrow> WorldId \<Rightarrow> (CellKey, WorldId fset) fmap" where
  "members_insert members cell i = fmupd cell (finsert i (cell_set members cell)) members"

definition members_erase ::
  "(CellKey, WorldId fset) fmap \<Rightarrow> CellKey \<Rightarrow> WorldId \<Rightarrow> (CellKey, WorldId fset) fmap" where
  "members_erase members cell i = fmupd cell (cell_set members cell |-| {|i|}) members"

definition index_upsert ::
  "DynamicCellIndex \<Rightarrow> WorldId \<Rightarrow> Enu \<Rightarrow> CellMigration option \<times> DynamicCellIndex" where
  "index_upsert s i position =
     (if \<not> wid_valid i then (None, s)
      else let current = index_cell s position in
        case fmlookup (di_locations s) i of
          None \<Rightarrow> (None, s\<lparr>di_locations := fmupd i current (di_locations s),
                            di_members := members_insert (di_members s) current i\<rparr>)
        | Some previous \<Rightarrow>
            if previous = current then (None, s)
            else (Some \<lparr>cmig_world_id = i, cmig_previous = previous, cmig_current = current\<rparr>,
                  s\<lparr>di_members :=
                      members_insert (members_erase (di_members s) previous i) current i,
                    di_locations := fmupd i current (di_locations s)\<rparr>))"

definition dynamic_erase :: "DynamicCellIndex \<Rightarrow> WorldId \<Rightarrow> bool \<times> DynamicCellIndex" where
  "dynamic_erase s i =
     (case fmlookup (di_locations s) i of
        None \<Rightarrow> (False, s)
      | Some cell \<Rightarrow> (True, s\<lparr>di_members := members_erase (di_members s) cell i,
                               di_locations := fmdrop i (di_locations s)\<rparr>))"

definition index_members :: "DynamicCellIndex \<Rightarrow> CellKey \<Rightarrow> WorldId list" where
  "index_members s cell = sorted_list_of_fset (cell_set (di_members s) cell)"

text \<open>The cells from \<open>first\<close> to \<open>last\<close>, with the loops' own level and order.\<close>

definition cell_box :: "CellKey \<Rightarrow> CellKey \<Rightarrow> u8 \<Rightarrow> i32 \<Rightarrow> i32 \<Rightarrow> CellKey list" where
  "cell_box first_cell last_cell level first_z last_z =
     concat (map (\<lambda>z. concat (map (\<lambda>y. map (\<lambda>x.
       CellKey (word_of_int x) (word_of_int y) level (word_of_int z))
       [sint (ck_x first_cell)..sint (ck_x last_cell)])
       [sint (ck_y first_cell)..sint (ck_y last_cell)]))
       [sint first_z..sint last_z])"

definition query_candidates :: "DynamicCellIndex \<Rightarrow> Enu \<Rightarrow> Enu \<Rightarrow> WorldId list" where
  "query_candidates s minimum maximum =
     (let min_x = f64_min (enu_east minimum) (enu_east maximum);
          min_y = f64_min (enu_north minimum) (enu_north maximum);
          max_x = f64_max (enu_east minimum) (enu_east maximum);
          max_y = f64_max (enu_north minimum) (enu_north maximum);
          first_cell = cell_for (di_grid s) \<lparr>enu_east = min_x, enu_north = min_y, enu_up = f64_0\<rparr>
                    (di_level s);
          last_cell = cell_for (di_grid s) \<lparr>enu_east = max_x, enu_north = max_y, enu_up = f64_0\<rparr>
                    (di_level s);
          floors = f64_lt f64_0 (di_floor_height_meters s);
          first_2_5d = (if floors
            then cell_for_2_5d (di_grid s)
              \<lparr>enu_east = min_x, enu_north = min_y,
               enu_up = f64_min (enu_up minimum) (enu_up maximum)\<rparr>
              (di_level s) (di_floor_height_meters s) else first_cell);
          last_2_5d = (if floors
            then cell_for_2_5d (di_grid s)
              \<lparr>enu_east = max_x, enu_north = max_y,
               enu_up = f64_max (enu_up minimum) (enu_up maximum)\<rparr>
              (di_level s) (di_floor_height_meters s) else last_cell)
      in sorted_list_of_fset
           (foldl (\<lambda>result cell. result |\<union>| cell_set (di_members s) cell) {||}
              (cell_box first_cell last_cell (di_level s) (ck_z first_2_5d) (ck_z last_2_5d))))"

definition cell_of :: "DynamicCellIndex \<Rightarrow> WorldId \<Rightarrow> CellKey option" where
  "cell_of s i = fmlookup (di_locations s) i"

definition dynamic_size :: "DynamicCellIndex \<Rightarrow> nat" where
  "dynamic_size s = fm_size (di_locations s)"

text \<open>
  \<open>SpatialQuery::query\<close> merges the answers of the static R-tree (\<open>static_query\<close>) and of the
  dynamic index.
\<close>

definition spatial_query ::
  "(Aabb \<Rightarrow> WorldId list) \<Rightarrow> DynamicCellIndex \<Rightarrow> Aabb \<Rightarrow> WorldId list" where
  "spatial_query static_query s bounds =
     sorted_list_of_fset (fset_of_list
       (static_query bounds @ query_candidates s (aabb_minimum bounds) (aabb_maximum bounds)))"

section \<open>The index never loses an object\<close>

definition index_ok :: "DynamicCellIndex \<Rightarrow> bool" where
  "index_ok s \<longleftrightarrow>
     (\<forall>c i. i |\<in>| cell_set (di_members s) c \<longleftrightarrow> fmlookup (di_locations s) i = Some c)"

lemma cell_set_simps [simp]:
  "cell_set fmempty c = {||}"
  "cell_set (fmupd c' t m) c = (if c = c' then t else cell_set m c)"
  by (simp_all add: cell_set_def)

lemma index_ok_empty [simp]: "index_ok (dynamic_index g level h)"
  by (simp add: index_ok_def dynamic_index_def)

lemma index_ok_upsert [wf_intros]: "index_ok s \<Longrightarrow> index_ok (snd (index_upsert s i p))"
  by (auto simp: index_ok_def index_upsert_def Let_def members_insert_def members_erase_def
      split: option.splits)

lemma index_ok_erase [wf_intros]: "index_ok s \<Longrightarrow> index_ok (snd (dynamic_erase s i))"
  by (auto simp: index_ok_def dynamic_erase_def members_erase_def split: option.splits)

lemma upsert_locations:
  "di_locations (snd (index_upsert s i p)) =
     (if wid_valid i then fmupd i (index_cell s p) (di_locations s) else di_locations s)"
  by (auto simp: index_upsert_def Let_def fmupd_idem split: option.splits intro: fmap_ext)

lemma upsert_frame [frame_simps]:
  "di_grid (snd (index_upsert s i p)) = di_grid s"
  "di_level (snd (index_upsert s i p)) = di_level s"
  "di_floor_height_meters (snd (index_upsert s i p)) = di_floor_height_meters s"
  by (auto simp: index_upsert_def Let_def split: option.splits)

lemma erase_locations: "di_locations (snd (dynamic_erase s i)) = fmdrop i (di_locations s)"
  by (auto simp: dynamic_erase_def split: option.splits intro!: fmap_ext)

lemma erase_frame [frame_simps]:
  "di_grid (snd (dynamic_erase s i)) = di_grid s"
  "di_level (snd (dynamic_erase s i)) = di_level s"
  "di_floor_height_meters (snd (dynamic_erase s i)) = di_floor_height_meters s"
  by (auto simp: dynamic_erase_def split: option.splits)

lemma index_cell_frame:
  "di_grid t = di_grid s \<Longrightarrow> di_level t = di_level s \<Longrightarrow>
     di_floor_height_meters t = di_floor_height_meters s \<Longrightarrow> index_cell t p = index_cell s p"
  by (simp add: index_cell_def)

lemma foldl_cell_sets:
  "i |\<in>| foldl (\<lambda>result cell. result |\<union>| cell_set m cell) r cells \<longleftrightarrow>
     i |\<in>| r \<or> (\<exists>c\<in>set cells. i |\<in>| cell_set m c)"
  by (induction cells arbitrary: r) auto

lemma sint_word_of_int_between:
  fixes v w :: "'b::len word"
  assumes "sint v \<le> k" "k \<le> sint w"
  shows "sint (word_of_int k :: 'b word) = k"
proof -
  have "- (2 ^ (LENGTH('b) - 1)) \<le> sint v" "sint w < 2 ^ (LENGTH('b) - 1)"
    by (rule sint_ge) (rule sint_lt)
  with assms show ?thesis
    by (simp add: sint_sbintrunc' signed_take_bit_int_eq_self)
qed

lemma in_signed_range:
  fixes u v w :: "'b::len word"
  shows "u \<in> word_of_int ` {sint v..sint w} \<longleftrightarrow> sint v \<le> sint u \<and> sint u \<le> sint w"
  by (auto simp: image_iff sint_word_of_int_between intro!: bexI [of _ "sint u"])

lemma set_cell_box:
  "CellKey x y l z \<in> set (cell_box a b level first_z last_z) \<longleftrightarrow>
     l = level \<and> x \<in> word_of_int ` {sint (ck_x a)..sint (ck_x b)} \<and>
     y \<in> word_of_int ` {sint (ck_y a)..sint (ck_y b)} \<and> z \<in> word_of_int ` {sint first_z..sint last_z}"
  by (auto simp: cell_box_def)

section \<open>Queries are complete\<close>

definition query_size :: "DynamicCellIndex \<Rightarrow> f64" where
  "query_size s = cell_size (di_grid s) (di_level s)"

abbreviation floors :: "DynamicCellIndex \<Rightarrow> bool" where
  "floors s \<equiv> f64_lt f64_0 (di_floor_height_meters s)"

definition grid_ok :: "DynamicCellIndex \<Rightarrow> bool" where
  "grid_ok s \<longleftrightarrow> di_level s \<le> cg_max_level (di_grid s) \<and>
     f64_finite (query_size s) \<and> 0 < f64_rat (query_size s) \<and>
     (floors s \<longrightarrow> f64_finite (di_floor_height_meters s))"

text \<open>A position whose cell coordinates are in the range of the integers.\<close>

definition coord_ok :: "nat \<Rightarrow> f64 \<Rightarrow> f64 \<Rightarrow> bool" where
  "coord_ok n sz d \<longleftrightarrow> f64_finite d \<and> floor_fits n (f64_div d sz)"

definition position_ok :: "DynamicCellIndex \<Rightarrow> Enu \<Rightarrow> bool" where
  "position_ok s p \<longleftrightarrow>
     coord_ok 63 (query_size s) (enu_east p) \<and> coord_ok 63 (query_size s) (enu_north p) \<and>
     (floors s \<longrightarrow> coord_ok 31 (di_floor_height_meters s) (enu_up p))"

definition f64_between :: "f64 \<Rightarrow> f64 \<Rightarrow> f64 \<Rightarrow> bool" where
  "f64_between a b d \<longleftrightarrow>
     min (f64_rat a) (f64_rat b) \<le> f64_rat d \<and> f64_rat d \<le> max (f64_rat a) (f64_rat b)"

definition in_box :: "DynamicCellIndex \<Rightarrow> Enu \<Rightarrow> Enu \<Rightarrow> Enu \<Rightarrow> bool" where
  "in_box s a b p \<longleftrightarrow>
     f64_between (enu_east a) (enu_east b) (enu_east p) \<and>
     f64_between (enu_north a) (enu_north b) (enu_north p) \<and>
     (floors s \<longrightarrow> f64_between (enu_up a) (enu_up b) (enu_up p))"

lemma floor_between_i64:
  assumes "coord_ok 63 sz a" "coord_ok 63 sz b" "coord_ok 63 sz d"
    and "f64_between a b d" "f64_finite sz" "0 < f64_rat sz"
  shows "sint (f64_floor_i64 (f64_div (f64_min a b) sz)) \<le> sint (f64_floor_i64 (f64_div d sz))"
    "sint (f64_floor_i64 (f64_div d sz)) \<le> sint (f64_floor_i64 (f64_div (f64_max a b) sz))"
proof -
  have ends: "coord_ok 63 sz (f64_min a b)" "coord_ok 63 sz (f64_max a b)"
    using assms by (simp_all add: f64_min_def f64_max_def)
  show "sint (f64_floor_i64 (f64_div (f64_min a b) sz)) \<le> sint (f64_floor_i64 (f64_div d sz))"
    "sint (f64_floor_i64 (f64_div d sz)) \<le> sint (f64_floor_i64 (f64_div (f64_max a b) sz))"
    using assms ends f64_min_le [of a b] f64_max_ge [of a b]
    by (auto simp: coord_ok_def sint_f64_floor_i64 f64_between_def
        intro!: f64_floor_int_mono f64_div_mono)
qed

lemma floor_between_i32:
  assumes "coord_ok 31 sz a" "coord_ok 31 sz b" "coord_ok 31 sz d"
    and "f64_between a b d" "f64_finite sz" "0 < f64_rat sz"
  shows "sint (f64_floor_i32 (f64_div (f64_min a b) sz)) \<le> sint (f64_floor_i32 (f64_div d sz))"
    "sint (f64_floor_i32 (f64_div d sz)) \<le> sint (f64_floor_i32 (f64_div (f64_max a b) sz))"
proof -
  have ends: "coord_ok 31 sz (f64_min a b)" "coord_ok 31 sz (f64_max a b)"
    using assms by (simp_all add: f64_min_def f64_max_def)
  show "sint (f64_floor_i32 (f64_div (f64_min a b) sz)) \<le> sint (f64_floor_i32 (f64_div d sz))"
    "sint (f64_floor_i32 (f64_div d sz)) \<le> sint (f64_floor_i32 (f64_div (f64_max a b) sz))"
    using assms ends f64_min_le [of a b] f64_max_ge [of a b]
    by (auto simp: coord_ok_def sint_f64_floor_i32 f64_between_def
        intro!: f64_floor_int_mono f64_div_mono)
qed

lemma f64_0_rat [simp]: "f64_finite f64_0" "f64_rat f64_0 = 0"
  by (simp_all add: f64_0_def f64_finite_def f64_rat_def f64_magnitude_def f64_negative_def
      f64_exponent_def f64_fraction_def f64_nat_def)

lemma clamp_level_id [simp]: "level \<le> cg_max_level g \<Longrightarrow> clamp_level g level = level"
  by (auto simp: clamp_level_def)

text \<open>The cell of a position in the box is among the cells the query visits.\<close>

lemma query_visits:
  assumes "grid_ok s" "position_ok s a" "position_ok s b" "position_ok s p" "in_box s a b p"
    "fmlookup (di_locations s) i = Some (index_cell s p)" "index_ok s"
  shows "i \<in> set (query_candidates s a b)"
proof -
  have level: "clamp_level (di_grid s) (di_level s) = di_level s"
    using assms(1) by (simp add: grid_ok_def)
  have size: "f64_finite (cell_size (di_grid s) (di_level s))"
    "0 < f64_rat (cell_size (di_grid s) (di_level s))"
    using assms(1) by (simp_all add: grid_ok_def query_size_def)
  have in_cell: "i |\<in>| cell_set (di_members s) (index_cell s p)"
    using assms(6,7) by (simp add: index_ok_def)
  note coords = assms(2-5) [unfolded position_ok_def in_box_def query_size_def]
  note xs = floor_between_i64 [OF _ _ _ _ size, of "enu_east a" "enu_east b" "enu_east p"]
  note ys = floor_between_i64 [OF _ _ _ _ size, of "enu_north a" "enu_north b" "enu_north p"]
  show ?thesis
  proof (cases "floors s")
    case True
    then have "f64_finite (di_floor_height_meters s)" "0 < f64_rat (di_floor_height_meters s)"
      using assms(1) by (auto simp: grid_ok_def f64_lt_finite)
    note zs = floor_between_i32 [OF _ _ _ _ this, of "enu_up a" "enu_up b" "enu_up p"]
    from True coords xs ys zs in_cell show ?thesis
      unfolding query_candidates_def Let_def
      by (auto simp: foldl_cell_sets index_cell_def cell_for_def cell_for_2_5d_def level Let_def
          set_cell_box in_signed_range intro!: bexI [of _ "index_cell s p"])
  next
    case False
    with coords xs ys in_cell show ?thesis
      unfolding query_candidates_def Let_def
      by (auto simp: foldl_cell_sets index_cell_def cell_for_def level Let_def
          set_cell_box in_signed_range intro!: bexI [of _ "index_cell s p"])
  qed
qed

section \<open>Runs\<close>

datatype IndexOp = IndexUpsert WorldId Enu | IndexErase WorldId

fun index_run :: "DynamicCellIndex \<Rightarrow> IndexOp list \<Rightarrow> DynamicCellIndex" where
  "index_run s [] = s"
| "index_run s (IndexUpsert i p # ops) = index_run (snd (index_upsert s i p)) ops"
| "index_run s (IndexErase i # ops) = index_run (snd (dynamic_erase s i)) ops"

text \<open>The specification: the last position of every object that was not erased since.\<close>

fun positions :: "(WorldId \<Rightarrow> Enu option) \<Rightarrow> IndexOp list \<Rightarrow> WorldId \<Rightarrow> Enu option" where
  "positions ps [] = ps"
| "positions ps (IndexUpsert i p # ops) =
     positions (if wid_valid i then ps(i \<mapsto> p) else ps) ops"
| "positions ps (IndexErase i # ops) = positions (ps(i := None)) ops"

lemma index_run_spec:
  "index_ok s \<Longrightarrow> (\<And>i. fmlookup (di_locations s) i = map_option (index_cell s) (ps i)) \<Longrightarrow>
     index_ok (index_run s ops) \<and>
     (\<forall>i. fmlookup (di_locations (index_run s ops)) i = map_option (index_cell s) (positions ps ops i)) \<and>
     di_grid (index_run s ops) = di_grid s \<and> di_level (index_run s ops) = di_level s \<and>
     di_floor_height_meters (index_run s ops) = di_floor_height_meters s"
proof (induction s ops arbitrary: ps rule: index_run.induct)
  case (2 s i p ops)
  let ?s = "snd (index_upsert s i p)" and ?ps = "if wid_valid i then ps(i \<mapsto> p) else ps"
  have cell: "index_cell ?s = index_cell s"
    by (rule ext) (rule index_cell_frame; simp add: frame_simps)
  have "fmlookup (di_locations ?s) j = map_option (index_cell ?s) (?ps j)" for j
    using "2.prems" by (simp add: upsert_locations cell)
  from "2.IH" [OF index_ok_upsert [OF "2.prems"(1)] this] show ?case
    by (simp only: cell frame_simps index_run.simps positions.simps simp_thms)
next
  case (3 s i ops)
  let ?s = "snd (dynamic_erase s i)" and ?ps = "ps(i := None)"
  have cell: "index_cell ?s = index_cell s"
    by (rule ext) (rule index_cell_frame; simp add: frame_simps)
  have "fmlookup (di_locations ?s) j = map_option (index_cell ?s) (?ps j)" for j
    using "3.prems" by (simp add: erase_locations cell)
  from "3.IH" [OF index_ok_erase [OF "3.prems"(1)] this] show ?case
    by (simp only: cell frame_simps index_run.simps positions.simps simp_thms)
qed simp


definition example_origin :: Enu where
  "example_origin = \<lparr>enu_east = f64_0, enu_north = f64_0, enu_up = f64_0\<rparr>"

lemma cell_size_one: "cell_size (cell_grid f64_1 8) 0 = f64_1"
proof -
  have "f64_magnitude f64_1 = 1" "\<not> f64_negative f64_1" "f64_finite f64_1" "f64_rat f64_1 = 1"
    by (simp_all add: f64_1_def f64_magnitude_def f64_negative_def f64_finite_def f64_exponent_def
        f64_fraction_def f64_nat_def f64_rat_def)
  moreover have "bit_length 1 = 1" by (simp add: bit_length.simps)
  then have "rat_log2 1 = 0" by (simp add: rat_log2_def Let_def)
  then have "round_bits 1 = 1023 * 2 ^ 52"
    by (simp add: round_bits_def round_nearest_def Let_def f64_infinity_bits_def)
  then have "f64_round False 1 = f64_1"
    by (simp add: f64_round_def f64_make_def f64_1_def)
  ultimately show ?thesis
    by (simp add: cell_size_def clamp_level_def cell_grid_def f64_ldexp_def f64_lt_finite)
qed

lemma f64_1_facts:
  "f64_finite f64_1" "f64_rat f64_1 = 1" "\<not> f64_nan f64_1" "\<not> f64_negative f64_1"
  by (simp_all add: f64_1_def f64_magnitude_def f64_negative_def f64_finite_def f64_exponent_def
      f64_fraction_def f64_nat_def f64_rat_def f64_nan_def)

lemma coord_ok_zero: "coord_ok n f64_1 f64_0"
proof -
  have zero: "\<not> f64_nan f64_0" "\<not> f64_negative f64_0" "f64_magnitude f64_0 = 0"
    by (simp_all add: f64_0_def f64_nan_def f64_magnitude_def f64_negative_def
        f64_exponent_def f64_fraction_def f64_nat_def)
  moreover have "f64_round False 0 = f64_0"
    by (simp add: f64_round_def round_bits_def f64_make_def f64_0_def)
  ultimately have "f64_div f64_0 f64_1 = f64_0"
    by (simp add: f64_div_def Let_def f64_1_facts)
  then show ?thesis by (simp add: coord_ok_def floor_fits_def f64_floor_int_def)
qed


end
