(* ===== verification/Streaming.thy ===== *)
theory Streaming
  imports Spatial
begin

text \<open>
  \<^verbatim>\<open>libs/spatial\<close>: the observers of the AOI manager, the lifecycle of cells and the streaming
  planner. The lemmas show that the deltas of the AOI manager add up to what is visible, that a
  cell takes only the transitions of the lifecycle, and that a streaming plan asks for exactly the
  cells in reach that are not there and puts to sleep exactly the others.
\<close>

section \<open>AOI manager\<close>

record AoiDelta =
  aoi_entered :: "WorldId list"
  aoi_left :: "WorldId list"

record AoiSubscription =
  aoi_center :: CellKey
  aoi_radius_cells :: i32
  aoi_visible :: "WorldId fset"

type_synonym AoiManager = "(WorldId, AoiSubscription) fmap"

definition aoi_subscribe :: "AoiManager \<Rightarrow> WorldId \<Rightarrow> CellKey \<Rightarrow> i32 \<Rightarrow> bool \<times> AoiManager" where
  "aoi_subscribe subscriptions observer center radius_cells =
     (if \<not> wid_valid observer \<or> sint radius_cells < 0 then (False, subscriptions)
      else if fm_has subscriptions observer then (False, subscriptions)
      else (True, fmupd observer
             \<lparr>aoi_center = center, aoi_radius_cells = radius_cells, aoi_visible = {||}\<rparr>
             subscriptions))"

definition aoi_unsubscribe :: "AoiManager \<Rightarrow> WorldId \<Rightarrow> bool \<times> AoiManager" where
  "aoi_unsubscribe subscriptions observer =
     (fm_has subscriptions observer, fmdrop observer subscriptions)"

definition aoi_update :: "AoiManager \<Rightarrow> WorldId \<Rightarrow> WorldId list \<Rightarrow> AoiDelta \<times> AoiManager" where
  "aoi_update subscriptions observer candidates =
     (case fmlookup subscriptions observer of
        None \<Rightarrow> (\<lparr>aoi_entered = [], aoi_left = []\<rparr>, subscriptions)
      | Some s \<Rightarrow>
          let next = fset_of_list (filter wid_valid candidates) in
          (\<lparr>aoi_entered = sorted_list_of_fset (next |-| aoi_visible s),
            aoi_left = sorted_list_of_fset (aoi_visible s |-| next)\<rparr>,
           fmupd observer (s\<lparr>aoi_visible := next\<rparr>) subscriptions))"

definition aoi_visible_ids :: "AoiManager \<Rightarrow> WorldId \<Rightarrow> WorldId list" where
  "aoi_visible_ids subscriptions observer =
     (case fmlookup subscriptions observer of
        None \<Rightarrow> [] | Some s \<Rightarrow> sorted_list_of_fset (aoi_visible s))"

text \<open>A client that applies the deltas.\<close>

definition apply_aoi :: "WorldId set \<Rightarrow> AoiDelta \<Rightarrow> WorldId set" where
  "apply_aoi seen d = (seen - set (aoi_left d)) \<union> set (aoi_entered d)"

fun aoi_updates :: "AoiManager \<Rightarrow> WorldId \<Rightarrow> WorldId list list \<Rightarrow> AoiDelta list \<times> AoiManager" where
  "aoi_updates m observer [] = ([], m)"
| "aoi_updates m observer (c # cs) =
     (let (d, m) = aoi_update m observer c; (ds, m) = aoi_updates m observer cs in (d # ds, m))"

lemma aoi_update_applies:
  assumes "fmlookup m observer = Some s" "aoi_update m observer cs = (d, m')"
  shows "apply_aoi (fset (aoi_visible s)) d = set (filter wid_valid cs)"
    "fmlookup m' observer = Some (s\<lparr>aoi_visible := fset_of_list (filter wid_valid cs)\<rparr>)"
    "set (aoi_entered d) \<inter> fset (aoi_visible s) = {}" "set (aoi_left d) \<subseteq> fset (aoi_visible s)"
  using assms by (auto simp: aoi_update_def apply_aoi_def Let_def fset_of_list_elem)

lemma aoi_updates_apply:
  "fmlookup m observer = Some s \<Longrightarrow> aoi_updates m observer cs = (ds, m') \<Longrightarrow>
     \<exists>s'. fmlookup m' observer = Some s' \<and> foldl apply_aoi (fset (aoi_visible s)) ds = fset (aoi_visible s')"
proof (induction cs arbitrary: m s ds)
  case (Cons c cs)
  obtain d m1 where u: "aoi_update m observer c = (d, m1)" by fastforce
  obtain ds' where ds: "aoi_updates m1 observer cs = (ds', m')" "ds = d # ds'"
    using Cons.prems(2) u by (auto split: prod.splits)
  from Cons.IH [OF aoi_update_applies(2) [OF Cons.prems(1) u] ds(1)]
  show ?case
    using aoi_update_applies(1) [OF Cons.prems(1) u]
    by (simp add: ds(2) fset_of_list.rep_eq Int_def conj_commute)
qed auto

text \<open>
  C40: the AOI deltas add up. For a subscribed observer and any sequence of updates, applying the
  deltas in order to what was visible before gives exactly what \<open>visible\<close> returns after; an
  unknown observer gets empty deltas and changes nothing.
\<close>

theorem aoi_deltas_add_up:
  assumes "aoi_updates m observer cs = (ds, m')"
  shows "(fm_has m observer \<longrightarrow>
      foldl apply_aoi (set (aoi_visible_ids m observer)) ds = set (aoi_visible_ids m' observer)) \<and>
    (\<not> fm_has m observer \<longrightarrow> m' = m \<and> (\<forall>d\<in>set ds. aoi_entered d = [] \<and> aoi_left d = []))"
proof (intro conjI impI)
  assume "fm_has m observer"
  then obtain s where s: "fmlookup m observer = Some s" by (auto simp: fm_has_def)
  from aoi_updates_apply [OF s assms] obtain s' where
    "fmlookup m' observer = Some s'" "foldl apply_aoi (fset (aoi_visible s)) ds = fset (aoi_visible s')"
    by blast
  with s show "foldl apply_aoi (set (aoi_visible_ids m observer)) ds = set (aoi_visible_ids m' observer)"
    by (simp add: aoi_visible_ids_def)
next
  assume "\<not> fm_has m observer"
  then have none: "fmlookup m observer = None" by (simp add: fm_has_def)
  have "m' = m \<and> (\<forall>d\<in>set ds. aoi_entered d = [] \<and> aoi_left d = [])"
    using assms none
    by (induction cs arbitrary: ds) (auto simp: aoi_update_def split: prod.splits)
  then show "m' = m" "\<forall>d\<in>set ds. aoi_entered d = [] \<and> aoi_left d = []" by auto
qed

theorem aoi_deltas_add_up_witness:
  "let m = snd (aoi_subscribe fmempty (WorldId 1) (CellKey 0 0 0 0) 2);
       (ds, m') = aoi_updates m (WorldId 1) [[WorldId 5, WorldId 3], [WorldId 3, WorldId 9]]
   in foldl apply_aoi {} ds = {WorldId 3, WorldId 9}"
proof -
  define m where "m = snd (aoi_subscribe fmempty (WorldId 1) (CellKey 0 0 0 0) 2)"
  have m: "m = fmupd (WorldId 1)
      \<lparr>aoi_center = CellKey 0 0 0 0, aoi_radius_cells = 2, aoi_visible = {||}\<rparr> fmempty"
    by (simp add: m_def aoi_subscribe_def)
  obtain ds m' where
    run: "aoi_updates m (WorldId 1) [[WorldId 5, WorldId 3], [WorldId 3, WorldId 9]] = (ds, m')"
    by fastforce
  then have "set (aoi_visible_ids m' (WorldId 1)) = {WorldId 3, WorldId 9}"
    by (auto simp: aoi_update_def aoi_visible_ids_def m Let_def)
  with aoi_deltas_add_up [OF run] run show ?thesis
    by (simp add: m_def [symmetric]) (simp add: m aoi_visible_ids_def)
qed

section \<open>The lifecycle of cells\<close>

datatype CellState = CS_unloaded | CS_loading | CS_loaded | CS_active | CS_sleeping

record CellRecord =
  cr_state :: CellState
  cr_state_since_ms :: u64
  cr_unload_after_ms :: u64

type_synonym CellLifecycle = "(CellKey, CellRecord) fmap"

definition cell_state :: "CellLifecycle \<Rightarrow> CellKey \<Rightarrow> CellState" where
  "cell_state cells cell =
     (case fmlookup cells cell of None \<Rightarrow> CS_unloaded | Some r \<Rightarrow> cr_state r)"

text \<open>\<open>cells_[cell]\<close> files a default record for a new cell; it is overwritten at once.\<close>

definition request_load :: "CellLifecycle \<Rightarrow> CellKey \<Rightarrow> u64 \<Rightarrow> bool \<times> CellLifecycle" where
  "request_load cells cell now_ms =
     (if cell_state cells cell \<noteq> CS_unloaded then (False, cells)
      else (True, fmupd cell
        \<lparr>cr_state = CS_loading, cr_state_since_ms = now_ms, cr_unload_after_ms = 0\<rparr> cells))"

definition mark_loaded :: "CellLifecycle \<Rightarrow> CellKey \<Rightarrow> u64 \<Rightarrow> bool \<times> CellLifecycle" where
  "mark_loaded cells cell now_ms =
     (case fmlookup cells cell of
        None \<Rightarrow> (False, cells)
      | Some r \<Rightarrow>
          if cr_state r \<noteq> CS_loading then (False, cells)
          else (True, fmupd cell
            \<lparr>cr_state = CS_loaded, cr_state_since_ms = now_ms, cr_unload_after_ms = 0\<rparr> cells))"

definition activate :: "CellLifecycle \<Rightarrow> CellKey \<Rightarrow> u64 \<Rightarrow> bool \<times> CellLifecycle" where
  "activate cells cell now_ms =
     (case fmlookup cells cell of
        None \<Rightarrow> (False, cells)
      | Some r \<Rightarrow>
          if cr_state r \<noteq> CS_loaded \<and> cr_state r \<noteq> CS_sleeping then (False, cells)
          else (True, fmupd cell
            \<lparr>cr_state = CS_active, cr_state_since_ms = now_ms, cr_unload_after_ms = 0\<rparr> cells))"

definition cell_sleep :: "CellLifecycle \<Rightarrow> CellKey \<Rightarrow> u64 \<Rightarrow> u64 \<Rightarrow> bool \<times> CellLifecycle" where
  "cell_sleep cells cell now_ms unload_delay_ms =
     (case fmlookup cells cell of
        None \<Rightarrow> (False, cells)
      | Some r \<Rightarrow>
          if cr_state r \<noteq> CS_active then (False, cells)
          else (True, fmupd cell
            \<lparr>cr_state = CS_sleeping, cr_state_since_ms = now_ms,
             cr_unload_after_ms = now_ms + unload_delay_ms\<rparr> cells))"

definition unload_if_due :: "CellLifecycle \<Rightarrow> CellKey \<Rightarrow> u64 \<Rightarrow> bool \<times> CellLifecycle" where
  "unload_if_due cells cell now_ms =
     (case fmlookup cells cell of
        None \<Rightarrow> (False, cells)
      | Some r \<Rightarrow>
          if cr_state r \<noteq> CS_sleeping \<or> now_ms < cr_unload_after_ms r then (False, cells)
          else (True, fmdrop cell cells))"

definition known_cells :: "CellLifecycle \<Rightarrow> CellKey list" where
  "known_cells cells = fm_keys cells"

text \<open>The square of cells around a center, row by row; cell coordinates wrap.\<close>

definition cell_square :: "CellKey \<Rightarrow> int \<Rightarrow> CellKey list" where
  "cell_square center radius =
     concat (map (\<lambda>y. map (\<lambda>x.
       CellKey (ck_x center + word_of_int x) (ck_y center + word_of_int y)
         (ck_level center) (ck_z center)) [- radius..radius]) [- radius..radius])"

definition prefetch :: "CellKey \<Rightarrow> i32 \<Rightarrow> CellKey list" where
  "prefetch center radius = (if sint radius < 0 then [] else cell_square center (sint radius))"

datatype LifecycleOp =
  LcLoad CellKey | LcLoaded CellKey | LcActivate CellKey | LcSleep CellKey u64 | LcUnload CellKey

fun lc_cell :: "LifecycleOp \<Rightarrow> CellKey" where
  "lc_cell (LcLoad c) = c"
| "lc_cell (LcLoaded c) = c"
| "lc_cell (LcActivate c) = c"
| "lc_cell (LcSleep c _) = c"
| "lc_cell (LcUnload c) = c"

fun lc_step :: "CellLifecycle \<Rightarrow> u64 \<Rightarrow> LifecycleOp \<Rightarrow> bool \<times> CellLifecycle" where
  "lc_step cells now (LcLoad c) = request_load cells c now"
| "lc_step cells now (LcLoaded c) = mark_loaded cells c now"
| "lc_step cells now (LcActivate c) = activate cells c now"
| "lc_step cells now (LcSleep c delay) = cell_sleep cells c now delay"
| "lc_step cells now (LcUnload c) = unload_if_due cells c now"

text \<open>The diagram of the lifecycle.\<close>

inductive lifecycle_edge :: "CellState \<Rightarrow> CellState \<Rightarrow> bool" where
  "lifecycle_edge CS_unloaded CS_loading"
| "lifecycle_edge CS_loading CS_loaded"
| "lifecycle_edge CS_loaded CS_active"
| "lifecycle_edge CS_active CS_sleeping"
| "lifecycle_edge CS_sleeping CS_active"
| "lifecycle_edge CS_sleeping CS_unloaded"

inductive_simps lifecycle_edge_simps [simp]: "lifecycle_edge a b"

lemma lc_step_edge:
  assumes "lc_step cells now op = (ok, cells')"
  shows "ok \<Longrightarrow> lifecycle_edge (cell_state cells (lc_cell op)) (cell_state cells' (lc_cell op))"
    "\<not> ok \<Longrightarrow> cells' = cells" "c \<noteq> lc_cell op \<Longrightarrow> fmlookup cells' c = fmlookup cells c"
  using assms
  by (cases op; auto simp: request_load_def mark_loaded_def activate_def cell_sleep_def
      unload_if_due_def cell_state_def split: option.splits if_splits)+

section \<open>The streaming planner\<close>

record StreamingSource =
  src_center :: CellKey
  src_radius_cells :: i32
  src_prefetch_radius :: i32

record StreamingPlan =
  plan_desired :: "CellKey list"
  plan_to_load :: "CellKey list"
  plan_to_sleep :: "CellKey list"

definition source_radius :: "StreamingSource \<Rightarrow> int" where
  "source_radius s = min (sint (src_radius_cells s) + sint (src_prefetch_radius s)) (2 ^ 31 - 1)"

definition source_cells :: "StreamingSource \<Rightarrow> CellKey list" where
  "source_cells s =
     (if sint (src_radius_cells s) < 0 \<or> sint (src_prefetch_radius s) < 0 then []
      else cell_square (src_center s) (source_radius s))"

definition streaming_plan :: "StreamingSource list \<Rightarrow> CellLifecycle \<Rightarrow> StreamingPlan" where
  "streaming_plan sources cells =
     (let desired = sorted_list_of_fset (fset_of_list (concat (map source_cells sources)));
          known = known_cells cells
      in \<lparr>plan_desired = desired,
          plan_to_load = filter (\<lambda>cell. cell \<notin> set known \<or> cell_state cells cell = CS_unloaded) desired,
          plan_to_sleep = filter (\<lambda>cell. cell \<notin> set desired \<and>
            (cell_state cells cell = CS_loaded \<or> cell_state cells cell = CS_active)) known\<rparr>)"

text \<open>A driver that requests the cells of a list in order.\<close>

fun load_all :: "CellLifecycle \<Rightarrow> u64 \<Rightarrow> CellKey list \<Rightarrow> bool list \<times> CellLifecycle" where
  "load_all cells now [] = ([], cells)"
| "load_all cells now (c # cs) =
     (let (ok, cells) = request_load cells c now; (oks, cells) = load_all cells now cs
      in (ok # oks, cells))"

lemma load_all_spec:
  "load_all cells now cs = (oks, cells') \<Longrightarrow> distinct cs \<Longrightarrow> \<forall>c\<in>set cs. cell_state cells c = CS_unloaded \<Longrightarrow>
     list_all id oks \<and>
     (\<forall>c. cell_state cells' c = (if c \<in> set cs then CS_loading else cell_state cells c))"
proof (induction cs arbitrary: cells oks)
  case (Cons c cs)
  let ?cells = "snd (request_load cells c now)"
  obtain oks' where rest: "load_all ?cells now cs = (oks', cells')" and oks: "oks = True # oks'"
    using Cons.prems by (auto simp: request_load_def split: prod.splits)
  have st: "cell_state ?cells d = (if d = c then CS_loading else cell_state cells d)" for d
    using Cons.prems(3) by (simp add: request_load_def cell_state_def)
  have "\<forall>d\<in>set cs. cell_state ?cells d = CS_unloaded"
    using Cons.prems by (auto simp: st)
  from Cons.IH [OF rest _ this] Cons.prems(2) show ?case by (auto simp: oks st)
qed simp

text \<open>
  A streaming plan is exact. Requesting every cell of \<open>to_load\<close> succeeds and makes every desired
  cell known; every cell of \<open>to_sleep\<close> is loaded or active and not desired, every other cell that
  is not desired is neither; the lists are ascending and no cell is both loaded and put to sleep.
\<close>

lemma streaming_plan_exact:
  "let p = streaming_plan sources cells;
       (oks, cells') = load_all cells now (plan_to_load p)
   in set (plan_desired p) = (\<Union>s\<in>set sources. set (source_cells s)) \<and>
      list_all id oks \<and> CS_unloaded \<notin> cell_state cells' ` set (plan_desired p) \<and>
      set (plan_to_sleep p) =
        {c. c \<notin> set (plan_desired p) \<and> cell_state cells c \<in> {CS_loaded, CS_active}} \<and>
      sorted (plan_desired p) \<and> sorted (plan_to_load p) \<and> sorted (plan_to_sleep p) \<and>
      set (plan_to_load p) \<inter> set (plan_to_sleep p) = {}"
proof -
  define p where "p = streaming_plan sources cells"
  obtain oks cells' where load: "load_all cells now (plan_to_load p) = (oks, cells')" by fastforce
  have desired: "set (plan_desired p) = (\<Union>s\<in>set sources. set (source_cells s))"
    "sorted (plan_desired p)" "distinct (plan_desired p)"
    by (simp_all add: p_def streaming_plan_def Let_def fset_of_list.rep_eq sorted_list_of_fset.rep_eq)
  have to_load: "plan_to_load p = filter (\<lambda>c. cell_state cells c = CS_unloaded) (plan_desired p)"
    by (auto simp: p_def streaming_plan_def Let_def known_cells_def cell_state_def fmlookup_dom_iff
        split: option.splits intro!: filter_cong)
  have sleep: "set (plan_to_sleep p) =
      {c. c \<notin> set (plan_desired p) \<and> cell_state cells c \<in> {CS_loaded, CS_active}}"
    "sorted (plan_to_sleep p)"
    by (auto simp: p_def streaming_plan_def Let_def known_cells_def cell_state_def fmlookup_dom_iff
        sorted_wrt_filter split: option.splits)
  have "list_all id oks \<and> (\<forall>c. cell_state cells' c =
      (if c \<in> set (plan_to_load p) then CS_loading else cell_state cells c))"
    using desired(3) by (intro load_all_spec [OF load]) (auto simp: to_load)
  then have "list_all id oks" "CS_unloaded \<notin> cell_state cells' ` set (plan_desired p)"
    by (auto simp: to_load image_iff split: if_splits)
  moreover have "sorted (plan_to_load p)" using desired(2) by (simp add: to_load sorted_wrt_filter)
  ultimately show ?thesis
    using desired sleep load by (auto simp: p_def [symmetric] Let_def to_load)
qed

end
