(* ===== verification/Projection_Frames.thy ===== *)
theory Projection_Frames
  imports Projection_Policy
begin

text \<open>
  \<^verbatim>\<open>libs/projection/engine.cpp\<close>, one connection and one tick: which objects the connection sees
  (\<open>resolve_bounds\<close>, \<open>resolve_visible\<close>), when a keyframe is due, and \<open>build_frame\<close>, which turns the
  difference between what the client has acknowledged and what it should see into a keyframe or a
  delta and records it in the log.

  \<open>None\<close> as the result of \<open>build_frame\<close> is the trap of a division by zero in the keyframe phase.
  Results of \<open>build_frame\<close> that depend on the order of an \<open>unordered_map\<close> in the source are given
  for ascending keys.
\<close>

section \<open>Frames\<close>

datatype LeaveReason = LR_out_of_area | LR_not_relevant | LR_destroyed | LR_policy_changed

record EntityEnter =
  ee_wid :: WorldId
  ee_fid :: FeatureId
  ee_entity :: ProjectedEntity

record EntityUpdate =
  eu_wid :: WorldId
  eu_fid :: FeatureId
  eu_entity :: ProjectedEntity

record EntityLeave =
  el_wid :: WorldId
  el_fid :: FeatureId
  el_reason :: LeaveReason

record Keyframe =
  kf_stream_epoch :: u64
  kf_stream_sequence :: u64
  kf_snapshot_id :: u64
  kf_baseline_snapshot_id :: u64
  kf_tick :: u64
  kf_simulation_time_us :: u64
  kf_entities :: "EntityEnter list"

record Delta =
  df_stream_epoch :: u64
  df_stream_sequence :: u64
  df_snapshot_id :: u64
  df_baseline_snapshot_id :: u64
  df_tick :: u64
  df_simulation_time_us :: u64
  df_enters :: "EntityEnter list"
  df_updates :: "EntityUpdate list"
  df_leaves :: "EntityLeave list"

datatype StateFrame = SF_keyframe Keyframe | SF_delta Delta

section \<open>The engine's state\<close>

record EntityState =
  es_projected :: ProjectedEntity
  es_hash :: u64
  es_enu :: Enu
  es_source_revision :: u64
  es_source_version :: u64
  es_source_position :: PositionEcef
  es_policy_version :: u64

type_synonym GlobalView = "(WorldId, EntityState) fmap"

record VisibleCache =
  vc_valid :: bool
  vc_has_bounds :: bool
  vc_bounds :: Aabb
  vc_spatial_revision :: u64
  vc_visible :: "WorldId list"

definition zero_enu :: Enu where
  "zero_enu = \<lparr>enu_east = f64_0, enu_north = f64_0, enu_up = f64_0\<rparr>"

definition visible_cache :: VisibleCache where
  "visible_cache =
     \<lparr>vc_valid = False, vc_has_bounds = False,
      vc_bounds = \<lparr>aabb_minimum = zero_enu, aabb_maximum = zero_enu\<rparr>,
      vc_spatial_revision = 0, vc_visible = []\<rparr>"

text \<open>What \<open>build_frame\<close> reads of the engine.\<close>

record FrameContext =
  fc_config :: ProjectionConfig
  fc_policy_version :: u64
  fc_relevance_filter :: "(ConnectionId \<Rightarrow> WorldObject \<Rightarrow> bool) option"
  fc_spatial :: DynamicCellIndex
  fc_spatial_revision :: u64
  fc_latest_snapshot_id :: u64
  fc_global_view :: GlobalView
  fc_tick_changed_wids :: "WorldId list"

section \<open>Intervals\<close>

definition interval_ticks :: "ProjectionConfig \<Rightarrow> u32 \<Rightarrow> u64" where
  "interval_ticks config frequency_hz =
     max 1 (f64_llround (f64_div (i64_to_f64 1000000)
       (f64_mul (i64_to_f64 (pc_tick_dt_microseconds config)) (i64_to_f64 (ucast frequency_hz)))))"

definition keyframe_interval_ticks :: "ProjectionConfig \<Rightarrow> u64" where
  "keyframe_interval_ticks config =
     (ucast (pc_keyframe_interval_seconds config) * 1000000) div pc_tick_dt_microseconds config"

text \<open>\<open>ConnectionIdHash{}(id) % interval\<close>; a zero interval traps.\<close>

definition keyframe_phase :: "ProjectionConfig \<Rightarrow> ConnectionId \<Rightarrow> u64 option" where
  "keyframe_phase config i =
     (let interval = keyframe_interval_ticks config in
      if interval = 0 then None else Some (connection_hash i mod interval))"

definition keyframe_due :: "ProjectionConfig \<Rightarrow> ConnectionProjection \<Rightarrow> u64 \<Rightarrow> bool option" where
  "keyframe_due config c tick =
     (if cn_next_keyframe_tick c \<noteq> 0 then Some (tick \<ge> cn_next_keyframe_tick c)
      else map_option
        (\<lambda>phase. tick + phase \<ge> cn_last_keyframe_tick c + keyframe_interval_ticks config)
        (keyframe_phase config (cn_id c)))"

section \<open>Visibility\<close>

definition engine_query :: "FrameContext \<Rightarrow> Aabb \<Rightarrow> WorldId list" where
  "engine_query e bounds = spatial_query (\<lambda>_. []) (fc_spatial e) bounds"

definition resolve_bounds :: "FrameContext \<Rightarrow> ConnectionProjection \<Rightarrow> Aabb option" where
  "resolve_bounds e c =
     (let s = cn_subscription c in
      case as_area s of
        Some area \<Rightarrow> Some area
      | None \<Rightarrow>
          (case as_follow s of
             None \<Rightarrow> None
           | Some target \<Rightarrow>
               (case fmlookup (fc_global_view e) target of
                  None \<Rightarrow> None
                | Some st \<Rightarrow>
                    let center = es_enu st; radius = as_follow_radius_meters s in
                    Some \<lparr>aabb_minimum =
                            \<lparr>enu_east = f64_sub (enu_east center) radius,
                             enu_north = f64_sub (enu_north center) radius,
                             enu_up = f64_sub (enu_up center) radius\<rparr>,
                          aabb_maximum =
                            \<lparr>enu_east = f64_add (enu_east center) radius,
                             enu_north = f64_add (enu_north center) radius,
                             enu_up = f64_add (enu_up center) radius\<rparr>\<rparr>)))"

definition resolve_visible ::
  "FrameContext \<Rightarrow> ConnectionProjection \<Rightarrow> VisibleCache \<Rightarrow> Aabb option \<Rightarrow> World \<Rightarrow>
     WorldId list \<times> VisibleCache \<times> bool" where
  "resolve_visible e c cache bounds w =
     (case fc_relevance_filter e of
        Some relevant \<Rightarrow>
          (case bounds of
             None \<Rightarrow> []
           | Some b \<Rightarrow> filter (\<lambda>wid. case world_find w wid of
               None \<Rightarrow> False | Some obj \<Rightarrow> relevant (cn_id c) obj) (engine_query e b),
           cache, False)
      | None \<Rightarrow>
          if vc_valid cache \<and> (bounds \<noteq> None) = vc_has_bounds cache
             \<and> (bounds = None \<or> bounds = Some (vc_bounds cache))
             \<and> vc_spatial_revision cache = fc_spatial_revision e
          then (vc_visible cache, cache, True)
          else
            let visible = (case bounds of None \<Rightarrow> [] | Some b \<Rightarrow> engine_query e b) in
            (visible,
             cache\<lparr>vc_valid := True, vc_has_bounds := (bounds \<noteq> None),
                   vc_bounds := (case bounds of None \<Rightarrow> vc_bounds cache | Some b \<Rightarrow> b),
                   vc_spatial_revision := fc_spatial_revision e, vc_visible := visible\<rparr>,
             False))"

section \<open>Building a frame\<close>

text \<open>An object keeps its feature id for the epoch; a new one gets the next.\<close>

definition ensure_fid :: "ConnectionProjection \<Rightarrow> WorldId \<Rightarrow> FeatureId \<times> ConnectionProjection" where
  "ensure_fid c wid =
     (case fid_of c wid of
        Some fid \<Rightarrow> (fid, c)
      | None \<Rightarrow> let (fid, c) = allocate_fid c in (fid, map_fid c wid fid))"

record FrameBuild =
  fb_connection :: ConnectionProjection
  fb_enters :: "EntityEnter list"
  fb_updates :: "EntityUpdate list"
  fb_leaves :: "EntityLeave list"
  fb_ops :: "SentOp list"
  fb_frame_ops :: EntityView
  fb_frame_leaves :: "(WorldId, FeatureId) fmap"
  fb_throttle_pending :: "WorldId fset"

definition frame_build :: "ConnectionProjection \<Rightarrow> FrameBuild" where
  "frame_build c =
     \<lparr>fb_connection = c, fb_enters = [], fb_updates = [], fb_leaves = [], fb_ops = [],
      fb_frame_ops = fmempty, fb_frame_leaves = fmempty, fb_throttle_pending = {||}\<rparr>"

text \<open>An object enters the client's view, in a keyframe or in a delta.\<close>

definition push_enter :: "u64 \<Rightarrow> FrameBuild \<Rightarrow> WorldId \<Rightarrow> EntityState \<Rightarrow> FrameBuild" where
  "push_enter tick fb wid st =
     (let (fid, c) = ensure_fid (fb_connection fb) wid;
          tracked = \<lparr>te_fid = fid, te_entity_hash = es_hash st,
                     te_frequency = pm_frequency (pe_metadata (es_projected st)),
                     te_last_sent_tick = tick\<rparr>
      in fb\<lparr>fb_connection := c,
            fb_enters := fb_enters fb @
              [\<lparr>ee_wid = wid, ee_fid = fid, ee_entity = (es_projected st)\<lparr>pe_fid := fid\<rparr>\<rparr>],
            fb_frame_ops := fmupd wid tracked (fb_frame_ops fb),
            fb_ops := fb_ops fb @
              [\<lparr>so_kind = SO_enter, so_wid = wid, so_fid = fid, so_entity_hash = es_hash st\<rparr>]\<rparr>)"

definition keyframe_entity ::
  "FrameContext \<Rightarrow> u64 \<Rightarrow> FrameBuild \<Rightarrow> WorldId \<Rightarrow> FrameBuild" where
  "keyframe_entity e tick fb wid =
     (case fmlookup (fc_global_view e) wid of None \<Rightarrow> fb | Some st \<Rightarrow> push_enter tick fb wid st)"

definition leave_op :: "WorldId \<Rightarrow> FeatureId \<Rightarrow> SentOp" where
  "leave_op wid fid = \<lparr>so_kind = SO_leave, so_wid = wid, so_fid = fid, so_entity_hash = 0\<rparr>"

definition simulation_time_us :: "ProjectionConfig \<Rightarrow> u64 \<Rightarrow> u64" where
  "simulation_time_us config tick = tick * pc_tick_dt_microseconds config"

text \<open>Recording a frame in the log, as at the end of both branches.\<close>

definition finish_frame ::
  "FrameContext \<Rightarrow> ConnectionProjection \<Rightarrow> SentOp list \<Rightarrow> ConnectionProjection" where
  "finish_frame e c ops =
     (let c = advance_stream_sequence (record_sent c (fc_latest_snapshot_id e) ops);
          (evicted, c) = evict_unacked c (unat (pc_max_unacked_frames (fc_config e)))
                           (pc_max_unacked_bytes (fc_config e))
      in if evicted then set_needs_keyframe c True else c)"

definition build_keyframe ::
  "FrameContext \<Rightarrow> ConnectionProjection \<Rightarrow> WorldId list \<Rightarrow> bool \<Rightarrow> u64 \<Rightarrow>
     (Keyframe \<times> ConnectionProjection) option" where
  "build_keyframe e c visible forced tick =
     (let fb = foldl (keyframe_entity e tick) (frame_build c) visible;
          leaves = map (\<lambda>(wid, tracked). leave_op wid (te_fid tracked))
            (filter (\<lambda>(wid, tracked). wid \<notin> set visible) (fm_items (cn_acked_view c)));
          ops = stable_sort (lt_key so_wid) (fb_ops fb @ leaves);
          interval = keyframe_interval_ticks (fc_config e);
          keyframe = \<lparr>kf_stream_epoch = cn_stream_epoch c,
                      kf_stream_sequence = next_stream_sequence c,
                      kf_snapshot_id = fc_latest_snapshot_id e, kf_baseline_snapshot_id = 0,
                      kf_tick = tick,
                      kf_simulation_time_us = simulation_time_us (fc_config e) tick,
                      kf_entities = fb_enters fb\<rparr>
      in case (if forced then keyframe_phase (fc_config e) (cn_id c) else Some 0) of
           None \<Rightarrow> None
         | Some phase \<Rightarrow>
             let c' = (fb_connection fb)\<lparr>cn_current_view := fb_frame_ops fb\<rparr>;
                 c' = clear_acked_dirty c';
                 c' = set_needs_keyframe c' False;
                 c' = set_last_keyframe_tick c' tick;
                 c' = set_next_keyframe_tick c' (tick + interval - phase);
                 c' = set_policy_version c' (fc_policy_version e)
             in Some (keyframe, finish_frame e c' ops))"

definition push_leave ::
  "FrameContext \<Rightarrow> World \<Rightarrow> Aabb option \<Rightarrow> FrameBuild \<Rightarrow> WorldId \<Rightarrow> TrackedEntity \<Rightarrow> FrameBuild" where
  "push_leave e w bounds fb wid tracked =
     (let reason =
        (case world_find w wid of
           None \<Rightarrow> LR_destroyed
         | Some obj \<Rightarrow>
             (case fc_relevance_filter e of
                Some relevant \<Rightarrow>
                  if bounds \<noteq> None \<and> \<not> relevant (cn_id (fb_connection fb)) obj
                  then LR_not_relevant else LR_out_of_area
              | None \<Rightarrow> LR_out_of_area))
      in fb\<lparr>fb_frame_leaves := fmupd wid (te_fid tracked) (fb_frame_leaves fb),
            fb_leaves := fb_leaves fb @
              [\<lparr>el_wid = wid, el_fid = te_fid tracked, el_reason = reason\<rparr>],
            fb_ops := fb_ops fb @ [leave_op wid (te_fid tracked)]\<rparr>)"

definition frequency_hz :: "ProjectionConfig \<Rightarrow> FrequencyClass \<Rightarrow> u32" where
  "frequency_hz config frequency =
     (case frequency of
        FC_fast \<Rightarrow> pc_data_frequency_hz config
      | FC_slow \<Rightarrow> pc_slow_frequency_hz config
      | FC_on_change \<Rightarrow> pc_data_frequency_hz config)"

definition process_visible_wid ::
  "FrameContext \<Rightarrow> u64 \<Rightarrow> FrameBuild \<Rightarrow> WorldId \<Rightarrow> FrameBuild" where
  "process_visible_wid e tick fb wid =
     (case fmlookup (fc_global_view e) wid of
        None \<Rightarrow> fb
      | Some st \<Rightarrow>
          (case fmlookup (cn_acked_view (fb_connection fb)) wid of
             None \<Rightarrow> push_enter tick fb wid st
           | Some entry \<Rightarrow>
               if te_entity_hash entry = es_hash st then fb
               else
                 let frequency = pm_frequency (pe_metadata (es_projected st));
                     last_sent = (case fmlookup (cn_current_view (fb_connection fb)) wid of
                       None \<Rightarrow> 0 | Some previous \<Rightarrow> te_last_sent_tick previous)
                 in if frequency \<noteq> FC_on_change
                       \<and> tick - last_sent
                          < interval_ticks (fc_config e) (frequency_hz (fc_config e) frequency)
                    then fb\<lparr>fb_throttle_pending := finsert wid (fb_throttle_pending fb)\<rparr>
                    else
                      let fid = te_fid entry;
                          tracked = entry\<lparr>te_entity_hash := es_hash st,
                                          te_frequency := frequency, te_last_sent_tick := tick\<rparr>
                      in fb\<lparr>fb_updates := fb_updates fb @
                               [\<lparr>eu_wid = wid, eu_fid = fid,
                                 eu_entity = (es_projected st)\<lparr>pe_fid := fid\<rparr>\<rparr>],
                             fb_frame_ops := fmupd wid tracked (fb_frame_ops fb),
                             fb_ops := fb_ops fb @
                               [\<lparr>so_kind = SO_update, so_wid = wid, so_fid = fid,
                                 so_entity_hash = es_hash st\<rparr>]\<rparr>))"

text \<open>
  With a cached visible set only the objects that can have changed are looked at: those with
  unacknowledged operations, those throttled before, and the visible ones changed this tick.
\<close>

definition frame_candidates ::
  "FrameContext \<Rightarrow> ConnectionProjection \<Rightarrow> WorldId fset \<Rightarrow> WorldId list \<Rightarrow> WorldId list" where
  "frame_candidates e c pending visible =
     sorted_list_of_fset (fmdom (cn_unacked_wid_counts c) |\<union>| pending
       |\<union>| fset_of_list (filter (\<lambda>wid. wid \<in> set visible) (fc_tick_changed_wids e)))"

definition process_candidate ::
  "FrameContext \<Rightarrow> World \<Rightarrow> Aabb option \<Rightarrow> WorldId list \<Rightarrow> u64 \<Rightarrow> FrameBuild \<Rightarrow> WorldId \<Rightarrow> FrameBuild" where
  "process_candidate e w bounds visible tick fb wid =
     (if wid \<in> set visible then process_visible_wid e tick fb wid
      else case fmlookup (cn_acked_view (fb_connection fb)) wid of
        None \<Rightarrow> fb
      | Some tracked \<Rightarrow> push_leave e w bounds fb wid tracked)"

definition full_scan ::
  "FrameContext \<Rightarrow> World \<Rightarrow> Aabb option \<Rightarrow> WorldId list \<Rightarrow> u64 \<Rightarrow> FrameBuild \<Rightarrow> FrameBuild" where
  "full_scan e w bounds visible tick fb =
     foldl (\<lambda>fb (wid, tracked). push_leave e w bounds fb wid tracked)
       (foldl (process_visible_wid e tick) fb visible)
       (filter (\<lambda>(wid, tracked). wid \<notin> set visible)
          (fm_items (cn_acked_view (fb_connection fb))))"

text \<open>The update quota: by descending priority, then feature id.\<close>

definition update_before :: "EntityUpdate \<Rightarrow> EntityUpdate \<Rightarrow> bool" where
  "update_before l r \<longleftrightarrow>
     (let pl = pm_priority (pe_metadata (eu_entity l)); pr = pm_priority (pe_metadata (eu_entity r))
      in if pl \<noteq> pr then pl > pr else eu_fid l < eu_fid r)"

definition dropped_op :: "EntityUpdate list \<Rightarrow> SentOp \<Rightarrow> bool" where
  "dropped_op kept op \<longleftrightarrow> so_kind op = SO_update \<and> so_fid op \<notin> eu_fid ` set kept"

definition limit_updates :: "ProjectionConfig \<Rightarrow> FrameBuild \<Rightarrow> FrameBuild" where
  "limit_updates config fb =
     (if length (fb_updates fb) > unat (pc_max_updates_per_frame config) then
        let kept = take (unat (pc_max_updates_per_frame config))
                     (stable_sort update_before (fb_updates fb));
            ops = stable_sort (lt_key so_wid) (fb_ops fb);
            acked_view = cn_acked_view (fb_connection fb)
        in fb\<lparr>fb_updates := kept,
              fb_ops := filter (\<lambda>op. \<not> dropped_op kept op) ops,
              fb_frame_ops := foldl (\<lambda>m op. case fmlookup acked_view (so_wid op) of
                                None \<Rightarrow> m | Some tracked \<Rightarrow> fmupd (so_wid op) tracked m)
                              (fb_frame_ops fb) (filter (dropped_op kept) ops)\<rparr>
      else fb)"

text \<open>The current view converges to the acknowledged one plus this frame's operations.\<close>

definition restore_acked :: "EntityView \<Rightarrow> EntityView \<Rightarrow> WorldId \<Rightarrow> EntityView" where
  "restore_acked acked_view view wid =
     (case fmlookup acked_view wid of None \<Rightarrow> fmdrop wid view | Some tracked \<Rightarrow> fmupd wid tracked view)"

definition converge_view :: "FrameBuild \<Rightarrow> EntityView" where
  "converge_view fb =
     (let c = fb_connection fb;
          touched = (\<lambda>wid. fm_has (fb_frame_ops fb) wid \<or> fm_has (fb_frame_leaves fb) wid);
          counts = cn_unacked_wid_counts c;
          view = foldl (restore_acked (cn_acked_view c)) (cn_current_view c)
            (filter (\<lambda>wid. \<not> (touched wid \<or> fm_has counts wid)) (cn_acked_dirty c));
          view = foldl (restore_acked (cn_acked_view c)) view
            (filter (\<lambda>wid. \<not> touched wid) (fm_keys counts))
      in fmdrop_fset (fmdom (fb_frame_leaves fb)) (fmadd view (fb_frame_ops fb)))"

definition build_delta ::
  "FrameContext \<Rightarrow> ConnectionProjection \<Rightarrow> WorldId list \<Rightarrow> bool \<Rightarrow> Aabb option \<Rightarrow> WorldId fset \<Rightarrow>
     World \<Rightarrow> u64 \<Rightarrow> Delta option \<times> ConnectionProjection \<times> WorldId fset" where
  "build_delta e c visible from_cache bounds pending w tick =
     (let fb = (if from_cache
                then foldl (process_candidate e w bounds visible tick) (frame_build c)
                       (frame_candidates e c pending visible)
                else full_scan e w bounds visible tick (frame_build c))
      in if fb_enters fb = [] \<and> fb_updates fb = [] \<and> fb_leaves fb = []
         then (None, fb_connection fb, fb_throttle_pending fb)
         else
           let fb = limit_updates (fc_config e) fb;
               delta = \<lparr>df_stream_epoch = cn_stream_epoch c,
                        df_stream_sequence = next_stream_sequence c,
                        df_snapshot_id = fc_latest_snapshot_id e,
                        df_baseline_snapshot_id = cn_acked_baseline c, df_tick = tick,
                        df_simulation_time_us = simulation_time_us (fc_config e) tick,
                        df_enters = stable_sort (lt_key ee_wid) (fb_enters fb),
                        df_updates = stable_sort (lt_key eu_fid) (fb_updates fb),
                        df_leaves = stable_sort (lt_key el_fid) (fb_leaves fb)\<rparr>;
               c' = (clear_acked_dirty (fb_connection fb))\<lparr>cn_current_view := converge_view fb\<rparr>
           in (Some delta, finish_frame e c' (fb_ops fb), fb_throttle_pending fb))"

record BuiltFrame =
  bf_frame :: "StateFrame option"
  bf_connection :: ConnectionProjection
  bf_cache :: VisibleCache
  bf_throttle_pending :: "WorldId fset"

definition unmapped_count :: "ConnectionProjection \<Rightarrow> WorldId list \<Rightarrow> nat" where
  "unmapped_count c visible = length (filter (\<lambda>wid. fid_of c wid = None) visible)"

definition build_frame ::
  "FrameContext \<Rightarrow> ConnectionProjection \<Rightarrow> VisibleCache \<Rightarrow> WorldId fset \<Rightarrow> World \<Rightarrow> u64 \<Rightarrow>
     BuiltFrame option" where
  "build_frame e c cache throttle w tick =
     (let bounds = resolve_bounds e c;
          (visible, cache, from_cache) = resolve_visible e c cache bounds w
      in case keyframe_due (fc_config e) c tick of
           None \<Rightarrow> None
         | Some periodic_due \<Rightarrow>
             let forced = (cn_needs_keyframe c \<or> cn_policy_version c \<noteq> fc_policy_version e);
                 unmapped = (if from_cache then 0 else unmapped_count c visible);
                 exhausted = (fid_count c + unmapped
                   > unat (pc_max_feature_ids_per_epoch (fc_config e)));
                 c = (if exhausted
                      then reset_epoch c ER_fid_exhausted (fc_latest_snapshot_id e) else c);
                 forced = (forced \<or> exhausted)
             in if forced \<or> periodic_due then
                  map_option (\<lambda>(keyframe, c).
                    \<lparr>bf_frame = Some (SF_keyframe keyframe), bf_connection = c, bf_cache = cache,
                     bf_throttle_pending = {||}\<rparr>)
                    (build_keyframe e c visible forced tick)
                else
                  let (delta, c, throttle) =
                    build_delta e c visible from_cache bounds throttle w tick
                  in Some \<lparr>bf_frame = map_option SF_delta delta, bf_connection = c,
                           bf_cache = cache, bf_throttle_pending = throttle\<rparr>)"

end
