(* ===== verification/Projection_Fids.thy ===== *)
theory Projection_Fids
  imports Projection_Frames
begin

text \<open>
  What \<open>build_frame\<close> does to the feature ids of a connection: within an epoch the mapping between
  objects and feature ids is a bijection that only grows, and every frame uses it.
\<close>

section \<open>The mapping\<close>

definition fids_ok :: "ConnectionProjection \<Rightarrow> bool" where
  "fids_ok c \<longleftrightarrow>
     (\<forall>w f. fmlookup (cn_fid_by_wid c) w = Some f \<longleftrightarrow> fmlookup (cn_wid_by_fid c) (fid_value f) = Some w) \<and>
     (\<forall>w f. fmlookup (cn_fid_by_wid c) w = Some f \<longrightarrow>
        0 < unat (fid_value f) \<and> unat (fid_value f) \<le> fid_count c) \<and>
     cn_next_fid c = of_nat (Suc (fid_count c))"

lemma fids_ok_new [simp]: "fids_ok (connection_projection i)"
  by (simp add: fids_ok_def connection_projection_def fid_count_def)

lemma fids_ok_reset [simp]: "fids_ok (reset_epoch c r s)"
  by (simp add: fids_ok_def reset_epoch_def fid_count_def)

lemma fids_ok_inj:
  "fids_ok c \<Longrightarrow> fid_of c v = Some f \<Longrightarrow> fid_of c w = Some f \<Longrightarrow> v = w"
  unfolding fids_ok_def fid_of_def by (metis option.inject)

lemma fids_ok_wid_of: "fids_ok c \<Longrightarrow> fid_of c w = Some f \<longleftrightarrow> wid_of c f = Some w"
  by (simp add: fids_ok_def fid_of_def wid_of_def)

text \<open>Nothing but the mapping changes.\<close>

definition fid_update :: "ConnectionProjection \<Rightarrow> ConnectionProjection \<Rightarrow> bool" where
  "fid_update c c' \<longleftrightarrow>
     c' = c\<lparr>cn_next_fid := cn_next_fid c', cn_fid_by_wid := cn_fid_by_wid c',
           cn_wid_by_fid := cn_wid_by_fid c'\<rparr>"

lemma fid_update_refl [simp]: "fid_update c c"
  by (simp add: fid_update_def)

lemma fid_update_trans: "fid_update a b \<Longrightarrow> fid_update b c \<Longrightarrow> fid_update a c"
  by (cases a; cases b; cases c) (simp add: fid_update_def)

lemma fid_update_frame:
  assumes "fid_update c c'"
  shows "cn_acked_view c' = cn_acked_view c" "cn_current_view c' = cn_current_view c"
    "cn_unacked_wid_counts c' = cn_unacked_wid_counts c" "cn_acked_dirty c' = cn_acked_dirty c"
    "cn_unacked_records c' = cn_unacked_records c" "cn_unacked_bytes c' = cn_unacked_bytes c"
    "cn_acked_baseline c' = cn_acked_baseline c" "cn_id c' = cn_id c"
    "cn_needs_keyframe c' = cn_needs_keyframe c" "cn_stream_epoch c' = cn_stream_epoch c"
    "cn_epoch_snapshot_floor c' = cn_epoch_snapshot_floor c"
  by (subst assms [unfolded fid_update_def]; simp)+

lemma ensure_fid_update: "fid_update c (snd (ensure_fid c w))"
  by (cases c) (auto simp: ensure_fid_def allocate_fid_def map_fid_def fid_update_def
      split: option.splits)

lemma ensure_fid_mapped: "fid_of (snd (ensure_fid c w)) w = Some (fst (ensure_fid c w))"
  by (auto simp: ensure_fid_def allocate_fid_def map_fid_def fid_of_def split: option.splits)

lemma ensure_fid_grows: "fid_of c v = Some f \<Longrightarrow> fid_of (snd (ensure_fid c w)) v = Some f"
  by (auto simp: ensure_fid_def allocate_fid_def map_fid_def fid_of_def split: option.splits)

lemma ensure_fid_dom:
  "fmdom (cn_fid_by_wid (snd (ensure_fid c w))) = finsert w (fmdom (cn_fid_by_wid c))"
  by (auto simp: ensure_fid_def allocate_fid_def map_fid_def fid_of_def fmlookup_dom_iff
      split: option.splits)

lemma fids_ok_ensure:
  assumes "fids_ok c" "fid_of c w \<noteq> None \<or> Suc (fid_count c) < 2 ^ 32"
  shows "fids_ok (snd (ensure_fid c w))"
proof (cases "fid_of c w")
  case None
  with assms(2) have small: "Suc (fid_count c) < 2 ^ 32" by simp
  let ?n = "of_nat (Suc (fid_count c)) :: u32"
  have unat_n: "unat ?n = Suc (fid_count c)"
    using small by (simp add: unat_of_nat take_bit_nat_eq_self del: of_nat_Suc)
  have fresh: "fmlookup (cn_fid_by_wid c) v \<noteq> Some f" if "fid_value f = ?n" for v f
    using assms(1) unat_n that unfolding fids_ok_def by (metis not_less_eq_eq le_refl)
  have unmapped: "fmlookup (cn_wid_by_fid c) ?n = None"
  proof (rule ccontr)
    assume "fmlookup (cn_wid_by_fid c) ?n \<noteq> None"
    then obtain v where "fmlookup (cn_wid_by_fid c) (fid_value (FeatureId ?n)) = Some v" by auto
    then have "fmlookup (cn_fid_by_wid c) v = Some (FeatureId ?n)"
      using assms(1) unfolding fids_ok_def by blast
    with fresh show False by simp
  qed
  have size: "fm_size (fmupd w f (cn_fid_by_wid c)) = Suc (fm_size (cn_fid_by_wid c))" for f
    using None by (simp add: fm_size_upd fm_has_def fid_of_def)
  have next_fid: "cn_next_fid c = ?n" using assms(1) by (simp add: fids_ok_def)
  have "ensure_fid c w = (FeatureId ?n, c\<lparr>cn_next_fid := ?n + 1,
      cn_fid_by_wid := fmupd w (FeatureId ?n) (cn_fid_by_wid c),
      cn_wid_by_fid := fmupd ?n w (cn_wid_by_fid c)\<rparr>)"
    using None next_fid by (simp add: ensure_fid_def allocate_fid_def map_fid_def)
  moreover have "v \<noteq> w \<Longrightarrow> fmlookup (cn_fid_by_wid c) v = Some f \<Longrightarrow> fid_value f \<noteq> ?n" for v f
    using fresh by blast
  moreover have "f = FeatureId ?n" if "fid_value f = ?n" for f
    using that by (cases f) simp
  moreover have w: "fmlookup (cn_fid_by_wid c) w = None" using None by (simp add: fid_of_def)
  moreover have "fmlookup (cn_wid_by_fid c) (fid_value f) \<noteq> Some w" for f
    using assms(1) w unfolding fids_ok_def by (metis option.distinct(1))
  ultimately show ?thesis
    using assms(1) unat_n unmapped
    by (auto simp: fids_ok_def fid_count_def size algebra_simps le_SucI)
qed (use assms in \<open>simp add: ensure_fid_def\<close>)

section \<open>Through a frame\<close>

lemma foldl_invariant:
  "P s \<Longrightarrow> (\<And>s x. x \<in> set xs \<Longrightarrow> P s \<Longrightarrow> P (f s x)) \<Longrightarrow> P (foldl f s xs)"
  by (induction xs arbitrary: s) auto

text \<open>What holds while the objects of \<open>vs\<close> are processed for the connection \<open>c\<close>.\<close>

definition build_ok :: "ConnectionProjection \<Rightarrow> WorldId set \<Rightarrow> FrameBuild \<Rightarrow> bool" where
  "build_ok c vs fb \<longleftrightarrow>
     fid_update c (fb_connection fb) \<and> fids_ok (fb_connection fb) \<and>
     (\<forall>w f. fid_of c w = Some f \<longrightarrow> fid_of (fb_connection fb) w = Some f) \<and>
     fset (fmdom (cn_fid_by_wid (fb_connection fb))) \<subseteq> fset (fmdom (cn_fid_by_wid c)) \<union> vs \<and>
     (\<forall>x\<in>set (fb_enters fb). ee_wid x \<in> vs \<and>
        fid_of (fb_connection fb) (ee_wid x) = Some (ee_fid x) \<and> pe_fid (ee_entity x) = ee_fid x)"

lemma build_ok_start: "fids_ok c \<Longrightarrow> build_ok c vs (frame_build c)"
  by (simp add: build_ok_def frame_build_def)

definition fid_room :: "ConnectionProjection \<Rightarrow> WorldId set \<Rightarrow> bool" where
  "fid_room c vs \<longleftrightarrow> finite vs \<and> card (fset (fmdom (cn_fid_by_wid c)) \<union> vs) < 2 ^ 32"

lemma build_ok_enter:
  assumes "build_ok c vs fb" "w \<in> vs" "fid_room c vs"
  shows "build_ok c vs (push_enter tick fb w st)"
proof -
  let ?d = "fb_connection fb" and ?c' = "snd (ensure_fid (fb_connection fb) w)"
  have "Suc (fid_count ?d) < 2 ^ 32" if "fid_of ?d w = None"
  proof -
    have "w \<notin> fset (fmdom (cn_fid_by_wid ?d))" using that by (simp add: fid_of_def fmlookup_dom_iff)
    then have "Suc (fid_count ?d) = card (insert w (fset (fmdom (cn_fid_by_wid ?d))))"
      by (simp add: fid_count_def fm_size_def fcard.rep_eq)
    also have "\<dots> \<le> card (fset (fmdom (cn_fid_by_wid c)) \<union> vs)"
      using assms by (intro card_mono) (auto simp: build_ok_def fid_room_def)
    finally show ?thesis using assms(3) by (simp add: fid_room_def)
  qed
  then have "fids_ok ?c'"
    using assms(1) by (intro fids_ok_ensure) (auto simp: build_ok_def)
  moreover have "fid_update c ?c'"
    using assms(1) ensure_fid_update fid_update_trans unfolding build_ok_def by blast
  moreover have conn: "fb_connection (push_enter tick fb w st) = ?c'"
    "fb_enters (push_enter tick fb w st) = fb_enters fb @
       [\<lparr>ee_wid = w, ee_fid = fst (ensure_fid ?d w),
         ee_entity = (es_projected st)\<lparr>pe_fid := fst (ensure_fid ?d w)\<rparr>\<rparr>]"
    by (simp_all add: push_enter_def Let_def split: prod.splits)
  ultimately show ?thesis
    using assms(1,2) unfolding build_ok_def
    by (auto simp: ensure_fid_grows ensure_fid_dom ensure_fid_mapped)
qed

lemma build_ok_step:
  assumes "build_ok c vs fb" "w \<in> vs" "fid_room c vs"
  shows "build_ok c vs (keyframe_entity e tick fb w)" "build_ok c vs (process_visible_wid e tick fb w)"
proof -
  show "build_ok c vs (keyframe_entity e tick fb w)"
    using assms build_ok_enter [OF assms] by (simp add: keyframe_entity_def split: option.split)
  have other: "build_ok c vs fb'"
    if "fb_connection fb' = fb_connection fb" "fb_enters fb' = fb_enters fb" for fb'
    using assms(1) that by (simp add: build_ok_def)
  show "build_ok c vs (process_visible_wid e tick fb w)"
    using assms(1) build_ok_enter [OF assms]
    by (simp add: process_visible_wid_def Let_def other split: option.split)
qed

lemma build_ok_leave: "build_ok c vs fb \<Longrightarrow> build_ok c vs (push_leave e w bounds fb wid tracked)"
  by (simp add: build_ok_def push_leave_def Let_def)

lemma build_ok_scans:
  assumes "build_ok c (set visible) fb" "fid_room c (set visible)"
  shows "build_ok c (set visible) (foldl (keyframe_entity e tick) fb visible)"
    "build_ok c (set visible) (full_scan e w bounds visible tick fb)"
    "build_ok c (set visible) (foldl (process_candidate e w bounds visible tick) fb candidates)"
proof -
  note inv = foldl_invariant [where P = "build_ok c (set visible)"]
  show "build_ok c (set visible) (foldl (keyframe_entity e tick) fb visible)"
    by (rule inv [OF assms(1)]) (rule build_ok_step(1) [OF _ _ assms(2)])
  have "build_ok c (set visible) (foldl (process_visible_wid e tick) fb visible)"
    by (rule inv [OF assms(1)]) (rule build_ok_step(2) [OF _ _ assms(2)])
  then show "build_ok c (set visible) (full_scan e w bounds visible tick fb)"
    unfolding full_scan_def by (rule inv) (auto intro: build_ok_leave)
  have "build_ok c (set visible) (process_candidate e w bounds visible tick fb wid)"
    if "build_ok c (set visible) fb" for fb wid
    using that build_ok_step(2) [OF that _ assms(2)] build_ok_leave [OF that]
    by (simp add: process_candidate_def split: option.split)
  then show "build_ok c (set visible) (foldl (process_candidate e w bounds visible tick) fb candidates)"
    by (rule inv [OF assms(1)])
qed

lemma build_ok_limit: "build_ok c vs fb \<Longrightarrow> build_ok c vs (limit_updates config fb)"
  by (simp add: build_ok_def limit_updates_def Let_def)

section \<open>The theorem\<close>

text \<open>The operations after the scan leave the mapping alone.\<close>

lemma finish_frame_fids [frame_simps]:
  "cn_fid_by_wid (finish_frame e c ops) = cn_fid_by_wid c"
  "cn_wid_by_fid (finish_frame e c ops) = cn_wid_by_fid c"
  "cn_next_fid (finish_frame e c ops) = cn_next_fid c"
  "cn_stream_epoch (finish_frame e c ops) = cn_stream_epoch c"
  by (auto simp: finish_frame_def evict_unacked_def record_sent_def advance_stream_sequence_def
      set_needs_keyframe_def Let_def split: prod.splits)

lemma fids_ok_cong:
  "cn_fid_by_wid c' = cn_fid_by_wid c \<Longrightarrow> cn_wid_by_fid c' = cn_wid_by_fid c \<Longrightarrow>
     cn_next_fid c' = cn_next_fid c \<Longrightarrow> fids_ok c' = fids_ok c"
  by (simp add: fids_ok_def fid_count_def)

fun frame_enters :: "StateFrame \<Rightarrow> EntityEnter list" where
  "frame_enters (SF_keyframe kf) = kf_entities kf"
| "frame_enters (SF_delta d) = df_enters d"

text \<open>What a frame may do to the mapping of \<open>c\<close>, entering objects of \<open>vs\<close>.\<close>

definition fid_result ::
  "ConnectionProjection \<Rightarrow> WorldId set \<Rightarrow> ConnectionProjection \<Rightarrow> EntityEnter list \<Rightarrow> bool" where
  "fid_result c vs c' enters \<longleftrightarrow>
     fids_ok c' \<and> cn_stream_epoch c' = cn_stream_epoch c \<and>
     (\<forall>w f. fid_of c w = Some f \<longrightarrow> fid_of c' w = Some f) \<and>
     (\<forall>x\<in>set enters. ee_wid x \<in> vs \<and> fid_of c' (ee_wid x) = Some (ee_fid x) \<and>
        pe_fid (ee_entity x) = ee_fid x)"

lemma build_ok_result:
  assumes "build_ok c vs fb" "cn_fid_by_wid c' = cn_fid_by_wid (fb_connection fb)"
    "cn_wid_by_fid c' = cn_wid_by_fid (fb_connection fb)" "cn_next_fid c' = cn_next_fid (fb_connection fb)"
    "cn_stream_epoch c' = cn_stream_epoch (fb_connection fb)" "set enters \<subseteq> set (fb_enters fb)"
  shows "fid_result c vs c' enters"
  using assms fids_ok_cong [of c' "fb_connection fb"] fid_update_frame [of c "fb_connection fb"]
  by (auto simp: fid_result_def build_ok_def fid_of_def)

lemma build_keyframe_fids:
  assumes "fids_ok c" "fid_room c (set visible)"
    "build_keyframe e c visible forced tick = Some (kf, c')"
  shows "fid_result c (set visible) c' (kf_entities kf)"
proof -
  have "build_ok c (set visible) (foldl (keyframe_entity e tick) (frame_build c) visible)"
    by (rule build_ok_scans(1) [OF build_ok_start [OF assms(1)] assms(2)])
  from build_ok_result [OF this, of c' "kf_entities kf"] assms(3) show ?thesis
    by (auto simp: build_keyframe_def Let_def frame_simps clear_acked_dirty_def
        set_needs_keyframe_def set_last_keyframe_tick_def set_next_keyframe_tick_def
        set_policy_version_def split: option.splits)
qed

lemma limit_updates_frame [frame_simps]:
  "fb_enters (limit_updates config fb) = fb_enters fb"
  "fb_connection (limit_updates config fb) = fb_connection fb"
  "fb_leaves (limit_updates config fb) = fb_leaves fb"
  "fb_frame_leaves (limit_updates config fb) = fb_frame_leaves fb"
  by (simp_all add: limit_updates_def Let_def)

lemma build_delta_fids:
  assumes "fids_ok c" "fid_room c (set visible)"
    "build_delta e c visible hit bounds pending w tick = (d, c', throttle)"
  shows "fid_result c (set visible) c' (case d of None \<Rightarrow> [] | Some d \<Rightarrow> df_enters d)"
proof -
  define fb where "fb = (if hit
      then foldl (process_candidate e w bounds visible tick) (frame_build c)
             (frame_candidates e c pending visible)
      else full_scan e w bounds visible tick (frame_build c))"
  have ok: "build_ok c (set visible) fb"
    using build_ok_scans(2,3) [OF build_ok_start [OF assms(1)] assms(2)] by (simp add: fb_def)
  from assms(3) [unfolded build_delta_def] show ?thesis
    unfolding fb_def [symmetric] Let_def
    by (auto simp: frame_simps clear_acked_dirty_def split: if_splits
        intro!: build_ok_result [OF ok])
qed

text \<open>
  C25: feature ids are a stable bijection. Building a frame keeps the two directions of the mapping
  inverse to each other and the ids within \<open>1..fid_count\<close>; in the same epoch no object loses or
  changes its id, a new epoch starts from an empty mapping, and every object that enters does so
  under the id mapped to it. The exhaustion check leaves room for at most \<open>2 ^ 32 - 1\<close> ids.
\<close>

theorem fid_mapping_stable:
  assumes "fids_ok c" "build_frame e c cache pending w tick = Some r"
    and "fst (resolve_visible e c cache (resolve_bounds e c) w) = visible"
    and "card (fset (fmdom (cn_fid_by_wid c)) \<union> set visible) < 2 ^ 32"
  shows "fids_ok (bf_connection r) \<and>
    (cn_stream_epoch (bf_connection r) = cn_stream_epoch c \<longrightarrow>
       (\<forall>x f. fid_of c x = Some f \<longrightarrow> fid_of (bf_connection r) x = Some f)) \<and>
    cn_stream_epoch (bf_connection r) \<in> {cn_stream_epoch c, cn_stream_epoch c + 1} \<and>
    (\<forall>frame. bf_frame r = Some frame \<longrightarrow>
       (\<forall>x\<in>set (frame_enters frame). ee_wid x \<in> set visible \<and>
          fid_of (bf_connection r) (ee_wid x) = Some (ee_fid x) \<and>
          wid_of (bf_connection r) (ee_fid x) = Some (ee_wid x) \<and>
          pe_fid (ee_entity x) = ee_fid x))"
proof -
  obtain cache' hit where vis:
    "resolve_visible e c cache (resolve_bounds e c) w = (visible, cache', hit)"
    using assms(3) by (metis prod.collapse)
  have room: "fid_room c (set visible)" using assms(4) by (simp add: fid_room_def)
  let ?c0 = "reset_epoch c ER_fid_exhausted (fc_latest_snapshot_id e)"
  have "card (set visible) \<le> card (fset (fmdom (cn_fid_by_wid c)) \<union> set visible)"
    by (intro card_mono) auto
  then have room0: "fid_room ?c0 (set visible)"
    using assms(4) by (simp add: fid_room_def reset_epoch_def)
  have start: "c1 = c \<or> c1 = ?c0 \<Longrightarrow> fids_ok c1 \<and> fid_room c1 (set visible)" for c1
    using assms(1) room room0 by auto
  have epoch0: "cn_stream_epoch ?c0 = cn_stream_epoch c + 1" by (simp add: reset_epoch_def)
  obtain c1 where c1: "c1 = c \<or> c1 = ?c0" and res:
    "fid_result c1 (set visible) (bf_connection r)
       (case bf_frame r of None \<Rightarrow> [] | Some frame \<Rightarrow> frame_enters frame)"
  proof (cases "keyframe_due (fc_config e) c tick")
    case (Some due)
    let ?exhausted = "unat (pc_max_feature_ids_per_epoch (fc_config e))
      < fid_count c + (if hit then 0 else unmapped_count c visible)"
    let ?c1 = "if ?exhausted then ?c0 else c"
    have c1: "?c1 = c \<or> ?c1 = ?c0" by simp
    note built = assms(2) [unfolded build_frame_def vis Let_def prod.case Some option.case]
    show ?thesis
    proof (rule that [OF c1])
      show "fid_result ?c1 (set visible) (bf_connection r)
          (case bf_frame r of None \<Rightarrow> [] | Some frame \<Rightarrow> frame_enters frame)"
        using built start [OF c1]
        by (auto split: if_splits prod.splits option.splits
            dest!: build_keyframe_fids [rotated 2] build_delta_fids [rotated 2])
    qed
  qed (use assms(2) vis in \<open>simp add: build_frame_def\<close>)
  then show ?thesis
    using epoch0 by (auto simp: fid_result_def fids_ok_wid_of)
qed

text \<open>A connection that sees one object, through a valid cache.\<close>

definition example_config :: ProjectionConfig where
  "example_config =
     \<lparr>pc_data_frequency_hz = 20, pc_slow_frequency_hz = 2, pc_keyframe_interval_seconds = 5,
      pc_snapshot_history_frames = 256, pc_max_unacked_frames = 256,
      pc_max_unacked_bytes = 16777216, pc_max_feature_ids_per_epoch = 1000000,
      pc_tick_dt_microseconds = 20000, pc_max_updates_per_frame = 1000,
      pc_cell_grid = cell_grid f64_1 8,
      pc_enu_origin = \<lparr>ecef_x = f64_1, ecef_y = f64_0, ecef_z = f64_0\<rparr>\<rparr>"

definition example_world_object :: WorldObject where
  "example_world_object =
     \<lparr>wo_id = WorldId 7, wo_geometry_ref = [],
      wo_position = \<lparr>ecef_x = f64_0, ecef_y = f64_0, ecef_z = f64_0\<rparr>, wo_semantic_type = ''tree'',
      wo_properties = fmempty, wo_state = fmempty, wo_relations = [], wo_capabilities = [],
      wo_lifecycle = LS_active, wo_version = 1, wo_revision = 1\<rparr>"

definition example_hash :: u64 where
  "example_hash = projected_entity_hash (policy_project projection_policy example_world_object)"

definition example_state :: "u64 \<Rightarrow> EntityState" where
  "example_state hash =
     \<lparr>es_projected = policy_project projection_policy example_world_object, es_hash = hash,
      es_enu = zero_enu, es_source_revision = 1, es_source_version = 1,
      es_source_position = wo_position example_world_object, es_policy_version = 1\<rparr>"

definition example_context :: FrameContext where
  "example_context =
     \<lparr>fc_config = example_config, fc_policy_version = 1, fc_relevance_filter = None,
      fc_spatial = dynamic_index (cell_grid f64_1 8) 0 f64_0, fc_spatial_revision = 0,
      fc_latest_snapshot_id = 1, fc_global_view = fmupd (WorldId 7) (example_state example_hash) fmempty,
      fc_tick_changed_wids = []\<rparr>"

definition example_cache :: VisibleCache where
  "example_cache = visible_cache\<lparr>vc_valid := True, vc_visible := [WorldId 7]\<rparr>"

lemma example_visible:
  "resolve_visible example_context (connection_projection i) example_cache
     (resolve_bounds example_context (connection_projection i)) w = ([WorldId 7], example_cache, True)"
  by (simp add: resolve_visible_def resolve_bounds_def example_context_def example_cache_def
      visible_cache_def connection_projection_def)

lemma example_frame_built:
  "\<exists>r kf. build_frame example_context (connection_projection (ConnectionId 1)) example_cache {||}
     empty_world 0 = Some r \<and> bf_frame r = Some (SF_keyframe kf) \<and>
     map ee_wid (kf_entities kf) = [WorldId 7] \<and> cn_stream_epoch (bf_connection r) = 1"
proof -
  have "keyframe_interval_ticks example_config = 250"
    by (simp add: keyframe_interval_ticks_def example_config_def)
  then have phase: "keyframe_phase (fc_config example_context) (ConnectionId 1) = Some 1"
    by (simp add: keyframe_phase_def example_context_def connection_hash_def Let_def)
  have due: "keyframe_due (fc_config example_context) (connection_projection (ConnectionId 1)) 0 \<noteq> None"
    using phase by (simp add: keyframe_due_def connection_projection_def)
  have room: "\<not> unat (pc_max_feature_ids_per_epoch (fc_config example_context))
      < fid_count (connection_projection (ConnectionId 1))"
    by (simp add: fid_count_def connection_projection_def)
  have forced: "cn_needs_keyframe (connection_projection (ConnectionId 1))"
    "cn_id (connection_projection (ConnectionId 1)) = ConnectionId 1"
    by (simp_all add: connection_projection_def)
  let ?c = "connection_projection (ConnectionId 1)"
  from due obtain d where d: "keyframe_due (fc_config example_context) ?c 0 = Some d" by auto
  have built: "build_frame example_context ?c example_cache {||} empty_world 0 =
      map_option (\<lambda>(keyframe, c). \<lparr>bf_frame = Some (SF_keyframe keyframe), bf_connection = c,
        bf_cache = example_cache, bf_throttle_pending = {||}\<rparr>)
        (build_keyframe example_context ?c [WorldId 7] True 0)"
    using d room forced by (simp add: build_frame_def example_visible Let_def)
  have view: "fmlookup (fc_global_view example_context) (WorldId 7) = Some (example_state example_hash)"
    by (simp add: example_context_def)
  have fb: "map ee_wid (fb_enters (keyframe_entity example_context 0 (frame_build ?c) (WorldId 7))) =
      [WorldId 7]"
    "cn_stream_epoch (fb_connection (keyframe_entity example_context 0 (frame_build ?c) (WorldId 7))) = 1"
    by (auto simp: keyframe_entity_def view push_enter_def frame_build_def Let_def ensure_fid_def
        allocate_fid_def map_fid_def connection_projection_def split: prod.splits option.splits)
  have "\<exists>kf c'. build_keyframe example_context ?c [WorldId 7] True 0 = Some (kf, c') \<and>
      map ee_wid (kf_entities kf) = [WorldId 7] \<and> cn_stream_epoch c' = 1"
    using phase forced fb
    by (simp add: build_keyframe_def Let_def frame_simps clear_acked_dirty_def
        set_needs_keyframe_def set_last_keyframe_tick_def set_next_keyframe_tick_def
        set_policy_version_def)
  then show ?thesis by (auto simp: built)
qed

theorem fid_mapping_stable_witness:
  "\<exists>r. build_frame example_context (connection_projection (ConnectionId 1)) example_cache {||}
       empty_world 0 = Some r \<and>
     (\<exists>f. fid_of (bf_connection r) (WorldId 7) = Some f \<and> wid_of (bf_connection r) f = Some (WorldId 7))"
proof -
  obtain r kf where r: "build_frame example_context (connection_projection (ConnectionId 1))
      example_cache {||} empty_world 0 = Some r"
    and kf: "bf_frame r = Some (SF_keyframe kf)" "map ee_wid (kf_entities kf) = [WorldId 7]"
    using example_frame_built by auto
  then obtain x where x: "x \<in> set (kf_entities kf)" "ee_wid x = WorldId 7" by (cases "kf_entities kf") auto
  have "card (fset (fmdom (cn_fid_by_wid (connection_projection (ConnectionId 1)))) \<union> set [WorldId 7])
      < 2 ^ 32" by (simp add: connection_projection_def)
  from fid_mapping_stable [OF fids_ok_new r _ this] x kf r show ?thesis
    by (auto simp: example_visible)
qed

end
