(* ===== verification/Projection_Views.thy ===== *)
theory Projection_Views
  imports Projection_Fids
begin

text \<open>
  What the client's replica has to do with the server's bookkeeping. \<open>current_view\<close> is kept
  incrementally (rolled back and forward by \<open>converge_view\<close>); the lemmas show that it always is the
  acknowledged view with the operations of the last frame, and that a client which holds the
  acknowledged view and applies the frame holds exactly the new \<open>current_view\<close>.
\<close>

section \<open>The incremental view\<close>

definition log_wids :: "ConnectionProjection \<Rightarrow> WorldId set" where
  "log_wids c = so_wid ` set (ops_of (cn_unacked_records c))"

text \<open>Only objects named in the log or changed by an acknowledgement differ between the views.\<close>

definition agree :: "ConnectionProjection \<Rightarrow> bool" where
  "agree c \<longleftrightarrow> (\<forall>w. w \<notin> set (cn_acked_dirty c) \<and> w \<notin> log_wids c \<longrightarrow>
     fmlookup (cn_current_view c) w = fmlookup (cn_acked_view c) w)"

definition view_ok :: "ConnectionProjection \<Rightarrow> bool" where
  "view_ok c \<longleftrightarrow> conn_log_ok c \<and> (\<forall>r\<in>set (cn_unacked_records c). cn_acked_baseline c < sf_snapshot_id r) \<and>
     (cn_needs_keyframe c \<or> agree c)"

lemma view_ok_new [simp]: "view_ok (connection_projection i)"
  by (simp add: view_ok_def) (simp add: connection_projection_def)

lemma view_ok_reset [simp]: "view_ok (reset_epoch c r s)"
  by (simp add: view_ok_def conn_log_ok_reset) (simp add: reset_epoch_def)

lemma occurrences_pos: "occurrences w ops \<noteq> 0 \<longleftrightarrow> w \<in> so_wid ` set ops"
  by (induction ops) auto

lemma counts_of_log: "conn_log_ok c \<Longrightarrow> fm_has (cn_unacked_wid_counts c) w \<longleftrightarrow> w \<in> log_wids c"
  by (simp add: conn_log_ok_def log_ok_def counts_match_def fm_has_def log_wids_def
      flip: occurrences_pos)

lemma view_op_other: "w \<notin> so_wid ` set ops \<Longrightarrow> fmlookup (foldl view_op v ops) w = fmlookup v w"
  by (induction ops arbitrary: v) (auto simp: view_op_def)

lemma through_beyond: "through s rs @ beyond s rs = rs"
  by (simp add: through_def beyond_def)

text \<open>An acknowledgement keeps the invariant: what it changes, it marks.\<close>

lemma view_ok_acked:
  assumes "view_ok c" "sorted (map sf_snapshot_id (cn_unacked_records c))"
  shows "view_ok (acked c s)"
proof -
  let ?rs = "cn_unacked_records c"
  have log: "conn_log_ok (acked c s)"
    using conjunct2 [OF drop_loop_spec [OF assms(1) [unfolded view_ok_def conn_log_ok_def,
          THEN conjunct1] drop_loop_eq, of s]]
    by (simp add: conn_log_ok_def acked_def Let_def)
  have "\<forall>r\<in>set (beyond s rs). s < sf_snapshot_id r" if "sorted (map sf_snapshot_id rs)" for rs
    using that by (induction rs) (auto simp: beyond_def not_le intro: less_le_trans)
  from this [OF assms(2)] have base: "\<forall>r\<in>set (cn_unacked_records (acked c s)).
      cn_acked_baseline (acked c s) < sf_snapshot_id r"
    by (simp add: acked_def Let_def)
  have wids: "log_wids c = so_wid ` set (ops_of (through s ?rs)) \<union> so_wid ` set (ops_of (beyond s ?rs))"
    unfolding log_wids_def by (subst through_beyond [of s ?rs, symmetric]) (simp only: ops_of_simps set_append image_Un)
  have "agree (acked c s)" if "agree c"
    using that wids by (auto simp: agree_def acked_def Let_def log_wids_def view_op_other)
  with log base assms(1) show ?thesis
    by (auto simp: view_ok_def) (simp add: acked_def Let_def)
qed

section \<open>Convergence\<close>

lemma lookup_restore_acked:
  "fmlookup (foldl (restore_acked a) v ws) w = (if w \<in> set ws then fmlookup a w else fmlookup v w)"
  by (induction ws arbitrary: v) (auto simp: restore_acked_def split: option.splits)

text \<open>The reference: the acknowledged view, overwritten by this frame's operations.\<close>

definition reference_view :: "EntityView \<Rightarrow> FrameBuild \<Rightarrow> EntityView" where
  "reference_view a fb = fmdrop_fset (fmdom (fb_frame_leaves fb)) (fmadd a (fb_frame_ops fb))"

lemma converge_view_reference:
  assumes "conn_log_ok (fb_connection fb)" "agree (fb_connection fb)"
  shows "converge_view fb = reference_view (cn_acked_view (fb_connection fb)) fb"
proof (rule fmap_ext)
  fix w
  let ?c = "fb_connection fb"
  have "w |\<in>| fmdom (cn_unacked_wid_counts ?c) \<longleftrightarrow> w \<in> log_wids ?c"
    using counts_of_log [OF assms(1), of w] by (simp add: fm_has_iff_dom)
  then show "fmlookup (converge_view fb) w = fmlookup (reference_view (cn_acked_view ?c) fb) w"
    using assms(2) counts_of_log [OF assms(1), of w]
    by (auto simp: converge_view_def reference_view_def Let_def lookup_restore_acked fm_has_def
        fmlookup_dom_iff agree_def)
qed

section \<open>Recording\<close>

lemma finish_frame_views [frame_simps]:
  "cn_current_view (finish_frame e c ops) = cn_current_view c"
  "cn_acked_view (finish_frame e c ops) = cn_acked_view c"
  by (auto simp: finish_frame_def evict_unacked_def record_sent_def advance_stream_sequence_def
      set_needs_keyframe_def Let_def split: prod.splits)

lemma view_ok_finish:
  assumes log: "conn_log_ok c" "length (ops_of (cn_unacked_records c)) + length ops \<le> 2 ^ 32"
    and base: "\<forall>r\<in>set (cn_unacked_records c). cn_acked_baseline c < sf_snapshot_id r"
      "cn_acked_baseline c < fc_latest_snapshot_id e"
    and views: "\<And>w. w \<notin> log_wids c \<Longrightarrow> w \<notin> so_wid ` set ops \<Longrightarrow> w \<notin> set (cn_acked_dirty c) \<Longrightarrow>
      fmlookup (cn_current_view c) w = fmlookup (cn_acked_view c) w"
  shows "view_ok (finish_frame e c ops)"
proof -
  define c1 where "c1 = advance_stream_sequence (record_sent c (fc_latest_snapshot_id e) ops)"
  have c1: "cn_unacked_records c1 = cn_unacked_records (record_sent c (fc_latest_snapshot_id e) ops)"
    "cn_acked_baseline c1 = cn_acked_baseline c" "cn_current_view c1 = cn_current_view c"
    "cn_acked_view c1 = cn_acked_view c" "cn_acked_dirty c1 = cn_acked_dirty c"
    by (simp_all add: c1_def advance_stream_sequence_def record_sent_def Let_def)
  have recs: "cn_unacked_records c1 = cn_unacked_records c @
      [\<lparr>sf_snapshot_id = fc_latest_snapshot_id e, sf_ops = ops,
        sf_bytes = of_nat (length ops * sizeof_SentOp)\<rparr>]"
    by (simp add: c1 record_sent_def Let_def)
  have ok: "log_ok (cn_unacked_records c1) (cn_unacked_bytes c1) (cn_unacked_wid_counts c1)"
    using conn_log_ok_record [OF log, of "fc_latest_snapshot_id e"]
    by (simp add: c1_def conn_log_ok_def advance_stream_sequence_def)
  obtain ev rs bytes counts where e: "evict_loop (unat (pc_max_unacked_frames (fc_config e)))
      (pc_max_unacked_bytes (fc_config e)) (cn_acked_baseline c1) False (cn_unacked_records c1)
      (cn_unacked_bytes c1) (cn_unacked_wid_counts c1) = (ev, rs, bytes, counts)"
    by (metis surj_pair)
  from evict_loop_spec [OF ok e] obtain gone where gone: "cn_unacked_records c1 = gone @ rs"
    "log_ok rs bytes counts" "ev \<longleftrightarrow> (\<exists>r\<in>set gone. sf_snapshot_id r > cn_acked_baseline c1)"
    by auto
  define c2 where "c2 = c1\<lparr>cn_unacked_records := rs, cn_unacked_bytes := bytes,
      cn_unacked_wid_counts := counts\<rparr>"
  have fin: "finish_frame e c ops = (if ev then set_needs_keyframe c2 True else c2)"
    using e by (simp add: finish_frame_def c1_def [symmetric] evict_unacked_def c2_def)
  have all: "\<forall>r\<in>set (cn_unacked_records c1). cn_acked_baseline c1 < sf_snapshot_id r"
    using base by (simp add: recs c1)
  have "agree c2" if "\<not> ev"
  proof -
    have "gone = []" using that gone(1,3) all by (cases gone) auto
    then have "log_wids c2 = log_wids c \<union> so_wid ` set ops"
      using gone(1) recs by (auto simp: log_wids_def c2_def)
    with views show ?thesis by (simp add: agree_def c2_def c1)
  qed
  then show ?thesis
    using gone(1,2) all
    by (auto simp: fin view_ok_def set_needs_keyframe_def conn_log_ok_def c2_def agree_def log_wids_def)
qed

section \<open>The client\<close>

text \<open>A replica: feature id and entity hash of every object it holds.\<close>

record ReplicaEntry =
  re_fid :: FeatureId
  re_entity_hash :: u64

type_synonym ReplicaAccumulator = "(WorldId, ReplicaEntry) fmap"

definition entry_of :: "TrackedEntity \<Rightarrow> ReplicaEntry" where
  "entry_of t = \<lparr>re_fid = te_fid t, re_entity_hash = te_entity_hash t\<rparr>"

definition replica_of :: "EntityView \<Rightarrow> ReplicaAccumulator" where
  "replica_of v = fmmap entry_of v"

definition enter_entry :: "EntityEnter \<Rightarrow> WorldId \<times> ReplicaEntry" where
  "enter_entry x = (ee_wid x, \<lparr>re_fid = ee_fid x, re_entity_hash = projected_entity_hash (ee_entity x)\<rparr>)"

definition update_entry :: "EntityUpdate \<Rightarrow> WorldId \<times> ReplicaEntry" where
  "update_entry x = (eu_wid x, \<lparr>re_fid = eu_fid x, re_entity_hash = projected_entity_hash (eu_entity x)\<rparr>)"

definition put_entries :: "ReplicaAccumulator \<Rightarrow> (WorldId \<times> ReplicaEntry) list \<Rightarrow> ReplicaAccumulator" where
  "put_entries m es = foldl (\<lambda>m (w, v). fmupd w v m) m es"

fun client_apply :: "ReplicaAccumulator \<Rightarrow> StateFrame \<Rightarrow> ReplicaAccumulator" where
  "client_apply m (SF_keyframe kf) = put_entries fmempty (map enter_entry (kf_entities kf))"
| "client_apply m (SF_delta d) =
     put_entries (put_entries (foldl (\<lambda>m x. fmdrop (el_wid x) m) m (df_leaves d))
       (map enter_entry (df_enters d))) (map update_entry (df_updates d))"

lemma put_entries_append: "put_entries (put_entries m es) fs = put_entries m (es @ fs)"
  by (simp add: put_entries_def)

text \<open>If the entries are the graph of a map, putting them overwrites by that map.\<close>

definition graph_of :: "ReplicaAccumulator \<Rightarrow> (WorldId \<times> ReplicaEntry) list \<Rightarrow> bool" where
  "graph_of f es \<longleftrightarrow> (\<forall>w v. fmlookup f w = Some v \<longleftrightarrow> (w, v) \<in> set es)"

lemma graph_of_empty [simp]: "graph_of fmempty []"
  by (simp add: graph_of_def)

lemma graph_of_cong: "set es = set fs \<Longrightarrow> graph_of f es \<longleftrightarrow> graph_of f fs"
  by (simp add: graph_of_def)

lemma graph_of_put:
  assumes "graph_of f es" "fmlookup f x = None" "set fs = insert (x, u) (set es)"
  shows "graph_of (fmupd x u f) fs"
  using assms unfolding graph_of_def
  by (metis (no_types, lifting) fmupd_lookup insert_iff option.distinct(1) option.inject prod.inject)

lemma lookup_put_entries:
  assumes "graph_of f es"
  shows "put_entries m es = fmadd m f"
proof (rule fmap_ext)
  fix w
  have "fmlookup (put_entries m es) w = (if w \<in> fst ` set es then fmlookup f w else fmlookup m w)"
    if "\<forall>w v. (w, v) \<in> set es \<longrightarrow> fmlookup f w = Some v" for es
    using that
  proof (induction es arbitrary: m)
    case (Cons x es)
    obtain v u where x: "x = (v, u)" by (cases x)
    then have "fmlookup f v = Some u" using Cons.prems by (meson list.set_intros(1))
    with Cons x show ?case by (auto simp: put_entries_def)
  qed (simp add: put_entries_def)
  from this [of es] show "fmlookup (put_entries m es) w = fmlookup (fmadd m f) w"
    using assms by (force simp: graph_of_def fmlookup_dom_iff image_iff)
qed

lemma lookup_drops: "fmlookup (foldl (\<lambda>m x. fmdrop (el_wid x) m) m ls) w =
    (if w \<in> el_wid ` set ls then None else fmlookup m w)"
  by (induction ls arbitrary: m) auto

lemma entity_hash_fid [simp]: "projected_entity_hash (p\<lparr>pe_fid := f\<rparr>) = projected_entity_hash p"
  by (simp add: projected_entity_hash_def)

section \<open>The scans\<close>

lemma foldl_distinct:
  assumes "distinct xs" "P {} s"
    and "\<And>s x D. x \<in> set xs \<Longrightarrow> D \<subseteq> set xs \<Longrightarrow> x \<notin> D \<Longrightarrow> P D s \<Longrightarrow> P (insert x D) (f s x)"
  shows "P (set xs) (foldl f s xs)"
proof -
  have "P (D \<union> set ys) (foldl f s ys)"
    if "distinct ys" "set ys \<subseteq> set xs" "D \<subseteq> set xs" "D \<inter> set ys = {}" "P D s" for D ys s
    using that
  proof (induction ys arbitrary: D s)
    case (Cons y ys)
    then have "P (insert y D) (f s y)" using assms(3) by auto
    with Cons.IH [of "insert y D"] Cons.prems show ?case by auto
  qed simp
  from this [of xs "{}" s] assms(1,2) show ?thesis by simp
qed

definition global_ok :: "GlobalView \<Rightarrow> bool" where
  "global_ok g \<longleftrightarrow> (\<forall>w st. fmlookup g w = Some st \<longrightarrow> es_hash st = projected_entity_hash (es_projected st))"

definition frame_entries :: "FrameBuild \<Rightarrow> (WorldId \<times> ReplicaEntry) list" where
  "frame_entries fb = map enter_entry (fb_enters fb) @ map update_entry (fb_updates fb)"

text \<open>
  What holds after the objects of \<open>D\<close> were processed for the connection \<open>c\<close> that sees \<open>V\<close>: the
  entries of the frame are the graph of the operations on the view, and every operation is recorded
  once.
\<close>

definition scan_ok :: "ConnectionProjection \<Rightarrow> WorldId set \<Rightarrow> WorldId set \<Rightarrow> FrameBuild \<Rightarrow> bool" where
  "scan_ok c V D fb \<longleftrightarrow>
     fid_update c (fb_connection fb) \<and>
     graph_of (replica_of (fb_frame_ops fb)) (frame_entries fb) \<and>
     fset (fmdom (fb_frame_leaves fb)) = el_wid ` set (fb_leaves fb) \<and>
     fset (fmdom (fb_frame_ops fb)) \<subseteq> V \<inter> D \<and>
     fset (fmdom (fb_frame_leaves fb)) \<subseteq> fset (fmdom (cn_acked_view c)) \<inter> D - V \<and>
     so_wid ` set (fb_ops fb) = fset (fmdom (fb_frame_ops fb)) \<union> fset (fmdom (fb_frame_leaves fb)) \<and>
     distinct (map so_wid (fb_ops fb)) \<and> distinct (map eu_wid (fb_updates fb)) \<and>
     eu_wid ` set (fb_updates fb) \<subseteq> fset (fmdom (fb_frame_ops fb))"

lemma replica_of_simps [simp]:
  "replica_of fmempty = fmempty"
  "replica_of (fmupd w t v) = fmupd w (entry_of t) (replica_of v)"
  by (rule fmap_ext; simp add: replica_of_def)+

lemma fmdom_replica_of [simp]: "fmdom (replica_of v) = fmdom v"
  by (simp add: replica_of_def)

lemma lookup_replica_of:
  "fmlookup (replica_of v) w = map_option entry_of (fmlookup v w)"
  by (simp add: replica_of_def)

lemma scan_ok_start: "scan_ok c V {} (frame_build c)"
  by (simp add: scan_ok_def frame_build_def replica_of_def frame_entries_def)

lemma scan_ok_skip: "scan_ok c V D fb \<Longrightarrow> scan_ok c V (insert x D) fb"
  by (auto simp: scan_ok_def)

lemma scan_ok_mono: "scan_ok c V D fb \<Longrightarrow> D \<subseteq> E \<Longrightarrow> scan_ok c V E fb"
  unfolding scan_ok_def by blast

text \<open>Recording an enter or an update of a visible object.\<close>

lemma scan_ok_put:
  assumes "scan_ok c V D fb" "x \<notin> D" "x \<in> V"
    and conn: "fid_update (fb_connection fb) (fb_connection fb')"
    and ops: "fb_frame_ops fb' = fmupd x t (fb_frame_ops fb)" "fb_ops fb' = fb_ops fb @ [op]" "so_wid op = x"
    and frame: "set (frame_entries fb') = insert (x, entry_of t) (set (frame_entries fb))"
      "fb_updates fb' = fb_updates fb @ us" "map eu_wid us = [] \<or> map eu_wid us = [x]"
    and rest: "fb_leaves fb' = fb_leaves fb" "fb_frame_leaves fb' = fb_frame_leaves fb"
  shows "scan_ok c V (insert x D) fb'"
proof -
  note ok = assms(1) [unfolded scan_ok_def]
  have new: "x |\<notin>| fmdom (fb_frame_ops fb)" "x \<notin> fset (fmdom (fb_frame_leaves fb))"
    using ok assms(2) by auto
  have graph: "graph_of (fmupd x (entry_of t) (replica_of (fb_frame_ops fb)))
      (frame_entries fb')"
    using graph_of_put [OF _ _ frame(1)] ok new(1)
    by (simp add: lookup_replica_of fmdom_notD)
  have us: "distinct (map eu_wid (fb_updates fb'))"
    "eu_wid ` set (fb_updates fb') \<subseteq> fset (fmdom (fb_frame_ops fb'))"
    using ok new frame(2,3) by (auto simp: ops(1))
  show ?thesis
    using ok new us assms(3) fid_update_trans [OF _ conn]
    by (auto simp: scan_ok_def graph ops rest)
qed

lemma scan_ok_enter:
  assumes "scan_ok c V D fb" "x \<notin> D" "x \<in> V" "es_hash st = projected_entity_hash (es_projected st)"
  shows "scan_ok c V (insert x D) (push_enter tick fb x st)"
proof -
  obtain fid c' where e: "ensure_fid (fb_connection fb) x = (fid, c')" by fastforce
  show ?thesis
    using ensure_fid_update [of "fb_connection fb" x] e assms(4)
    by (intro scan_ok_put [OF assms(1-3), where us = "[]"])
      (auto simp: push_enter_def Let_def frame_entries_def enter_entry_def entry_of_def)
qed

lemma scan_ok_leave:
  assumes "scan_ok c V D fb" "x \<notin> D" "x \<notin> V" "fmlookup (cn_acked_view c) x = Some t"
  shows "scan_ok c V (insert x D) (push_leave e w bounds fb x t)"
proof -
  note ok = assms(1) [unfolded scan_ok_def]
  have "x \<notin> fset (fmdom (fb_frame_ops fb))" "x \<notin> fset (fmdom (fb_frame_leaves fb))"
    using ok assms(2) by auto
  with ok assms(3,4) show ?thesis
    by (auto simp: scan_ok_def push_leave_def Let_def frame_entries_def leave_op_def
        intro: fmdomI)
qed

lemma scan_ok_throttled [simp]: "scan_ok c V D (fb\<lparr>fb_throttle_pending := ws\<rparr>) = scan_ok c V D fb"
  by (simp add: scan_ok_def frame_entries_def)

lemma scan_ok_update:
  assumes "scan_ok c V D fb" "x \<notin> D" "x \<in> V"
  shows "scan_ok c V (insert x D) (fb\<lparr>
      fb_updates := fb_updates fb @ [\<lparr>eu_wid = x, eu_fid = te_fid t, eu_entity = p\<lparr>pe_fid := f\<rparr>\<rparr>],
      fb_frame_ops := fmupd x (t\<lparr>te_entity_hash := projected_entity_hash p, te_frequency := g,
        te_last_sent_tick := tick\<rparr>) (fb_frame_ops fb),
      fb_ops := fb_ops fb @ [\<lparr>so_kind = SO_update, so_wid = x, so_fid = i, so_entity_hash = h\<rparr>]\<rparr>)"
  by (rule scan_ok_put [OF assms, where
        us = "[\<lparr>eu_wid = x, eu_fid = te_fid t, eu_entity = p\<lparr>pe_fid := f\<rparr>\<rparr>]"
        and op = "\<lparr>so_kind = SO_update, so_wid = x, so_fid = i, so_entity_hash = h\<rparr>"
        and t = "t\<lparr>te_entity_hash := projected_entity_hash p, te_frequency := g, te_last_sent_tick := tick\<rparr>"])
    (simp_all add: frame_entries_def update_entry_def entry_of_def)

lemma scan_ok_visible:
  assumes "scan_ok c V D fb" "x \<notin> D" "x \<in> V" "global_ok (fc_global_view e)"
  shows "scan_ok c V (insert x D) (process_visible_wid e tick fb x)"
proof (cases "fmlookup (fc_global_view e) x")
  case (Some st)
  then have hash: "es_hash st = projected_entity_hash (es_projected st)"
    using assms(4) by (simp add: global_ok_def)
  show ?thesis
    using scan_ok_enter [OF assms(1-3) hash] scan_ok_skip [OF assms(1)] scan_ok_update [OF assms(1-3)]
    by (simp add: process_visible_wid_def Some Let_def hash split: option.split)
qed (use scan_ok_skip [OF assms(1)] in \<open>simp add: process_visible_wid_def\<close>)

text \<open>The three scans.\<close>

lemma scan_ok_acked:
  "scan_ok c V D fb \<Longrightarrow> cn_acked_view (fb_connection fb) = cn_acked_view c"
  by (simp add: scan_ok_def fid_update_frame)

lemma scan_ok_visibles:
  assumes "global_ok (fc_global_view e)" "distinct visible"
  shows "scan_ok c (set visible) (set visible)
    (foldl (process_visible_wid e tick) (frame_build c) visible)"
  by (rule foldl_distinct [where P = "scan_ok c (set visible)", OF assms(2) scan_ok_start])
    (blast intro: scan_ok_visible assms(1))

lemma fb_connection_start [simp]: "fb_connection (frame_build c) = c"
  by (simp add: frame_build_def)

lemma scan_ok_full:
  assumes "global_ok (fc_global_view e)" "distinct visible"
  shows "\<exists>D. scan_ok c (set visible) D (full_scan e w bounds visible tick (frame_build c))"
proof -
  let ?fb = "foldl (process_visible_wid e tick) (frame_build c) visible"
  let ?xs = "filter (\<lambda>(x, t). x \<notin> set visible) (fm_items (cn_acked_view c))"
  note start = scan_ok_visibles [OF assms, of c tick]
  have xs: "distinct (map fst ?xs)" "\<And>x t. (x, t) \<in> set ?xs \<Longrightarrow>
      x \<notin> set visible \<and> fmlookup (cn_acked_view c) x = Some t"
    by (auto simp: set_fm_items intro: distinct_map_filter)
  have "scan_ok c (set visible) (set visible \<union> fst ` set ?xs)
      (foldl (\<lambda>fb (x, t). push_leave e w bounds fb x t) ?fb ?xs)"
  proof (rule foldl_distinct [where P = "\<lambda>D. scan_ok c (set visible) (set visible \<union> fst ` D)"])
    show "distinct ?xs" using xs(1) by (simp add: distinct_map)
    fix fb y D
    assume y: "y \<in> set ?xs" "D \<subseteq> set ?xs" "y \<notin> D"
      "scan_ok c (set visible) (set visible \<union> fst ` D) fb"
    obtain x t where x: "y = (x, t)" by fastforce
    have "u = t" if "(x, u) \<in> D" for u
      using xs(2) [OF subsetD [OF y(2) that]] xs(2) [OF y(1) [unfolded x]] by simp
    then have "x \<notin> fst ` D" using y(3) x by auto
    with scan_ok_leave [OF y(4), of x t] xs(2) [OF y(1) [unfolded x]]
    show "scan_ok c (set visible) (set visible \<union> fst ` insert y D)
        ((\<lambda>fb (x, t). push_leave e w bounds fb x t) fb y)"
      by (simp add: x)
  qed (use start in simp)
  then show ?thesis
    unfolding full_scan_def fb_connection_start by blast
qed

lemma scan_ok_candidates:
  assumes "global_ok (fc_global_view e)" "distinct candidates"
  shows "scan_ok c (set visible) (set candidates)
    (foldl (process_candidate e w bounds visible tick) (frame_build c) candidates)"
proof (rule foldl_distinct [where P = "scan_ok c (set visible)", OF assms(2) scan_ok_start])
  fix fb x D
  assume "x \<notin> D" "scan_ok c (set visible) D fb"
  with scan_ok_visible [OF this(2,1) _ assms(1)] scan_ok_leave [OF this(2,1)] scan_ok_skip [OF this(2)]
  show "scan_ok c (set visible) (insert x D) (process_candidate e w bounds visible tick fb x)"
    by (auto simp: process_candidate_def scan_ok_acked split: option.split)
qed

lemma scan_ok_keyframe:
  assumes "global_ok (fc_global_view e)" "distinct visible"
    "set visible \<subseteq> fset (fmdom (fc_global_view e))"
  shows "scan_ok c (set visible) (set visible) (foldl (keyframe_entity e tick) (frame_build c) visible) \<and>
    fset (fmdom (fb_frame_ops (foldl (keyframe_entity e tick) (frame_build c) visible))) = set visible \<and>
    fb_updates (foldl (keyframe_entity e tick) (frame_build c) visible) = [] \<and>
    fb_frame_leaves (foldl (keyframe_entity e tick) (frame_build c) visible) = fmempty"
proof (rule foldl_distinct [where P = "\<lambda>D fb. scan_ok c (set visible) D fb \<and>
    fset (fmdom (fb_frame_ops fb)) = D \<and> fb_updates fb = [] \<and> fb_frame_leaves fb = fmempty", OF assms(2)])
  fix fb x D
  assume x: "x \<in> set visible" "x \<notin> D" and fb: "scan_ok c (set visible) D fb \<and>
    fset (fmdom (fb_frame_ops fb)) = D \<and> fb_updates fb = [] \<and> fb_frame_leaves fb = fmempty"
  from x(1) assms(3) obtain st where st: "fmlookup (fc_global_view e) x = Some st"
    by (auto elim: fmdomE)
  with assms(1) have "es_hash st = projected_entity_hash (es_projected st)"
    by (simp add: global_ok_def)
  with scan_ok_enter [OF conjunct1 [OF fb] x(2,1) this, of tick] fb st
  show "scan_ok c (set visible) (insert x D) (keyframe_entity e tick fb x) \<and>
    fset (fmdom (fb_frame_ops (keyframe_entity e tick fb x))) = insert x D \<and>
    fb_updates (keyframe_entity e tick fb x) = [] \<and> fb_frame_leaves (keyframe_entity e tick fb x) = fmempty"
    by (simp add: keyframe_entity_def) (simp add: push_enter_def Let_def split: prod.split)
qed (use scan_ok_start [of c] in \<open>simp add: frame_build_def\<close>)

text \<open>The frame has at most one operation for every object seen or acknowledged.\<close>

lemma scan_ok_length:
  assumes "scan_ok c V D fb" "finite V"
  shows "length (fb_ops fb) \<le> card (V \<union> fset (fmdom (cn_acked_view c)))"
    and "length (fb_updates fb) \<le> card V"
proof -
  note ok = assms(1) [unfolded scan_ok_def]
  have "length (fb_ops fb) = card (so_wid ` set (fb_ops fb))"
    using ok by (metis distinct_card length_map set_map)
  also have "\<dots> \<le> card (V \<union> fset (fmdom (cn_acked_view c)))"
    using ok assms(2) by (intro card_mono) auto
  finally show "length (fb_ops fb) \<le> card (V \<union> fset (fmdom (cn_acked_view c)))" .
  have "length (fb_updates fb) = card (eu_wid ` set (fb_updates fb))"
    using ok by (metis distinct_card length_map set_map)
  also have "\<dots> \<le> card V" using ok assms(2) by (intro card_mono) auto
  finally show "length (fb_updates fb) \<le> card V" .
qed

section \<open>The theorem\<close>

lemma view_ok_cong:
  assumes "view_ok c" "fid_update c c'"
  shows "view_ok c'"
  using assms(1)
  by (simp add: view_ok_def conn_log_ok_def agree_def log_wids_def fid_update_frame [OF assms(2)])

lemma lookup_reference_view:
  "fmlookup (reference_view a fb) w =
     (if w |\<in>| fmdom (fb_frame_leaves fb) then None
      else if w |\<in>| fmdom (fb_frame_ops fb) then fmlookup (fb_frame_ops fb) w else fmlookup a w)"
  by (simp add: reference_view_def)

text \<open>The client of a delta: leaves, then enters and updates in the order of the frame.\<close>

lemma client_apply_delta:
  assumes "scan_ok c V D fb"
    and "set (df_leaves d) = set (fb_leaves fb)" "set (df_enters d) = set (fb_enters fb)"
      "set (df_updates d) = set (fb_updates fb)"
  shows "client_apply (replica_of a) (SF_delta d) = replica_of (reference_view a fb)"
proof -
  note ok = assms(1) [unfolded scan_ok_def]
  have "graph_of (replica_of (fb_frame_ops fb))
      (map enter_entry (df_enters d) @ map update_entry (df_updates d))"
    using ok by (subst graph_of_cong [where fs = "frame_entries fb"])
      (simp_all add: frame_entries_def assms)
  then have "client_apply (replica_of a) (SF_delta d) =
      fmadd (foldl (\<lambda>m x. fmdrop (el_wid x) m) (replica_of a) (df_leaves d)) (replica_of (fb_frame_ops fb))"
    by (simp add: put_entries_append lookup_put_entries)
  moreover have "w |\<notin>| fmdom (fb_frame_ops fb)" if "w |\<in>| fmdom (fb_frame_leaves fb)" for w
    using ok that by auto
  moreover have "el_wid ` set (df_leaves d) = fset (fmdom (fb_frame_leaves fb))"
    using ok assms(2) by simp
  ultimately show ?thesis
    by (intro fmap_ext) (auto simp: lookup_reference_view lookup_drops lookup_replica_of)
qed

text \<open>What a frame does for the views of \<open>c\<close>.\<close>

definition converges :: "ConnectionProjection \<Rightarrow> ConnectionProjection \<Rightarrow> StateFrame \<Rightarrow> bool" where
  "converges c c' frame \<longleftrightarrow> view_ok c' \<and>
     (\<forall>m. (case frame of SF_keyframe _ \<Rightarrow> True | SF_delta _ \<Rightarrow> m = replica_of (cn_acked_view c)) \<longrightarrow>
        client_apply m frame = replica_of (cn_current_view c'))"

definition log_room :: "ConnectionProjection \<Rightarrow> WorldId set \<Rightarrow> bool" where
  "log_room c V \<longleftrightarrow>
     length (ops_of (cn_unacked_records c)) + card (V \<union> fset (fmdom (cn_acked_view c))) \<le> 2 ^ 32"

lemma build_delta_converges:
  assumes c: "view_ok c" "\<not> cn_needs_keyframe c" "log_room c (set visible)"
    "cn_acked_baseline c < fc_latest_snapshot_id e"
    and e: "global_ok (fc_global_view e)" "distinct visible"
      "length visible \<le> unat (pc_max_updates_per_frame (fc_config e))"
    and built: "build_delta e c visible hit bounds pending w tick = (d, c', throttle)"
  shows "case d of None \<Rightarrow> view_ok c' | Some d \<Rightarrow> converges c c' (SF_delta d)"
proof -
  define fb where "fb = (if hit
      then foldl (process_candidate e w bounds visible tick) (frame_build c)
             (frame_candidates e c pending visible)
      else full_scan e w bounds visible tick (frame_build c))"
  have "distinct (frame_candidates e c pending visible)"
    by (simp add: frame_candidates_def sorted_list_of_fset.rep_eq)
  then obtain D where ok: "scan_ok c (set visible) D fb"
    using scan_ok_full [OF e(1,2)] scan_ok_candidates [OF e(1)] unfolding fb_def by metis
  note len = scan_ok_length [OF ok]
  have upd: "fid_update c (fb_connection fb)" using ok by (simp add: scan_ok_def)
  note same = fid_update_frame [OF upd]
  have conn: "conn_log_ok (fb_connection fb)" "agree (fb_connection fb)"
    using c(1,2) view_ok_cong [OF _ upd] same by (auto simp: view_ok_def)
  have "limit_updates (fc_config e) fb = fb"
    using len(2) e(3) card_length [of visible] by (simp add: limit_updates_def)
  note eqs = this converge_view_reference [OF conn] same
  define c1 where "c1 = (clear_acked_dirty (fb_connection fb))\<lparr>cn_current_view := converge_view fb\<rparr>"
  have c1: "cn_current_view c1 = reference_view (cn_acked_view c) fb" "cn_acked_view c1 = cn_acked_view c"
    "cn_unacked_records c1 = cn_unacked_records c" "cn_acked_baseline c1 = cn_acked_baseline c"
    "conn_log_ok c1"
    using conn(1) by (simp_all add: c1_def clear_acked_dirty_def eqs conn_log_ok_def)
  have views: "fmlookup (cn_current_view c1) x = fmlookup (cn_acked_view c1) x"
    if "x \<notin> so_wid ` set (fb_ops fb)" for x
    using ok that by (simp add: scan_ok_def c1 lookup_reference_view)
  have room: "length (ops_of (cn_unacked_records c1)) + length (fb_ops fb) \<le> 2 ^ 32"
    using c(3) len(1) by (simp add: log_room_def c1)
  have base: "\<forall>r\<in>set (cn_unacked_records c1). cn_acked_baseline c1 < sf_snapshot_id r"
    "cn_acked_baseline c1 < fc_latest_snapshot_id e"
    using c(1,4) by (simp_all add: view_ok_def c1)
  have fin: "view_ok (finish_frame e c1 (fb_ops fb))"
    using c1(5) room base by (rule view_ok_finish) (rule views)
  show ?thesis
  proof (cases "fb_enters fb = [] \<and> fb_updates fb = [] \<and> fb_leaves fb = []")
    case True
    then show ?thesis using built view_ok_cong [OF c(1) upd]
      by (simp add: build_delta_def fb_def [symmetric])
  next
    case False
    then obtain d' where d: "d = Some d'" "set (df_leaves d') = set (fb_leaves fb)"
      "set (df_enters d') = set (fb_enters fb)" "set (df_updates d') = set (fb_updates fb)"
      and c': "c' = finish_frame e c1 (fb_ops fb)"
      using built by (auto simp: build_delta_def fb_def [symmetric] Let_def eqs(1) c1_def split: if_splits)
    from client_apply_delta [OF ok d(2-4)] show ?thesis
      by (simp add: d(1) converges_def c' fin frame_simps c1)
  qed
qed

lemma build_keyframe_converges:
  assumes c: "conn_log_ok c" "log_room c (set visible)" "cn_acked_baseline c < fc_latest_snapshot_id e"
      "\<forall>r\<in>set (cn_unacked_records c). cn_acked_baseline c < sf_snapshot_id r"
    and e: "global_ok (fc_global_view e)" "distinct visible"
      "set visible \<subseteq> fset (fmdom (fc_global_view e))"
    and built: "build_keyframe e c visible forced tick = Some (kf, c')"
  shows "converges c0 c' (SF_keyframe kf)"
proof -
  define fb where "fb = foldl (keyframe_entity e tick) (frame_build c) visible"
  define leaves where "leaves = map (\<lambda>(wid, tracked). leave_op wid (te_fid tracked))
      (filter (\<lambda>(wid, tracked). wid \<notin> set visible) (fm_items (cn_acked_view c)))"
  define ops where "ops = stable_sort (lt_key so_wid) (fb_ops fb @ leaves)"
  note scan = scan_ok_keyframe [OF e, of c tick, folded fb_def]
  have ok: "scan_ok c (set visible) (set visible) fb" and dom: "fset (fmdom (fb_frame_ops fb)) = set visible"
    and rest: "fb_updates fb = []" "fb_frame_leaves fb = fmempty" using scan by auto
  have upd: "fid_update c (fb_connection fb)" using ok by (simp add: scan_ok_def)
  obtain c1 where c': "c' = finish_frame e c1 ops"
    and same: "cn_current_view c1 = fb_frame_ops fb" "cn_acked_view c1 = cn_acked_view c"
      "cn_unacked_records c1 = cn_unacked_records c" "cn_acked_baseline c1 = cn_acked_baseline c"
      "cn_unacked_bytes c1 = cn_unacked_bytes c" "cn_unacked_wid_counts c1 = cn_unacked_wid_counts c"
    and kf: "kf_entities kf = fb_enters fb"
    using built fid_update_frame [OF upd]
    by (auto simp: build_keyframe_def fb_def [symmetric] leaves_def [symmetric] ops_def [symmetric]
        Let_def clear_acked_dirty_def set_needs_keyframe_def set_last_keyframe_tick_def
        set_next_keyframe_tick_def set_policy_version_def split: option.splits)
  have wids: "so_wid ` set (fb_ops fb) = set visible"
    "so_wid ` set leaves = fset (fmdom (cn_acked_view c)) - set visible"
    using ok dom rest(2)
    by (auto simp: scan_ok_def leaves_def leave_op_def set_fm_items image_iff fmlookup_dom_iff)
  have "length leaves = length (filter (\<lambda>x. x \<notin> set visible) (fm_keys (cn_acked_view c)))"
    by (simp add: leaves_def fm_items_def filter_map comp_def)
  also have "\<dots> = card (fset (fmdom (cn_acked_view c)) - set visible)"
    by (subst distinct_card [symmetric]) (auto simp: set_diff_eq intro!: arg_cong [where f = card])
  finally have leaves: "length leaves = card (fset (fmdom (cn_acked_view c)) - set visible)" .
  have "length (fb_ops fb) = card (set visible)"
    using ok wids(1) unfolding scan_ok_def by (metis distinct_card length_map set_map)
  then have "length ops = card (set visible \<union> fset (fmdom (cn_acked_view c)))"
    using card_Un_disjoint [of "set visible" "fset (fmdom (cn_acked_view c)) - set visible"]
    by (simp add: ops_def leaves Un_Diff_cancel)
  then have room: "length (ops_of (cn_unacked_records c1)) + length ops \<le> 2 ^ 32"
    using c(2) by (simp add: log_room_def same)
  have views: "fmlookup (cn_current_view c1) x = fmlookup (cn_acked_view c1) x"
    if "x \<notin> so_wid ` set ops" for x
    using that wids dom by (auto simp: ops_def image_Un same fmdom_notD)
  have log: "conn_log_ok c1" using c(1) by (simp add: conn_log_ok_def same)
  have base: "\<forall>r\<in>set (cn_unacked_records c1). cn_acked_baseline c1 < sf_snapshot_id r"
    "cn_acked_baseline c1 < fc_latest_snapshot_id e"
    using c(3,4) by (simp_all add: same)
  have "view_ok c'"
    unfolding c' using log room base by (rule view_ok_finish) (rule views)
  moreover have "graph_of (replica_of (fb_frame_ops fb)) (map enter_entry (kf_entities kf))"
    using ok rest(1) by (simp add: scan_ok_def frame_entries_def kf)
  ultimately show ?thesis
    by (simp add: converges_def c' frame_simps same lookup_put_entries)
qed

text \<open>
  Frames converge. If the bookkeeping of a connection is in order before a frame is built, it is
  so after it, and a client that applies the frame holds exactly the server's new \<open>current_view\<close>: the
  keyframe from whatever it held, the delta from the acknowledged view. The visible objects must be
  objects of the global view and within the update quota, and the log must have room for one
  operation per object.
\<close>

lemma frame_converges:
  assumes "view_ok c" "global_ok (fc_global_view e)" "build_frame e c cache pending w tick = Some r"
    and "fst (resolve_visible e c cache (resolve_bounds e c) w) = visible" "distinct visible"
      "set visible \<subseteq> fset (fmdom (fc_global_view e))"
      "length visible \<le> unat (pc_max_updates_per_frame (fc_config e))"
    and "log_room c (set visible)" "cn_acked_baseline c < fc_latest_snapshot_id e"
  shows "case bf_frame r of None \<Rightarrow> view_ok (bf_connection r)
    | Some frame \<Rightarrow> converges c (bf_connection r) frame"
proof -
  obtain cache' hit where vis:
    "resolve_visible e c cache (resolve_bounds e c) w = (visible, cache', hit)"
    using assms(4) by (metis prod.collapse)
  let ?c0 = "reset_epoch c ER_fid_exhausted (fc_latest_snapshot_id e)"
  have "card (set visible) \<le> card (set visible \<union> fset (fmdom (cn_acked_view c)))"
    by (intro card_mono) auto
  then have c0: "log_room ?c0 (set visible)" "cn_acked_baseline ?c0 < fc_latest_snapshot_id e"
    using assms(8,9) by (auto simp: log_room_def reset_epoch_def intro: le_less_trans [rotated])
  have start: "conn_log_ok c1 \<and> log_room c1 (set visible) \<and> cn_acked_baseline c1 < fc_latest_snapshot_id e \<and>
      (\<forall>r\<in>set (cn_unacked_records c1). cn_acked_baseline c1 < sf_snapshot_id r)"
    if "c1 = c \<or> c1 = ?c0" for c1
    using that assms(1,8,9) c0 view_ok_reset [of c ER_fid_exhausted "fc_latest_snapshot_id e"]
    by (auto simp: view_ok_def)
  obtain due where due: "keyframe_due (fc_config e) c tick = Some due"
    using assms(3) vis by (cases "keyframe_due (fc_config e) c tick") (auto simp: build_frame_def)
  define exhausted where "exhausted \<longleftrightarrow> unat (pc_max_feature_ids_per_epoch (fc_config e))
      < fid_count c + (if hit then 0 else unmapped_count c visible)"
  define c1 where "c1 = (if exhausted then ?c0 else c)"
  have c1: "c1 = c \<or> c1 = ?c0" by (simp add: c1_def)
  note built = assms(3) [unfolded build_frame_def vis Let_def prod.case due option.case,
      folded exhausted_def, folded c1_def]
  show ?thesis
  proof (cases "(cn_needs_keyframe c \<or> cn_policy_version c \<noteq> fc_policy_version e) \<or> exhausted \<or> due")
    case True
    then obtain kf where "bf_frame r = Some (SF_keyframe kf)"
      "build_keyframe e c1 visible ((cn_needs_keyframe c \<or> cn_policy_version c \<noteq> fc_policy_version e)
         \<or> exhausted) tick = Some (kf, bf_connection r)"
      using built by (auto split: if_splits)
    with build_keyframe_converges [OF _ _ _ _ assms(2,5,6), of c1] start [OF c1] show ?thesis by simp
  next
    case False
    then have keep: "c1 = c" "\<not> cn_needs_keyframe c" by (auto simp: c1_def)
    obtain d c' throttle where delta:
      "build_delta e c visible hit (resolve_bounds e c) pending w tick = (d, c', throttle)"
      by (metis prod_cases3)
    from build_delta_converges [OF assms(1) keep(2) assms(8,9,2,5,7) delta]
    have "case d of None \<Rightarrow> view_ok c' | Some d \<Rightarrow> converges c c' (SF_delta d)" .
    moreover have "bf_frame r = map_option SF_delta d" "bf_connection r = c'"
      using built False by (auto simp: keep(1) delta)
    ultimately show ?thesis by (simp split: option.splits)
  qed
qed

text \<open>A connection without a keyframe pending, and the delta that enters its first object.\<close>

definition delta_connection :: ConnectionProjection where
  "delta_connection = (connection_projection (ConnectionId 1))\<lparr>
     cn_needs_keyframe := False, cn_next_keyframe_tick := 1000, cn_policy_version := 1\<rparr>"

lemma example_visible_delta:
  "resolve_visible example_context delta_connection example_cache
     (resolve_bounds example_context delta_connection) w = ([WorldId 7], example_cache, True)"
  by (simp add: resolve_visible_def resolve_bounds_def example_context_def example_cache_def
      visible_cache_def connection_projection_def delta_connection_def)

lemma example_delta_built:
  "\<exists>r d. build_frame example_context delta_connection example_cache {|WorldId 7|} empty_world 20 = Some r \<and>
     bf_frame r = Some (SF_delta d) \<and> map ee_wid (df_enters d) = [WorldId 7] \<and> df_updates d = [] \<and>
     map ee_entity (df_enters d) = [(policy_project projection_policy example_world_object)\<lparr>pe_fid := FeatureId 1\<rparr>]"
proof -
  have room: "\<not> unat (pc_max_feature_ids_per_epoch (fc_config example_context)) < fid_count delta_connection"
    by (simp add: fid_count_def connection_projection_def delta_connection_def)
  have due: "keyframe_due (fc_config example_context) delta_connection 20 = Some False"
    by (simp add: keyframe_due_def delta_connection_def)
  have keep: "\<not> cn_needs_keyframe delta_connection"
    "cn_policy_version delta_connection = fc_policy_version example_context"
    by (simp_all add: delta_connection_def example_context_def)
  have cand: "frame_candidates example_context delta_connection {|WorldId 7|} [WorldId 7] = [WorldId 7]"
    by (simp add: frame_candidates_def example_context_def delta_connection_def connection_projection_def
        sorted_list_of_fset.rep_eq)
  have st: "fmlookup (fc_global_view example_context) (WorldId 7) = Some (example_state example_hash)"
    by (simp add: example_context_def)
  have "process_candidate example_context empty_world None [WorldId 7] 20 (frame_build delta_connection)
      (WorldId 7) = push_enter 20 (frame_build delta_connection) (WorldId 7) (example_state example_hash)"
    by (simp add: process_candidate_def process_visible_wid_def st)
      (simp add: delta_connection_def connection_projection_def)
  moreover have "resolve_bounds example_context delta_connection = None"
    by (simp add: resolve_bounds_def delta_connection_def connection_projection_def)
  ultimately have "\<exists>d c t. build_delta example_context delta_connection [WorldId 7] True
      (resolve_bounds example_context delta_connection) {|WorldId 7|} empty_world 20 = (Some d, c, t) \<and>
      map ee_wid (df_enters d) = [WorldId 7] \<and> df_updates d = [] \<and>
      map ee_entity (df_enters d) = [(policy_project projection_policy example_world_object)\<lparr>pe_fid := FeatureId 1\<rparr>]"
    by (simp add: build_delta_def cand Let_def frame_simps)
      (simp add: push_enter_def Let_def frame_build_def example_state_def limit_updates_def ensure_fid_def
        allocate_fid_def delta_connection_def connection_projection_def fid_of_def)
  then show ?thesis
    by (auto simp: build_frame_def example_visible_delta Let_def due room keep)
qed

lemma delta_connection_ok:
  shows "log_room delta_connection {WorldId 7}" "view_ok delta_connection"
    "global_ok (fc_global_view example_context)"
    "cn_acked_baseline delta_connection < fc_latest_snapshot_id example_context"
    "{WorldId 7} \<subseteq> fset (fmdom (fc_global_view example_context))"
    "1 \<le> unat (pc_max_updates_per_frame (fc_config example_context))"
proof -
  show "view_ok delta_connection"
    using view_ok_new [of "ConnectionId 1"]
    by (simp add: view_ok_def delta_connection_def conn_log_ok_def agree_def log_wids_def)
      (simp add: connection_projection_def)
  show "global_ok (fc_global_view example_context)"
    by (simp add: global_ok_def example_context_def example_state_def example_hash_def)
qed (simp_all add: example_context_def example_config_def delta_connection_def connection_projection_def
      log_room_def)

end
