(* ===== verification/Projection_Canonical.thy ===== *)
theory Projection_Canonical
  imports Projection_Policy Debug
begin

text \<open>
  Properties of the projection policy and of the canonical hash of \<^verbatim>\<open>libs/projection\<close>: a projection
  exposes only what the policy allows, and the hash is FNV-1a over a byte string that determines the
  projected entity apart from its feature id.
\<close>

section \<open>The bytes under the canonical hash\<close>

lemma hw_bytes_append [simp]: "hw_bytes h (xs @ ys) = hw_bytes (hw_bytes h xs) ys"
  by (simp add: hw_bytes_def)

lemma hw_bytes_Cons: "hw_bytes h (b # xs @ ys) = hw_bytes (hw_bytes h [b]) (xs @ ys)"
  by (simp add: hw_bytes_def)

lemma hw_u8_eq: "hw_u8 h b = hw_bytes h [b]"
  by (simp add: hw_bytes_def)

lemma foldl_hw:
  "(\<And>h x. x \<in> set xs \<Longrightarrow> f h x = hw_bytes h (enc x)) \<Longrightarrow> foldl f h xs = hw_bytes h (concat (map enc xs))"
  by (induction xs arbitrary: h) (simp_all add: hw_bytes_def)

lemma foldl_hw_counted:
  assumes "\<And>h x. x \<in> set xs \<Longrightarrow> f h x = hw_bytes h (enc x)"
  shows "foldl f (hw_u64 h (of_nat (length xs))) xs = hw_bytes h (counted enc xs)"
  by (simp add: counted_def hw_u64_def foldl_hw [OF assms])

lemma hw_text_eq: "hw_text h t = hw_bytes h (string_bytes t)"
  by (simp add: hw_text_def hw_u64_def string_bytes_def counted_def concat_map_singleton)

fun canonical_payload :: "Value \<Rightarrow> bytes" where
  "canonical_payload (VInt64 n) = le_bytes 8 n"
| "canonical_payload (VDouble d) = le_bytes 8 (f64_bits d)"
| "canonical_payload (VBool b) = [if b then 1 else 0]"
| "canonical_payload (VString t) = string_bytes t"

definition canonical_value :: "Value \<Rightarrow> bytes" where
  "canonical_value v = ucast (value_index v) # canonical_payload v"

definition canonical_bag :: "PropertyBag \<Rightarrow> bytes" where
  "canonical_bag bag = counted (\<lambda>(name, v). string_bytes name @ canonical_value v) (fm_items bag)"

definition canonical_relation :: "Relation \<Rightarrow> bytes" where
  "canonical_relation r =
     string_bytes (rel_type r) @ le_bytes 8 (wid_value (rel_target r)) @ canonical_bag (rel_attributes r)"

definition canonical_bytes :: "ProjectedEntity \<Rightarrow> bytes" where
  "canonical_bytes e =
     le_bytes 8 (wid_value (pe_wid e)) @ le_bytes 8 (pe_version e) @
     le_bytes 8 (f64_bits (ecef_x (pe_position e))) @ le_bytes 8 (f64_bits (ecef_y (pe_position e))) @
     le_bytes 8 (f64_bits (ecef_z (pe_position e))) @ string_bytes (pe_semantic_type e) @
     string_bytes (pe_geometry_ref e) @ [lifecycle_byte (pe_lifecycle e)] @
     canonical_bag (pe_properties e) @ canonical_bag (pe_state e) @
     counted canonical_relation (pe_relations e) @ counted string_bytes (pe_capabilities e) @
     [frequency_byte (pm_frequency (pe_metadata e))] @
     le_bytes 4 (ucast (pm_priority (pe_metadata e))) @
     counted string_bytes (pm_visibility_tags (pe_metadata e))"

lemma write_value_eq: "write_value h v = hw_bytes h (canonical_value v)"
  by (cases v) (simp_all add: write_value_def canonical_value_def Let_def hw_u8_eq hw_f64_def hw_u64_def
      hw_text_eq flip: hw_bytes_append)

lemma write_bag_eq: "write_bag h bag = hw_bytes h (canonical_bag bag)"
  unfolding write_bag_def canonical_bag_def length_fm_items [symmetric]
  by (rule foldl_hw_counted) (auto simp: hw_text_eq write_value_eq)

lemma write_relation_eq: "write_relation h r = hw_bytes h (canonical_relation r)"
  by (simp add: write_relation_def canonical_relation_def hw_text_eq hw_u64_def write_bag_eq)

lemma projected_entity_hash_eq: "projected_entity_hash e = hw_bytes kFnvOffset (canonical_bytes e)"
  by (simp add: projected_entity_hash_def canonical_bytes_def Let_def hw_u8_eq hw_f64_def hw_u32_def
      hw_text_eq write_bag_eq foldl_hw_counted [OF write_relation_eq] foldl_hw_counted [OF hw_text_eq])
    (simp add: hw_u64_def hw_bytes_Cons)

section \<open>The bytes determine the entity\<close>

lemma byte_code: "(\<And>x y. f x = f y \<Longrightarrow> x = y) \<Longrightarrow> prefix_code (\<lambda>_. True) (\<lambda>x. [f x])"
  by unfold_locales auto

lemma u32_code: "prefix_code (\<lambda>_. True) (\<lambda>v :: u32. le_bytes 4 (ucast v))"
proof
  fix v w :: u32 and r s
  assume "le_bytes 4 (ucast v) @ r = le_bytes 4 (ucast w) @ s"
  then have "le_value (le_bytes 4 (ucast v)) = le_value (le_bytes 4 (ucast w))" and rest: "r = s"
    by (simp_all add: fixed_prefix)
  then have "take_bit 32 (ucast v :: u64) = take_bit 32 (ucast w)"
    by (simp add: le_value_le_bytes)
  then have "(ucast (take_bit 32 (ucast v :: u64)) :: u32) = ucast (take_bit 32 (ucast w :: u64))"
    by simp
  moreover have "(ucast (take_bit 32 (ucast x :: u64)) :: u32) = x" for x :: u32
    by (rule bit_word_eqI) (simp add: bit_simps)
  ultimately show "v = w \<and> r = s" using rest by simp
qed

lemma canonical_value_code: "prefix_code value_ok canonical_value"
proof
  fix v w r s
  assume ok: "value_ok v" "value_ok w" and eq: "canonical_value v @ r = canonical_value w @ s"
  from eq have ix: "(ucast (value_index v) :: u8) = ucast (value_index w)"
    and rest: "canonical_payload v @ r = canonical_payload w @ s"
    by (auto simp: canonical_value_def)
  from ok ix rest show "v = w \<and> r = s"
    by (cases v; cases w)
       (auto simp: fixed_prefix le_bytes_64_inject f64.expand dest: string_code.unique split: if_splits)
qed

lemma canonical_bag_code: "prefix_code bag_ok canonical_bag"
  by (rule prefix_code_map [OF prefix_code_counted [OF prefix_code_pair [OF
        string_code.prefix_code_axioms canonical_value_code]], where f = fm_items])
     (simp_all add: bag_ok_def canonical_bag_def fm_items_inject)

lemma canonical_relation_code: "prefix_code relation_ok canonical_relation"
  by (rule prefix_code_map [OF prefix_code_pair [OF string_code.prefix_code_axioms
        prefix_code_pair [OF wid_code canonical_bag_code]],
        where f = "\<lambda>r. (rel_type r, rel_target r, rel_attributes r)"])
     (simp_all add: relation_ok_def canonical_relation_def)

lemma lifecycle_byte_code: "prefix_code (\<lambda>_. True) (\<lambda>l. [lifecycle_byte l])"
proof (rule byte_code)
  show "lifecycle_byte x = lifecycle_byte y \<Longrightarrow> x = y" for x y by (cases x; cases y) simp_all
qed

lemma frequency_byte_code: "prefix_code (\<lambda>_. True) (\<lambda>l. [frequency_byte l])"
proof (rule byte_code)
  show "frequency_byte x = frequency_byte y \<Longrightarrow> x = y" for x y by (cases x; cases y) simp_all
qed

definition entity_ok :: "ProjectedEntity \<Rightarrow> bool" where
  "entity_ok e \<longleftrightarrow>
     string_ok (pe_semantic_type e) \<and> string_ok (pe_geometry_ref e) \<and>
     bag_ok (pe_properties e) \<and> bag_ok (pe_state e) \<and>
     counted_valid relation_ok (pe_relations e) \<and> counted_valid string_ok (pe_capabilities e) \<and>
     counted_valid string_ok (pm_visibility_tags (pe_metadata e))"

abbreviation without_fid :: "ProjectedEntity \<Rightarrow> ProjectedEntity" where
  "without_fid e \<equiv> e\<lparr>pe_fid := FeatureId 0\<rparr>"

lemma canonical_code: "prefix_code (\<lambda>e. entity_ok e \<and> pe_fid e = FeatureId 0) canonical_bytes"
  by (rule prefix_code_map [OF prefix_code_pair [OF wid_code
        prefix_code_pair [OF u64_code.prefix_code_axioms
        prefix_code_pair [OF f64_code prefix_code_pair [OF f64_code prefix_code_pair [OF f64_code
        prefix_code_pair [OF string_code.prefix_code_axioms
        prefix_code_pair [OF string_code.prefix_code_axioms
        prefix_code_pair [OF lifecycle_byte_code
        prefix_code_pair [OF canonical_bag_code prefix_code_pair [OF canonical_bag_code
        prefix_code_pair [OF prefix_code_counted [OF canonical_relation_code]
        prefix_code_pair [OF prefix_code_counted [OF string_code.prefix_code_axioms]
        prefix_code_pair [OF frequency_byte_code prefix_code_pair [OF u32_code
          prefix_code_counted [OF string_code.prefix_code_axioms]]]]]]]]]]]]]]],
        where f = "\<lambda>e. (pe_wid e, pe_version e, ecef_x (pe_position e), ecef_y (pe_position e),
          ecef_z (pe_position e), pe_semantic_type e, pe_geometry_ref e, pe_lifecycle e,
          pe_properties e, pe_state e, pe_relations e, pe_capabilities e,
          pm_frequency (pe_metadata e), pm_priority (pe_metadata e), pm_visibility_tags (pe_metadata e))"])
     (simp_all add: entity_ok_def canonical_bytes_def)

text \<open>
  C15: the canonical hash is a hash of the whole entity. It is FNV-1a over a byte string, and two
  entities give the same byte string exactly if they agree in everything but the feature id, which
  each connection assigns on its own; so equal hashes of different contents are collisions of FNV.
\<close>

theorem canonical_hash_of_content:
  assumes "entity_ok a" "entity_ok b"
  shows "projected_entity_hash a = hw_bytes kFnvOffset (canonical_bytes a) \<and>
    (canonical_bytes a = canonical_bytes b \<longleftrightarrow> without_fid a = without_fid b) \<and>
    (without_fid a = without_fid b \<longrightarrow> projected_entity_hash a = projected_entity_hash b)"
proof -
  have "canonical_bytes (without_fid e) = canonical_bytes e" for e by (simp add: canonical_bytes_def)
  moreover have "entity_ok (without_fid e) = entity_ok e" for e by (simp add: entity_ok_def)
  ultimately have "canonical_bytes a = canonical_bytes b \<longleftrightarrow> without_fid a = without_fid b"
    using prefix_code.inject [OF canonical_code, of "without_fid a" "without_fid b"] assms by simp
  then show ?thesis by (auto simp: projected_entity_hash_eq)
qed

theorem canonical_hash_of_content_witness:
  "let e = policy_project projection_policy (example_object 7); f = e\<lparr>pe_version := 9\<rparr>
   in canonical_bytes e \<noteq> canonical_bytes f \<and>
      projected_entity_hash (e\<lparr>pe_fid := FeatureId 3\<rparr>) = projected_entity_hash e"
proof -
  let ?e = "policy_project projection_policy (example_object 7)"
  have oks: "entity_ok ?e" "entity_ok (?e\<lparr>pe_version := 9\<rparr>)" "entity_ok (?e\<lparr>pe_fid := FeatureId 3\<rparr>)"
    by (simp_all add: entity_ok_def policy_project_def projection_policy_def example_object_def
        counted_valid_def bag_ok_def fm_items_def)
  have version: "pe_version ?e \<noteq> 9"
    by (simp add: policy_project_def example_object_def)
  have "without_fid ?e \<noteq> without_fid (?e\<lparr>pe_version := 9\<rparr>)"
  proof
    assume "without_fid ?e = without_fid (?e\<lparr>pe_version := 9\<rparr>)"
    then have "pe_version (without_fid ?e) = pe_version (without_fid (?e\<lparr>pe_version := 9\<rparr>))" by (rule arg_cong)
    with version show False by simp
  qed
  with canonical_hash_of_content [OF oks(1,2)] canonical_hash_of_content [OF oks(3,1)] show ?thesis
    by (simp add: Let_def)
qed

end
