(* ===== verification/Protocol_Wire.thy ===== *)
theory Protocol_Wire
  imports Projection_Frames Gateway_Types
begin

text \<open>
  \<^verbatim>\<open>libs/protocol\<close>, the transport-independent structures of the stream (\<^verbatim>\<open>wire.hpp\<close>), the limits and
  the version negotiation, and the conversion of the engine's frames into them
  (\<^verbatim>\<open>libs/gateway/frame_codec.cpp\<close>).
\<close>

section \<open>Wire structures\<close>

datatype WireValue = WV_int i64 | WV_double f64 | WV_bool bool | WV_string string

type_synonym WireAttributes = "(string, WireValue) fmap"

datatype WireLifecycle = WL_staged | WL_active | WL_suspended | WL_retired

datatype WireFrequency = WF_on_change | WF_slow | WF_fast

datatype WireLeaveReason = WR_out_of_area | WR_not_relevant | WR_destroyed | WR_policy_changed

datatype WireReceiptStatus =
  WS_unspecified | WS_accepted | WS_applied | WS_rejected | WS_duplicate | WS_durable_accepted

datatype ReliableKind = RK_unspecified | RK_command_receipt | RK_protocol_error | RK_event

record WireVec3 =
  wv_x :: f64
  wv_y :: f64
  wv_z :: f64

record WireRelation =
  wrel_type :: string
  wrel_target_wid :: u64

record WireEntity =
  we_wid :: WorldId
  we_fid :: FeatureId
  we_version :: u64
  we_position :: WireVec3
  we_semantic_type :: string
  we_geometry_ref :: string
  we_lifecycle :: WireLifecycle
  we_properties :: WireAttributes
  we_state :: WireAttributes
  we_relations :: "WireRelation list"
  we_capabilities :: "string list"
  we_frequency :: WireFrequency
  we_priority :: u32
  we_visibility_tags :: "string list"

record WireEnter =
  wen_wid :: WorldId
  wen_fid :: FeatureId
  wen_entity :: WireEntity

record WireUpdate =
  wup_wid :: WorldId
  wup_fid :: FeatureId
  wup_entity :: WireEntity

record WireLeave =
  wlv_wid :: WorldId
  wlv_fid :: FeatureId
  wlv_reason :: WireLeaveReason

record WireKeyframe =
  wk_stream_epoch :: u64
  wk_stream_sequence :: u64
  wk_snapshot_id :: u64
  wk_baseline_snapshot_id :: u64
  wk_tick :: u64
  wk_simulation_time_us :: i64
  wk_entities :: "WireEnter list"

record WireDelta =
  wd_stream_epoch :: u64
  wd_stream_sequence :: u64
  wd_snapshot_id :: u64
  wd_baseline_snapshot_id :: u64
  wd_tick :: u64
  wd_simulation_time_us :: i64
  wd_enters :: "WireEnter list"
  wd_updates :: "WireUpdate list"
  wd_leaves :: "WireLeave list"

record WireCommandReceipt =
  wcr_client_sequence :: u64
  wcr_status :: WireReceiptStatus
  wcr_error_code :: string

record WireProtocolError =
  wpe_code :: string
  wpe_message :: string

record WireReliable =
  wrl_kind :: ReliableKind
  wrl_receipt :: WireCommandReceipt
  wrl_error :: WireProtocolError

record WireHeartbeat =
  wh_server_tick :: u64
  wh_latest_snapshot_id :: u64

datatype WireFrame =
  WF_keyframe WireKeyframe | WF_delta WireDelta | WF_reliable WireReliable | WF_heartbeat WireHeartbeat

record WireAck =
  wa_stream_epoch :: u64
  wa_snapshot_id :: u64

record WireKeyframeRequest =
  wkr_reason :: string

datatype WireClientControl = WC_ack WireAck | WC_keyframe_request WireKeyframeRequest

section \<open>Limits and versions\<close>

record ProtocolLimits =
  pl_max_frame_bytes :: u64
  pl_max_string_bytes :: u64
  pl_max_properties_per_entity :: u64
  pl_max_relations_per_entity :: u64
  pl_max_entities_per_frame :: u64
  pl_verifier_max_depth :: u32
  pl_verifier_max_tables :: u32

text \<open>The diagnostic is UTF-8: the name of the limit and ``must not be 0'' in Chinese.\<close>

definition not_zero :: string where
  "not_zero = CHR 0x20 # [CHR 0xE4, CHR 0xB8, CHR 0x8D, CHR 0xE8, CHR 0x83, CHR 0xBD, CHR 0xE4, CHR 0xB8,
     CHR 0xBA] @ '' 0''"

definition validate_limits :: "ProtocolLimits \<Rightarrow> bool \<times> string" where
  "validate_limits l =
     (if pl_max_frame_bytes l = 0 then (False, ''max_frame_bytes'' @ not_zero)
      else if pl_max_string_bytes l = 0 then (False, ''max_string_bytes'' @ not_zero)
      else if pl_max_properties_per_entity l = 0 then (False, ''max_properties_per_entity'' @ not_zero)
      else if pl_max_relations_per_entity l = 0 then (False, ''max_relations_per_entity'' @ not_zero)
      else if pl_max_entities_per_frame l = 0 then (False, ''max_entities_per_frame'' @ not_zero)
      else if pl_verifier_max_depth l = 0 then (False, ''verifier_max_depth'' @ not_zero)
      else if pl_verifier_max_tables l = 0 then (False, ''verifier_max_tables'' @ not_zero)
      else (True, []))"

definition data_schema_version :: u32 where
  "data_schema_version = 1"

record VersionRange =
  vr_minimum :: u32
  vr_maximum :: u32

definition range_valid :: "VersionRange \<Rightarrow> bool" where
  "range_valid r \<longleftrightarrow> vr_minimum r \<le> vr_maximum r"

definition negotiate_version :: "VersionRange \<Rightarrow> VersionRange \<Rightarrow> u32 option" where
  "negotiate_version client server =
     (if \<not> range_valid client \<or> \<not> range_valid server then None
      else
        let common_minimum = max (vr_minimum client) (vr_minimum server);
            common_maximum = min (vr_maximum client) (vr_maximum server)
        in if common_minimum > common_maximum then None else Some common_maximum)"

text \<open>
  Version negotiation picks the highest common version: it answers a version exactly if both
  sides support one, and then the greatest; it does not depend on who is the client.
\<close>

lemma negotiate_version_greatest:
  "(negotiate_version c s = Some v \<longleftrightarrow>
      v = Max {x. vr_minimum c \<le> x \<and> x \<le> vr_maximum c \<and> vr_minimum s \<le> x \<and> x \<le> vr_maximum s} \<and>
      {x. vr_minimum c \<le> x \<and> x \<le> vr_maximum c \<and> vr_minimum s \<le> x \<and> x \<le> vr_maximum s} \<noteq> {}) \<and>
   negotiate_version c s = negotiate_version s c"
proof -
  let ?S = "{x. vr_minimum c \<le> x \<and> x \<le> vr_maximum c \<and> vr_minimum s \<le> x \<and> x \<le> vr_maximum s}"
  let ?lo = "max (vr_minimum c) (vr_minimum s)" and ?hi = "min (vr_maximum c) (vr_maximum s)"
  have S: "?S = {?lo..?hi}" by auto
  have "negotiate_version c s = (if ?S \<noteq> {} then Some (Max ?S) else None)"
  proof (cases "?S = {}")
    case True
    then have "\<not> ?lo \<le> ?hi" unfolding S by simp
    then have "negotiate_version c s = None"
      by (auto simp: negotiate_version_def Let_def range_valid_def min_less_iff_disj less_max_iff_disj)
    then show ?thesis by (simp only: True simp_thms if_False)
  next
    case False
    then have le: "?lo \<le> ?hi" unfolding S by simp
    then have "Max ?S = ?hi" unfolding S by (intro Max_eqI) auto
    moreover have "range_valid c" "range_valid s" using le by (auto simp: range_valid_def)
    then have "negotiate_version c s = Some ?hi"
      using le by (simp add: negotiate_version_def Let_def flip: not_le del: min.bounded_iff max.bounded_iff)
    ultimately show ?thesis using False by (simp only: simp_thms if_True not_False_eq_True)
  qed
  moreover have "negotiate_version c s = negotiate_version s c"
    by (simp add: negotiate_version_def max.commute min.commute conj_commute disj_commute)
  ultimately show ?thesis by auto
qed

section \<open>From the engine to the wire\<close>

fun to_wire_value :: "Value \<Rightarrow> WireValue" where
  "to_wire_value (VInt64 n) = WV_int n"
| "to_wire_value (VDouble d) = WV_double d"
| "to_wire_value (VBool b) = WV_bool b"
| "to_wire_value (VString t) = WV_string t"

definition to_wire_attributes :: "PropertyBag \<Rightarrow> WireAttributes" where
  "to_wire_attributes bag = fmmap to_wire_value bag"

fun to_wire_lifecycle :: "LifecycleState \<Rightarrow> WireLifecycle" where
  "to_wire_lifecycle LS_staged = WL_staged"
| "to_wire_lifecycle LS_active = WL_active"
| "to_wire_lifecycle LS_suspended = WL_suspended"
| "to_wire_lifecycle LS_retired = WL_retired"

fun to_wire_frequency :: "FrequencyClass \<Rightarrow> WireFrequency" where
  "to_wire_frequency FC_on_change = WF_on_change"
| "to_wire_frequency FC_slow = WF_slow"
| "to_wire_frequency FC_fast = WF_fast"

fun to_wire_leave_reason :: "LeaveReason \<Rightarrow> WireLeaveReason" where
  "to_wire_leave_reason LR_out_of_area = WR_out_of_area"
| "to_wire_leave_reason LR_not_relevant = WR_not_relevant"
| "to_wire_leave_reason LR_destroyed = WR_destroyed"
| "to_wire_leave_reason LR_policy_changed = WR_policy_changed"

text \<open>The attributes of a relation do not travel.\<close>

definition to_wire_relation :: "Relation \<Rightarrow> WireRelation" where
  "to_wire_relation r = \<lparr>wrel_type = rel_type r, wrel_target_wid = wid_value (rel_target r)\<rparr>"

definition to_wire_entity :: "ProjectedEntity \<Rightarrow> WireEntity" where
  "to_wire_entity e =
     \<lparr>we_wid = pe_wid e, we_fid = pe_fid e, we_version = pe_version e,
      we_position = \<lparr>wv_x = ecef_x (pe_position e), wv_y = ecef_y (pe_position e),
                     wv_z = ecef_z (pe_position e)\<rparr>,
      we_semantic_type = pe_semantic_type e, we_geometry_ref = pe_geometry_ref e,
      we_lifecycle = to_wire_lifecycle (pe_lifecycle e),
      we_properties = to_wire_attributes (pe_properties e),
      we_state = to_wire_attributes (pe_state e),
      we_relations = map to_wire_relation (pe_relations e),
      we_capabilities = pe_capabilities e,
      we_frequency = to_wire_frequency (pm_frequency (pe_metadata e)),
      we_priority = pm_priority (pe_metadata e),
      we_visibility_tags = pm_visibility_tags (pe_metadata e)\<rparr>"

definition to_wire_enter :: "EntityEnter \<Rightarrow> WireEnter" where
  "to_wire_enter x =
     \<lparr>wen_wid = ee_wid x, wen_fid = ee_fid x, wen_entity = to_wire_entity (ee_entity x)\<rparr>"

definition to_wire_update :: "EntityUpdate \<Rightarrow> WireUpdate" where
  "to_wire_update x =
     \<lparr>wup_wid = eu_wid x, wup_fid = eu_fid x, wup_entity = to_wire_entity (eu_entity x)\<rparr>"

definition to_wire_leave :: "EntityLeave \<Rightarrow> WireLeave" where
  "to_wire_leave x =
     \<lparr>wlv_wid = el_wid x, wlv_fid = el_fid x, wlv_reason = to_wire_leave_reason (el_reason x)\<rparr>"

fun to_wire_frame :: "StateFrame \<Rightarrow> WireFrame" where
  "to_wire_frame (SF_keyframe k) = WF_keyframe
     \<lparr>wk_stream_epoch = kf_stream_epoch k, wk_stream_sequence = kf_stream_sequence k,
      wk_snapshot_id = kf_snapshot_id k, wk_baseline_snapshot_id = kf_baseline_snapshot_id k,
      wk_tick = kf_tick k, wk_simulation_time_us = kf_simulation_time_us k,
      wk_entities = map to_wire_enter (kf_entities k)\<rparr>"
| "to_wire_frame (SF_delta d) = WF_delta
     \<lparr>wd_stream_epoch = df_stream_epoch d, wd_stream_sequence = df_stream_sequence d,
      wd_snapshot_id = df_snapshot_id d, wd_baseline_snapshot_id = df_baseline_snapshot_id d,
      wd_tick = df_tick d, wd_simulation_time_us = df_simulation_time_us d,
      wd_enters = map to_wire_enter (df_enters d), wd_updates = map to_wire_update (df_updates d),
      wd_leaves = map to_wire_leave (df_leaves d)\<rparr>"

fun to_wire_status :: "ReceiptStatus \<Rightarrow> WireReceiptStatus" where
  "to_wire_status RS_accepted = WS_accepted"
| "to_wire_status RS_applied = WS_applied"
| "to_wire_status RS_rejected = WS_rejected"
| "to_wire_status RS_duplicate = WS_duplicate"
| "to_wire_status RS_durable_accepted = WS_durable_accepted"

definition to_wire_receipt :: "CommandReceipt \<Rightarrow> WireCommandReceipt" where
  "to_wire_receipt r =
     \<lparr>wcr_client_sequence = rc_client_sequence r, wcr_status = to_wire_status (rc_status r),
      wcr_error_code = error_code (rc_error r)\<rparr>"

end
