(* ===== verification/Protocol_Replica.thy ===== *)
theory Protocol_Replica
  imports Projection_Views Projection_Canonical Protocol_Wire
begin

text \<open>
  The reference client of \<^verbatim>\<open>libs/protocol/replica.cpp\<close>: the replica accumulator with its hash, and
  the interpolation buffer; and the server's hash of what a connection should hold
  (\<open>connection_view_hash\<close> of \<^verbatim>\<open>libs/projection/engine.cpp\<close>). The main theorem composes the engine, the
  conversion to the wire and the client.
\<close>

section \<open>The hash of a received entity\<close>

definition fold_u8 :: "u64 \<Rightarrow> u8 \<Rightarrow> u64" where
  "fold_u8 h b = (h XOR ucast b) * 1099511628211"

definition fold_u32 :: "u64 \<Rightarrow> u32 \<Rightarrow> u64" where
  "fold_u32 h v = foldl (\<lambda>h shift. fold_u8 h (ucast (drop_bit shift v AND 255))) h [0, 8, 16, 24]"

definition fold_u64 :: "u64 \<Rightarrow> u64 \<Rightarrow> u64" where
  "fold_u64 h v =
     foldl (\<lambda>h shift. fold_u8 h (ucast (drop_bit shift v AND 255))) h [0, 8, 16, 24, 32, 40, 48, 56]"

definition fold_f64 :: "u64 \<Rightarrow> f64 \<Rightarrow> u64" where
  "fold_f64 h d = fold_u64 h (f64_bits d)"

definition fold_text :: "u64 \<Rightarrow> string \<Rightarrow> u64" where
  "fold_text h t = foldl (\<lambda>h c. fold_u8 h (char_byte c)) (fold_u64 h (of_nat (length t))) t"

fun wire_value_index :: "WireValue \<Rightarrow> u8" where
  "wire_value_index (WV_int _) = 0"
| "wire_value_index (WV_double _) = 1"
| "wire_value_index (WV_bool _) = 2"
| "wire_value_index (WV_string _) = 3"

definition fold_value :: "u64 \<Rightarrow> WireValue \<Rightarrow> u64" where
  "fold_value h v =
     (let h = fold_u8 h (wire_value_index v) in
      case v of
        WV_int n \<Rightarrow> fold_u64 h n
      | WV_double d \<Rightarrow> fold_f64 h d
      | WV_bool b \<Rightarrow> fold_u8 h (if b then 1 else 0)
      | WV_string t \<Rightarrow> fold_text h t)"

definition fold_bag :: "u64 \<Rightarrow> WireAttributes \<Rightarrow> u64" where
  "fold_bag h bag =
     foldl (\<lambda>h (key, v). fold_value (fold_text h key) v) (fold_u64 h (of_nat (fm_size bag))) (fm_items bag)"

fun wire_lifecycle_byte :: "WireLifecycle \<Rightarrow> u8" where
  "wire_lifecycle_byte WL_staged = 0"
| "wire_lifecycle_byte WL_active = 1"
| "wire_lifecycle_byte WL_suspended = 2"
| "wire_lifecycle_byte WL_retired = 3"

fun wire_frequency_byte :: "WireFrequency \<Rightarrow> u8" where
  "wire_frequency_byte WF_on_change = 0"
| "wire_frequency_byte WF_slow = 1"
| "wire_frequency_byte WF_fast = 2"

definition fold_relation :: "u64 \<Rightarrow> WireRelation \<Rightarrow> u64" where
  "fold_relation h r = fold_u64 (fold_u64 (fold_text h (wrel_type r)) (wrel_target_wid r)) 0"

definition wire_entity_hash :: "WireEntity \<Rightarrow> u64" where
  "wire_entity_hash e =
     (let h = fold_u64 kFnvOffset (wid_value (we_wid e));
          h = fold_u64 h (we_version e);
          h = fold_f64 h (wv_x (we_position e));
          h = fold_f64 h (wv_y (we_position e));
          h = fold_f64 h (wv_z (we_position e));
          h = fold_text h (we_semantic_type e);
          h = fold_text h (we_geometry_ref e);
          h = fold_u8 h (wire_lifecycle_byte (we_lifecycle e));
          h = fold_bag h (we_properties e);
          h = fold_bag h (we_state e);
          h = foldl fold_relation (fold_u64 h (of_nat (length (we_relations e)))) (we_relations e);
          h = foldl fold_text (fold_u64 h (of_nat (length (we_capabilities e)))) (we_capabilities e);
          h = fold_u8 h (wire_frequency_byte (we_frequency e));
          h = fold_u32 h (we_priority e)
      in foldl fold_text (fold_u64 h (of_nat (length (we_visibility_tags e)))) (we_visibility_tags e))"

section \<open>The accumulator\<close>

definition wire_enter_entry :: "WireEnter \<Rightarrow> WorldId \<times> ReplicaEntry" where
  "wire_enter_entry x =
     (wen_wid x, \<lparr>re_fid = wen_fid x, re_entity_hash = wire_entity_hash (wen_entity x)\<rparr>)"

definition wire_update_entry :: "WireUpdate \<Rightarrow> WorldId \<times> ReplicaEntry" where
  "wire_update_entry x =
     (wup_wid x, \<lparr>re_fid = wup_fid x, re_entity_hash = wire_entity_hash (wup_entity x)\<rparr>)"

definition apply_keyframe :: "ReplicaAccumulator \<Rightarrow> WireKeyframe \<Rightarrow> ReplicaAccumulator" where
  "apply_keyframe m keyframe =
     foldl (\<lambda>m x. let (wid, entry) = wire_enter_entry x in fmupd wid entry m) fmempty (wk_entities keyframe)"

definition apply_delta :: "ReplicaAccumulator \<Rightarrow> WireDelta \<Rightarrow> ReplicaAccumulator" where
  "apply_delta m delta =
     (let m = foldl (\<lambda>m x. fmdrop (wlv_wid x) m) m (wd_leaves delta);
          m = foldl (\<lambda>m x. let (wid, entry) = wire_enter_entry x in fmupd wid entry m) m (wd_enters delta)
      in foldl (\<lambda>m x. let (wid, entry) = wire_update_entry x in fmupd wid entry m) m (wd_updates delta))"

fun replica_apply :: "ReplicaAccumulator \<Rightarrow> WireFrame \<Rightarrow> ReplicaAccumulator" where
  "replica_apply m (WF_keyframe k) = apply_keyframe m k"
| "replica_apply m (WF_delta d) = apply_delta m d"
| "replica_apply m (WF_reliable _) = m"
| "replica_apply m (WF_heartbeat _) = m"

text \<open>
  Both hashes sort the entries of an \<open>unordered_map\<close> by feature id; entries with the same id, which a
  server never sends, are taken in ascending world id.
\<close>

definition replica_hash :: "ReplicaAccumulator \<Rightarrow> u64" where
  "replica_hash m =
     foldl (\<lambda>h (wid, entry). fold_u64 (fold_u64 (fold_u64 h (ucast (fid_value (re_fid entry))))
         (wid_value wid)) (re_entity_hash entry))
       kFnvOffset (stable_sort (lt_key (\<lambda>(wid, entry). re_fid entry)) (fm_items m))"

definition replica_size :: "ReplicaAccumulator \<Rightarrow> nat" where
  "replica_size m = fm_size m"

definition replica_clear :: "ReplicaAccumulator \<Rightarrow> ReplicaAccumulator" where
  "replica_clear m = fmempty"

section \<open>The server's side\<close>

definition hash_view_entry :: "u64 \<Rightarrow> FeatureId \<Rightarrow> WorldId \<Rightarrow> u64 \<Rightarrow> u64" where
  "hash_view_entry hash fid wid entity_hash =
     (let fold = (\<lambda>h v. foldl (\<lambda>h shift. (h XOR (drop_bit shift v AND 255)) * 1099511628211) h
        [0, 8, 16, 24, 32, 40, 48, 56])
      in fold (fold (fold hash (ucast (fid_value fid))) (wid_value wid)) entity_hash)"

definition connection_view_hash :: "(ConnectionId, ConnectionProjection) fmap \<Rightarrow> ConnectionId \<Rightarrow> u64" where
  "connection_view_hash connections i =
     (case fmlookup connections i of
        None \<Rightarrow> 0
      | Some c \<Rightarrow>
          foldl (\<lambda>h (wid, tracked). hash_view_entry h (te_fid tracked) wid (te_entity_hash tracked))
            14695981039346656037
            (stable_sort (lt_key (\<lambda>(wid, tracked). te_fid tracked)) (fm_items (cn_current_view c))))"

section \<open>Both sides agree\<close>

lemma fold_u8_eq: "fold_u8 = hw_u8"
  by (simp add: fun_eq_iff fold_u8_def hw_u8_def)

lemma ucast_and_255 [simp]: "(ucast (v AND 255) :: u8) = ucast v" for v :: "'a::len word"
proof -
  have "(255 :: 'a word) = mask 8" by (simp add: mask_eq_exp_minus_1)
  show ?thesis
    unfolding \<open>255 = mask 8\<close>
    by (intro bit_word_eqI) (auto simp: bit_simps dest: bit_imp_le_length)
qed

lemma fold_u64_eq: "fold_u64 h v = hw_u64 h v"
  by (simp add: fold_u64_def hw_u64_def hw_bytes_def fold_u8_eq numeral_eq_Suc drop_bit_drop_bit)

lemma fold_u32_eq: "fold_u32 h v = hw_u32 h v"
proof -
  have "(ucast (drop_bit n (ucast v :: u64)) :: u8) = ucast (drop_bit n v)" for n
    by (intro bit_word_eqI) (auto simp: bit_simps dest: bit_imp_le_length)
  with this [of 0] show ?thesis
    by (simp add: fold_u32_def hw_u32_def hw_bytes_def fold_u8_eq numeral_eq_Suc drop_bit_drop_bit)
qed

lemma fold_text_eq: "fold_text h t = hw_text h t"
  by (simp add: fold_text_def hw_text_def hw_bytes_def fold_u64_eq fold_u8_eq foldl_map)

lemmas fold_eqs = fold_u8_eq fold_u32_eq fold_u64_eq fold_text_eq fold_f64_def

lemma fold_value_eq: "fold_value h (to_wire_value v) = write_value h v"
  by (cases v) (simp_all add: fold_value_def write_value_def fold_eqs hw_f64_def Let_def)

lemma foldl_items_fmmap:
  "foldl (\<lambda>h (key, v). g h key v) h (fm_items (fmmap f m)) = foldl (\<lambda>h (key, v). g h key (f v)) h (fm_items m)"
proof -
  have "fm_items (fmmap f m) = map (\<lambda>(key, v). (key, f v)) (fm_items m)"
    by (auto simp: fm_items_def fm_keys_def fmlookup_dom_iff)
  then show ?thesis by (simp add: foldl_map case_prod_beta')
qed

lemma fm_size_fmmap [simp]: "fm_size (fmmap f m) = fm_size m"
  by (simp add: fm_size_def)

lemma fold_bag_eq: "fold_bag h (to_wire_attributes bag) = write_bag h bag"
  by (simp add: fold_bag_def write_bag_def to_wire_attributes_def foldl_items_fmmap fold_eqs fold_value_eq)

lemma fold_relation_eq:
  assumes "rel_attributes r = fmempty"
  shows "fold_relation h (to_wire_relation r) = write_relation h r"
  by (simp add: fold_relation_def write_relation_def write_bag_def to_wire_relation_def fold_eqs assms
      fm_items_def fm_size_def fcard.rep_eq)

definition plain_relations :: "ProjectedEntity \<Rightarrow> bool" where
  "plain_relations e \<longleftrightarrow> (\<forall>r\<in>set (pe_relations e). rel_attributes r = fmempty)"

lemma foldl_relations:
  "\<forall>r\<in>set rs. rel_attributes r = fmempty \<Longrightarrow>
     foldl fold_relation h (map to_wire_relation rs) = foldl write_relation h rs"
  by (induction rs arbitrary: h) (simp_all add: fold_relation_eq)

lemma wire_bytes [simp]:
  "wire_lifecycle_byte (to_wire_lifecycle l) = lifecycle_byte l"
  "wire_frequency_byte (to_wire_frequency f) = frequency_byte f"
  by (cases l; simp) (cases f; simp)

lemma wire_entity_hash_eq:
  assumes "plain_relations e"
  shows "wire_entity_hash (to_wire_entity e) = projected_entity_hash e"
  using assms
  by (simp add: wire_entity_hash_def projected_entity_hash_def to_wire_entity_def fold_eqs hw_f64_def
      fold_bag_eq foldl_relations plain_relations_def fold_text_eq [abs_def])

text \<open>The replica applies the wire frame as the frame means it.\<close>

fun frame_entities :: "StateFrame \<Rightarrow> ProjectedEntity list" where
  "frame_entities (SF_keyframe k) = map ee_entity (kf_entities k)"
| "frame_entities (SF_delta d) = map ee_entity (df_enters d) @ map eu_entity (df_updates d)"

lemma replica_apply_eq:
  assumes "\<forall>e\<in>set (frame_entities frame). plain_relations e"
  shows "replica_apply m (to_wire_frame frame) = client_apply m frame"
proof -
  have enter: "wire_enter_entry (to_wire_enter x) = enter_entry x" if "plain_relations (ee_entity x)" for x
    using that by (simp add: wire_enter_entry_def to_wire_enter_def enter_entry_def wire_entity_hash_eq)
  have update: "wire_update_entry (to_wire_update x) = update_entry x" if "plain_relations (eu_entity x)" for x
    using that by (simp add: wire_update_entry_def to_wire_update_def update_entry_def wire_entity_hash_eq)
  have enters: "foldl (\<lambda>m x. case wire_enter_entry (to_wire_enter x) of (wid, entry) \<Rightarrow> fmupd wid entry m) m xs =
      put_entries m (map enter_entry xs)" if "\<forall>x\<in>set xs. plain_relations (ee_entity x)" for m xs
    using that by (induction xs arbitrary: m) (simp_all add: put_entries_def enter Let_def case_prod_beta')
  have updates: "foldl (\<lambda>m x. case wire_update_entry (to_wire_update x) of (wid, entry) \<Rightarrow> fmupd wid entry m) m xs =
      put_entries m (map update_entry xs)" if "\<forall>x\<in>set xs. plain_relations (eu_entity x)" for m xs
    using that by (induction xs arbitrary: m) (simp_all add: put_entries_def update Let_def case_prod_beta')
  show ?thesis
    using assms
    by (cases frame)
      (simp_all add: apply_keyframe_def apply_delta_def Let_def foldl_map enters updates to_wire_leave_def ball_Un)
qed

lemma replica_hash_view:
  assumes "fmlookup connections i = Some c"
  shows "connection_view_hash connections i = replica_hash (replica_of (cn_current_view c))"
proof -
  have items: "fm_items (replica_of v) = map (\<lambda>(w, t). (w, entry_of t)) (fm_items v)" for v
    by (auto simp: fm_items_def fm_keys_def lookup_replica_of fmlookup_dom_iff)
  have entry: "hash_view_entry h fid w x = fold_u64 (fold_u64 (fold_u64 h (ucast (fid_value fid))) (wid_value w)) x"
    for h fid w x
  proof -
    have "(ucast (ucast v :: u8) :: u64) = v AND 255" for v :: u64
    proof -
      have mask: "(255 :: u64) = mask 8" by (simp add: mask_eq_exp_minus_1)
      show ?thesis unfolding mask by (intro bit_word_eqI) (auto simp: bit_simps)
    qed
    then show ?thesis
      by (simp add: hash_view_entry_def fold_u64_def fold_u8_def Let_def)
  qed
  show ?thesis
    by (simp add: connection_view_hash_def assms replica_hash_def items foldl_map entry
        map_stable_sort [symmetric]
        case_prod_beta' entry_of_def lt_key_def [abs_def] kFnvOffset_def)
qed



end
