(* ===== verification/Interpolation.thy ===== *)
theory Interpolation
  imports Protocol_Wire
begin

text \<open>
  The interpolation buffer of the reference client (\<^verbatim>\<open>libs/protocol/replica.cpp\<close>): positions of the
  last snapshots, sampled between two of them at a render time that lags behind. The theorem shows
  that the eviction of old snapshots cannot be seen by a client that renders at or after the render
  time.
\<close>

section \<open>The buffer\<close>

record BufferedSnapshot =
  bs_tick :: u64
  bs_simulation_time_us :: i64
  bs_positions :: "(WorldId, WireVec3) fmap"

record InterpolationBuffer =
  ib_delay_us :: i64
  ib_snapshots :: "BufferedSnapshot list"

abbreviation snapshot_time :: "BufferedSnapshot \<Rightarrow> int" where
  "snapshot_time s \<equiv> sint (bs_simulation_time_us s)"

definition interpolation_buffer :: "i64 \<Rightarrow> InterpolationBuffer" where
  "interpolation_buffer delay_us =
     \<lparr>ib_delay_us = (if sint delay_us < 0 then 0 else delay_us), ib_snapshots = []\<rparr>"

definition render_time_us :: "InterpolationBuffer \<Rightarrow> i64" where
  "render_time_us b =
     (if ib_snapshots b = [] then 0
      else bs_simulation_time_us (List.last (ib_snapshots b)) - ib_delay_us b)"

fun drop_rendered :: "i64 \<Rightarrow> BufferedSnapshot list \<Rightarrow> BufferedSnapshot list" where
  "drop_rendered render (s # t # ss) =
     (if snapshot_time t \<le> sint render then drop_rendered render (t # ss) else s # t # ss)"
| "drop_rendered render ss = ss"

definition stale_snapshot :: "InterpolationBuffer \<Rightarrow> BufferedSnapshot \<Rightarrow> bool" where
  "stale_snapshot b s \<longleftrightarrow>
     ib_snapshots b \<noteq> [] \<and> snapshot_time s \<le> snapshot_time (List.last (ib_snapshots b))"

definition retain :: "InterpolationBuffer \<Rightarrow> BufferedSnapshot \<Rightarrow> InterpolationBuffer" where
  "retain b s =
     (if stale_snapshot b s then b
      else
        let b = b\<lparr>ib_snapshots := ib_snapshots b @ [s]\<rparr>
        in b\<lparr>ib_snapshots := drop_rendered (render_time_us b) (ib_snapshots b)\<rparr>)"

definition keyframe_snapshot :: "WireKeyframe \<Rightarrow> BufferedSnapshot" where
  "keyframe_snapshot k =
     \<lparr>bs_tick = wk_tick k, bs_simulation_time_us = wk_simulation_time_us k,
      bs_positions = foldl (\<lambda>m x. if fm_has m (wen_wid x) then m
          else fmupd (wen_wid x) (we_position (wen_entity x)) m) fmempty (wk_entities k)\<rparr>"

definition observe_keyframe :: "InterpolationBuffer \<Rightarrow> WireKeyframe \<Rightarrow> InterpolationBuffer" where
  "observe_keyframe b k = retain b (keyframe_snapshot k)"

definition delta_snapshot :: "InterpolationBuffer \<Rightarrow> WireDelta \<Rightarrow> BufferedSnapshot" where
  "delta_snapshot b d =
     (let m = (if ib_snapshots b = [] then fmempty else bs_positions (List.last (ib_snapshots b)));
          m = foldl (\<lambda>m x. fmdrop (wlv_wid x) m) m (wd_leaves d);
          m = foldl (\<lambda>m x. fmupd (wen_wid x) (we_position (wen_entity x)) m) m (wd_enters d);
          m = foldl (\<lambda>m x. fmupd (wup_wid x) (we_position (wup_entity x)) m) m (wd_updates d)
      in \<lparr>bs_tick = wd_tick d, bs_simulation_time_us = wd_simulation_time_us d, bs_positions = m\<rparr>)"

definition observe_delta :: "InterpolationBuffer \<Rightarrow> WireDelta \<Rightarrow> InterpolationBuffer" where
  "observe_delta b d = retain b (delta_snapshot b d)"

text \<open>The snapshots around a time that lies strictly between the first and the last one.\<close>

fun time_bracket :: "int \<Rightarrow> BufferedSnapshot list \<Rightarrow> (BufferedSnapshot \<times> BufferedSnapshot) option" where
  "time_bracket t (s # u # ss) =
     (if snapshot_time u \<le> t then time_bracket t (u # ss) else Some (s, u))"
| "time_bracket t ss = None"

definition blend :: "f64 \<Rightarrow> f64 \<Rightarrow> f64 \<Rightarrow> f64" where
  "blend alpha a b = f64_add a (f64_mul (f64_sub b a) alpha)"

definition sample_between ::
  "BufferedSnapshot \<Rightarrow> BufferedSnapshot \<Rightarrow> WorldId \<Rightarrow> i64 \<Rightarrow> WireVec3 option" where
  "sample_between older newer wid time_us =
     (case (fmlookup (bs_positions older) wid, fmlookup (bs_positions newer) wid) of
        (Some p, Some q) \<Rightarrow>
          let span = i64_to_f64 (bs_simulation_time_us newer - bs_simulation_time_us older);
              alpha = f64_div (i64_to_f64 (time_us - bs_simulation_time_us older)) span
          in Some \<lparr>wv_x = blend alpha (wv_x p) (wv_x q), wv_y = blend alpha (wv_y p) (wv_y q),
                   wv_z = blend alpha (wv_z p) (wv_z q)\<rparr>
      | (Some p, None) \<Rightarrow> Some p
      | (None, q) \<Rightarrow> q)"

definition sample :: "InterpolationBuffer \<Rightarrow> WorldId \<Rightarrow> i64 \<Rightarrow> WireVec3 option" where
  "sample b wid time_us =
     (case ib_snapshots b of
        [] \<Rightarrow> None
      | s # ss \<Rightarrow>
          if sint time_us \<le> snapshot_time s then fmlookup (bs_positions s) wid
          else if sint time_us \<ge> snapshot_time (List.last (s # ss)) then
            fmlookup (bs_positions (List.last (s # ss))) wid
          else (case time_bracket (sint time_us) (s # ss) of
              None \<Rightarrow> None
            | Some (older, newer) \<Rightarrow> sample_between older newer wid time_us))"

definition snapshot_count :: "InterpolationBuffer \<Rightarrow> nat" where
  "snapshot_count b = length (ib_snapshots b)"

section \<open>Eviction cannot be seen\<close>

datatype Observation = OB_keyframe WireKeyframe | OB_delta WireDelta

fun observation_time :: "Observation \<Rightarrow> i64" where
  "observation_time (OB_keyframe k) = wk_simulation_time_us k"
| "observation_time (OB_delta d) = wd_simulation_time_us d"

fun observe :: "InterpolationBuffer \<Rightarrow> Observation \<Rightarrow> InterpolationBuffer" where
  "observe b (OB_keyframe k) = observe_keyframe b k"
| "observe b (OB_delta d) = observe_delta b d"

text \<open>The reference: the same buffer without eviction.\<close>

definition retain_all :: "InterpolationBuffer \<Rightarrow> BufferedSnapshot \<Rightarrow> InterpolationBuffer" where
  "retain_all b s = (if stale_snapshot b s then b else b\<lparr>ib_snapshots := ib_snapshots b @ [s]\<rparr>)"

fun observe_all :: "InterpolationBuffer \<Rightarrow> Observation \<Rightarrow> InterpolationBuffer" where
  "observe_all b (OB_keyframe k) = retain_all b (keyframe_snapshot k)"
| "observe_all b (OB_delta d) = retain_all b (delta_snapshot b d)"

fun observed :: "InterpolationBuffer \<Rightarrow> Observation \<Rightarrow> BufferedSnapshot" where
  "observed b (OB_keyframe k) = keyframe_snapshot k"
| "observed b (OB_delta d) = delta_snapshot b d"

lemma observe_retain:
  "observe b ob = retain b (observed b ob)" "observe_all b ob = retain_all b (observed b ob)"
  by (cases ob; simp add: observe_keyframe_def observe_delta_def)+

lemma observed_time [simp]: "bs_simulation_time_us (observed b ob) = observation_time ob"
  by (cases ob) (simp_all add: keyframe_snapshot_def delta_snapshot_def Let_def)

lemma drop_rendered_suffix:
  assumes "ss \<noteq> []"
  shows "\<exists>gone. ss = gone @ drop_rendered render ss \<and> drop_rendered render ss \<noteq> [] \<and>
    (gone \<noteq> [] \<longrightarrow> snapshot_time (hd (drop_rendered render ss)) \<le> sint render)"
  using assms
proof (induction render ss rule: drop_rendered.induct)
  case (1 render s t ss)
  show ?case
  proof (cases "snapshot_time t \<le> sint render")
    case True
    with 1 obtain gone where "t # ss = gone @ drop_rendered render (t # ss)"
      "drop_rendered render (t # ss) \<noteq> []"
      "gone \<noteq> [] \<longrightarrow> snapshot_time (hd (drop_rendered render (t # ss))) \<le> sint render"
      by blast
    with True show ?thesis
      by (intro exI [of _ "s # gone"]) (cases gone; simp; metis list.sel(1))
  qed simp
qed simp_all

text \<open>The pruned buffer is a suffix of the reference, and nothing from the render time on is gone.\<close>

definition pruned :: "InterpolationBuffer \<Rightarrow> InterpolationBuffer \<Rightarrow> bool" where
  "pruned b full \<longleftrightarrow>
     ib_delay_us b = ib_delay_us full \<and> 0 \<le> sint (ib_delay_us b) \<and>
     sorted_wrt (\<lambda>s t. snapshot_time s < snapshot_time t) (ib_snapshots full) \<and>
     (\<forall>s\<in>set (ib_snapshots full). 0 \<le> snapshot_time s) \<and>
     (\<exists>gone. ib_snapshots full = gone @ ib_snapshots b \<and> (ib_snapshots b = [] \<longrightarrow> gone = []) \<and>
        (gone \<noteq> [] \<longrightarrow> snapshot_time (hd (ib_snapshots b)) \<le> sint (render_time_us b)))"

lemma pruned_start: "pruned (interpolation_buffer d) (interpolation_buffer d)"
  by (simp add: pruned_def interpolation_buffer_def)

lemma pruned_last: "pruned b full \<Longrightarrow> ib_snapshots b = [] \<longleftrightarrow> ib_snapshots full = []"
  "pruned b full \<Longrightarrow> ib_snapshots b \<noteq> [] \<Longrightarrow> List.last (ib_snapshots full) = List.last (ib_snapshots b)"
  by (auto simp: pruned_def)

lemma pruned_observed: "pruned b full \<Longrightarrow> observed full ob = observed b ob"
  using pruned_last [of b full] by (cases ob) (auto simp: delta_snapshot_def)

text \<open>Times are not negative, so the render time does not wrap.\<close>

lemma sint_render:
  assumes "0 \<le> sint t" "0 \<le> sint (d :: i64)"
  shows "sint (t - d) = sint t - sint d"
proof -
  have "sint t < 2 ^ 63" "sint d < 2 ^ 63" using sint_lt [of t] sint_lt [of d] by simp_all
  then have "- (2 ^ 63) \<le> sint t - sint d" "sint t - sint d < 2 ^ 63" using assms by simp_all
  then show ?thesis by (simp add: sint_word_ariths signed_take_bit_int_eq_self)
qed

lemma sorted_wrt_last:
  "sorted_wrt (\<lambda>x y. f x < (f y :: int)) xs \<Longrightarrow> x \<in> set xs \<Longrightarrow> f x \<le> f (List.last xs)"
  by (induction xs rule: rev_induct) (auto simp: sorted_wrt_append)

lemma pruned_observe:
  assumes "pruned b full" "0 \<le> sint (observation_time ob)"
  shows "pruned (observe b ob) (observe_all full ob)"
proof -
  define s where "s = observed b ob"
  have time: "0 \<le> snapshot_time s" using assms(2) by (simp add: s_def)
  have obs: "observe b ob = retain b s" "observe_all full ob = retain_all full s"
    by (simp_all add: observe_retain s_def pruned_observed [OF assms(1)])
  obtain gone where gone: "ib_snapshots full = gone @ ib_snapshots b" "ib_snapshots b = [] \<Longrightarrow> gone = []"
    "gone \<noteq> [] \<Longrightarrow> snapshot_time (hd (ib_snapshots b)) \<le> sint (render_time_us b)"
    and sorted: "sorted_wrt (\<lambda>s t. snapshot_time s < snapshot_time t) (ib_snapshots full)"
    and pos: "\<forall>s\<in>set (ib_snapshots full). 0 \<le> snapshot_time s"
    and delay: "ib_delay_us b = ib_delay_us full" "0 \<le> sint (ib_delay_us b)"
    using assms(1) by (auto simp: pruned_def)
  have stale: "stale_snapshot full s = stale_snapshot b s"
    using gone(1,2) by (cases "ib_snapshots b = []") (simp_all add: stale_snapshot_def)
  show ?thesis
  proof (cases "stale_snapshot b s")
    case True
    with assms(1) show ?thesis by (simp add: obs retain_def retain_all_def stale)
  next
    case False
    define b' where "b' = b\<lparr>ib_snapshots := ib_snapshots b @ [s]\<rparr>"
    have render: "sint (render_time_us b') = snapshot_time s - sint (ib_delay_us b)"
      using sint_render [OF time delay(2)] by (simp add: render_time_us_def b'_def)
    obtain cut where cut: "ib_snapshots b' = cut @ drop_rendered (render_time_us b') (ib_snapshots b')"
      "drop_rendered (render_time_us b') (ib_snapshots b') \<noteq> []"
      "cut \<noteq> [] \<Longrightarrow> snapshot_time (hd (drop_rendered (render_time_us b') (ib_snapshots b'))) \<le> sint (render_time_us b')"
      using drop_rendered_suffix [of "ib_snapshots b'" "render_time_us b'"] by (auto simp: b'_def)
    have grow: "sint (render_time_us b) \<le> sint (render_time_us b')" if "gone \<noteq> []"
    proof -
      have "ib_snapshots b \<noteq> []" using that gone(2) by blast
      moreover from this have "0 \<le> snapshot_time (List.last (ib_snapshots b))"
        using pos gone(1) by simp
      ultimately have "sint (render_time_us b) =
          snapshot_time (List.last (ib_snapshots b)) - sint (ib_delay_us b)"
        using sint_render [OF _ delay(2), of "bs_simulation_time_us (List.last (ib_snapshots b))"]
        by (simp add: render_time_us_def)
      with False \<open>ib_snapshots b \<noteq> []\<close> show ?thesis by (simp add: render stale_snapshot_def)
    qed
    have last_time: "snapshot_time t < snapshot_time s" if "t \<in> set (ib_snapshots full)" for t
    proof -
      have "ib_snapshots full \<noteq> []" using that by auto
      then have "snapshot_time t \<le> snapshot_time (List.last (ib_snapshots full))"
        using sorted_wrt_last [OF sorted that] by simp
      then show ?thesis
        using False [folded stale] \<open>ib_snapshots full \<noteq> []\<close> by (simp add: stale_snapshot_def)
    qed
    have hd: "snapshot_time (hd (drop_rendered (render_time_us b') (ib_snapshots b'))) \<le> sint (render_time_us b')"
      if "gone @ cut \<noteq> []"
    proof (cases "cut = []")
      case True
      then have "drop_rendered (render_time_us b') (ib_snapshots b') = ib_snapshots b @ [s]"
        using cut(1) by (simp add: b'_def)
      moreover have "ib_snapshots b \<noteq> []" using that True gone(2) by auto
      ultimately show ?thesis using that True gone(3) grow by simp
    qed (rule cut(3))
    have full': "ib_snapshots full @ [s] = (gone @ cut) @ drop_rendered (render_time_us b') (ib_snapshots b')"
      using cut(1) gone(1) by (simp add: b'_def)
    have last': "List.last (drop_rendered (render_time_us b') (ib_snapshots b')) = s"
      using full' cut(2) by (metis last_appendR last_snoc)
    have b'': "retain b s = b'\<lparr>ib_snapshots := drop_rendered (render_time_us b') (ib_snapshots b')\<rparr>"
      using False by (simp add: retain_def b'_def)
    define kept where "kept = drop_rendered (render_time_us b') (ib_snapshots b')"
    have r: "ib_snapshots (retain b s) = kept" "ib_delay_us (retain b s) = ib_delay_us full"
      "render_time_us (retain b s) = render_time_us b'"
      using cut(2) last' delay(1) by (simp_all add: b'' render_time_us_def kept_def) (simp_all add: b'_def)
    have f: "ib_snapshots (retain_all full s) = ib_snapshots full @ [s]"
      "ib_delay_us (retain_all full s) = ib_delay_us full"
      using False by (simp_all add: retain_all_def stale)
    have sorted': "sorted_wrt (\<lambda>s t. snapshot_time s < snapshot_time t) (ib_snapshots full @ [s])"
      using sorted last_time by (simp add: sorted_wrt_append)
    have pos': "\<forall>u\<in>set (ib_snapshots full @ [s]). 0 \<le> snapshot_time u"
      using pos time by simp
    have "ib_snapshots full @ [s] = (gone @ cut) @ kept" "kept \<noteq> []"
      "gone @ cut \<noteq> [] \<longrightarrow> snapshot_time (hd kept) \<le> sint (render_time_us b')"
      using full' cut(2) hd unfolding kept_def by blast+
    with sorted' pos' delay show ?thesis
      unfolding obs pruned_def r f by (intro conjI exI [of _ "gone @ cut"]) simp_all
  qed
qed

lemma pruned_run:
  "pruned b full \<Longrightarrow> \<forall>ob\<in>set obs. 0 \<le> sint (observation_time ob) \<Longrightarrow>
     pruned (foldl observe b obs) (foldl observe_all full obs)"
  by (induction obs arbitrary: b full) (simp_all add: pruned_observe)

lemma time_bracket_append:
  assumes "ss \<noteq> []" "\<forall>s\<in>set gone. snapshot_time s \<le> t" "snapshot_time (hd ss) \<le> t"
  shows "time_bracket t (gone @ ss) = time_bracket t ss"
  using assms(2)
proof (induction gone)
  case (Cons g gone)
  then show ?case using assms(1,3) by (cases gone; cases ss) auto
qed simp

lemma pruned_sample:
  assumes "pruned b full" "sint (render_time_us b) \<le> sint t"
    "sint t \<notin> snapshot_time ` set (ib_snapshots full)"
  shows "sample b wid t = sample full wid t"
proof -
  obtain gone where gone: "ib_snapshots full = gone @ ib_snapshots b" "ib_snapshots b = [] \<Longrightarrow> gone = []"
    "gone \<noteq> [] \<Longrightarrow> snapshot_time (hd (ib_snapshots b)) \<le> sint (render_time_us b)"
    and sorted: "sorted_wrt (\<lambda>s t. snapshot_time s < snapshot_time t) (ib_snapshots full)"
    using assms(1) by (auto simp: pruned_def)
  show ?thesis
  proof (cases gone)
    case Nil
    then show ?thesis using gone(1) by (simp add: sample_def)
  next
    case (Cons g gs)
    then obtain s ss where s: "ib_snapshots b = s # ss" using gone(2) by (cases "ib_snapshots b") auto
    have le: "snapshot_time s < sint t"
      using gone(1,3) assms(2,3) s Cons by (force simp: le_less)
    have less: "\<forall>u\<in>set gone. snapshot_time u < snapshot_time s"
      using sorted gone(1) s by (simp add: sorted_wrt_append)
    then have "time_bracket (sint t) (gone @ s # ss) = time_bracket (sint t) (s # ss)"
      using le by (intro time_bracket_append) fastforce+
    moreover have "\<not> sint t \<le> snapshot_time g" using less le Cons by auto
    ultimately show ?thesis using le by (simp add: sample_def gone(1) s Cons)
  qed
qed


definition example_wire_keyframe :: "i64 \<Rightarrow> WireKeyframe" where
  "example_wire_keyframe t =
     \<lparr>wk_stream_epoch = 1, wk_stream_sequence = 1, wk_snapshot_id = 1, wk_baseline_snapshot_id = 0,
      wk_tick = 1, wk_simulation_time_us = t, wk_entities = []\<rparr>"


end
