(* ===== verification/World_Pointers.thy ===== *)
theory World_Pointers
  imports World_Refinement
begin

text \<open>
  Raw pointers into the world. The projection engine keeps the addresses of all objects between two
  ticks and trusts them while the number of objects, \<open>erase_revision\<close> and \<open>storage_revision\<close> are
  unchanged. The theorem shows that this is sound for the storage of \<^verbatim>\<open>libs/world_model/world.cpp\<close>.
\<close>

definition object_addrs :: "World \<Rightarrow> (WorldId, addr) fmap" where
  "object_addrs w = fmmap entry_object (objects w)"

definition addrs_kept :: "World \<Rightarrow> World \<Rightarrow> bool" where
  "addrs_kept w w' \<longleftrightarrow> (\<forall>i a. fmlookup (object_addrs w) i = Some a \<longrightarrow> fmlookup (object_addrs w') i = Some a)"

lemma addrs_kept_refl [simp]: "addrs_kept w w"
  by (simp add: addrs_kept_def)

lemma addrs_kept_trans: "addrs_kept a b \<Longrightarrow> addrs_kept b c \<Longrightarrow> addrs_kept a c"
  by (simp add: addrs_kept_def)

text \<open>Every operation bumps a revision or keeps all addresses.\<close>

definition pointer_step :: "World \<Rightarrow> World \<Rightarrow> bool" where
  "pointer_step w w' \<longleftrightarrow>
     storage_revision w' = storage_revision w + 1 \<or>
     storage_revision w' = storage_revision w \<and>
       (erase_revision w' = erase_revision w + 1 \<or>
        erase_revision w' = erase_revision w \<and> addrs_kept w w')"

lemma pointer_step_refl [simp]: "pointer_step w w"
  by (simp add: pointer_step_def)

lemma pointer_step_writable:
  assumes "writable_find w i = (a, w1)" "heap w2 = h" "objects w2 = objects w1"
    "storage_revision w2 = storage_revision w1" "erase_revision w2 = erase_revision w1"
  shows "pointer_step w w2"
  using assms
  by (auto simp: writable_find_def pointer_step_def addrs_kept_def object_addrs_def store_def
      split: option.splits if_splits)

lemma pointer_step_op: "pointer_step w (snd (world_op persistent w p))"
proof (cases p)
  case (OpInsert obj)
  then show ?thesis
    by (auto simp: world_insert_def Let_def pointer_step_def addrs_kept_def object_addrs_def store_def entry_defs)
next
  case (OpErase i)
  then show ?thesis by (simp add: world_erase_def pointer_step_def)
next
  case (OpUpdate i f)
  then show ?thesis
    by (simp add: world_update_def pointer_step_def split: option.split)
next
  case (OpSetProperty i k v)
  obtain a w1 where w1: "writable_find w i = (a, w1)" by fastforce
  then show ?thesis
    using OpSetProperty
    by (auto simp: set_property_def Let_def intro!: pointer_step_writable [OF w1] split: option.split)
next
  case (OpAddRelation i r)
  obtain a w1 where w1: "writable_find w i = (a, w1)" by fastforce
  then show ?thesis
    using OpAddRelation
    by (auto simp: add_relation_def Let_def intro!: pointer_step_writable [OF w1] split: option.split)
next
  case (OpRestore objs n e)
  then show ?thesis by (simp add: world_restore_def pointer_step_def)
next
  case OpFreeze
  then show ?thesis
    by (auto simp: freeze_snapshot_def pointer_step_def addrs_kept_def object_addrs_def split: prod.split)
qed

text \<open>The revisions count, so unchanged revisions mean that nothing was counted.\<close>

lemma pointer_run:
  "\<exists>n \<le> length ps. storage_revision (world_run persistent w ps) = storage_revision w + of_nat n \<and>
     (n = 0 \<longrightarrow> (\<exists>m \<le> length ps. erase_revision (world_run persistent w ps) = erase_revision w + of_nat m \<and>
        (m = 0 \<longrightarrow> addrs_kept w (world_run persistent w ps))))"
proof (induction ps arbitrary: w)
  case (Cons p ps)
  let ?w = "snd (world_op persistent w p)"
  obtain n where n: "n \<le> length ps"
    "storage_revision (world_run persistent ?w ps) = storage_revision ?w + of_nat n"
    "n = 0 \<longrightarrow> (\<exists>m \<le> length ps. erase_revision (world_run persistent ?w ps) = erase_revision ?w + of_nat m \<and>
        (m = 0 \<longrightarrow> addrs_kept ?w (world_run persistent ?w ps)))"
    using Cons.IH [of ?w] by blast
  consider (storage) "storage_revision ?w = storage_revision w + 1"
    | (erase) "storage_revision ?w = storage_revision w" "erase_revision ?w = erase_revision w + 1"
    | (kept) "storage_revision ?w = storage_revision w" "erase_revision ?w = erase_revision w" "addrs_kept w ?w"
    using pointer_step_op [of w persistent p] by (auto simp: pointer_step_def)
  then show ?case
  proof cases
    case storage
    with n show ?thesis by (intro exI [of _ "Suc n"]) simp
  next
    case erase
    show ?thesis
    proof (rule exI [of _ n], intro conjI impI)
      assume "n = 0"
      with n(3) obtain m where "m \<le> length ps"
        "erase_revision (world_run persistent ?w ps) = erase_revision ?w + of_nat m" by blast
      with erase show "\<exists>m \<le> length (p # ps). erase_revision (world_run persistent w (p # ps)) =
          erase_revision w + of_nat m \<and> (m = 0 \<longrightarrow> addrs_kept w (world_run persistent w (p # ps)))"
        by (intro exI [of _ "Suc m"]) simp
    qed (use n erase in simp_all)
  next
    case kept
    show ?thesis
    proof (rule exI [of _ n], intro conjI impI)
      assume "n = 0"
      with n(3) obtain m where "m \<le> length ps"
        "erase_revision (world_run persistent ?w ps) = erase_revision ?w + of_nat m"
        "m = 0 \<longrightarrow> addrs_kept ?w (world_run persistent ?w ps)" by blast
      with kept show "\<exists>m \<le> length (p # ps). erase_revision (world_run persistent w (p # ps)) =
          erase_revision w + of_nat m \<and> (m = 0 \<longrightarrow> addrs_kept w (world_run persistent w (p # ps)))"
        by (intro exI [of _ m]) (auto intro: addrs_kept_trans)
    qed (use n kept in simp_all)
  qed
qed simp

lemma addrs_kept_same_size:
  assumes "addrs_kept w w'" "world_size w' = world_size w"
  shows "object_addrs w' = object_addrs w"
proof (rule fmap_ext)
  fix i
  have sub: "fmdom (objects w) |\<subseteq>| fmdom (objects w')"
    using assms(1) by (force simp: addrs_kept_def object_addrs_def fmlookup_dom_iff less_eq_fset.rep_eq)
  have "fmdom (objects w) = fmdom (objects w')"
    using fcard_seteq [OF sub] assms(2) by (simp add: world_size_def fm_size_def)
  then have "fmlookup (objects w) i = None \<longleftrightarrow> fmlookup (objects w') i = None"
    by (metis fmdom_notD fmdom_notI)
  then show "fmlookup (object_addrs w') i = fmlookup (object_addrs w) i"
    using assms(1) by (cases "fmlookup (objects w) i") (auto simp: addrs_kept_def object_addrs_def)
qed

lemma addrs_unchanged:
  assumes "w' = world_run persistent w ps" "length ps < 2 ^ 64"
    and "world_size w' = world_size w" "storage_revision w' = storage_revision w"
      "erase_revision w' = erase_revision w"
  shows "object_addrs w' = object_addrs w"
proof -
  have zero: "n = 0" if "n \<le> length ps" "x = x + of_nat n" for n and x :: u64
  proof -
    have "(of_nat n :: u64) = of_nat 0" using that(2) by simp
    then show ?thesis using that(1) assms(2) by (simp only: of_nat_u64_inject)
  qed
  obtain n where n: "n \<le> length ps" "storage_revision w' = storage_revision w + of_nat n"
    "n = 0 \<longrightarrow> (\<exists>m \<le> length ps. erase_revision w' = erase_revision w + of_nat m \<and> (m = 0 \<longrightarrow> addrs_kept w w'))"
    using pointer_run [of ps persistent w] assms(1) by blast
  with zero [of n] assms(4) obtain m where "m \<le> length ps"
    "erase_revision w' = erase_revision w + of_nat m" "m = 0 \<longrightarrow> addrs_kept w w'" by metis
  with zero [of m] assms(5) have "addrs_kept w w'" by metis
  then show ?thesis using assms(3) by (rule addrs_kept_same_size)
qed

text \<open>
  C4: cached object pointers stay valid. After any fewer than \<open>2 ^ 64\<close> operations on the world
  (inserts, erasures, in-place and copy-on-write mutations, restores, freezes), if the number of
  objects and the two revision counters are what they were, every object is at the address it was
  at, and there are no others; so whoever keeps raw pointers needs to compare only these three.
\<close>

theorem object_pointers_stay_valid:
  assumes "w' = world_run persistent w ps" "length ps < 2 ^ 64"
    and "world_size w' = world_size w" "storage_revision w' = storage_revision w"
      "erase_revision w' = erase_revision w"
  shows "object_addrs w' = object_addrs w"
  by (rule addrs_unchanged [OF assms])

theorem object_pointers_stay_valid_witness:
  "object_addrs (world_run True (snd (world_insert empty_world (example_object 7)))
     [OpSetProperty (WorldId 7) ''hp'' (VInt64 5), OpErase (WorldId 9)]) =
   object_addrs (snd (world_insert empty_world (example_object 7)))"
  by (rule object_pointers_stay_valid [OF refl])
    (simp_all add: world_insert_def empty_world_def example_object_def entry_defs store_def set_property_def
      writable_find_def world_erase_def world_size_def fm_size_def Let_def)

end
