(* ===== verification/Projection_Engine.thy ===== *)
theory Projection_Engine
  imports Projection_Fids World_Pointers Debug
begin

text \<open>
  \<^verbatim>\<open>libs/projection/engine.cpp\<close>, the engine as a whole: \<open>on_projection\<close> scans the world for changed
  objects through cached pointers and a cache of what it last saw, projects and hashes only those,
  keeps the spatial index, removes what was erased, records the change set and builds the frame of
  every connection.

  The thread pool splits the same loops over workers that write disjoint slots; the model is the
  serial order. \<open>std::shared_ptr<const ProjectedEntity>\<close> is the entity, it is never written.
\<close>

section \<open>State\<close>

record SnapshotChangeSet =
  ch_snapshot_id :: u64
  ch_changed :: "(WorldId \<times> ProjectedEntity) list"
  ch_removed :: "WorldId list"

record ScanEntry =
  sc_wid :: WorldId
  sc_source_revision :: u64
  sc_source_version :: u64
  sc_source_position :: PositionEcef
  sc_policy_version :: u64

record ProjectionEngine =
  eg_config :: ProjectionConfig
  eg_policy :: ProjectionPolicy
  eg_relevance_filter :: "(ConnectionId \<Rightarrow> WorldObject \<Rightarrow> bool) option"
  eg_enu_origin_geodetic :: Geodetic
  eg_spatial :: DynamicCellIndex
  eg_latest_snapshot_id :: u64
  eg_last_processed_tick :: u64
  eg_spatial_revision :: u64
  eg_seen_erase_revision :: u64
  eg_global_view :: GlobalView
  eg_history :: "SnapshotChangeSet list"
  eg_connections :: Connections
  eg_pending_frames :: "(ConnectionId, StateFrame option) fmap"
  eg_visible_caches :: "(ConnectionId, VisibleCache) fmap"
  eg_throttle_pending :: "(ConnectionId, WorldId fset) fmap"
  eg_tick_changed_wids :: "WorldId list"
  eg_world_snapshot :: "addr list"
  eg_world_snapshot_erase_revision :: u64
  eg_world_snapshot_storage_revision :: u64
  eg_scan_cache :: "ScanEntry list"
  eg_scan_cache_dirty :: bool

definition projection_engine :: "Libm \<Rightarrow> ProjectionConfig \<Rightarrow> ProjectionPolicy \<Rightarrow> ProjectionEngine" where
  "projection_engine libm config policy =
     \<lparr>eg_config = config, eg_policy = policy, eg_relevance_filter = None,
      eg_enu_origin_geodetic = ecef_to_geodetic libm (pc_enu_origin config),
      eg_spatial = dynamic_index (pc_cell_grid config) 0 f64_0, eg_latest_snapshot_id = 0,
      eg_last_processed_tick = 0, eg_spatial_revision = 0, eg_seen_erase_revision = 0,
      eg_global_view = fmempty, eg_history = [], eg_connections = fmempty,
      eg_pending_frames = fmempty, eg_visible_caches = fmempty, eg_throttle_pending = fmempty,
      eg_tick_changed_wids = [], eg_world_snapshot = [], eg_world_snapshot_erase_revision = 0,
      eg_world_snapshot_storage_revision = 0, eg_scan_cache = [], eg_scan_cache_dirty = True\<rparr>"

definition set_relevance_filter ::
  "ProjectionEngine \<Rightarrow> (ConnectionId \<Rightarrow> WorldObject \<Rightarrow> bool) option \<Rightarrow> ProjectionEngine" where
  "set_relevance_filter e f = e\<lparr>eg_relevance_filter := f\<rparr>"

definition remove_connection :: "ProjectionEngine \<Rightarrow> ConnectionId \<Rightarrow> bool \<times> ProjectionEngine" where
  "remove_connection e i =
     (fm_has (eg_connections e) i,
      e\<lparr>eg_pending_frames := fmdrop i (eg_pending_frames e),
        eg_visible_caches := fmdrop i (eg_visible_caches e),
        eg_throttle_pending := fmdrop i (eg_throttle_pending e),
        eg_connections := fmdrop i (eg_connections e)\<rparr>)"

definition next_frame :: "ProjectionEngine \<Rightarrow> ConnectionId \<Rightarrow> StateFrame option \<times> ProjectionEngine" where
  "next_frame e i =
     (case fmlookup (eg_pending_frames e) i of
        None \<Rightarrow> (None, e)
      | Some frame \<Rightarrow> (frame, e\<lparr>eg_pending_frames := fmdrop i (eg_pending_frames e)\<rparr>))"

section \<open>The caches of the scan\<close>

text \<open>Pointers to all objects, in ascending id; rebuilt when the world says it may have moved them.\<close>

definition world_pointers :: "World \<Rightarrow> addr list" where
  "world_pointers w =
     stable_sort (lt_key (\<lambda>a. wo_id (heap w ! a))) (map entry_object (fm_values (objects w)))"

definition refresh_world_snapshot :: "ProjectionEngine \<Rightarrow> World \<Rightarrow> ProjectionEngine" where
  "refresh_world_snapshot e w =
     (if length (eg_world_snapshot e) \<noteq> world_size w
         \<or> eg_world_snapshot_erase_revision e \<noteq> erase_revision w
         \<or> eg_world_snapshot_storage_revision e \<noteq> storage_revision w
      then e\<lparr>eg_world_snapshot := world_pointers w,
             eg_world_snapshot_erase_revision := erase_revision w,
             eg_world_snapshot_storage_revision := storage_revision w\<rparr>
      else e)"

definition scan_entry :: "WorldId \<Rightarrow> EntityState \<Rightarrow> ScanEntry" where
  "scan_entry wid st =
     \<lparr>sc_wid = wid, sc_source_revision = es_source_revision st,
      sc_source_version = es_source_version st, sc_source_position = es_source_position st,
      sc_policy_version = es_policy_version st\<rparr>"

definition refresh_scan_cache :: "ProjectionEngine \<Rightarrow> ProjectionEngine" where
  "refresh_scan_cache e =
     (if eg_scan_cache_dirty e then
        e\<lparr>eg_scan_cache := stable_sort (lt_key sc_wid)
            (map (\<lambda>(wid, st). scan_entry wid st) (fm_items (eg_global_view e))),
          eg_scan_cache_dirty := False\<rparr>
      else e)"

section \<open>The scan\<close>

text \<open>An object to project: whether it moved, and its entry in the scan cache.\<close>

record DirtyObject =
  do_object :: WorldObject
  do_moved :: bool
  do_cache_index :: "nat option"

function skip_entries :: "ScanEntry list \<Rightarrow> nat \<Rightarrow> WorldId \<Rightarrow> nat" where
  "skip_entries cache cursor wid =
     (if cursor < length cache \<and> sc_wid (cache ! cursor) < wid
      then skip_entries cache (cursor + 1) wid else cursor)"
  by pat_completeness auto

termination
  by (relation "measure (\<lambda>(cache, cursor, _). length cache - cursor)") auto

declare skip_entries.simps [simp del]

definition entry_unchanged :: "u64 \<Rightarrow> ScanEntry \<Rightarrow> WorldObject \<Rightarrow> bool" where
  "entry_unchanged policy_version entry obj \<longleftrightarrow>
     sc_source_revision entry = wo_revision obj \<and> sc_source_version entry = wo_version obj \<and>
     sc_policy_version entry = policy_version \<and> sc_source_position entry = wo_position obj"

fun dirty_scan :: "u64 \<Rightarrow> ScanEntry list \<Rightarrow> nat \<Rightarrow> WorldObject list \<Rightarrow> DirtyObject list" where
  "dirty_scan policy_version cache cursor [] = []"
| "dirty_scan policy_version cache cursor (obj # objs) =
     (let cursor = skip_entries cache cursor (wo_id obj);
          known = (cursor < length cache \<and> sc_wid (cache ! cursor) = wo_id obj)
      in if known \<and> entry_unchanged policy_version (cache ! cursor) obj
         then dirty_scan policy_version cache cursor objs
         else \<lparr>do_object = obj,
               do_moved = (\<not> known \<or> sc_source_position (cache ! cursor) \<noteq> wo_position obj),
               do_cache_index = (if known then Some cursor else None)\<rparr>
              # dirty_scan policy_version cache cursor objs)"

text \<open>Projecting, hashing and placing one object; pure, and done in parallel by the code.\<close>

record ProjectedSlot =
  sl_projected :: ProjectedEntity
  sl_hash :: u64
  sl_enu :: Enu

definition compute_projected :: "Libm \<Rightarrow> ProjectionEngine \<Rightarrow> DirtyObject \<Rightarrow> ProjectedSlot" where
  "compute_projected libm e d =
     (let projected = policy_project (eg_policy e) (do_object d) in
      \<lparr>sl_projected = projected, sl_hash = projected_entity_hash projected,
       sl_enu = (if do_moved d
         then ecef_to_enu libm (pc_enu_origin (eg_config e)) (eg_enu_origin_geodetic e)
                (wo_position (do_object d))
         else zero_enu)\<rparr>)"

definition sync_cache_entry :: "u64 \<Rightarrow> DirtyObject \<Rightarrow> ScanEntry list \<Rightarrow> ScanEntry list" where
  "sync_cache_entry policy_version d cache =
     (case do_cache_index d of
        None \<Rightarrow> cache
      | Some k \<Rightarrow> cache[k := (cache ! k)
          \<lparr>sc_source_revision := wo_revision (do_object d), sc_source_version := wo_version (do_object d),
           sc_source_position := wo_position (do_object d), sc_policy_version := policy_version\<rparr>])"

text \<open>The merge of one projected object into the engine and the change set.\<close>

definition merge_object ::
  "Libm \<Rightarrow> u64 \<Rightarrow> ProjectionEngine \<times> (WorldId \<times> ProjectedEntity) list \<Rightarrow> DirtyObject \<Rightarrow>
     ProjectionEngine \<times> (WorldId \<times> ProjectedEntity) list" where
  "merge_object libm policy_version = (\<lambda>(e, changed) d.
     let obj = do_object d; slot = compute_projected libm e d;
         existing = fmlookup (eg_global_view e) (wo_id obj) in
     if existing \<noteq> None \<and> es_hash (the existing) = sl_hash slot then
       let st = (the existing)\<lparr>es_source_revision := wo_revision obj,
                               es_source_version := wo_version obj,
                               es_policy_version := policy_version\<rparr>
       in (e\<lparr>eg_global_view := fmupd (wo_id obj) st (eg_global_view e),
             eg_scan_cache := sync_cache_entry policy_version d (eg_scan_cache e)\<rparr>, changed)
     else
       let enu = (if do_moved d then sl_enu slot
                  else case existing of None \<Rightarrow> zero_enu | Some st \<Rightarrow> es_enu st);
           e = (if do_moved d
                then e\<lparr>eg_spatial := snd (index_upsert (eg_spatial e) (wo_id obj) enu),
                       eg_spatial_revision := eg_spatial_revision e + 1\<rparr> else e);
           st = \<lparr>es_projected = sl_projected slot, es_hash = sl_hash slot, es_enu = enu,
                 es_source_revision = wo_revision obj, es_source_version = wo_version obj,
                 es_source_position = wo_position obj, es_policy_version = policy_version\<rparr>;
           e = e\<lparr>eg_global_view := fmupd (wo_id obj) st (eg_global_view e)\<rparr>;
           e = (if do_cache_index d = None then e\<lparr>eg_scan_cache_dirty := True\<rparr>
                else e\<lparr>eg_scan_cache := sync_cache_entry policy_version d (eg_scan_cache e)\<rparr>)
       in (e, changed @ [(wo_id obj, sl_projected slot)]))"

definition remove_stale :: "ProjectionEngine \<Rightarrow> WorldId \<Rightarrow> ProjectionEngine" where
  "remove_stale e wid =
     e\<lparr>eg_global_view := fmdrop wid (eg_global_view e),
       eg_spatial := snd (dynamic_erase (eg_spatial e) wid),
       eg_spatial_revision := eg_spatial_revision e + 1\<rparr>"

definition stale_wids :: "ProjectionEngine \<Rightarrow> World \<Rightarrow> WorldId list" where
  "stale_wids e w = filter (\<lambda>wid. world_find w wid = None) (fm_keys (eg_global_view e))"

definition erase_stale :: "ProjectionEngine \<Rightarrow> World \<Rightarrow> ProjectionEngine \<times> WorldId list" where
  "erase_stale e w =
     (if erase_revision w \<noteq> eg_seen_erase_revision e then
        let stale = stale_wids e w;
            e = foldl remove_stale (e\<lparr>eg_seen_erase_revision := erase_revision w\<rparr>) stale
        in (if stale = [] then e else e\<lparr>eg_scan_cache_dirty := True\<rparr>, stale)
      else (e, []))"

definition push_history :: "ProjectionEngine \<Rightarrow> SnapshotChangeSet \<Rightarrow> ProjectionEngine" where
  "push_history e changes =
     (let history = eg_history e @ [changes];
          keep = unat (pc_snapshot_history_frames (eg_config e))
      in e\<lparr>eg_history := drop (length history - keep) history\<rparr>)"

text \<open>Everything before the frames.\<close>

definition project_world :: "Libm \<Rightarrow> ProjectionEngine \<Rightarrow> World \<Rightarrow> u64 \<Rightarrow> ProjectionEngine" where
  "project_world libm e w tick =
     (let e = e\<lparr>eg_latest_snapshot_id := eg_latest_snapshot_id e + 1, eg_last_processed_tick := tick\<rparr>;
          policy_version = pp_version (eg_policy e);
          e = refresh_scan_cache (refresh_world_snapshot e w);
          dirty = dirty_scan policy_version (eg_scan_cache e) 0
                    (map (\<lambda>a. heap w ! a) (eg_world_snapshot e));
          (e, changed) = foldl (merge_object libm policy_version) (e, []) dirty;
          changed = stable_sort (lt_key fst) changed;
          e = e\<lparr>eg_tick_changed_wids := map fst changed\<rparr>;
          (e, removed) = erase_stale e w
      in push_history e
           \<lparr>ch_snapshot_id = eg_latest_snapshot_id e, ch_changed = changed, ch_removed = removed\<rparr>)"

definition frame_context :: "ProjectionEngine \<Rightarrow> FrameContext" where
  "frame_context e =
     \<lparr>fc_config = eg_config e, fc_policy_version = pp_version (eg_policy e),
      fc_relevance_filter = eg_relevance_filter e, fc_spatial = eg_spatial e,
      fc_spatial_revision = eg_spatial_revision e, fc_latest_snapshot_id = eg_latest_snapshot_id e,
      fc_global_view = eg_global_view e, fc_tick_changed_wids = eg_tick_changed_wids e\<rparr>"

text \<open>\<open>visible_caches_[id]\<close> and \<open>throttle_pending_[id]\<close> start out empty.\<close>

definition connection_frame ::
  "World \<Rightarrow> u64 \<Rightarrow> ProjectionEngine option \<Rightarrow> ConnectionId \<times> ConnectionProjection \<Rightarrow> ProjectionEngine option" where
  "connection_frame w tick = (\<lambda>res (i, c).
     case res of
       None \<Rightarrow> None
     | Some e \<Rightarrow>
         let cache = (case fmlookup (eg_visible_caches e) i of None \<Rightarrow> visible_cache | Some x \<Rightarrow> x);
             pending = (case fmlookup (eg_throttle_pending e) i of None \<Rightarrow> {||} | Some x \<Rightarrow> x)
         in map_option (\<lambda>r.
              e\<lparr>eg_pending_frames := fmupd i (bf_frame r) (eg_pending_frames e),
                eg_connections := fmupd i (bf_connection r) (eg_connections e),
                eg_visible_caches := fmupd i (bf_cache r) (eg_visible_caches e),
                eg_throttle_pending := fmupd i (bf_throttle_pending r) (eg_throttle_pending e)\<rparr>)
              (build_frame (frame_context e) c cache pending w tick))"

definition on_projection ::
  "Libm \<Rightarrow> ProjectionEngine \<Rightarrow> World \<Rightarrow> u64 \<Rightarrow> u64 \<Rightarrow> ProjectionEngine option" where
  "on_projection libm e w tick state_hash =
     (let e = project_world libm e w tick
      in foldl (connection_frame w tick) (Some e) (fm_items (eg_connections e)))"

section \<open>The scan finds exactly the changed objects\<close>

lemma skip_entries_spec:
  "cursor \<le> skip_entries cache cursor wid \<and>
   (\<forall>j. cursor \<le> j \<longrightarrow> j < skip_entries cache cursor wid \<longrightarrow> sc_wid (cache ! j) < wid) \<and>
   (skip_entries cache cursor wid < length cache \<longrightarrow> wid \<le> sc_wid (cache ! skip_entries cache cursor wid))"
proof (induction cache cursor wid rule: skip_entries.induct)
  case (1 cache cursor wid)
  show ?case
  proof (cases "cursor < length cache \<and> sc_wid (cache ! cursor) < wid")
    case True
    with 1 have "Suc cursor \<le> skip_entries cache (cursor + 1) wid" by simp
    moreover have "sc_wid (cache ! j) < wid" if "cursor \<le> j" "j < skip_entries cache (cursor + 1) wid" for j
      using 1 [OF True] True that by (cases "j = cursor") auto
    ultimately show ?thesis
      using 1 [OF True] True by (subst (1 2 3 4) skip_entries.simps) auto
  next
    case False
    then show ?thesis by (subst (1 2 3 4) skip_entries.simps) auto
  qed
qed

fun cache_pos :: "ScanEntry list \<Rightarrow> WorldId \<Rightarrow> nat option" where
  "cache_pos [] wid = None"
| "cache_pos (x # xs) wid = (if sc_wid x = wid then Some 0 else map_option Suc (cache_pos xs wid))"

definition cache_sorted :: "ScanEntry list \<Rightarrow> bool" where
  "cache_sorted cache \<longleftrightarrow> sorted_wrt (\<lambda>x y. sc_wid x < sc_wid y) cache"

lemma cache_pos_Some:
  "cache_pos cache wid = Some k \<Longrightarrow> k < length cache \<and> sc_wid (cache ! k) = wid"
  by (induction cache arbitrary: k) (auto split: if_splits)

lemma cache_pos_None: "cache_pos cache wid = None \<longleftrightarrow> wid \<notin> sc_wid ` set cache"
  by (induction cache) auto

lemma cache_pos_nth:
  assumes "cache_sorted cache" "k < length cache"
  shows "cache_pos cache (sc_wid (cache ! k)) = Some k"
proof -
  obtain j where j: "cache_pos cache (sc_wid (cache ! k)) = Some j"
    using assms(2) cache_pos_None [of cache "sc_wid (cache ! k)"]
    by (cases "cache_pos cache (sc_wid (cache ! k))") auto
  with cache_pos_Some [OF this] have "j = k"
    using assms by (auto simp: cache_sorted_def sorted_wrt_iff_nth_less neq_iff) (metis linorder_neqE_nat order_less_irrefl)
  with j show ?thesis by simp
qed

definition dirty_of :: "u64 \<Rightarrow> ScanEntry list \<Rightarrow> WorldObject \<Rightarrow> DirtyObject option" where
  "dirty_of policy_version cache obj =
     (case cache_pos cache (wo_id obj) of
        None \<Rightarrow> Some \<lparr>do_object = obj, do_moved = True, do_cache_index = None\<rparr>
      | Some k \<Rightarrow>
          if entry_unchanged policy_version (cache ! k) obj then None
          else Some \<lparr>do_object = obj, do_moved = (sc_source_position (cache ! k) \<noteq> wo_position obj),
                     do_cache_index = Some k\<rparr>)"

lemma dirty_scan_eq:
  assumes "cache_sorted cache" "sorted_wrt (\<lambda>x y. wo_id x < wo_id y) objs"
    and "\<And>j obj. j < cursor \<Longrightarrow> obj \<in> set objs \<Longrightarrow> j < length cache \<Longrightarrow> sc_wid (cache ! j) < wo_id obj"
  shows "dirty_scan pv cache cursor objs = List.map_filter (dirty_of pv cache) objs"
  using assms(2,3)
proof (induction objs arbitrary: cursor)
  case (Cons obj objs)
  define k where "k = skip_entries cache cursor (wo_id obj)"
  note k = skip_entries_spec [of cursor cache "wo_id obj", folded k_def]
  have before: "sc_wid (cache ! j) < wo_id obj" if "j < k" "j < length cache" for j
    using k Cons.prems(2) [of j obj] that by (cases "j < cursor") auto
  have later: "sc_wid (cache ! j) < wo_id obj'" if "j < k" "obj' \<in> set objs" "j < length cache" for j obj'
    using before [OF that(1,3)] Cons.prems(1) that(2) by auto
  have IH: "dirty_scan pv cache k objs = List.map_filter (dirty_of pv cache) objs"
    using Cons.IH [of k] Cons.prems(1) later by simp
  show ?case
  proof (cases "k < length cache \<and> sc_wid (cache ! k) = wo_id obj")
    case True
    with cache_pos_nth [OF assms(1), of k] have "cache_pos cache (wo_id obj) = Some k" by simp
    then have "dirty_of pv cache obj =
        (if entry_unchanged pv (cache ! k) obj then None
         else Some \<lparr>do_object = obj, do_moved = (sc_source_position (cache ! k) \<noteq> wo_position obj),
                    do_cache_index = Some k\<rparr>)" by (simp add: dirty_of_def)
    with True IH show ?thesis
      by (simp add: Let_def k_def [symmetric] map_filter_simps)
  next
    case False
    have "cache_pos cache (wo_id obj) \<noteq> Some j" for j
    proof
      assume "cache_pos cache (wo_id obj) = Some j"
      then have j: "j < length cache" "sc_wid (cache ! j) = wo_id obj" using cache_pos_Some by auto
      with before [of j] have "k \<le> j" by (metis not_le order_less_irrefl)
      with j False have "k < j" by (auto simp: le_less)
      then have "sc_wid (cache ! k) < sc_wid (cache ! j)"
        using assms(1) j(1) by (simp add: cache_sorted_def sorted_wrt_iff_nth_less)
      with k j(2) \<open>k < j\<close> j(1) show False by auto
    qed
    then have "cache_pos cache (wo_id obj) = None" by (cases "cache_pos cache (wo_id obj)") auto
    then have "dirty_of pv cache obj = Some \<lparr>do_object = obj, do_moved = True, do_cache_index = None\<rparr>"
      by (simp add: dirty_of_def)
    with False IH show ?thesis
      by (auto simp add: Let_def k_def [symmetric] map_filter_simps)
  qed
qed (simp add: map_filter_simps)

section \<open>The invariant of the engine\<close>

definition enu_of :: "Libm \<Rightarrow> ProjectionEngine \<Rightarrow> PositionEcef \<Rightarrow> Enu" where
  "enu_of libm e p = ecef_to_enu libm (pc_enu_origin (eg_config e)) (eg_enu_origin_geodetic e) p"

text \<open>What a full recomputation would store for an object.\<close>

definition fresh_state :: "Libm \<Rightarrow> ProjectionEngine \<Rightarrow> WorldObject \<Rightarrow> EntityState" where
  "fresh_state libm e obj =
     \<lparr>es_projected = policy_project (eg_policy e) obj,
      es_hash = projected_entity_hash (policy_project (eg_policy e) obj),
      es_enu = enu_of libm e (wo_position obj), es_source_revision = wo_revision obj,
      es_source_version = wo_version obj, es_source_position = wo_position obj,
      es_policy_version = pp_version (eg_policy e)\<rparr>"

definition state_ok :: "Libm \<Rightarrow> ProjectionEngine \<Rightarrow> EntityState \<Rightarrow> bool" where
  "state_ok libm e st \<longleftrightarrow>
     es_hash st = projected_entity_hash (es_projected st) \<and>
     es_enu st = enu_of libm e (es_source_position st) \<and>
     pe_position (es_projected st) = es_source_position st"

definition cache_of :: "GlobalView \<Rightarrow> ScanEntry list" where
  "cache_of g = map (\<lambda>(wid, st). scan_entry wid st) (fm_items g)"

definition located :: "ProjectionEngine \<Rightarrow> WorldId \<Rightarrow> CellKey option" where
  "located e wid =
     (if wid_valid wid then map_option (\<lambda>st. index_cell (eg_spatial e) (es_enu st)) (fmlookup (eg_global_view e) wid)
      else None)"

definition engine_ok :: "Libm \<Rightarrow> ProjectionEngine \<Rightarrow> bool" where
  "engine_ok libm e \<longleftrightarrow>
     (\<forall>wid st. fmlookup (eg_global_view e) wid = Some st \<longrightarrow> state_ok libm e st) \<and>
     (eg_scan_cache_dirty e \<or> eg_scan_cache e = cache_of (eg_global_view e)) \<and>
     index_ok (eg_spatial e) \<and> fmlookup (di_locations (eg_spatial e)) = located e"

lemma state_ok_fresh [simp]: "state_ok libm e (fresh_state libm e obj)"
  by (simp add: state_ok_def fresh_state_def policy_project_def)

lemma engine_ok_new: "engine_ok libm (projection_engine libm config policy)"
  by (simp add: engine_ok_def projection_engine_def located_def fun_eq_iff)
    (simp add: dynamic_index_def)

lemma cache_sorted_cache_of [simp]: "cache_sorted (cache_of g)"
proof -
  have "map sc_wid (cache_of g) = fm_keys g"
    by (simp add: cache_of_def fm_items_def scan_entry_def comp_def)
  then have "sorted_wrt (<) (map sc_wid (cache_of g))" by (simp add: strict_sorted_iff)
  then show ?thesis by (simp add: cache_sorted_def sorted_wrt_map)
qed

lemma length_cache_of [simp]: "length (cache_of g) = fm_size g"
  by (simp add: cache_of_def)

lemma cache_pos_cache_of:
  "cache_pos (cache_of g) wid = None \<longleftrightarrow> fmlookup g wid = None"
  "cache_pos (cache_of g) wid = Some k \<Longrightarrow>
     k < length (cache_of g) \<and> cache_of g ! k = scan_entry wid (the (fmlookup g wid)) \<and> fmlookup g wid \<noteq> None"
proof -
  have wids: "sc_wid ` set (cache_of g) = fset (fmdom g)"
    by (auto simp: cache_of_def scan_entry_def image_image set_fm_items fmlookup_dom_iff image_iff)
  show "cache_pos (cache_of g) wid = None \<longleftrightarrow> fmlookup g wid = None"
    by (simp add: cache_pos_None wids fmdom_notI fmdom_notD flip: fmdom_notD) (metis fmdom_notD fmdom_notI)
  assume "cache_pos (cache_of g) wid = Some k"
  from cache_pos_Some [OF this] have k: "k < length (cache_of g)" "sc_wid (cache_of g ! k) = wid" by auto
  then have "k < length (fm_items g)" by (simp add: cache_of_def)
  moreover obtain v st where item: "fm_items g ! k = (v, st)" by fastforce
  ultimately have "(v, st) \<in> set (fm_items g)" by (metis nth_mem)
  with k item show "k < length (cache_of g) \<and> cache_of g ! k = scan_entry wid (the (fmlookup g wid)) \<and>
      fmlookup g wid \<noteq> None"
    by (simp add: cache_of_def set_fm_items) (simp add: scan_entry_def)
qed


lemma fm_items_upd_known:
  assumes "fmlookup m k = Some x"
  shows "fm_items (fmupd k v m) = map (\<lambda>(i, y). (i, if i = k then v else y)) (fm_items m)"
proof -
  have "fmdom (fmupd k v m) = fmdom m" using assms by (auto simp: fmlookup_dom_iff)
  then have "fm_keys (fmupd k v m) = fm_keys m" by (simp only: fm_keys_def)
  then show ?thesis by (auto simp: fm_items_def)
qed

lemma cache_of_upd:
  assumes "cache_pos (cache_of g) wid = Some k"
  shows "cache_of (fmupd wid st g) = (cache_of g)[k := scan_entry wid st]"
proof (rule nth_equalityI)
  note pos = cache_pos_cache_of(2) [OF assms]
  then obtain old where old: "fmlookup g wid = Some old" by auto
  note items = fm_items_upd_known [OF old, of st]
  show len: "length (cache_of (fmupd wid st g)) = length ((cache_of g)[k := scan_entry wid st])"
    by (simp add: cache_of_def items)
  fix j assume "j < length (cache_of (fmupd wid st g))"
  then have j: "j < length (cache_of g)" using len by simp
  obtain i y where iy: "fm_items g ! j = (i, y)" by fastforce
  have cj: "cache_of g ! j = scan_entry i y" using j iy by (simp add: cache_of_def)
  then have "cache_pos (cache_of g) i = Some j"
    using cache_pos_nth [OF cache_sorted_cache_of j] by (simp add: scan_entry_def)
  then have "j = k" if "i = wid" using that assms by simp
  moreover have "i = wid" if "j = k"
    using that cj pos by (simp add: scan_entry_def)
  moreover have "cache_of (fmupd wid st g) ! j = scan_entry i (if i = wid then st else y)"
    using j iy by (simp add: cache_of_def items)
  ultimately show "cache_of (fmupd wid st g) ! j = (cache_of g)[k := scan_entry wid st] ! j"
    using cj j by (cases "j = k") auto
qed

section \<open>Merging\<close>

text \<open>What the scan guarantees of an object it hands to the merge.\<close>

definition dirty_known :: "ProjectionEngine \<Rightarrow> WorldObject \<Rightarrow> DirtyObject \<Rightarrow> bool" where
  "dirty_known e obj d \<longleftrightarrow> do_object d = obj \<and>
     (case fmlookup (eg_global_view e) (wo_id obj) of
        None \<Rightarrow> do_moved d \<and> do_cache_index d = None
      | Some st \<Rightarrow> do_moved d = (es_source_position st \<noteq> wo_position obj) \<and>
          (\<exists>k. do_cache_index d = Some k \<and>
             (eg_scan_cache_dirty e \<or> cache_pos (cache_of (eg_global_view e)) (wo_id obj) = Some k)))"

definition same_settings :: "ProjectionEngine \<Rightarrow> ProjectionEngine \<Rightarrow> bool" where
  "same_settings e e' \<longleftrightarrow> eg_config e' = eg_config e \<and> eg_policy e' = eg_policy e \<and>
     eg_enu_origin_geodetic e' = eg_enu_origin_geodetic e \<and>
     eg_relevance_filter e' = eg_relevance_filter e \<and> eg_connections e' = eg_connections e \<and>
     eg_seen_erase_revision e' = eg_seen_erase_revision e \<and>
     eg_latest_snapshot_id e' = eg_latest_snapshot_id e \<and> eg_history e' = eg_history e \<and>
     eg_world_snapshot e' = eg_world_snapshot e \<and>
     eg_world_snapshot_erase_revision e' = eg_world_snapshot_erase_revision e \<and>
     eg_world_snapshot_storage_revision e' = eg_world_snapshot_storage_revision e"

lemma same_settings_refl [simp]: "same_settings e e"
  by (simp add: same_settings_def)

lemma same_settings_trans: "same_settings a b \<Longrightarrow> same_settings b c \<Longrightarrow> same_settings a c"
  by (simp add: same_settings_def)

lemma fresh_state_cong:
  "same_settings e e' \<Longrightarrow> fresh_state libm e' = fresh_state libm e"
  by (simp add: fun_eq_iff fresh_state_def enu_of_def same_settings_def)

lemma state_ok_cong: "same_settings e e' \<Longrightarrow> state_ok libm e' = state_ok libm e"
  by (simp add: fun_eq_iff state_ok_def enu_of_def same_settings_def)

definition no_collision :: "ProjectionEngine \<Rightarrow> WorldObject \<Rightarrow> bool" where
  "no_collision e obj \<longleftrightarrow>
     (\<forall>st. fmlookup (eg_global_view e) (wo_id obj) = Some st \<longrightarrow>
        es_hash st = projected_entity_hash (policy_project (eg_policy e) obj) \<longrightarrow>
        es_projected st = policy_project (eg_policy e) obj)"

lemma policy_project_position [simp]: "pe_position (policy_project p obj) = wo_position obj"
  by (simp add: policy_project_def)

text \<open>Updating one object of the view, in all three places.\<close>

lemma engine_ok_upd:
  assumes ok: "engine_ok libm e" and st: "st = fresh_state libm e obj" and wid: "wid = wo_id obj"
    and settings: "same_settings e e'"
    and view: "eg_global_view e' = fmupd wid st (eg_global_view e)"
    and cache: "eg_scan_cache_dirty e' \<or> (eg_scan_cache_dirty e' = eg_scan_cache_dirty e \<and>
        (\<exists>k. cache_pos (cache_of (eg_global_view e)) wid = Some k \<and>
           (eg_scan_cache e = cache_of (eg_global_view e) \<longrightarrow>
              eg_scan_cache e' = (eg_scan_cache e)[k := scan_entry wid st])))"
    and spatial: "eg_spatial e' = snd (index_upsert (eg_spatial e) wid (es_enu st)) \<or>
        eg_spatial e' = eg_spatial e \<and> map_option es_enu (fmlookup (eg_global_view e) wid) = Some (es_enu st)"
  shows "engine_ok libm e'"
proof -
  have "state_ok libm e' x" if "fmlookup (eg_global_view e') i = Some x" for i x
    using that ok st by (auto simp: view engine_ok_def state_ok_cong [OF settings] split: if_splits)
  moreover have "eg_scan_cache_dirty e' \<or> eg_scan_cache e' = cache_of (eg_global_view e')"
    using cache ok by (auto simp: engine_ok_def view cache_of_upd)
  moreover have "index_ok (eg_spatial e')"
    using spatial ok by (auto simp: engine_ok_def index_ok_upsert)
  moreover have "fmlookup (di_locations (eg_spatial e')) i = located e' i" for i
  proof -
    have cell: "index_cell (eg_spatial e') p = index_cell (eg_spatial e) p" for p
      using spatial by (elim disjE conjE) (auto simp: frame_simps intro!: index_cell_frame)
    have old: "fmlookup (di_locations (eg_spatial e)) i = located e i"
      using ok by (simp add: engine_ok_def)
    from spatial show ?thesis
    proof
      assume "eg_spatial e' = snd (index_upsert (eg_spatial e) wid (es_enu st))"
      then have "fmlookup (di_locations (eg_spatial e')) i =
          (if wid_valid wid \<and> i = wid then Some (index_cell (eg_spatial e) (es_enu st)) else located e i)"
        using old by (auto simp: upsert_locations)
      then show ?thesis by (auto simp: located_def cell view)
    next
      assume "eg_spatial e' = eg_spatial e \<and> map_option es_enu (fmlookup (eg_global_view e) wid) = Some (es_enu st)"
      then show ?thesis using old by (auto simp: located_def view)
    qed
  qed
  ultimately show ?thesis by (simp add: engine_ok_def fun_eq_iff)
qed


lemma sync_cache_entry_scan:
  assumes "do_cache_index d = Some k" "cache_pos cache (wo_id (do_object d)) = Some k"
    and "es_source_revision st = wo_revision (do_object d)" "es_source_version st = wo_version (do_object d)"
      "es_source_position st = wo_position (do_object d)" "es_policy_version st = pv"
  shows "sync_cache_entry pv d cache = cache[k := scan_entry (wo_id (do_object d)) st]"
  using assms cache_pos_Some [OF assms(2)]
  by (cases "cache ! k") (simp add: sync_cache_entry_def scan_entry_def)

text \<open>The merge records what a recomputation from scratch would, and announces changed hashes only.\<close>

definition hash_differs :: "ProjectionEngine \<Rightarrow> WorldObject \<Rightarrow> bool" where
  "hash_differs e obj \<longleftrightarrow>
     (\<forall>st. fmlookup (eg_global_view e) (wo_id obj) = Some st \<longrightarrow>
        es_hash st \<noteq> projected_entity_hash (policy_project (eg_policy e) obj))"

lemma map_snd_upsert_location:
  "es_enu (fresh_state libm e obj) = enu_of libm e (wo_position obj)"
  by (simp add: fresh_state_def)

lemma merge_object_ok:
  assumes ok: "engine_ok libm e" and known: "dirty_known e obj d" and safe: "no_collision e obj"
    and pv: "pv = pp_version (eg_policy e)"
    and step: "merge_object libm pv (e, changed) d = (e', changed')"
  shows "engine_ok libm e' \<and> same_settings e e' \<and>
    eg_global_view e' = fmupd (wo_id obj) (fresh_state libm e obj) (eg_global_view e) \<and>
    (eg_scan_cache_dirty e \<longrightarrow> eg_scan_cache_dirty e') \<and>
    (eg_scan_cache_dirty e' \<or> fm_keys (eg_global_view e') = fm_keys (eg_global_view e)) \<and>
    changed' = changed @ (if hash_differs e obj then [(wo_id obj, policy_project (eg_policy e) obj)] else [])"
proof (cases "fmlookup (eg_global_view e) (wo_id obj)")
  case None
  then have d: "do_object d = obj" "do_moved d" "do_cache_index d = None"
    using known by (simp_all add: dirty_known_def)
  have e': "e' = e\<lparr>eg_spatial := snd (index_upsert (eg_spatial e) (wo_id obj) (enu_of libm e (wo_position obj))),
      eg_spatial_revision := eg_spatial_revision e + 1,
      eg_global_view := fmupd (wo_id obj) (fresh_state libm e obj) (eg_global_view e),
      eg_scan_cache_dirty := True\<rparr>"
    and c': "changed' = changed @ [(wo_id obj, policy_project (eg_policy e) obj)]"
    using step None d by (auto simp: merge_object_def Let_def compute_projected_def fresh_state_def enu_of_def pv)
  have settings: "same_settings e e'" by (simp add: same_settings_def e')
  have "engine_ok libm e'"
    by (rule engine_ok_upd [OF ok refl refl settings _ _ disjI1]) (simp_all add: e' map_snd_upsert_location)
  with settings show ?thesis by (simp add: c' hash_differs_def None) (simp add: e')
next
  case (Some st)
  then obtain k where d: "do_object d = obj" "do_moved d \<longleftrightarrow> es_source_position st \<noteq> wo_position obj"
      "do_cache_index d = Some k"
      "eg_scan_cache_dirty e \<or> cache_pos (cache_of (eg_global_view e)) (wo_id obj) = Some k"
    using known by (auto simp: dirty_known_def)
  have st: "state_ok libm e st" using ok Some by (simp add: engine_ok_def)
  let ?fresh = "fresh_state libm e obj"
  have fields: "es_source_revision ?fresh = wo_revision (do_object d)"
      "es_source_version ?fresh = wo_version (do_object d)"
      "es_source_position ?fresh = wo_position (do_object d)" "es_policy_version ?fresh = pv"
    by (simp_all add: fresh_state_def d pv)
  have sync: "sync_cache_entry pv d (eg_scan_cache e) = (eg_scan_cache e)[k := scan_entry (wo_id obj) ?fresh]"
    if "\<not> eg_scan_cache_dirty e" "eg_scan_cache e = cache_of (eg_global_view e)"
    using sync_cache_entry_scan [OF d(3) _ fields, of "eg_scan_cache e"] d(1,4) that by simp
  have keys: "fm_keys (fmupd (wo_id obj) v (eg_global_view e)) = fm_keys (eg_global_view e)" for v
    using fm_items_upd_known [OF Some, of v] by (simp flip: map_fst_fm_items add: comp_def split_beta)
  show ?thesis
  proof (cases "es_hash st = projected_entity_hash (policy_project (eg_policy e) obj)")
    case True
    then have same: "es_projected st = policy_project (eg_policy e) obj"
      using safe Some by (simp add: no_collision_def)
    then have pos: "es_source_position st = wo_position obj" using st by (simp add: state_ok_def)
    have fresh: "st\<lparr>es_source_revision := wo_revision obj, es_source_version := wo_version obj,
        es_policy_version := pv\<rparr> = ?fresh"
      using st same pos True by (simp add: fresh_state_def state_ok_def pv)
    have e': "e' = e\<lparr>eg_global_view := fmupd (wo_id obj) ?fresh (eg_global_view e),
        eg_scan_cache := sync_cache_entry pv d (eg_scan_cache e)\<rparr>" and c': "changed' = changed"
      using step Some True d(1) by (auto simp: merge_object_def Let_def compute_projected_def fresh)
    have settings: "same_settings e e'" by (simp add: same_settings_def e')
    have "es_enu st = es_enu ?fresh" using st pos by (simp add: state_ok_def fresh_state_def)
    then have "engine_ok libm e'"
      by (intro engine_ok_upd [OF ok refl refl settings]) (use d(4) sync Some in \<open>auto simp: e'\<close>)
    with settings show ?thesis using True by (simp add: c' hash_differs_def Some) (simp add: e' keys)
  next
    case False
    define spatial where "spatial = (if do_moved d
      then snd (index_upsert (eg_spatial e) (wo_id obj) (es_enu ?fresh)) else eg_spatial e)"
    define revision where "revision = (if do_moved d then eg_spatial_revision e + 1 else eg_spatial_revision e)"
    have enu: "(if do_moved d then enu_of libm e (wo_position obj) else es_enu st) = es_enu ?fresh"
      using st d(2) by (simp add: state_ok_def fresh_state_def)
    have fresh: "?fresh = \<lparr>es_projected = policy_project (eg_policy e) obj,
        es_hash = projected_entity_hash (policy_project (eg_policy e) obj),
        es_enu = (if do_moved d then enu_of libm e (wo_position obj) else es_enu st),
        es_source_revision = wo_revision obj, es_source_version = wo_version obj,
        es_source_position = wo_position obj, es_policy_version = pv\<rparr>"
      unfolding enu by (simp add: fresh_state_def pv)
    have e': "e' = e\<lparr>eg_spatial := spatial, eg_spatial_revision := revision,
        eg_global_view := fmupd (wo_id obj) ?fresh (eg_global_view e),
        eg_scan_cache := sync_cache_entry pv d (eg_scan_cache e)\<rparr>"
      and c': "changed' = changed @ [(wo_id obj, policy_project (eg_policy e) obj)]"
      using step Some False d(1,3) unfolding fresh spatial_def revision_def map_snd_upsert_location
      by (auto simp: merge_object_def Let_def compute_projected_def enu_of_def split: if_splits)
    have settings: "same_settings e e'" by (simp add: same_settings_def e')
    have "es_enu st = es_enu ?fresh" if "\<not> do_moved d" using enu that by simp
    then have "engine_ok libm e'"
      by (intro engine_ok_upd [OF ok refl refl settings])
        (use d(4) sync Some in \<open>auto simp: e' spatial_def\<close>)
    with settings show ?thesis using False by (simp add: c' hash_differs_def Some) (simp add: e' keys)
  qed
qed


text \<open>An object whose revision, version, position and policy version are unchanged is unchanged.\<close>

definition honest :: "ProjectionEngine \<Rightarrow> WorldObject \<Rightarrow> bool" where
  "honest e obj \<longleftrightarrow>
     (\<forall>st. fmlookup (eg_global_view e) (wo_id obj) = Some st \<longrightarrow>
        es_source_revision st = wo_revision obj \<and> es_source_version st = wo_version obj \<and>
        es_source_position st = wo_position obj \<and> es_policy_version st = pp_version (eg_policy e) \<longrightarrow>
        es_projected st = policy_project (eg_policy e) obj)"

lemma cache_pos_wids:
  "map sc_wid cache = map sc_wid cache' \<Longrightarrow> cache_pos cache wid = cache_pos cache' wid"
  by (induction cache cache' rule: list_induct2') auto

lemma cache_pos_known:
  "fmlookup g wid = Some st \<Longrightarrow> \<exists>k. cache_pos (cache_of g) wid = Some k \<and>
     k < length (cache_of g) \<and> cache_of g ! k = scan_entry wid st"
  using cache_pos_cache_of [of g wid] by (cases "cache_pos (cache_of g) wid") auto

text \<open>The scan of a cache that mirrors the view, object by object.\<close>

lemma dirty_of_skip:
  assumes ok: "engine_ok libm e" and obj: "honest e obj"
    and skip: "dirty_of (pp_version (eg_policy e)) (cache_of (eg_global_view e)) obj = None"
  shows "fmlookup (eg_global_view e) (wo_id obj) = Some (fresh_state libm e obj)" "\<not> hash_differs e obj"
proof -
  obtain st where st: "fmlookup (eg_global_view e) (wo_id obj) = Some st"
    using skip cache_pos_cache_of(1) [of "eg_global_view e" "wo_id obj"]
    by (cases "fmlookup (eg_global_view e) (wo_id obj)") (auto simp: dirty_of_def)
  obtain k where k: "cache_pos (cache_of (eg_global_view e)) (wo_id obj) = Some k"
    "cache_of (eg_global_view e) ! k = scan_entry (wo_id obj) st"
    using cache_pos_known [OF st] by (elim exE conjE)
  have same: "es_source_revision st = wo_revision obj" "es_source_version st = wo_version obj"
      "es_source_position st = wo_position obj" "es_policy_version st = pp_version (eg_policy e)"
    using skip k by (simp_all add: dirty_of_def entry_unchanged_def scan_entry_def split: if_splits)
  with obj st have "es_projected st = policy_project (eg_policy e) obj" by (simp add: honest_def)
  moreover have "state_ok libm e st" using ok st by (simp add: engine_ok_def)
  ultimately have "st = fresh_state libm e obj"
    using same by (cases st) (simp add: state_ok_def fresh_state_def)
  with st show "fmlookup (eg_global_view e) (wo_id obj) = Some (fresh_state libm e obj)" by simp
  then show "\<not> hash_differs e obj" by (simp add: hash_differs_def fresh_state_def)
qed

lemma dirty_of_known:
  assumes "dirty_of pv (cache_of (eg_global_view e)) obj = Some d"
  shows "dirty_known e obj d"
proof (cases "fmlookup (eg_global_view e) (wo_id obj)")
  case None
  with assms show ?thesis
    using cache_pos_cache_of(1) [of "eg_global_view e" "wo_id obj"]
    by (auto simp: dirty_of_def dirty_known_def)
next
  case (Some st)
  from cache_pos_known [OF this] obtain k
    where k: "cache_pos (cache_of (eg_global_view e)) (wo_id obj) = Some k"
    "cache_of (eg_global_view e) ! k = scan_entry (wo_id obj) st"
    by (elim exE conjE)
  with assms Some show ?thesis
    by (auto simp: dirty_of_def dirty_known_def scan_entry_def split: if_splits)
qed

text \<open>
  The fold over all objects. The view at the start of the tick is that of \<open>e0\<close>; the objects still
  to merge are as in \<open>e0\<close>, and positions in the cache are right until a new object appears.
\<close>

lemma dirty_known_later:
  assumes "dirty_known e0 obj d" "\<not> eg_scan_cache_dirty e0"
    and "fmlookup (eg_global_view e) (wo_id obj) = fmlookup (eg_global_view e0) (wo_id obj)"
    and "eg_scan_cache_dirty e \<or> fm_keys (eg_global_view e) = fm_keys (eg_global_view e0)"
  shows "dirty_known e obj d"
proof -
  have "map sc_wid (cache_of g) = fm_keys g" for g
    by (simp add: cache_of_def fm_items_def scan_entry_def comp_def)
  then have "cache_pos (cache_of (eg_global_view e)) i = cache_pos (cache_of (eg_global_view e0)) i"
    if "\<not> eg_scan_cache_dirty e" for i
    using that assms(4) by (intro cache_pos_wids) simp
  with assms(1-3) show ?thesis
    by (cases "eg_scan_cache_dirty e") (auto simp: dirty_known_def split: option.splits)
qed

lemma merge_fold:
  assumes e0: "\<not> eg_scan_cache_dirty e0" and pv: "pv = pp_version (eg_policy e0)"
    and start: "engine_ok libm e0"
  shows "engine_ok libm e \<Longrightarrow> same_settings e0 e \<Longrightarrow>
    eg_scan_cache_dirty e \<or> fm_keys (eg_global_view e) = fm_keys (eg_global_view e0) \<Longrightarrow>
    (\<And>obj. obj \<in> set objs \<Longrightarrow>
       fmlookup (eg_global_view e) (wo_id obj) = fmlookup (eg_global_view e0) (wo_id obj) \<and>
       honest e0 obj \<and> no_collision e0 obj) \<Longrightarrow>
    distinct (map wo_id objs) \<Longrightarrow>
    foldl (merge_object libm pv) (e, changed)
      (List.map_filter (dirty_of pv (cache_of (eg_global_view e0))) objs) = (e', changed') \<Longrightarrow>
    engine_ok libm e' \<and> same_settings e0 e' \<and>
    changed' = changed @ map (\<lambda>obj. (wo_id obj, policy_project (eg_policy e0) obj))
      (filter (hash_differs e0) objs) \<and>
    (\<forall>i. fmlookup (eg_global_view e') i =
       (case find (\<lambda>obj. wo_id obj = i) objs of
          Some obj \<Rightarrow> Some (fresh_state libm e0 obj)
        | None \<Rightarrow> fmlookup (eg_global_view e) i))"
proof (induction objs arbitrary: e changed)
  case (Cons obj objs)
  let ?scan = "dirty_of pv (cache_of (eg_global_view e0))"
  have obj: "fmlookup (eg_global_view e) (wo_id obj) = fmlookup (eg_global_view e0) (wo_id obj)"
      "honest e0 obj" "no_collision e0 obj"
    using Cons.prems(4) by simp_all
  have policy: "eg_policy e = eg_policy e0" using Cons.prems(2) by (simp add: same_settings_def)
  have absent: "find (\<lambda>obj'. wo_id obj' = wo_id obj) objs = None"
    using Cons.prems(5) unfolding find_None_iff by (auto simp: image_iff)
  show ?case
  proof (cases "?scan obj")
    case None
    note skip = dirty_of_skip [OF start obj(2) None [unfolded pv]]
    have "engine_ok libm e' \<and> same_settings e0 e' \<and>
      changed' = changed @ map (\<lambda>obj. (wo_id obj, policy_project (eg_policy e0) obj))
        (filter (hash_differs e0) objs) \<and>
      (\<forall>i. fmlookup (eg_global_view e') i =
         (case find (\<lambda>obj. wo_id obj = i) objs of
            Some obj \<Rightarrow> Some (fresh_state libm e0 obj)
          | None \<Rightarrow> fmlookup (eg_global_view e) i))"
      using Cons.prems by (intro Cons.IH) (simp_all add: map_filter_simps None)
    then show ?thesis
      using skip obj(1) absent by auto
  next
    case (Some d)
    obtain e1 ch1 where step: "merge_object libm pv (e, changed) d = (e1, ch1)" by fastforce
    have known: "dirty_known e obj d"
      using dirty_known_later [OF dirty_of_known [OF Some] e0 obj(1) Cons.prems(3)] .
    have safe: "no_collision e obj" using obj(1,3) policy by (simp add: no_collision_def)
    have differs: "hash_differs e obj \<longleftrightarrow> hash_differs e0 obj"
      using obj(1) policy by (simp add: hash_differs_def)
    have pv': "pv = pp_version (eg_policy e)" using pv policy by simp
    note merged = merge_object_ok [OF Cons.prems(1) known safe pv' step]
    have fresh: "fresh_state libm e = fresh_state libm e0" by (rule fresh_state_cong [OF Cons.prems(2)])
    have "engine_ok libm e' \<and> same_settings e0 e' \<and>
      changed' = ch1 @ map (\<lambda>obj. (wo_id obj, policy_project (eg_policy e0) obj))
        (filter (hash_differs e0) objs) \<and>
      (\<forall>i. fmlookup (eg_global_view e') i =
         (case find (\<lambda>obj. wo_id obj = i) objs of
            Some obj \<Rightarrow> Some (fresh_state libm e0 obj)
          | None \<Rightarrow> fmlookup (eg_global_view e1) i))"
    proof (rule Cons.IH)
      show "engine_ok libm e1" "same_settings e0 e1"
        "eg_scan_cache_dirty e1 \<or> fm_keys (eg_global_view e1) = fm_keys (eg_global_view e0)"
        using merged Cons.prems(2,3) by (auto intro: same_settings_trans)
      show "distinct (map wo_id objs)" using Cons.prems(5) by simp
      show "foldl (merge_object libm pv) (e1, ch1) (List.map_filter ?scan objs) = (e', changed')"
        using Cons.prems(6) by (simp add: map_filter_simps Some step)
      fix x assume x: "x \<in> set objs"
      then have "wo_id x \<noteq> wo_id obj" using Cons.prems(5) by (metis distinct.simps(2) image_eqI list.simps(9) list.set_map)
      then show "fmlookup (eg_global_view e1) (wo_id x) = fmlookup (eg_global_view e0) (wo_id x) \<and>
          honest e0 x \<and> no_collision e0 x"
        using merged Cons.prems(4) [of x] x by simp
    qed
    then show ?thesis
      using merged absent differs policy fresh by (auto split: option.split)
  qed
qed (simp_all add: map_filter_simps)


section \<open>Erasure\<close>

lemma remove_stale_ok [wf_intros]:
  assumes "engine_ok libm e" "eg_scan_cache_dirty e"
  shows "engine_ok libm (remove_stale e wid)" "eg_scan_cache_dirty (remove_stale e wid)"
proof -
  have cell: "index_cell (snd (dynamic_erase (eg_spatial e) wid)) p = index_cell (eg_spatial e) p" for p
    by (rule index_cell_frame) (simp_all add: frame_simps)
  have "state_ok libm (remove_stale e wid) = state_ok libm e"
    by (rule state_ok_cong) (simp add: same_settings_def remove_stale_def)
  with assms show "engine_ok libm (remove_stale e wid)"
    by (auto simp: engine_ok_def remove_stale_def fun_eq_iff located_def erase_locations cell index_ok_erase
        split: if_splits)
  show "eg_scan_cache_dirty (remove_stale e wid)" using assms(2) by (simp add: remove_stale_def)
qed

lemma remove_stale_settings: "same_settings e (foldl remove_stale e wids)"
proof (induction wids arbitrary: e)
  case (Cons wid wids)
  have "same_settings e (remove_stale e wid)" by (simp add: same_settings_def remove_stale_def)
  with Cons [of "remove_stale e wid"] show ?case by (auto intro: same_settings_trans)
qed simp

lemma remove_stale_view:
  "fmlookup (eg_global_view (foldl remove_stale e wids)) i =
     (if i \<in> set wids then None else fmlookup (eg_global_view e) i)"
  by (induction wids arbitrary: e) (auto simp: remove_stale_def)

lemma remove_stale_run:
  "engine_ok libm e \<Longrightarrow> eg_scan_cache_dirty e \<Longrightarrow> engine_ok libm (foldl remove_stale e wids)"
  by (induction wids arbitrary: e) (simp_all add: remove_stale_ok)

lemma engine_ok_dirty:
  "engine_ok libm e \<Longrightarrow> engine_ok libm (e\<lparr>eg_scan_cache_dirty := True\<rparr>)"
  by (simp add: engine_ok_def located_def fun_eq_iff state_ok_def enu_of_def)

lemma remove_one_dirty:
  "(remove_stale e wid)\<lparr>eg_scan_cache_dirty := True\<rparr> = remove_stale (e\<lparr>eg_scan_cache_dirty := True\<rparr>) wid"
  by (cases e) (simp add: remove_stale_def)

lemma remove_stale_dirty:
  "(foldl remove_stale e wids)\<lparr>eg_scan_cache_dirty := True\<rparr> =
     foldl remove_stale (e\<lparr>eg_scan_cache_dirty := True\<rparr>) wids"
  by (induction wids arbitrary: e) (simp_all add: remove_one_dirty)

lemma erase_stale_ok:
  assumes ok: "engine_ok libm e" and step: "erase_stale e w = (e', removed)"
  shows "engine_ok libm e'" "same_settings (e\<lparr>eg_seen_erase_revision := erase_revision w\<rparr>) e'"
    "removed = (if erase_revision w \<noteq> eg_seen_erase_revision e then stale_wids e w else [])"
    "fmlookup (eg_global_view e') i = (if i \<in> set removed then None else fmlookup (eg_global_view e) i)"
proof -
  define e1 where "e1 = e\<lparr>eg_seen_erase_revision := erase_revision w\<rparr>"
  have ok1: "engine_ok libm e1"
    using ok by (simp add: engine_ok_def located_def fun_eq_iff state_ok_def enu_of_def e1_def)
  have view: "eg_global_view e1 = eg_global_view e" by (simp add: e1_def)
  have "(erase_revision w = eg_seen_erase_revision e \<and> e' = e \<and> removed = []) \<or>
    (erase_revision w \<noteq> eg_seen_erase_revision e \<and> stale_wids e w = [] \<and> e' = e1 \<and> removed = []) \<or>
    (erase_revision w \<noteq> eg_seen_erase_revision e \<and> removed = stale_wids e w \<and>
       e' = foldl remove_stale (e1\<lparr>eg_scan_cache_dirty := True\<rparr>) removed)"
  proof (cases "erase_revision w = eg_seen_erase_revision e")
    case True
    with step show ?thesis by (simp add: erase_stale_def)
  next
    case False
    with step show ?thesis
      by (cases "stale_wids e w = []") (auto simp: erase_stale_def Let_def remove_stale_dirty simp flip: e1_def)
  qed
  then consider (seen) "erase_revision w = eg_seen_erase_revision e" "e' = e" "removed = []"
    | (none) "erase_revision w \<noteq> eg_seen_erase_revision e" "e' = e1" "removed = []" "stale_wids e w = []"
    | (some) "erase_revision w \<noteq> eg_seen_erase_revision e" "removed = stale_wids e w"
        "e' = foldl remove_stale (e1\<lparr>eg_scan_cache_dirty := True\<rparr>) removed"
    by (elim disjE conjE)
  then have all: "engine_ok libm e' \<and> same_settings e1 e' \<and>
    removed = (if erase_revision w \<noteq> eg_seen_erase_revision e then stale_wids e w else []) \<and>
    fmlookup (eg_global_view e') i = (if i \<in> set removed then None else fmlookup (eg_global_view e) i)"
  proof cases
    case seen
    then have "e1 = e" by (simp add: e1_def)
    with seen ok show ?thesis by simp
  next
    case none
    with ok1 view show ?thesis by simp
  next
    case some
    have "same_settings e1 (e1\<lparr>eg_scan_cache_dirty := True\<rparr>)" by (simp add: same_settings_def)
    then have "same_settings e1 e'" unfolding some by (rule same_settings_trans) (rule remove_stale_settings)
    moreover have "engine_ok libm e'"
      unfolding some using ok1 by (intro remove_stale_run engine_ok_dirty) simp_all
    ultimately show ?thesis using some(1,2) by (simp add: some(3) remove_stale_view view)
  qed
  then show "engine_ok libm e'" "same_settings (e\<lparr>eg_seen_erase_revision := erase_revision w\<rparr>) e'"
    "removed = (if erase_revision w \<noteq> eg_seen_erase_revision e then stale_wids e w else [])"
    "fmlookup (eg_global_view e') i = (if i \<in> set removed then None else fmlookup (eg_global_view e) i)"
    by (simp_all add: e1_def)
qed

section \<open>The pointers\<close>

text \<open>
  The cached pointers, taken when the world was \<open>w0\<close>, list the objects of \<open>w\<close>, if \<open>w\<close> came from
  \<open>w0\<close> by operations on the world.
\<close>

definition pointers_from :: "bool \<Rightarrow> ProjectionEngine \<Rightarrow> World \<Rightarrow> World \<Rightarrow> bool" where
  "pointers_from persistent e w0 w \<longleftrightarrow>
     eg_world_snapshot e = world_pointers w0 \<and>
     eg_world_snapshot_erase_revision e = erase_revision w0 \<and>
     eg_world_snapshot_storage_revision e = storage_revision w0 \<and>
     (\<exists>ps. w = world_run persistent w0 ps \<and> length ps < 2 ^ 64)"

lemma world_pointers_snapshot: "map (\<lambda>a. heap w ! a) (world_pointers w) = world_snapshot w"
proof -
  have "map f (stable_sort (lt_key (\<lambda>a. wo_id (f a))) xs) = stable_sort (lt_key wo_id) (map f xs)"
    for f and xs :: "addr list"
  proof -
    have "lt_key (\<lambda>a. wo_id (f a)) = (\<lambda>x y. lt_key wo_id (f x) (f y))"
      by (simp add: fun_eq_iff lt_key_def)
    then show ?thesis by (simp only: map_stable_sort)
  qed
  from this [of "\<lambda>a. heap w ! a" "map entry_object (fm_values (objects w))"] show ?thesis
    by (simp add: world_pointers_def world_snapshot_def comp_def)
qed

lemma world_pointers_wf:
  assumes "world_wf w"
  shows "world_pointers w = fm_values (object_addrs w)"
proof -
  have keys: "fm_keys (object_addrs w) = fm_keys (objects w)"
    by (simp add: fm_keys_def object_addrs_def)
  have addrs: "map entry_object (fm_values (objects w)) = fm_values (object_addrs w)"
    unfolding fm_values_def keys
    by (auto simp: object_addrs_def fmlookup_dom_iff)
  have "map (\<lambda>a. wo_id (heap w ! a)) (fm_values (object_addrs w)) = fm_keys (objects w)"
    unfolding fm_values_def keys map_map
    by (rule map_idI) (use assms in \<open>auto simp: object_addrs_def fmlookup_dom_iff dest: world_wfD(3)\<close>)
  then show ?thesis
    unfolding world_pointers_def addrs
    by (intro stable_sort_key_sorted) simp
qed

lemma refresh_world_snapshot_reads:
  assumes taken: "pointers_from persistent e w0 w" and wf: "world_wf w0" "world_wf w"
  shows "map (\<lambda>a. heap w ! a) (eg_world_snapshot (refresh_world_snapshot e w)) = world_snapshot w"
    "pointers_from persistent (refresh_world_snapshot e w) w w"
proof -
  have self: "\<exists>ps. w = world_run persistent w ps \<and> length ps < 2 ^ 64"
    by (rule exI [of _ "[]"]) simp
  have fresh: "eg_world_snapshot (refresh_world_snapshot e w) = world_pointers w \<and>
    eg_world_snapshot_erase_revision (refresh_world_snapshot e w) = erase_revision w \<and>
    eg_world_snapshot_storage_revision (refresh_world_snapshot e w) = storage_revision w"
  proof (cases "length (eg_world_snapshot e) \<noteq> world_size w
         \<or> eg_world_snapshot_erase_revision e \<noteq> erase_revision w
         \<or> eg_world_snapshot_storage_revision e \<noteq> storage_revision w")
    case True
    then show ?thesis by (simp add: refresh_world_snapshot_def)
  next
    case False
    obtain ps where ps: "w = world_run persistent w0 ps" "length ps < 2 ^ 64"
      using taken by (auto simp: pointers_from_def)
    have "world_size w = world_size w0"
      using False taken
      by (simp add: pointers_from_def world_pointers_def fm_values_def world_size_def)
    then have "object_addrs w = object_addrs w0"
      using False taken by (intro addrs_unchanged [OF ps]) (simp_all add: pointers_from_def)
    then have "world_pointers w = world_pointers w0"
      by (simp add: world_pointers_wf wf)
    with False taken show ?thesis by (simp add: refresh_world_snapshot_def pointers_from_def)
  qed
  then show "map (\<lambda>a. heap w ! a) (eg_world_snapshot (refresh_world_snapshot e w)) = world_snapshot w"
    by (simp add: world_pointers_snapshot)
  show "pointers_from persistent (refresh_world_snapshot e w) w w"
    using fresh self by (simp add: pointers_from_def)
qed


section \<open>A tick\<close>

lemma refresh_world_snapshot_frame [frame_simps]:
  "eg_config (refresh_world_snapshot e w) = eg_config e"
  "eg_policy (refresh_world_snapshot e w) = eg_policy e"
  "eg_enu_origin_geodetic (refresh_world_snapshot e w) = eg_enu_origin_geodetic e"
  "eg_spatial (refresh_world_snapshot e w) = eg_spatial e"
  "eg_global_view (refresh_world_snapshot e w) = eg_global_view e"
  "eg_scan_cache (refresh_world_snapshot e w) = eg_scan_cache e"
  "eg_scan_cache_dirty (refresh_world_snapshot e w) = eg_scan_cache_dirty e"
  "eg_seen_erase_revision (refresh_world_snapshot e w) = eg_seen_erase_revision e"
  "eg_latest_snapshot_id (refresh_world_snapshot e w) = eg_latest_snapshot_id e"
  "eg_history (refresh_world_snapshot e w) = eg_history e"
  "eg_connections (refresh_world_snapshot e w) = eg_connections e"
  by (simp_all add: refresh_world_snapshot_def)

lemma refresh_scan_cache_mirror:
  assumes "engine_ok libm e"
  shows "engine_ok libm (refresh_scan_cache e)" "\<not> eg_scan_cache_dirty (refresh_scan_cache e)"
    "eg_scan_cache (refresh_scan_cache e) = cache_of (eg_global_view e)"
    "same_settings e (refresh_scan_cache e)" "eg_global_view (refresh_scan_cache e) = eg_global_view e"
proof -
  have "stable_sort (lt_key sc_wid) (cache_of g) = cache_of g" for g
    using cache_sorted_cache_of [of g]
    by (intro stable_sort_key_sorted) (auto simp: cache_sorted_def sorted_map elim: sorted_wrt_mono_rel [rotated])
  then have rebuilt: "refresh_scan_cache e = (if eg_scan_cache_dirty e
      then e\<lparr>eg_scan_cache := cache_of (eg_global_view e), eg_scan_cache_dirty := False\<rparr> else e)"
    by (simp add: refresh_scan_cache_def flip: cache_of_def)
  then show "same_settings e (refresh_scan_cache e)" "eg_global_view (refresh_scan_cache e) = eg_global_view e"
      "\<not> eg_scan_cache_dirty (refresh_scan_cache e)"
      "eg_scan_cache (refresh_scan_cache e) = cache_of (eg_global_view e)"
    using assms by (simp_all add: same_settings_def engine_ok_def split: if_splits)
  show "engine_ok libm (refresh_scan_cache e)"
    using assms unfolding rebuilt
    by (auto simp: engine_ok_def located_def fun_eq_iff state_ok_def enu_of_def)
qed

lemma find_snapshot:
  assumes "world_wf w"
  shows "find (\<lambda>obj. wo_id obj = i) (world_snapshot w) = world_find w i"
proof -
  have ids: "wo_id (the (world_find w j)) = j" "world_find w j \<noteq> None" if "j \<in> set (fm_keys (objects w))" for j
    using assms that by (auto simp: world_find_def find_entry_def fmlookup_dom_iff dest: world_wfD(3))
  have "find (\<lambda>obj. wo_id obj = i) (map (\<lambda>j. the (world_find w j)) js) =
      (if i \<in> set js then world_find w i else None)" if "set js \<subseteq> set (fm_keys (objects w))" for js
    using that by (induction js) (use ids in auto)
  from this [of "fm_keys (objects w)"] show ?thesis
    by (auto simp: world_snapshot_eq [OF assms] world_find_def find_entry_def fmlookup_dom_iff)
qed

lemma snapshot_ids:
  assumes "world_wf w"
  shows "map wo_id (world_snapshot w) = fm_keys (objects w)"
    "obj \<in> set (world_snapshot w) \<Longrightarrow> world_find w (wo_id obj) = Some obj"
proof -
  have ids: "wo_id (the (world_find w j)) = j" "world_find w j \<noteq> None" if "j \<in> set (fm_keys (objects w))" for j
    using assms that by (auto simp: world_find_def find_entry_def fmlookup_dom_iff dest: world_wfD(3))
  show "map wo_id (world_snapshot w) = fm_keys (objects w)"
    unfolding world_snapshot_eq [OF assms] map_map by (rule map_idI) (simp add: ids)
  show "world_find w (wo_id obj) = Some obj" if "obj \<in> set (world_snapshot w)"
    using that ids by (auto simp: world_snapshot_eq [OF assms])
qed


lemma engine_ok_frame:
  assumes "engine_ok libm e" "eg_global_view e' = eg_global_view e" "eg_spatial e' = eg_spatial e"
    "eg_scan_cache e' = eg_scan_cache e" "eg_scan_cache_dirty e' = eg_scan_cache_dirty e"
    "eg_config e' = eg_config e" "eg_enu_origin_geodetic e' = eg_enu_origin_geodetic e"
  shows "engine_ok libm e'"
  using assms by (simp add: engine_ok_def located_def fun_eq_iff state_ok_def enu_of_def)

text \<open>The view a full recomputation gives.\<close>

definition fresh_view :: "Libm \<Rightarrow> ProjectionEngine \<Rightarrow> World \<Rightarrow> WorldId \<Rightarrow> EntityState option" where
  "fresh_view libm e w i = map_option (fresh_state libm e) (world_find w i)"

text \<open>An object that left the world is noticed by the revision of erasures.\<close>

definition erasures_seen :: "ProjectionEngine \<Rightarrow> World \<Rightarrow> bool" where
  "erasures_seen e w \<longleftrightarrow>
     (erase_revision w = eg_seen_erase_revision e \<longrightarrow>
        (\<forall>i. fmlookup (eg_global_view e) i \<noteq> None \<longrightarrow> world_find w i \<noteq> None))"

definition tick_ready :: "bool \<Rightarrow> Libm \<Rightarrow> ProjectionEngine \<Rightarrow> World \<Rightarrow> World \<Rightarrow> bool" where
  "tick_ready persistent libm e w0 w \<longleftrightarrow>
     engine_ok libm e \<and> pointers_from persistent e w0 w \<and> world_wf w0 \<and> world_wf w \<and>
     erasures_seen e w \<and> (\<forall>obj \<in> set (world_snapshot w). honest e obj \<and> no_collision e obj)"

definition exact_changes :: "ProjectionEngine \<Rightarrow> World \<Rightarrow> SnapshotChangeSet" where
  "exact_changes e w =
     \<lparr>ch_snapshot_id = eg_latest_snapshot_id e + 1,
      ch_changed = map (\<lambda>obj. (wo_id obj, policy_project (eg_policy e) obj))
        (filter (hash_differs e) (world_snapshot w)),
      ch_removed = filter (\<lambda>i. world_find w i = None) (fm_keys (eg_global_view e))\<rparr>"

lemma tick_changed_foldl: "eg_tick_changed_wids (foldl remove_stale e wids) = eg_tick_changed_wids e"
  by (induction wids arbitrary: e) (simp_all add: remove_stale_def)

lemma project_world_exact:
  assumes ready: "tick_ready persistent libm e w0 w"
  shows "engine_ok libm (project_world libm e w tick) \<and>
    fmlookup (eg_global_view (project_world libm e w tick)) = fresh_view libm e w \<and>
    eg_history (project_world libm e w tick) =
      eg_history (push_history e (exact_changes e w)) \<and>
    eg_tick_changed_wids (project_world libm e w tick) = map fst (ch_changed (exact_changes e w)) \<and>
    pointers_from persistent (project_world libm e w tick) w w \<and>
    eg_connections (project_world libm e w tick) = eg_connections e"
proof -
  have ok: "engine_ok libm e" and taken: "pointers_from persistent e w0 w" and wf: "world_wf w0" "world_wf w"
    and seen: "erasures_seen e w"
    and objs: "\<And>obj. obj \<in> set (world_snapshot w) \<Longrightarrow> honest e obj \<and> no_collision e obj"
    using ready by (simp_all add: tick_ready_def)
  define pv where "pv = pp_version (eg_policy e)"
  define e0 where "e0 = e\<lparr>eg_latest_snapshot_id := eg_latest_snapshot_id e + 1, eg_last_processed_tick := tick\<rparr>"
  define e1 where "e1 = refresh_world_snapshot e0 w"
  define e2 where "e2 = refresh_scan_cache e1"
  define dirty where "dirty = List.map_filter (dirty_of pv (cache_of (eg_global_view e2))) (world_snapshot w)"
  obtain e3 changed where merge: "foldl (merge_object libm pv) (e2, []) dirty = (e3, changed)" by fastforce
  define e4 where "e4 = e3\<lparr>eg_tick_changed_wids := map fst changed\<rparr>"
  obtain e5 removed where erased: "erase_stale e4 w = (e5, removed)" by fastforce
  have ok1: "engine_ok libm e1"
    by (rule engine_ok_frame [OF ok]) (simp_all add: e1_def e0_def frame_simps)
  note mirror = refresh_scan_cache_mirror [OF ok1, folded e2_def]
  have "pointers_from persistent e0 w0 w" using taken by (simp add: pointers_from_def e0_def)
  note reads = refresh_world_snapshot_reads [OF this wf, folded e1_def]
  have view: "eg_global_view e2 = eg_global_view e" and policy: "eg_policy e2 = eg_policy e"
    using mirror(4,5) by (simp_all add: e1_def e0_def frame_simps same_settings_def)
  have fresh: "fresh_state libm e2 = fresh_state libm e"
    using mirror(4) by (simp add: fun_eq_iff fresh_state_def enu_of_def same_settings_def e1_def e0_def frame_simps)
  have differs: "hash_differs e2 = hash_differs e"
    by (simp add: fun_eq_iff hash_differs_def view policy)
  note ids = snapshot_ids [OF wf(2)]
  have merged: "engine_ok libm e3 \<and> same_settings e2 e3 \<and>
    changed = [] @ map (\<lambda>obj. (wo_id obj, policy_project (eg_policy e2) obj))
      (filter (hash_differs e2) (world_snapshot w)) \<and>
    (\<forall>i. fmlookup (eg_global_view e3) i =
       (case find (\<lambda>obj. wo_id obj = i) (world_snapshot w) of
          Some obj \<Rightarrow> Some (fresh_state libm e2 obj) | None \<Rightarrow> fmlookup (eg_global_view e2) i))"
  proof (rule merge_fold [OF mirror(2) _ mirror(1) mirror(1) same_settings_refl])
    show "pv = pp_version (eg_policy e2)" by (simp add: pv_def policy)
    show "distinct (map wo_id (world_snapshot w))" by (simp add: ids)
    show "foldl (merge_object libm pv) (e2, []) (List.map_filter (dirty_of pv (cache_of (eg_global_view e2)))
        (world_snapshot w)) = (e3, changed)" using merge by (simp add: dirty_def)
    fix obj assume "obj \<in> set (world_snapshot w)"
    from objs [OF this] show "fmlookup (eg_global_view e2) (wo_id obj) = fmlookup (eg_global_view e2) (wo_id obj) \<and>
        honest e2 obj \<and> no_collision e2 obj"
      by (simp add: honest_def no_collision_def view policy)
  qed simp
  have sorted: "sorted (map fst changed)"
  proof -
    have "map fst changed = map wo_id (filter (hash_differs e2) (world_snapshot w))"
      using merged by (simp add: comp_def)
    then show ?thesis
      by (simp add: sorted_map) (metis ids(1) sorted_fm_keys(1) sorted_map sorted_wrt_filter)
  qed
  have scan: "dirty_scan pv (eg_scan_cache e2) 0 (map (\<lambda>a. heap w ! a) (eg_world_snapshot e2)) = dirty"
  proof -
    have "map (\<lambda>a. heap w ! a) (eg_world_snapshot e2) = world_snapshot w"
      using reads(1) mirror(4) by (simp add: same_settings_def)
    moreover have "sorted_wrt (\<lambda>x y. wo_id x < wo_id y) (world_snapshot w)"
      by (simp add: ids flip: sorted_wrt_map strict_sorted_iff) (simp add: strict_sorted_iff ids sorted_wrt_map)
    ultimately show ?thesis
      unfolding dirty_def mirror(3) using mirror(5) by (simp add: dirty_scan_eq)
  qed
  have pv0: "pp_version (eg_policy e0) = pv" by (simp add: e0_def pv_def)
  have result: "project_world libm e w tick = push_history e5
      \<lparr>ch_snapshot_id = eg_latest_snapshot_id e5, ch_changed = changed, ch_removed = removed\<rparr>"
    using scan merge erased sorted
    by (simp add: project_world_def Let_def stable_sort_key_sorted pv0 flip: e0_def e1_def e2_def)
      (simp add: e4_def)
  have ok4: "engine_ok libm e4"
    using merged by (intro engine_ok_frame [of libm e3 e4]) (simp_all add: e4_def)
  note gone = erase_stale_ok [OF ok4 erased]
  have view4: "fmlookup (eg_global_view e4) i =
      (case world_find w i of Some obj \<Rightarrow> Some (fresh_state libm e obj) | None \<Rightarrow> fmlookup (eg_global_view e) i)" for i
    using merged find_snapshot [OF wf(2), of i] by (simp add: e4_def fresh view split: option.split)
  have settings4: "eg_seen_erase_revision e4 = eg_seen_erase_revision e \<and> eg_history e4 = eg_history e \<and>
      eg_latest_snapshot_id e4 = eg_latest_snapshot_id e + 1 \<and> eg_config e4 = eg_config e \<and>
      eg_connections e4 = eg_connections e"
    using merged mirror(4) by (simp add: same_settings_def e4_def e1_def e0_def frame_simps)
  have stale: "stale_wids e4 w = filter (\<lambda>i. world_find w i = None) (fm_keys (eg_global_view e))"
    unfolding stale_wids_def
  proof (rule sorted_distinct_set_unique)
    show "set (filter (\<lambda>i. world_find w i = None) (fm_keys (eg_global_view e4))) =
        set (filter (\<lambda>i. world_find w i = None) (fm_keys (eg_global_view e)))"
      using view4 by (auto simp: fmlookup_dom_iff split: option.splits)
  qed (simp_all add: sorted_wrt_filter)
  have removed: "removed = ch_removed (exact_changes e w)"
    using gone(3) stale seen settings4
    by (auto simp: exact_changes_def erasures_seen_def fmlookup_dom_iff filter_empty_conv)
  have view5: "fmlookup (eg_global_view e5) = fresh_view libm e w"
  proof
    fix i
    show "fmlookup (eg_global_view e5) i = fresh_view libm e w i"
      using gone(4) [of i] view4 [of i] removed
      by (auto simp: exact_changes_def fresh_view_def fmlookup_dom_iff split: option.splits)
  qed
  have changed: "changed = ch_changed (exact_changes e w)"
    using merged by (simp add: exact_changes_def differs policy)
  have tail: "eg_history e5 = eg_history e" "eg_latest_snapshot_id e5 = eg_latest_snapshot_id e + 1"
      "eg_config e5 = eg_config e" "eg_connections e5 = eg_connections e"
    using gone(2) settings4 by (simp_all add: same_settings_def)
  have "exact_changes e w = \<lparr>ch_snapshot_id = eg_latest_snapshot_id e5, ch_changed = changed, ch_removed = removed\<rparr>"
    using removed changed tail by (simp add: exact_changes_def)
  then have result: "project_world libm e w tick = push_history e5 (exact_changes e w)"
    using result by simp
  have "engine_ok libm (push_history e5 (exact_changes e w))"
    by (rule engine_ok_frame [OF gone(1)]) (simp_all add: push_history_def Let_def)
  moreover have "eg_tick_changed_wids e5 = map fst changed"
    using erased by (auto simp: erase_stale_def Let_def e4_def tick_changed_foldl split: if_splits)
  moreover have "pointers_from persistent (push_history e5 (exact_changes e w)) w w"
    using reads(2) mirror(4) merged gone(2)
    by (simp add: pointers_from_def push_history_def Let_def same_settings_def e4_def)
  ultimately show ?thesis
    unfolding result using view5 changed tail
    by (simp add: push_history_def Let_def)
qed


text \<open>The frames do not touch what was projected.\<close>

lemma on_projection_view:
  "on_projection libm e w tick h = Some e' \<Longrightarrow>
     eg_global_view e' = eg_global_view (project_world libm e w tick) \<and>
     eg_history e' = eg_history (project_world libm e w tick) \<and>
     eg_spatial e' = eg_spatial (project_world libm e w tick)"
proof -
  have run: "foldl (connection_frame w tick) (Some e1) cs = Some e2 \<Longrightarrow>
      eg_global_view e2 = eg_global_view e1 \<and> eg_history e2 = eg_history e1 \<and> eg_spatial e2 = eg_spatial e1"
    for e1 e2 cs
  proof (induction cs arbitrary: e1)
    case (Cons c cs)
    show ?case
    proof (cases "connection_frame w tick (Some e1) c")
      case None
      have "foldl (connection_frame w tick) None xs = None" for xs
        by (induction xs) (auto simp: connection_frame_def)
      with Cons.prems None show ?thesis by simp
    next
      case (Some e3)
      then have "eg_global_view e3 = eg_global_view e1 \<and> eg_history e3 = eg_history e1 \<and>
          eg_spatial e3 = eg_spatial e1"
        by (auto simp: connection_frame_def Let_def split: prod.splits)
      with Cons Some show ?thesis by simp
    qed
  qed simp
  assume "on_projection libm e w tick h = Some e'"
  then show ?thesis by (auto simp: on_projection_def Let_def dest: run)
qed



end
