(* ===== verification/Codec_Messages.thy ===== *)
theory Codec_Messages
  imports Protocol_Wire
begin

text \<open>
  \<^verbatim>\<open>libs/protocol/codec.cpp\<close>: the diagnostics of the decoder, UTF-8 texts mostly in Chinese, and the
  stable error codes of \<^verbatim>\<open>error.hpp\<close> it uses.
\<close>

definition error_version_incompatible :: string where
  "error_version_incompatible = ''GWG001''"

definition error_invalid_request :: string where
  "error_invalid_request = ''GWG005''"

definition error_limit_exceeded :: string where
  "error_limit_exceeded = ''GWG006''"

definition msg_empty_frame :: string where
  "msg_empty_frame =
     [CHR 0xE7, CHR 0xA9, CHR 0xBA, CHR 0xE5, CHR 0xB8, CHR 0xA7]"

definition msg_frame_too_large :: string where
  "msg_frame_too_large =
     [CHR 0xE5, CHR 0xB8, CHR 0xA7, CHR 0xE8, CHR 0xB6, CHR 0x85, CHR 0xE8, CHR 0xBF, CHR 0x87] @
     '' max_frame_bytes''"

definition msg_frame_too_short :: string where
  "msg_frame_too_short =
     [CHR 0xE5, CHR 0xB8, CHR 0xA7, CHR 0xE9, CHR 0x95, CHR 0xBF, CHR 0xE5, CHR 0xBA, CHR 0xA6, CHR 0xE8, CHR 0xBF, CHR 0x87, CHR 0xE7, CHR 0x9F, CHR 0xAD]"

definition msg_identifier_mismatch :: string where
  "msg_identifier_mismatch =
     ''file identifier '' @
     [CHR 0xE4, CHR 0xB8, CHR 0x8D, CHR 0xE5, CHR 0x8C, CHR 0xB9, CHR 0xE9, CHR 0x85, CHR 0x8D]"

definition msg_verifier_refused :: string where
  "msg_verifier_refused =
     ''FlatBuffers verifier '' @
     [CHR 0xE6, CHR 0x8B, CHR 0x92, CHR 0xE7, CHR 0xBB, CHR 0x9D]"

definition msg_schema_version :: string where
  "msg_schema_version =
     ''schema_version '' @
     [CHR 0xE4, CHR 0xB8, CHR 0x8D, CHR 0xE5, CHR 0x85, CHR 0xBC, CHR 0xE5, CHR 0xAE, CHR 0xB9]"

definition msg_unknown_server_frame :: string where
  "msg_unknown_server_frame =
     [CHR 0xE6, CHR 0x9C, CHR 0xAA, CHR 0xE7, CHR 0x9F, CHR 0xA5, CHR 0xE6, CHR 0x9C, CHR 0x8D, CHR 0xE5, CHR 0x8A, CHR 0xA1, CHR 0xE7, CHR 0xAB, CHR 0xAF, CHR 0xE5, CHR 0xB8, CHR 0xA7, CHR 0xE7,
     CHR 0xB1, CHR 0xBB, CHR 0xE5, CHR 0x9E, CHR 0x8B]"

definition msg_unknown_control_frame :: string where
  "msg_unknown_control_frame =
     [CHR 0xE6, CHR 0x9C, CHR 0xAA, CHR 0xE7, CHR 0x9F, CHR 0xA5, CHR 0xE5, CHR 0xAE, CHR 0xA2, CHR 0xE6, CHR 0x88, CHR 0xB7, CHR 0xE7, CHR 0xAB, CHR 0xAF, CHR 0xE6, CHR 0x8E, CHR 0xA7, CHR 0xE5,
     CHR 0x88, CHR 0xB6, CHR 0xE5, CHR 0xB8, CHR 0xA7, CHR 0xE7, CHR 0xB1, CHR 0xBB, CHR 0xE5, CHR 0x9E, CHR 0x8B]"

definition msg_reason_too_long :: string where
  "msg_reason_too_long =
     ''reason '' @
     [CHR 0xE8, CHR 0xB6, CHR 0x85, CHR 0xE8, CHR 0xBF, CHR 0x87, CHR 0xE9, CHR 0x95, CHR 0xBF, CHR 0xE5, CHR 0xBA, CHR 0xA6, CHR 0xE4, CHR 0xB8, CHR 0x8A, CHR 0xE9, CHR 0x99, CHR 0x90]"

definition msg_too_many_properties :: string where
  "msg_too_many_properties =
     [CHR 0xE5, CHR 0xB1, CHR 0x9E, CHR 0xE6, CHR 0x80, CHR 0xA7, CHR 0xE6, CHR 0x95, CHR 0xB0, CHR 0xE9, CHR 0x87, CHR 0x8F, CHR 0xE8, CHR 0xB6, CHR 0x85, CHR 0xE8, CHR 0xBF, CHR 0x87, CHR 0xE4,
     CHR 0xB8, CHR 0x8A, CHR 0xE9, CHR 0x99, CHR 0x90]"

definition msg_entry_without_key :: string where
  "msg_entry_without_key =
     [CHR 0xE5, CHR 0xB1, CHR 0x9E, CHR 0xE6, CHR 0x80, CHR 0xA7, CHR 0xE6, CHR 0x9D, CHR 0xA1, CHR 0xE7, CHR 0x9B, CHR 0xAE, CHR 0xE7, CHR 0xBC, CHR 0xBA, CHR 0xE5, CHR 0xB0, CHR 0x91] @
     '' key''"

definition msg_key_too_long :: string where
  "msg_key_too_long =
     [CHR 0xE5, CHR 0xB1, CHR 0x9E, CHR 0xE6, CHR 0x80, CHR 0xA7] @
     '' key '' @
     [CHR 0xE8, CHR 0xB6, CHR 0x85, CHR 0xE8, CHR 0xBF, CHR 0x87, CHR 0xE9, CHR 0x95, CHR 0xBF, CHR 0xE5, CHR 0xBA, CHR 0xA6, CHR 0xE4, CHR 0xB8, CHR 0x8A, CHR 0xE9, CHR 0x99, CHR 0x90]"

definition msg_text_without_value :: string where
  "msg_text_without_value =
     [CHR 0xE5, CHR 0xAD, CHR 0x97, CHR 0xE7, CHR 0xAC, CHR 0xA6, CHR 0xE4, CHR 0xB8, CHR 0xB2, CHR 0xE5, CHR 0xB1, CHR 0x9E, CHR 0xE6, CHR 0x80, CHR 0xA7, CHR 0xE7, CHR 0xBC, CHR 0xBA, CHR 0xE5,
     CHR 0xB0, CHR 0x91, CHR 0xE5, CHR 0x80, CHR 0xBC]"

definition msg_text_too_long :: string where
  "msg_text_too_long =
     [CHR 0xE5, CHR 0xAD, CHR 0x97, CHR 0xE7, CHR 0xAC, CHR 0xA6, CHR 0xE4, CHR 0xB8, CHR 0xB2, CHR 0xE5, CHR 0xB1, CHR 0x9E, CHR 0xE6, CHR 0x80, CHR 0xA7, CHR 0xE8, CHR 0xB6, CHR 0x85, CHR 0xE8,
     CHR 0xBF, CHR 0x87, CHR 0xE9, CHR 0x95, CHR 0xBF, CHR 0xE5, CHR 0xBA, CHR 0xA6, CHR 0xE4, CHR 0xB8, CHR 0x8A, CHR 0xE9, CHR 0x99, CHR 0x90]"

definition msg_unknown_value_type :: string where
  "msg_unknown_value_type =
     [CHR 0xE6, CHR 0x9C, CHR 0xAA, CHR 0xE7, CHR 0x9F, CHR 0xA5, CHR 0xE5, CHR 0xB1, CHR 0x9E, CHR 0xE6, CHR 0x80, CHR 0xA7, CHR 0xE5, CHR 0x80, CHR 0xBC, CHR 0xE7, CHR 0xB1, CHR 0xBB, CHR 0xE5,
     CHR 0x9E, CHR 0x8B]"

definition msg_entity_incomplete :: string where
  "msg_entity_incomplete =
     [CHR 0xE5, CHR 0xAE, CHR 0x9E, CHR 0xE4, CHR 0xBD, CHR 0x93, CHR 0xE7, CHR 0xBC, CHR 0xBA, CHR 0xE5, CHR 0xB0, CHR 0x91, CHR 0xE5, CHR 0xBF, CHR 0x85, CHR 0xE8, CHR 0xA6, CHR 0x81, CHR 0xE5,
     CHR 0xAD, CHR 0x97, CHR 0xE6, CHR 0xAE, CHR 0xB5]"

definition msg_entity_text_too_long :: string where
  "msg_entity_text_too_long =
     [CHR 0xE5, CHR 0xAE, CHR 0x9E, CHR 0xE4, CHR 0xBD, CHR 0x93, CHR 0xE5, CHR 0xAD, CHR 0x97, CHR 0xE7, CHR 0xAC, CHR 0xA6, CHR 0xE4, CHR 0xB8, CHR 0xB2, CHR 0xE8, CHR 0xB6, CHR 0x85, CHR 0xE8,
     CHR 0xBF, CHR 0x87, CHR 0xE9, CHR 0x95, CHR 0xBF, CHR 0xE5, CHR 0xBA, CHR 0xA6, CHR 0xE4, CHR 0xB8, CHR 0x8A, CHR 0xE9, CHR 0x99, CHR 0x90]"

definition msg_lifecycle_range :: string where
  "msg_lifecycle_range =
     ''lifecycle '' @
     [CHR 0xE6, CHR 0x9E, CHR 0x9A, CHR 0xE4, CHR 0xB8, CHR 0xBE, CHR 0xE8, CHR 0xB6, CHR 0x8A, CHR 0xE7, CHR 0x95, CHR 0x8C]"

definition msg_frequency_range :: string where
  "msg_frequency_range =
     ''frequency '' @
     [CHR 0xE6, CHR 0x9E, CHR 0x9A, CHR 0xE4, CHR 0xB8, CHR 0xBE, CHR 0xE8, CHR 0xB6, CHR 0x8A, CHR 0xE7, CHR 0x95, CHR 0x8C]"

definition msg_too_many_relations :: string where
  "msg_too_many_relations =
     [CHR 0xE5, CHR 0x85, CHR 0xB3, CHR 0xE7, CHR 0xB3, CHR 0xBB, CHR 0xE6, CHR 0x95, CHR 0xB0, CHR 0xE9, CHR 0x87, CHR 0x8F, CHR 0xE8, CHR 0xB6, CHR 0x85, CHR 0xE8, CHR 0xBF, CHR 0x87, CHR 0xE4,
     CHR 0xB8, CHR 0x8A, CHR 0xE9, CHR 0x99, CHR 0x90]"

definition msg_relation_without_type :: string where
  "msg_relation_without_type =
     [CHR 0xE5, CHR 0x85, CHR 0xB3, CHR 0xE7, CHR 0xB3, CHR 0xBB, CHR 0xE7, CHR 0xBC, CHR 0xBA, CHR 0xE5, CHR 0xB0, CHR 0x91] @
     '' type''"

definition msg_relation_type_too_long :: string where
  "msg_relation_type_too_long =
     [CHR 0xE5, CHR 0x85, CHR 0xB3, CHR 0xE7, CHR 0xB3, CHR 0xBB] @
     '' type '' @
     [CHR 0xE8, CHR 0xB6, CHR 0x85, CHR 0xE8, CHR 0xBF, CHR 0x87, CHR 0xE9, CHR 0x95, CHR 0xBF, CHR 0xE5, CHR 0xBA, CHR 0xA6, CHR 0xE4, CHR 0xB8, CHR 0x8A, CHR 0xE9, CHR 0x99, CHR 0x90]"

definition msg_capability_empty :: string where
  "msg_capability_empty =
     ''capability '' @
     [CHR 0xE4, CHR 0xB8, CHR 0xBA, CHR 0xE7, CHR 0xA9, CHR 0xBA]"

definition msg_capability_too_long :: string where
  "msg_capability_too_long =
     ''capability '' @
     [CHR 0xE8, CHR 0xB6, CHR 0x85, CHR 0xE8, CHR 0xBF, CHR 0x87, CHR 0xE9, CHR 0x95, CHR 0xBF, CHR 0xE5, CHR 0xBA, CHR 0xA6, CHR 0xE4, CHR 0xB8, CHR 0x8A, CHR 0xE9, CHR 0x99, CHR 0x90]"

definition msg_tag_empty :: string where
  "msg_tag_empty =
     ''visibility tag '' @
     [CHR 0xE4, CHR 0xB8, CHR 0xBA, CHR 0xE7, CHR 0xA9, CHR 0xBA]"

definition msg_tag_too_long :: string where
  "msg_tag_too_long =
     ''visibility tag '' @
     [CHR 0xE8, CHR 0xB6, CHR 0x85, CHR 0xE8, CHR 0xBF, CHR 0x87, CHR 0xE9, CHR 0x95, CHR 0xBF, CHR 0xE5, CHR 0xBA, CHR 0xA6, CHR 0xE4, CHR 0xB8, CHR 0x8A, CHR 0xE9, CHR 0x99, CHR 0x90]"

definition msg_enter_empty :: string where
  "msg_enter_empty =
     ''enter '' @
     [CHR 0xE4, CHR 0xB8, CHR 0xBA, CHR 0xE7, CHR 0xA9, CHR 0xBA]"

definition msg_too_many_entities :: string where
  "msg_too_many_entities =
     [CHR 0xE5, CHR 0x8D, CHR 0x95, CHR 0xE5, CHR 0xB8, CHR 0xA7, CHR 0xE5, CHR 0xAE, CHR 0x9E, CHR 0xE4, CHR 0xBD, CHR 0x93, CHR 0xE6, CHR 0x95, CHR 0xB0, CHR 0xE9, CHR 0x87, CHR 0x8F, CHR 0xE8,
     CHR 0xB6, CHR 0x85, CHR 0xE8, CHR 0xBF, CHR 0x87, CHR 0xE4, CHR 0xB8, CHR 0x8A, CHR 0xE9, CHR 0x99, CHR 0x90]"

definition msg_update_empty :: string where
  "msg_update_empty =
     ''update '' @
     [CHR 0xE4, CHR 0xB8, CHR 0xBA, CHR 0xE7, CHR 0xA9, CHR 0xBA]"

definition msg_leave_empty :: string where
  "msg_leave_empty =
     ''leave '' @
     [CHR 0xE4, CHR 0xB8, CHR 0xBA, CHR 0xE7, CHR 0xA9, CHR 0xBA]"

definition msg_leave_reason_range :: string where
  "msg_leave_reason_range =
     ''leave reason '' @
     [CHR 0xE6, CHR 0x9E, CHR 0x9A, CHR 0xE4, CHR 0xB8, CHR 0xBE, CHR 0xE8, CHR 0xB6, CHR 0x8A, CHR 0xE7, CHR 0x95, CHR 0x8C]"

definition msg_kind_range :: string where
  "msg_kind_range =
     ''reliable kind '' @
     [CHR 0xE6, CHR 0x9E, CHR 0x9A, CHR 0xE4, CHR 0xB8, CHR 0xBE, CHR 0xE8, CHR 0xB6, CHR 0x8A, CHR 0xE7, CHR 0x95, CHR 0x8C]"

definition msg_status_range :: string where
  "msg_status_range =
     ''receipt status '' @
     [CHR 0xE6, CHR 0x9E, CHR 0x9A, CHR 0xE4, CHR 0xB8, CHR 0xBE, CHR 0xE8, CHR 0xB6, CHR 0x8A, CHR 0xE7, CHR 0x95, CHR 0x8C]"

end
