(* ===== verification/Codec_Tables.thy ===== *)
theory Codec_Tables
  imports Protocol_Wire
begin

text \<open>
  The FlatBuffers tables of \<^verbatim>\<open>schemas/data/world_stream.fbs\<close> and \<^verbatim>\<open>client_stream.fbs\<close> as a reader
  sees them: a scalar field is its value, an offset field an option (a null pointer), an enumeration
  the byte that was written, which need not be in range.
\<close>

record FbVec3Ecef =
  fv_x :: f64
  fv_y :: f64
  fv_z :: f64

text \<open>A union is its type and a table that may be missing: the verifier accepts a null table.\<close>

datatype FbPropertyValue =
  FV_none | FV_int "i64 option" | FV_double "f64 option" | FV_bool "bool option"
| FV_string "string option option" | FV_unknown u8

record FbPropertyEntry =
  fp_key :: "string option"
  fp_value :: FbPropertyValue

record FbRelationEntry =
  fr_type :: "string option"
  fr_target_wid :: u64

record FbProjectedEntity =
  fpe_wid :: u64
  fpe_fid :: u32
  fpe_version :: u64
  fpe_position :: "FbVec3Ecef option"
  fpe_semantic_type :: "string option"
  fpe_geometry_ref :: "string option"
  fpe_lifecycle :: u8
  fpe_properties :: "FbPropertyEntry option list option"
  fpe_state :: "FbPropertyEntry option list option"
  fpe_relations :: "FbRelationEntry option list option"
  fpe_capabilities :: "string option list option"
  fpe_frequency :: u8
  fpe_priority :: u32
  fpe_visibility_tags :: "string option list option"

record FbEntityEnter =
  fe_wid :: u64
  fe_fid :: u32
  fe_entity :: "FbProjectedEntity option"

record FbEntityUpdate =
  fu_wid :: u64
  fu_fid :: u32
  fu_entity :: "FbProjectedEntity option"

record FbEntityLeave =
  fl_wid :: u64
  fl_fid :: u32
  fl_reason :: u8

record FbKeyframeFrame =
  fk_stream_epoch :: u64
  fk_stream_sequence :: u64
  fk_snapshot_id :: u64
  fk_baseline_snapshot_id :: u64
  fk_tick :: u64
  fk_simulation_time_us :: i64
  fk_entities :: "FbEntityEnter option list option"

record FbDeltaFrame =
  fd_stream_epoch :: u64
  fd_stream_sequence :: u64
  fd_snapshot_id :: u64
  fd_baseline_snapshot_id :: u64
  fd_tick :: u64
  fd_simulation_time_us :: i64
  fd_enters :: "FbEntityEnter option list option"
  fd_updates :: "FbEntityUpdate option list option"
  fd_leaves :: "FbEntityLeave option list option"

record FbCommandReceipt =
  fcr_client_sequence :: u64
  fcr_status :: u8
  fcr_error_code :: "string option"

record FbProtocolError =
  fer_code :: "string option"
  fer_message :: "string option"

record FbReliableEvent =
  frl_kind :: u8
  frl_receipt :: "FbCommandReceipt option"
  frl_error :: "FbProtocolError option"

record FbHeartbeatFrame =
  fh_server_tick :: u64
  fh_latest_snapshot_id :: u64

datatype FbServerFrame =
  FS_none | FS_keyframe "FbKeyframeFrame option" | FS_delta "FbDeltaFrame option"
| FS_reliable "FbReliableEvent option" | FS_heartbeat "FbHeartbeatFrame option" | FS_unknown u8

record FbWorldStreamFrame =
  fw_schema_version :: u32
  fw_frame :: FbServerFrame

record FbAckFrame =
  fa_stream_epoch :: u64
  fa_snapshot_id :: u64

record FbKeyframeRequest =
  fkr_reason :: "string option"

datatype FbClientControl =
  FC_none | FC_ack "FbAckFrame option" | FC_keyframe_request "FbKeyframeRequest option" | FC_unknown u8

record FbClientStreamFrame =
  fc_schema_version :: u32
  fc_control :: FbClientControl

end
