(* ===== verification/Protocol_Codec.thy ===== *)
theory Protocol_Codec
  imports Protocol_Replica Codec_Messages Codec_Tables
begin

text \<open>
  \<^verbatim>\<open>libs/protocol/codec.cpp\<close> and the direct encoder of \<^verbatim>\<open>libs/gateway/frame_codec.cpp\<close>: frames to
  FlatBuffers tables and back.

  FlatBuffers itself (bytes to tables) is the parameter \<open>Flatbuffers\<close>: \<open>fbl_finish\<close> is
  \<open>Finish...Buffer\<close> with the bytes of the builder, \<open>fbl_has_identifier\<close> the check of the file
  identifier, \<open>fbl_verified depth tables bytes\<close> the verifier, which answers the root table if it
  accepts. Whether a string is written shared or plain does not change what is read.
\<close>

section \<open>FlatBuffers\<close>

record 'root Flatbuffers =
  fbl_finish :: "'root \<Rightarrow> bytes"
  fbl_has_identifier :: "bytes \<Rightarrow> bool"
  fbl_verified :: "u32 \<Rightarrow> u32 \<Rightarrow> bytes \<Rightarrow> 'root option"

section \<open>Encoding\<close>

definition text_within_limits :: "nat \<Rightarrow> ProtocolLimits \<Rightarrow> bool" where
  "text_within_limits n limits \<longleftrightarrow> n \<le> unat (pl_max_string_bytes limits)"

text \<open>A loop that appends the encoding of each element and gives up at the first failure.\<close>

fun encode_all :: "('a \<Rightarrow> 'b option) \<Rightarrow> 'a list \<Rightarrow> 'b list option" where
  "encode_all f [] = Some []"
| "encode_all f (x # xs) =
     (case f x of
        None \<Rightarrow> None
      | Some y \<Rightarrow> (case encode_all f xs of None \<Rightarrow> None | Some ys \<Rightarrow> Some (y # ys)))"

fun encode_payload :: "ProtocolLimits \<Rightarrow> WireValue \<Rightarrow> FbPropertyValue option" where
  "encode_payload limits (WV_int n) = Some (FV_int (Some n))"
| "encode_payload limits (WV_double d) = Some (FV_double (Some d))"
| "encode_payload limits (WV_bool b) = Some (FV_bool (Some b))"
| "encode_payload limits (WV_string t) =
     (if \<not> text_within_limits (length t) limits then None else Some (FV_string (Some (Some t))))"

definition encode_entry :: "ProtocolLimits \<Rightarrow> string \<times> WireValue \<Rightarrow> FbPropertyEntry option option" where
  "encode_entry limits = (\<lambda>(key, value).
     if \<not> text_within_limits (length key) limits then None
     else map_option (\<lambda>payload. Some \<lparr>fp_key = Some key, fp_value = payload\<rparr>) (encode_payload limits value))"

definition encode_bag :: "ProtocolLimits \<Rightarrow> WireAttributes \<Rightarrow> FbPropertyEntry option list option" where
  "encode_bag limits bag =
     (if fm_size bag > unat (pl_max_properties_per_entity limits) then None
      else encode_all (encode_entry limits) (fm_items bag))"

definition encode_strings :: "ProtocolLimits \<Rightarrow> string list \<Rightarrow> string option list option" where
  "encode_strings limits source =
     encode_all (\<lambda>t. if \<not> text_within_limits (length t) limits then None else Some (Some t)) source"

definition encode_relation :: "ProtocolLimits \<Rightarrow> WireRelation \<Rightarrow> FbRelationEntry option option" where
  "encode_relation limits r =
     (if \<not> text_within_limits (length (wrel_type r)) limits then None
      else Some (Some \<lparr>fr_type = Some (wrel_type r), fr_target_wid = wrel_target_wid r\<rparr>))"

definition encode_entity :: "ProtocolLimits \<Rightarrow> WireEntity \<Rightarrow> FbProjectedEntity option" where
  "encode_entity limits e =
     (if \<not> text_within_limits (length (we_semantic_type e)) limits
         \<or> \<not> text_within_limits (length (we_geometry_ref e)) limits
         \<or> length (we_relations e) > unat (pl_max_relations_per_entity limits) then None
      else
        case (encode_bag limits (we_properties e), encode_bag limits (we_state e),
              encode_all (encode_relation limits) (we_relations e),
              encode_strings limits (we_capabilities e), encode_strings limits (we_visibility_tags e)) of
          (Some properties, Some state, Some relations, Some capabilities, Some visibility_tags) \<Rightarrow>
            Some \<lparr>fpe_wid = wid_value (we_wid e), fpe_fid = fid_value (we_fid e),
              fpe_version = we_version e,
              fpe_position = Some \<lparr>fv_x = wv_x (we_position e), fv_y = wv_y (we_position e),
                                   fv_z = wv_z (we_position e)\<rparr>,
              fpe_semantic_type = Some (we_semantic_type e),
              fpe_geometry_ref = Some (we_geometry_ref e),
              fpe_lifecycle = wire_lifecycle_byte (we_lifecycle e),
              fpe_properties = Some properties, fpe_state = Some state, fpe_relations = Some relations,
              fpe_capabilities = Some capabilities, fpe_frequency = wire_frequency_byte (we_frequency e),
              fpe_priority = we_priority e, fpe_visibility_tags = Some visibility_tags\<rparr>
        | _ \<Rightarrow> None)"

definition encode_enter :: "ProtocolLimits \<Rightarrow> WireEnter \<Rightarrow> FbEntityEnter option" where
  "encode_enter limits x = map_option (\<lambda>entity.
     \<lparr>fe_wid = wid_value (wen_wid x), fe_fid = fid_value (wen_fid x), fe_entity = Some entity\<rparr>)
     (encode_entity limits (wen_entity x))"

definition encode_update :: "ProtocolLimits \<Rightarrow> WireUpdate \<Rightarrow> FbEntityUpdate option" where
  "encode_update limits x = map_option (\<lambda>entity.
     \<lparr>fu_wid = wid_value (wup_wid x), fu_fid = fid_value (wup_fid x), fu_entity = Some entity\<rparr>)
     (encode_entity limits (wup_entity x))"

definition encode_enters :: "ProtocolLimits \<Rightarrow> WireEnter list \<Rightarrow> FbEntityEnter option list option" where
  "encode_enters limits enters = encode_all (\<lambda>x. map_option Some (encode_enter limits x)) enters"

fun wire_reason_byte :: "WireLeaveReason \<Rightarrow> u8" where
  "wire_reason_byte WR_out_of_area = 0"
| "wire_reason_byte WR_not_relevant = 1"
| "wire_reason_byte WR_destroyed = 2"
| "wire_reason_byte WR_policy_changed = 3"

definition encode_leave :: "WireLeave \<Rightarrow> FbEntityLeave" where
  "encode_leave x =
     \<lparr>fl_wid = wid_value (wlv_wid x), fl_fid = fid_value (wlv_fid x),
      fl_reason = wire_reason_byte (wlv_reason x)\<rparr>"

definition world_stream_frame :: "FbServerFrame \<Rightarrow> FbWorldStreamFrame" where
  "world_stream_frame f = \<lparr>fw_schema_version = data_schema_version, fw_frame = f\<rparr>"

definition encode_keyframe :: "ProtocolLimits \<Rightarrow> WireKeyframe \<Rightarrow> FbWorldStreamFrame option" where
  "encode_keyframe limits k =
     (if length (wk_entities k) \<le> unat (pl_max_entities_per_frame limits) then
        map_option (\<lambda>entities. world_stream_frame (FS_keyframe (Some
          \<lparr>fk_stream_epoch = wk_stream_epoch k, fk_stream_sequence = wk_stream_sequence k,
           fk_snapshot_id = wk_snapshot_id k, fk_baseline_snapshot_id = wk_baseline_snapshot_id k,
           fk_tick = wk_tick k, fk_simulation_time_us = wk_simulation_time_us k,
           fk_entities = Some entities\<rparr>)))
          (encode_enters limits (wk_entities k))
      else None)"

definition encode_delta :: "ProtocolLimits \<Rightarrow> WireDelta \<Rightarrow> FbWorldStreamFrame option" where
  "encode_delta limits d =
     (let total = length (wd_enters d) + length (wd_updates d) + length (wd_leaves d) in
      if total \<le> unat (pl_max_entities_per_frame limits) then
        case (encode_enters limits (wd_enters d),
              encode_all (\<lambda>x. map_option Some (encode_update limits x)) (wd_updates d)) of
          (Some enters, Some updates) \<Rightarrow> Some (world_stream_frame (FS_delta (Some
            \<lparr>fd_stream_epoch = wd_stream_epoch d, fd_stream_sequence = wd_stream_sequence d,
             fd_snapshot_id = wd_snapshot_id d, fd_baseline_snapshot_id = wd_baseline_snapshot_id d,
             fd_tick = wd_tick d, fd_simulation_time_us = wd_simulation_time_us d,
             fd_enters = Some enters, fd_updates = Some updates,
             fd_leaves = Some (map (\<lambda>x. Some (encode_leave x)) (wd_leaves d))\<rparr>)))
        | _ \<Rightarrow> None
      else None)"

fun reliable_kind_byte :: "ReliableKind \<Rightarrow> u8" where
  "reliable_kind_byte RK_unspecified = 0"
| "reliable_kind_byte RK_command_receipt = 1"
| "reliable_kind_byte RK_protocol_error = 2"
| "reliable_kind_byte RK_event = 3"

fun receipt_status_byte :: "WireReceiptStatus \<Rightarrow> u8" where
  "receipt_status_byte WS_unspecified = 0"
| "receipt_status_byte WS_accepted = 1"
| "receipt_status_byte WS_applied = 2"
| "receipt_status_byte WS_rejected = 3"
| "receipt_status_byte WS_duplicate = 4"
| "receipt_status_byte WS_durable_accepted = 5"

definition encode_reliable :: "ProtocolLimits \<Rightarrow> WireReliable \<Rightarrow> FbWorldStreamFrame option" where
  "encode_reliable limits r =
     (if wrl_kind r = RK_command_receipt
         \<and> \<not> text_within_limits (length (wcr_error_code (wrl_receipt r))) limits then None
      else if wrl_kind r = RK_protocol_error
         \<and> (\<not> text_within_limits (length (wpe_code (wrl_error r))) limits
            \<or> \<not> text_within_limits (length (wpe_message (wrl_error r))) limits) then None
      else Some (world_stream_frame (FS_reliable (Some
        \<lparr>frl_kind = reliable_kind_byte (wrl_kind r),
         frl_receipt = (if wrl_kind r = RK_command_receipt then
             Some \<lparr>fcr_client_sequence = wcr_client_sequence (wrl_receipt r),
                   fcr_status = receipt_status_byte (wcr_status (wrl_receipt r)),
                   fcr_error_code = Some (wcr_error_code (wrl_receipt r))\<rparr>
           else None),
         frl_error = (if wrl_kind r = RK_protocol_error then
             Some \<lparr>fer_code = Some (wpe_code (wrl_error r)), fer_message = Some (wpe_message (wrl_error r))\<rparr>
           else None)\<rparr>))))"

definition encode_heartbeat :: "WireHeartbeat \<Rightarrow> FbWorldStreamFrame" where
  "encode_heartbeat h = world_stream_frame (FS_heartbeat (Some
     \<lparr>fh_server_tick = wh_server_tick h, fh_latest_snapshot_id = wh_latest_snapshot_id h\<rparr>))"

text \<open>The root table that is left in the builder; \<open>None\<close> is the failure \<open>false\<close>.\<close>

fun encode_server_frame_into :: "ProtocolLimits \<Rightarrow> WireFrame \<Rightarrow> FbWorldStreamFrame option" where
  "encode_server_frame_into limits (WF_keyframe k) = encode_keyframe limits k"
| "encode_server_frame_into limits (WF_delta d) = encode_delta limits d"
| "encode_server_frame_into limits (WF_reliable r) = encode_reliable limits r"
| "encode_server_frame_into limits (WF_heartbeat h) = Some (encode_heartbeat h)"

definition encode_server_frame ::
  "FbWorldStreamFrame Flatbuffers \<Rightarrow> WireFrame \<Rightarrow> ProtocolLimits \<Rightarrow> bytes" where
  "encode_server_frame F frame limits =
     (case encode_server_frame_into limits frame of None \<Rightarrow> [] | Some frame_root \<Rightarrow> fbl_finish F frame_root)"

fun client_control_root :: "ProtocolLimits \<Rightarrow> WireClientControl \<Rightarrow> FbClientStreamFrame option" where
  "client_control_root limits (WC_ack a) = Some
     \<lparr>fc_schema_version = data_schema_version, fc_control = FC_ack (Some
       \<lparr>fa_stream_epoch = wa_stream_epoch a, fa_snapshot_id = wa_snapshot_id a\<rparr>)\<rparr>"
| "client_control_root limits (WC_keyframe_request r) =
     (if \<not> text_within_limits (length (wkr_reason r)) limits then None
      else Some \<lparr>fc_schema_version = data_schema_version,
        fc_control = FC_keyframe_request (Some \<lparr>fkr_reason = Some (wkr_reason r)\<rparr>)\<rparr>)"

definition encode_client_control ::
  "FbClientStreamFrame Flatbuffers \<Rightarrow> WireClientControl \<Rightarrow> ProtocolLimits \<Rightarrow> bytes" where
  "encode_client_control F control limits =
     (case client_control_root limits control of None \<Rightarrow> [] | Some frame_root \<Rightarrow> fbl_finish F frame_root)"


section \<open>Decoding\<close>

record DecodeFailure =
  dfl_error_code :: string
  dfl_message :: string

text \<open>
  What a decoding step ends in: a value, a failure that fills \<open>DecodeFailure\<close>, or a read through a
  null pointer, which C++ leaves undefined.
\<close>

datatype 'a Decoded = Decoded 'a | Refused DecodeFailure | Null_dereference

definition fail :: "string \<Rightarrow> string \<Rightarrow> 'a Decoded" where
  "fail code message = Refused \<lparr>dfl_error_code = code, dfl_message = message\<rparr>"

fun and_then :: "'a Decoded \<Rightarrow> ('a \<Rightarrow> 'b Decoded) \<Rightarrow> 'b Decoded" where
  "and_then (Decoded x) f = f x"
| "and_then (Refused r) f = Refused r"
| "and_then Null_dereference f = Null_dereference"

fun decode_all :: "('a \<Rightarrow> 'b Decoded) \<Rightarrow> 'a list \<Rightarrow> 'b list Decoded" where
  "decode_all f [] = Decoded []"
| "decode_all f (x # xs) = and_then (f x) (\<lambda>y. and_then (decode_all f xs) (\<lambda>ys. Decoded (y # ys)))"

text \<open>A vector that may be missing: nothing is read then.\<close>

definition decode_vector :: "('a \<Rightarrow> 'b Decoded) \<Rightarrow> 'a list option \<Rightarrow> 'b list Decoded" where
  "decode_vector f v = (case v of None \<Rightarrow> Decoded [] | Some xs \<Rightarrow> decode_all f xs)"

fun decode_union :: "ProtocolLimits \<Rightarrow> FbPropertyValue \<Rightarrow> WireValue Decoded" where
  "decode_union limits (FV_int (Some n)) = Decoded (WV_int n)"
| "decode_union limits (FV_int None) = Null_dereference"
| "decode_union limits (FV_double (Some d)) = Decoded (WV_double d)"
| "decode_union limits (FV_double None) = Null_dereference"
| "decode_union limits (FV_bool (Some b)) = Decoded (WV_bool b)"
| "decode_union limits (FV_bool None) = Null_dereference"
| "decode_union limits (FV_string None) = Null_dereference"
| "decode_union limits (FV_string (Some None)) = fail error_invalid_request msg_text_without_value"
| "decode_union limits (FV_string (Some (Some t))) =
     (if \<not> text_within_limits (length t) limits then fail error_limit_exceeded msg_text_too_long
      else Decoded (WV_string t))"
| "decode_union limits FV_none = fail error_invalid_request msg_unknown_value_type"
| "decode_union limits (FV_unknown _) = fail error_invalid_request msg_unknown_value_type"

definition decode_entry :: "ProtocolLimits \<Rightarrow> FbPropertyEntry option \<Rightarrow> (string \<times> WireValue) Decoded" where
  "decode_entry limits entry =
     (case entry of
        None \<Rightarrow> fail error_invalid_request msg_entry_without_key
      | Some entry \<Rightarrow>
          (case fp_key entry of
             None \<Rightarrow> fail error_invalid_request msg_entry_without_key
           | Some key \<Rightarrow>
               if \<not> text_within_limits (length key) limits then fail error_limit_exceeded msg_key_too_long
               else and_then (decode_union limits (fp_value entry)) (\<lambda>value. Decoded (key, value))))"

text \<open>\<open>std::map::emplace\<close>: the first value of a key stays.\<close>

definition emplace :: "('k, 'v) fmap \<Rightarrow> 'k \<times> 'v \<Rightarrow> ('k, 'v) fmap" where
  "emplace m = (\<lambda>(k, v). if fm_has m k then m else fmupd k v m)"

fun decode_entries ::
  "ProtocolLimits \<Rightarrow> WireAttributes \<Rightarrow> FbPropertyEntry option list \<Rightarrow> WireAttributes Decoded" where
  "decode_entries limits out [] = Decoded out"
| "decode_entries limits out (entry # entries) =
     and_then (decode_entry limits entry) (\<lambda>kv. decode_entries limits (emplace out kv) entries)"

definition decode_bag ::
  "ProtocolLimits \<Rightarrow> FbPropertyEntry option list option \<Rightarrow> WireAttributes Decoded" where
  "decode_bag limits source =
     (case source of
        None \<Rightarrow> Decoded fmempty
      | Some entries \<Rightarrow>
          if length entries > unat (pl_max_properties_per_entity limits)
          then fail error_limit_exceeded msg_too_many_properties
          else decode_entries limits fmempty entries)"

definition lifecycle_of_byte :: "u8 \<Rightarrow> WireLifecycle" where
  "lifecycle_of_byte b =
     (if b = 0 then WL_staged else if b = 1 then WL_active else if b = 2 then WL_suspended else WL_retired)"

definition frequency_of_byte :: "u8 \<Rightarrow> WireFrequency" where
  "frequency_of_byte b = (if b = 0 then WF_on_change else if b = 1 then WF_slow else WF_fast)"

definition reason_of_byte :: "u8 \<Rightarrow> WireLeaveReason" where
  "reason_of_byte b =
     (if b = 0 then WR_out_of_area else if b = 1 then WR_not_relevant
      else if b = 2 then WR_destroyed else WR_policy_changed)"

definition kind_of_byte :: "u8 \<Rightarrow> ReliableKind" where
  "kind_of_byte b =
     (if b = 0 then RK_unspecified else if b = 1 then RK_command_receipt
      else if b = 2 then RK_protocol_error else RK_event)"

definition status_of_byte :: "u8 \<Rightarrow> WireReceiptStatus" where
  "status_of_byte b =
     (if b = 0 then WS_unspecified else if b = 1 then WS_accepted else if b = 2 then WS_applied
      else if b = 3 then WS_rejected else if b = 4 then WS_duplicate else WS_durable_accepted)"

definition decode_relation :: "ProtocolLimits \<Rightarrow> FbRelationEntry option \<Rightarrow> WireRelation Decoded" where
  "decode_relation limits relation =
     (case relation of
        None \<Rightarrow> fail error_invalid_request msg_relation_without_type
      | Some r \<Rightarrow>
          (case fr_type r of
             None \<Rightarrow> fail error_invalid_request msg_relation_without_type
           | Some t \<Rightarrow>
               if \<not> text_within_limits (length t) limits
               then fail error_limit_exceeded msg_relation_type_too_long
               else Decoded \<lparr>wrel_type = t, wrel_target_wid = fr_target_wid r\<rparr>))"

definition decode_relations ::
  "ProtocolLimits \<Rightarrow> FbRelationEntry option list option \<Rightarrow> WireRelation list Decoded" where
  "decode_relations limits source =
     (case source of
        None \<Rightarrow> Decoded []
      | Some relations \<Rightarrow>
          if length relations > unat (pl_max_relations_per_entity limits)
          then fail error_limit_exceeded msg_too_many_relations
          else decode_all (decode_relation limits) relations)"

definition decode_text :: "string \<Rightarrow> string \<Rightarrow> ProtocolLimits \<Rightarrow> string option \<Rightarrow> string Decoded" where
  "decode_text msg_empty msg_long limits text =
     (case text of
        None \<Rightarrow> fail error_invalid_request msg_empty
      | Some t \<Rightarrow> if \<not> text_within_limits (length t) limits then fail error_limit_exceeded msg_long
                 else Decoded t)"

definition decode_capabilities :: "ProtocolLimits \<Rightarrow> string option list option \<Rightarrow> string list Decoded" where
  "decode_capabilities limits v =
     decode_vector (decode_text msg_capability_empty msg_capability_too_long limits) v"

definition decode_tags :: "ProtocolLimits \<Rightarrow> string option list option \<Rightarrow> string list Decoded" where
  "decode_tags limits v = decode_vector (decode_text msg_tag_empty msg_tag_too_long limits) v"

definition decode_entity :: "ProtocolLimits \<Rightarrow> FbProjectedEntity option \<Rightarrow> WireEntity Decoded" where
  "decode_entity limits source =
     (case source of
        None \<Rightarrow> fail error_invalid_request msg_entity_incomplete
      | Some e \<Rightarrow>
          (case (fpe_position e, fpe_semantic_type e, fpe_geometry_ref e) of
             (Some position, Some semantic_type, Some geometry_ref) \<Rightarrow>
               if \<not> text_within_limits (length semantic_type) limits
                  \<or> \<not> text_within_limits (length geometry_ref) limits
               then fail error_limit_exceeded msg_entity_text_too_long
               else if fpe_lifecycle e > 3 then fail error_invalid_request msg_lifecycle_range
               else if fpe_frequency e > 2 then fail error_invalid_request msg_frequency_range
               else
                 and_then (decode_bag limits (fpe_properties e)) (\<lambda>properties.
                 and_then (decode_bag limits (fpe_state e)) (\<lambda>state.
                 and_then (decode_relations limits (fpe_relations e)) (\<lambda>relations.
                 and_then (decode_capabilities limits (fpe_capabilities e)) (\<lambda>capabilities.
                 and_then (decode_tags limits (fpe_visibility_tags e)) (\<lambda>tags.
                 Decoded \<lparr>we_wid = WorldId (fpe_wid e), we_fid = FeatureId (fpe_fid e),
                   we_version = fpe_version e,
                   we_position = \<lparr>wv_x = fv_x position, wv_y = fv_y position, wv_z = fv_z position\<rparr>,
                   we_semantic_type = semantic_type, we_geometry_ref = geometry_ref,
                   we_lifecycle = lifecycle_of_byte (fpe_lifecycle e),
                   we_properties = properties, we_state = state, we_relations = relations,
                   we_capabilities = capabilities, we_frequency = frequency_of_byte (fpe_frequency e),
                   we_priority = fpe_priority e, we_visibility_tags = tags\<rparr>)))))
           | _ \<Rightarrow> fail error_invalid_request msg_entity_incomplete))"

definition decode_enter :: "ProtocolLimits \<Rightarrow> FbEntityEnter option \<Rightarrow> WireEnter Decoded" where
  "decode_enter limits source =
     (case source of
        None \<Rightarrow> fail error_invalid_request msg_enter_empty
      | Some x \<Rightarrow> and_then (decode_entity limits (fe_entity x)) (\<lambda>entity.
          Decoded \<lparr>wen_wid = WorldId (fe_wid x), wen_fid = FeatureId (fe_fid x), wen_entity = entity\<rparr>))"

definition decode_update :: "ProtocolLimits \<Rightarrow> FbEntityUpdate option \<Rightarrow> WireUpdate Decoded" where
  "decode_update limits source =
     (case source of
        None \<Rightarrow> fail error_invalid_request msg_update_empty
      | Some x \<Rightarrow> and_then (decode_entity limits (fu_entity x)) (\<lambda>entity.
          Decoded \<lparr>wup_wid = WorldId (fu_wid x), wup_fid = FeatureId (fu_fid x), wup_entity = entity\<rparr>))"

definition decode_leave :: "FbEntityLeave option \<Rightarrow> WireLeave Decoded" where
  "decode_leave source =
     (case source of
        None \<Rightarrow> fail error_invalid_request msg_leave_empty
      | Some x \<Rightarrow>
          if fl_reason x > 3 then fail error_invalid_request msg_leave_reason_range
          else Decoded \<lparr>wlv_wid = WorldId (fl_wid x), wlv_fid = FeatureId (fl_fid x),
                        wlv_reason = reason_of_byte (fl_reason x)\<rparr>)"

definition decode_keyframe :: "ProtocolLimits \<Rightarrow> FbKeyframeFrame \<Rightarrow> WireFrame Decoded" where
  "decode_keyframe limits k =
     and_then
       (case fk_entities k of
          None \<Rightarrow> Decoded []
        | Some entities \<Rightarrow>
            if length entities > unat (pl_max_entities_per_frame limits)
            then fail error_limit_exceeded msg_too_many_entities
            else decode_all (decode_enter limits) entities)
       (\<lambda>entities. Decoded (WF_keyframe
          \<lparr>wk_stream_epoch = fk_stream_epoch k, wk_stream_sequence = fk_stream_sequence k,
           wk_snapshot_id = fk_snapshot_id k, wk_baseline_snapshot_id = fk_baseline_snapshot_id k,
           wk_tick = fk_tick k, wk_simulation_time_us = fk_simulation_time_us k, wk_entities = entities\<rparr>))"

definition vector_size :: "'a list option \<Rightarrow> nat" where
  "vector_size v = (case v of None \<Rightarrow> 0 | Some xs \<Rightarrow> length xs)"

definition decode_delta :: "ProtocolLimits \<Rightarrow> FbDeltaFrame \<Rightarrow> WireFrame Decoded" where
  "decode_delta limits d =
     (if vector_size (fd_enters d) + vector_size (fd_updates d) + vector_size (fd_leaves d)
           > unat (pl_max_entities_per_frame limits)
      then fail error_limit_exceeded msg_too_many_entities
      else
        and_then (decode_vector (decode_enter limits) (fd_enters d)) (\<lambda>enters.
        and_then (decode_vector (decode_update limits) (fd_updates d)) (\<lambda>updates.
        and_then (decode_vector decode_leave (fd_leaves d)) (\<lambda>leaves.
        Decoded (WF_delta
          \<lparr>wd_stream_epoch = fd_stream_epoch d, wd_stream_sequence = fd_stream_sequence d,
           wd_snapshot_id = fd_snapshot_id d, wd_baseline_snapshot_id = fd_baseline_snapshot_id d,
           wd_tick = fd_tick d, wd_simulation_time_us = fd_simulation_time_us d,
           wd_enters = enters, wd_updates = updates, wd_leaves = leaves\<rparr>)))))"

definition wire_command_receipt :: WireCommandReceipt where
  "wire_command_receipt = \<lparr>wcr_client_sequence = 0, wcr_status = WS_unspecified, wcr_error_code = []\<rparr>"

definition wire_protocol_error :: WireProtocolError where
  "wire_protocol_error = \<lparr>wpe_code = [], wpe_message = []\<rparr>"

definition text_or_empty :: "string option \<Rightarrow> string" where
  "text_or_empty t = (case t of None \<Rightarrow> [] | Some x \<Rightarrow> x)"

definition decode_reliable :: "FbReliableEvent \<Rightarrow> WireFrame Decoded" where
  "decode_reliable source =
     (if frl_kind source > 3 then fail error_invalid_request msg_kind_range
      else
        and_then
          (case frl_receipt source of
             None \<Rightarrow> Decoded wire_command_receipt
           | Some receipt \<Rightarrow>
               if fcr_status receipt > 5 then fail error_invalid_request msg_status_range
               else Decoded \<lparr>wcr_client_sequence = fcr_client_sequence receipt,
                             wcr_status = status_of_byte (fcr_status receipt),
                             wcr_error_code = text_or_empty (fcr_error_code receipt)\<rparr>)
          (\<lambda>receipt. Decoded (WF_reliable
             \<lparr>wrl_kind = kind_of_byte (frl_kind source), wrl_receipt = receipt,
              wrl_error =
                (case frl_error source of
                   None \<Rightarrow> wire_protocol_error
                 | Some e \<Rightarrow> \<lparr>wpe_code = text_or_empty (fer_code e),
                              wpe_message = text_or_empty (fer_message e)\<rparr>)\<rparr>)))"

text \<open>A pointer that is dereferenced without a check.\<close>

definition deref :: "'a option \<Rightarrow> ('a \<Rightarrow> 'b Decoded) \<Rightarrow> 'b Decoded" where
  "deref p f = (case p of None \<Rightarrow> Null_dereference | Some x \<Rightarrow> f x)"

definition kMinFrameBytes :: nat where
  "kMinFrameBytes = 8"

text \<open>The checks of the buffer, the same for both directions; the answer is the root table.\<close>

definition open_frame :: "'root Flatbuffers \<Rightarrow> bytes \<Rightarrow> ProtocolLimits \<Rightarrow> 'root Decoded" where
  "open_frame F bytes limits =
     (if bytes = [] then fail error_invalid_request msg_empty_frame
      else if length bytes > unat (pl_max_frame_bytes limits)
      then fail error_limit_exceeded msg_frame_too_large
      else if length bytes < kMinFrameBytes then fail error_invalid_request msg_frame_too_short
      else if \<not> fbl_has_identifier F bytes then fail error_version_incompatible msg_identifier_mismatch
      else case fbl_verified F (pl_verifier_max_depth limits) (pl_verifier_max_tables limits) bytes of
          None \<Rightarrow> fail error_invalid_request msg_verifier_refused
        | Some frame_root \<Rightarrow> Decoded frame_root)"

definition decode_server_root :: "ProtocolLimits \<Rightarrow> FbWorldStreamFrame \<Rightarrow> WireFrame Decoded" where
  "decode_server_root limits w =
     (if fw_schema_version w \<noteq> data_schema_version
      then fail error_version_incompatible msg_schema_version
      else case fw_frame w of
          FS_keyframe p \<Rightarrow> deref p (decode_keyframe limits)
        | FS_delta p \<Rightarrow> deref p (decode_delta limits)
        | FS_reliable p \<Rightarrow> deref p decode_reliable
        | FS_heartbeat p \<Rightarrow> deref p (\<lambda>h. Decoded (WF_heartbeat
            \<lparr>wh_server_tick = fh_server_tick h, wh_latest_snapshot_id = fh_latest_snapshot_id h\<rparr>))
        | FS_none \<Rightarrow> fail error_invalid_request msg_unknown_server_frame
        | FS_unknown _ \<Rightarrow> fail error_invalid_request msg_unknown_server_frame)"

definition decode_server_frame ::
  "FbWorldStreamFrame Flatbuffers \<Rightarrow> bytes \<Rightarrow> ProtocolLimits \<Rightarrow> WireFrame Decoded" where
  "decode_server_frame F bytes limits = and_then (open_frame F bytes limits) (decode_server_root limits)"

definition decode_control_root :: "ProtocolLimits \<Rightarrow> FbClientStreamFrame \<Rightarrow> WireClientControl Decoded" where
  "decode_control_root limits w =
     (if fc_schema_version w \<noteq> data_schema_version
      then fail error_version_incompatible msg_schema_version
      else case fc_control w of
          FC_ack p \<Rightarrow> deref p (\<lambda>a. Decoded (WC_ack
            \<lparr>wa_stream_epoch = fa_stream_epoch a, wa_snapshot_id = fa_snapshot_id a\<rparr>))
        | FC_keyframe_request p \<Rightarrow> deref p (\<lambda>r.
            case fkr_reason r of
              None \<Rightarrow> Decoded (WC_keyframe_request \<lparr>wkr_reason = []\<rparr>)
            | Some reason \<Rightarrow>
                if \<not> text_within_limits (length reason) limits
                then fail error_limit_exceeded msg_reason_too_long
                else Decoded (WC_keyframe_request \<lparr>wkr_reason = reason\<rparr>))
        | FC_none \<Rightarrow> fail error_invalid_request msg_unknown_control_frame
        | FC_unknown _ \<Rightarrow> fail error_invalid_request msg_unknown_control_frame)"

definition decode_client_control ::
  "FbClientStreamFrame Flatbuffers \<Rightarrow> bytes \<Rightarrow> ProtocolLimits \<Rightarrow> WireClientControl Decoded" where
  "decode_client_control F bytes limits = and_then (open_frame F bytes limits) (decode_control_root limits)"

end
