(* ===== verification/Codec_Roundtrip.thy ===== *)
theory Codec_Roundtrip
  imports Protocol_Codec
begin

text \<open>
  The codec of \<^verbatim>\<open>libs/protocol/codec.cpp\<close>: what the encoder writes the decoder reads back, what the
  decoder accepts is within the limits, and how it refuses.
\<close>

section \<open>Loops\<close>

lemma encode_all_decode:
  "encode_all f xs = Some ys \<Longrightarrow> (\<And>x y. x \<in> set xs \<Longrightarrow> f x = Some y \<Longrightarrow> g y = Decoded (h x)) \<Longrightarrow>
     decode_all g ys = Decoded (map h xs)"
proof (induction xs arbitrary: ys)
  case (Cons x xs)
  then obtain y zs where y: "f x = Some y" "encode_all f xs = Some zs" "ys = y # zs"
    by (auto split: option.splits)
  have "g y = Decoded (h x)" using Cons.prems(2) y(1) by simp
  moreover have "decode_all g zs = Decoded (map h xs)" using Cons.IH [OF y(2)] Cons.prems(2) by simp
  ultimately show ?case by (simp add: y(3))
qed simp

lemma encode_all_length: "encode_all f xs = Some ys \<Longrightarrow> length ys = length xs"
  by (induction xs arbitrary: ys) (auto split: option.splits)

lemma encode_all_iff: "encode_all f xs \<noteq> None \<longleftrightarrow> (\<forall>x \<in> set xs. f x \<noteq> None)"
  by (induction xs) (auto split: option.splits)

lemma encode_all_map: "encode_all f (map g xs) = encode_all (\<lambda>x. f (g x)) xs"
  by (induction xs) (simp_all split: option.split)

lemma and_then_Decoded: "and_then x f = Decoded z \<longleftrightarrow> (\<exists>y. x = Decoded y \<and> f y = Decoded z)"
  by (cases x) auto

lemma and_then_Null:
  "and_then x f = Null_dereference \<longleftrightarrow> x = Null_dereference \<or> (\<exists>y. x = Decoded y \<and> f y = Null_dereference)"
  by (cases x) auto

lemma and_then_Refused:
  "and_then x f = Refused r \<longleftrightarrow> x = Refused r \<or> (\<exists>y. x = Decoded y \<and> f y = Refused r)"
  by (cases x) auto

lemma decode_all_set:
  "decode_all g ys = Decoded xs \<Longrightarrow> length xs = length ys \<and> (\<forall>x \<in> set xs. \<exists>y. g y = Decoded x)"
  by (induction ys arbitrary: xs) (auto simp: and_then_Decoded)

section \<open>Enumerations\<close>

lemma enum_roundtrips [codec_simps]:
  "lifecycle_of_byte (wire_lifecycle_byte l) = l" "\<not> wire_lifecycle_byte l > 3"
  "frequency_of_byte (wire_frequency_byte f) = f" "\<not> wire_frequency_byte f > 2"
  "reason_of_byte (wire_reason_byte r) = r" "\<not> wire_reason_byte r > 3"
  "kind_of_byte (reliable_kind_byte k) = k" "\<not> reliable_kind_byte k > 3"
  "status_of_byte (receipt_status_byte s) = s" "\<not> receipt_status_byte s > 5"
           apply (cases l; simp add: lifecycle_of_byte_def)
          apply (cases l; simp)
         apply (cases f; simp add: frequency_of_byte_def)
        apply (cases f; simp)
       apply (cases r; simp add: reason_of_byte_def)
      apply (cases r; simp)
     apply (cases k; simp add: kind_of_byte_def)
    apply (cases k; simp)
   apply (cases s; simp add: status_of_byte_def)
  apply (cases s; simp)
  done

section \<open>Attributes\<close>

lemma decode_encode_entry:
  "encode_entry limits kv = Some y \<Longrightarrow> decode_entry limits y = Decoded kv"
proof -
  obtain k v where kv: "kv = (k, v)" by fastforce
  assume "encode_entry limits kv = Some y"
  then obtain p where p: "encode_payload limits v = Some p" "y = Some \<lparr>fp_key = Some k, fp_value = p\<rparr>"
      "text_within_limits (length k) limits"
    by (auto simp: encode_entry_def kv split: if_splits)
  have "decode_union limits p = Decoded v"
    using p(1) by (cases v) (auto split: if_splits)
  with p show ?thesis by (simp add: decode_entry_def kv)
qed

lemma lookup_emplace_all:
  "fmlookup (foldl emplace m kvs) k = (case fmlookup m k of Some v \<Rightarrow> Some v | None \<Rightarrow> map_of kvs k)"
proof (induction kvs arbitrary: m)
  case (Cons kv kvs)
  obtain a b where kv: "kv = (a, b)" by fastforce
  have "fmlookup (emplace m kv) k =
      (case fmlookup m k of Some v \<Rightarrow> Some v | None \<Rightarrow> if k = a then Some b else None)"
    by (auto simp: emplace_def kv fm_has_def split: option.split)
  with Cons.IH [of "emplace m kv"] show ?case by (auto simp: kv split: option.split)
qed (simp split: option.split)

lemma emplace_items: "foldl emplace fmempty (fm_items bag) = bag"
  by (rule fmap_ext) (simp add: lookup_emplace_all)

lemma decode_encode_entries:
  "encode_all (encode_entry limits) kvs = Some ys \<Longrightarrow>
     decode_entries limits m ys = Decoded (foldl emplace m kvs)"
proof (induction kvs arbitrary: m ys)
  case (Cons kv kvs)
  then obtain y zs where y: "encode_entry limits kv = Some y" "encode_all (encode_entry limits) kvs = Some zs"
      "ys = y # zs"
    by (auto split: option.splits)
  from Cons.IH [OF y(2), of "emplace m kv"] show ?case
    by (simp add: y(3) decode_encode_entry [OF y(1)])
qed simp

lemma decode_encode_bag [codec_simps]:
  "encode_bag limits bag = Some ys \<Longrightarrow> decode_bag limits (Some ys) = Decoded bag"
  by (auto simp: encode_bag_def decode_bag_def decode_encode_entries emplace_items
      dest: encode_all_length split: if_splits)

text \<open>Accepted attributes are within the limits.\<close>

lemma decode_union_encodable: "decode_union limits v = Decoded x \<Longrightarrow> encode_payload limits x \<noteq> None"
  by (cases "(limits, v)" rule: decode_union.cases) (auto simp: fail_def split: if_splits)

lemma decode_entry_encodable: "decode_entry limits e = Decoded kv \<Longrightarrow> encode_entry limits kv \<noteq> None"
  by (auto simp: decode_entry_def encode_entry_def fail_def and_then_Decoded dest: decode_union_encodable
      split: option.splits if_splits)

lemma fm_size_emplace: "fm_size (emplace m kv) \<le> Suc (fm_size m)"
  by (cases kv) (simp add: emplace_def fm_size_upd)

lemma decode_entries_encodable:
  "decode_entries limits m ys = Decoded bag \<Longrightarrow>
   (\<And>k v. fmlookup m k = Some v \<Longrightarrow> encode_entry limits (k, v) \<noteq> None) \<Longrightarrow>
   fm_size bag \<le> fm_size m + length ys \<and>
   (\<forall>k v. fmlookup bag k = Some v \<longrightarrow> encode_entry limits (k, v) \<noteq> None)"
proof (induction ys arbitrary: m)
  case (Cons y ys)
  then obtain kv where kv: "decode_entry limits y = Decoded kv"
    "decode_entries limits (emplace m kv) ys = Decoded bag"
    by (auto simp: and_then_Decoded)
  have "encode_entry limits (k, v) \<noteq> None" if "fmlookup (emplace m kv) k = Some v" for k v
    using that Cons.prems(2) decode_entry_encodable [OF kv(1)]
    by (cases kv) (auto simp: emplace_def split: if_splits)
  from Cons.IH [OF kv(2) this] fm_size_emplace [of m kv] show ?case by simp
qed auto

lemma decode_bag_encodable:
  assumes "decode_bag limits source = Decoded bag"
  shows "encode_bag limits bag \<noteq> None"
proof (cases source)
  case None
  then show ?thesis using assms by (simp add: decode_bag_def encode_bag_def fm_items_def)
next
  case (Some ys)
  then have ys: "\<not> length ys > unat (pl_max_properties_per_entity limits)"
      "decode_entries limits fmempty ys = Decoded bag"
    using assms by (simp_all add: decode_bag_def fail_def split: if_splits)
  have "fm_size bag \<le> length ys" "\<forall>k v. fmlookup bag k = Some v \<longrightarrow> encode_entry limits (k, v) \<noteq> None"
    using decode_entries_encodable [OF ys(2)] by simp_all
  then have "encode_all (encode_entry limits) (fm_items bag) \<noteq> None" "fm_size bag \<le> unat (pl_max_properties_per_entity limits)"
    using ys(1) unfolding encode_all_iff by (auto simp: set_fm_items)
  then show ?thesis by (simp add: encode_bag_def)
qed

section \<open>Entities\<close>

lemma decode_encode_strings [codec_simps]:
  assumes "encode_strings limits xs = Some ys"
  shows "decode_capabilities limits (Some ys) = Decoded xs" "decode_tags limits (Some ys) = Decoded xs"
proof -
  have "decode_all (decode_text a b limits) ys = Decoded (map (\<lambda>x. x) xs)" for a b
    using assms unfolding encode_strings_def
    by (rule encode_all_decode) (auto simp: decode_text_def split: if_splits)
  then show "decode_capabilities limits (Some ys) = Decoded xs" "decode_tags limits (Some ys) = Decoded xs"
    by (simp_all add: decode_capabilities_def decode_tags_def decode_vector_def)
qed

lemma decode_encode_relations [codec_simps]:
  assumes "encode_all (encode_relation limits) xs = Some ys"
    "length xs \<le> unat (pl_max_relations_per_entity limits)"
  shows "decode_relations limits (Some ys) = Decoded xs"
proof -
  have "decode_all (decode_relation limits) ys = Decoded (map (\<lambda>x. x) xs)"
    using assms(1)
    by (rule encode_all_decode) (auto simp: decode_relation_def encode_relation_def split: if_splits)
  then show ?thesis
    using encode_all_length [OF assms(1)] assms(2) by (simp add: decode_relations_def)
qed

lemma decode_encode_entity [codec_simps]:
  assumes "encode_entity limits e = Some t"
  shows "decode_entity limits (Some t) = Decoded e"
proof -
  obtain properties state relations capabilities tags where
    parts: "encode_bag limits (we_properties e) = Some properties" "encode_bag limits (we_state e) = Some state"
      "encode_all (encode_relation limits) (we_relations e) = Some relations"
      "encode_strings limits (we_capabilities e) = Some capabilities"
      "encode_strings limits (we_visibility_tags e) = Some tags"
    and sizes: "text_within_limits (length (we_semantic_type e)) limits"
      "text_within_limits (length (we_geometry_ref e)) limits"
      "length (we_relations e) \<le> unat (pl_max_relations_per_entity limits)"
    using assms by (auto simp: encode_entity_def split: if_splits option.splits)
  show ?thesis
    using assms sizes
    by (simp add: encode_entity_def parts sizes decode_entity_def enum_roundtrips
        decode_encode_bag [OF parts(1)] decode_encode_bag [OF parts(2)]
        decode_encode_relations [OF parts(3) sizes(3)] decode_encode_strings [OF parts(4)]
        decode_encode_strings [OF parts(5)] not_less)
      (auto simp: sizes enum_roundtrips decode_encode_bag [OF parts(1)] decode_encode_bag [OF parts(2)]
        decode_encode_relations [OF parts(3) sizes(3)] decode_encode_strings [OF parts(4)]
        decode_encode_strings [OF parts(5)])
qed


lemma decode_relations_encodable:
  assumes "decode_relations limits source = Decoded xs"
  shows "encode_all (encode_relation limits) xs \<noteq> None" "length xs \<le> unat (pl_max_relations_per_entity limits)"
proof -
  have one: "encode_relation limits r \<noteq> None" if "decode_relation limits y = Decoded r" for y r
    using that by (auto simp: decode_relation_def encode_relation_def fail_def split: option.splits if_splits)
  have "length xs \<le> unat (pl_max_relations_per_entity limits) \<and>
      (\<forall>x \<in> set xs. \<exists>y. decode_relation limits y = Decoded x)"
  proof (cases source)
    case None
    with assms show ?thesis by (simp add: decode_relations_def)
  next
    case (Some ys)
    with assms have "decode_all (decode_relation limits) ys = Decoded xs"
        "length ys \<le> unat (pl_max_relations_per_entity limits)"
      by (simp_all add: decode_relations_def fail_def split: if_splits)
    with decode_all_set [OF this(1)] show ?thesis by simp
  qed
  then show "encode_all (encode_relation limits) xs \<noteq> None" "length xs \<le> unat (pl_max_relations_per_entity limits)"
    unfolding encode_all_iff using one by (blast, simp)
qed

lemma decode_vector_all:
  "decode_vector g v = Decoded xs \<Longrightarrow> length xs = vector_size v \<and> (\<forall>x \<in> set xs. \<exists>y. g y = Decoded x)"
  by (auto simp: decode_vector_def vector_size_def split: option.splits dest: decode_all_set)

lemma decode_text_bounded: "decode_text a b limits y = Decoded t \<Longrightarrow> text_within_limits (length t) limits"
  by (auto simp: decode_text_def fail_def split: option.splits if_splits)

lemma decode_strings_encodable:
  "decode_capabilities limits v = Decoded xs \<Longrightarrow> encode_strings limits xs \<noteq> None"
  "decode_tags limits v = Decoded xs \<Longrightarrow> encode_strings limits xs \<noteq> None"
  unfolding decode_capabilities_def decode_tags_def encode_strings_def encode_all_iff
  by (auto dest!: decode_vector_all dest: decode_text_bounded)

lemma decode_entity_encodable:
  assumes "decode_entity limits source = Decoded e"
  shows "encode_entity limits e \<noteq> None"
proof -
  obtain t semantic geometry where t: "source = Some t" "fpe_semantic_type t = Some semantic"
      "fpe_geometry_ref t = Some geometry" "text_within_limits (length semantic) limits"
      "text_within_limits (length geometry) limits"
    using assms by (auto simp: decode_entity_def fail_def split: option.splits if_splits)
  then have parts: "decode_bag limits (fpe_properties t) = Decoded (we_properties e)"
      "decode_bag limits (fpe_state t) = Decoded (we_state e)"
      "decode_relations limits (fpe_relations t) = Decoded (we_relations e)"
      "decode_capabilities limits (fpe_capabilities t) = Decoded (we_capabilities e)"
      "decode_tags limits (fpe_visibility_tags t) = Decoded (we_visibility_tags e)"
      "we_semantic_type e = semantic" "we_geometry_ref e = geometry"
    using assms by (auto simp: decode_entity_def fail_def and_then_Decoded split: option.splits if_splits)
  show ?thesis
    using decode_bag_encodable [OF parts(1)] decode_bag_encodable [OF parts(2)]
      decode_relations_encodable [OF parts(3)] decode_strings_encodable(1) [OF parts(4)]
      decode_strings_encodable(2) [OF parts(5)] parts(6,7) t(4,5)
    by (auto simp: encode_entity_def)
qed

section \<open>Frames\<close>

lemma decode_encode_enter:
  "encode_enter limits x = Some t \<Longrightarrow> decode_enter limits (Some t) = Decoded x"
  by (auto simp: encode_enter_def decode_enter_def decode_encode_entity)

lemma decode_encode_update:
  "encode_update limits x = Some t \<Longrightarrow> decode_update limits (Some t) = Decoded x"
  by (auto simp: encode_update_def decode_update_def decode_encode_entity)

lemma decode_encode_leave: "decode_leave (Some (encode_leave x)) = Decoded x"
  by (simp add: decode_leave_def encode_leave_def enum_roundtrips)

lemma decode_encode_enters:
  assumes "encode_enters limits xs = Some ys"
  shows "decode_all (decode_enter limits) ys = Decoded xs"
proof -
  have "decode_all (decode_enter limits) ys = Decoded (map (\<lambda>x. x) xs)"
    using assms unfolding encode_enters_def by (rule encode_all_decode) (auto simp: decode_encode_enter)
  then show ?thesis by simp
qed

text \<open>What arrives: a reliable event carries only the part its kind names.\<close>

fun received :: "WireFrame \<Rightarrow> WireFrame" where
  "received (WF_reliable r) = WF_reliable
     (r\<lparr>wrl_receipt := (if wrl_kind r = RK_command_receipt then wrl_receipt r else wire_command_receipt),
        wrl_error := (if wrl_kind r = RK_protocol_error then wrl_error r else wire_protocol_error)\<rparr>)"
| "received f = f"

lemma decode_encode_root:
  assumes "encode_server_frame_into limits frame = Some t"
  shows "decode_server_root limits t = Decoded (received frame)"
proof (cases frame)
  case (WF_keyframe k)
  then obtain ys where ys: "encode_enters limits (wk_entities k) = Some ys"
      "length (wk_entities k) \<le> unat (pl_max_entities_per_frame limits)"
    using assms by (auto simp: encode_keyframe_def split: if_splits)
  moreover from ys have "length ys = length (wk_entities k)"
    by (auto simp: encode_enters_def dest: encode_all_length)
  ultimately show ?thesis
    using assms WF_keyframe
    by (auto simp: encode_keyframe_def decode_server_root_def world_stream_frame_def deref_def
        decode_keyframe_def decode_encode_enters)
next
  case (WF_delta d)
  then obtain es us where parts: "encode_enters limits (wd_enters d) = Some es"
      "encode_all (\<lambda>x. map_option Some (encode_update limits x)) (wd_updates d) = Some us"
      "length (wd_enters d) + length (wd_updates d) + length (wd_leaves d) \<le> unat (pl_max_entities_per_frame limits)"
    using assms by (auto simp: encode_delta_def Let_def split: if_splits option.splits)
  have lengths: "length es = length (wd_enters d)" "length us = length (wd_updates d)"
    using parts by (auto simp: encode_enters_def dest: encode_all_length)
  have "decode_all (decode_update limits) us = Decoded (map (\<lambda>x. x) (wd_updates d))"
    using parts(2) by (rule encode_all_decode) (auto simp: decode_encode_update)
  moreover have "decode_all decode_leave (map (\<lambda>x. Some (encode_leave x)) xs) = Decoded xs" for xs
    by (induction xs) (auto simp: decode_encode_leave)
  ultimately show ?thesis
    using assms WF_delta parts
    by (auto simp: encode_delta_def decode_server_root_def world_stream_frame_def deref_def
        decode_delta_def decode_encode_enters vector_size_def decode_vector_def lengths)
next
  case (WF_reliable r)
  then show ?thesis
    using assms
    by (cases "wrl_kind r")
      (auto simp: encode_reliable_def decode_server_root_def world_stream_frame_def deref_def
        decode_reliable_def enum_roundtrips text_or_empty_def wire_command_receipt_def
        wire_protocol_error_def kind_of_byte_def split: if_splits)
next
  case (WF_heartbeat h)
  then show ?thesis
    using assms by (auto simp: encode_heartbeat_def decode_server_root_def world_stream_frame_def deref_def)
qed


section \<open>Bytes\<close>

text \<open>
  What is relied on of FlatBuffers. The verifier counts tables and nesting; a scalar that equals its
  default is not stored, so a negative zero is read back as zero.
\<close>

definition negative_zero :: f64 where
  "negative_zero = F64 0x8000000000000000"

definition fb_items :: "'a option list option \<Rightarrow> 'a list" where
  "fb_items v = (case v of None \<Rightarrow> [] | Some xs \<Rightarrow> concat (map (\<lambda>x. case x of None \<Rightarrow> [] | Some y \<Rightarrow> [y]) xs))"

fun value_tables :: "FbPropertyValue \<Rightarrow> nat" where
  "value_tables (FV_int (Some _)) = 1"
| "value_tables (FV_double (Some _)) = 1"
| "value_tables (FV_bool (Some _)) = 1"
| "value_tables (FV_string (Some _)) = 1"
| "value_tables _ = 0"

fun value_doubles :: "FbPropertyValue \<Rightarrow> f64 list" where
  "value_doubles (FV_double (Some d)) = [d]"
| "value_doubles _ = []"

definition entries_of :: "FbProjectedEntity \<Rightarrow> FbPropertyEntry list" where
  "entries_of e = fb_items (fpe_properties e) @ fb_items (fpe_state e)"

definition entity_tables :: "FbProjectedEntity \<Rightarrow> nat" where
  "entity_tables e = 1 + (if fpe_position e = None then 0 else 1) +
     (\<Sum>x \<leftarrow> entries_of e. 1 + value_tables (fp_value x)) + length (fb_items (fpe_relations e))"

definition entity_doubles :: "FbProjectedEntity \<Rightarrow> f64 list" where
  "entity_doubles e =
     (case fpe_position e of None \<Rightarrow> [] | Some p \<Rightarrow> [fv_x p, fv_y p, fv_z p]) @
     concat (map (\<lambda>x. value_doubles (fp_value x)) (entries_of e))"

definition option_list :: "'a option \<Rightarrow> 'a list" where
  "option_list x = (case x of None \<Rightarrow> [] | Some y \<Rightarrow> [y])"

fun server_entities :: "FbServerFrame \<Rightarrow> FbProjectedEntity list" where
  "server_entities (FS_keyframe (Some k)) = concat (map (\<lambda>x. option_list (fe_entity x)) (fb_items (fk_entities k)))"
| "server_entities (FS_delta (Some d)) =
     concat (map (\<lambda>x. option_list (fe_entity x)) (fb_items (fd_enters d))) @
     concat (map (\<lambda>x. option_list (fu_entity x)) (fb_items (fd_updates d)))"
| "server_entities _ = []"

fun server_records :: "FbServerFrame \<Rightarrow> nat" where
  "server_records (FS_keyframe (Some k)) = length (fb_items (fk_entities k))"
| "server_records (FS_delta (Some d)) =
     length (fb_items (fd_enters d)) + length (fb_items (fd_updates d)) + length (fb_items (fd_leaves d))"
| "server_records _ = 0"

definition frame_tables :: "FbWorldStreamFrame \<Rightarrow> nat" where
  "frame_tables w = 4 + server_records (fw_frame w) + sum_list (map entity_tables (server_entities (fw_frame w)))"

definition frame_doubles :: "FbWorldStreamFrame \<Rightarrow> f64 list" where
  "frame_doubles w = concat (map entity_doubles (server_entities (fw_frame w)))"

text \<open>
  A finished buffer has its identifier and its root offset, and the verifier accepts it and reads
  the table that was written if the bounds on nesting and tables cover it and no scalar is lost.
\<close>

definition serializes :: "'root Flatbuffers \<Rightarrow> nat \<Rightarrow> nat \<Rightarrow> f64 list \<Rightarrow> 'root \<Rightarrow> bool" where
  "serializes F depth tables doubles t \<longleftrightarrow>
     8 \<le> length (fbl_finish F t) \<and> fbl_has_identifier F (fbl_finish F t) \<and>
     (negative_zero \<notin> set doubles \<longrightarrow>
       (\<forall>d n. depth \<le> unat d \<longrightarrow> tables \<le> unat n \<longrightarrow> fbl_verified F d n (fbl_finish F t) = Some t))"

text \<open>The root, the frame, an enter, its entity, an attribute and its value: six levels.\<close>

definition serializes_frame :: "FbWorldStreamFrame Flatbuffers \<Rightarrow> FbWorldStreamFrame \<Rightarrow> bool" where
  "serializes_frame F t \<longleftrightarrow> serializes F 6 (frame_tables t) (frame_doubles t) t"

definition readable :: "'root Flatbuffers \<Rightarrow> nat \<Rightarrow> nat \<Rightarrow> f64 list \<Rightarrow> ProtocolLimits \<Rightarrow> 'root \<Rightarrow> bool" where
  "readable F depth tables doubles limits t \<longleftrightarrow>
     negative_zero \<notin> set doubles \<and> depth \<le> unat (pl_verifier_max_depth limits) \<and>
     tables \<le> unat (pl_verifier_max_tables limits) \<and>
     length (fbl_finish F t) \<le> unat (pl_max_frame_bytes limits)"

lemma open_finished:
  assumes "serializes F depth tables doubles t" "readable F depth tables doubles limits t"
  shows "open_frame F (fbl_finish F t) limits = Decoded t"
  using assms by (auto simp: open_frame_def serializes_def readable_def kMinFrameBytes_def)

lemma decode_encoded:
  assumes "encode_server_frame_into limits frame = Some t"
    and "serializes_frame F t" "readable F 6 (frame_tables t) (frame_doubles t) limits t"
  shows "decode_server_frame F (fbl_finish F t) limits = Decoded (received frame)"
  using open_finished [OF assms(2) [unfolded serializes_frame_def] assms(3)] decode_encode_root [OF assms(1)]
  by (simp add: decode_server_frame_def)

definition example_wire_entity :: WireEntity where
  "example_wire_entity =
     \<lparr>we_wid = WorldId 7, we_fid = FeatureId 1, we_version = 2,
      we_position = \<lparr>wv_x = f64_0, wv_y = f64_0, wv_z = f64_0\<rparr>, we_semantic_type = ''tree'',
      we_geometry_ref = [], we_lifecycle = WL_active,
      we_properties = fmupd ''hp'' (WV_int 5) fmempty, we_state = fmempty,
      we_relations = [\<lparr>wrel_type = ''near'', wrel_target_wid = 9\<rparr>], we_capabilities = [''burn''],
      we_frequency = WF_slow, we_priority = 3, we_visibility_tags = []\<rparr>"

definition example_limits :: ProtocolLimits where
  "example_limits =
     \<lparr>pl_max_frame_bytes = 64, pl_max_string_bytes = 8, pl_max_properties_per_entity = 2,
      pl_max_relations_per_entity = 2, pl_max_entities_per_frame = 4, pl_verifier_max_depth = 6,
      pl_verifier_max_tables = 100\<rparr>"

definition example_delta :: WireFrame where
  "example_delta = WF_delta
     \<lparr>wd_stream_epoch = 1, wd_stream_sequence = 2, wd_snapshot_id = 3, wd_baseline_snapshot_id = 2,
      wd_tick = 4, wd_simulation_time_us = 5,
      wd_enters = [\<lparr>wen_wid = WorldId 7, wen_fid = FeatureId 1, wen_entity = example_wire_entity\<rparr>],
      wd_updates = [],
      wd_leaves = [\<lparr>wlv_wid = WorldId 8, wlv_fid = FeatureId 2, wlv_reason = WR_destroyed\<rparr>]\<rparr>"

text \<open>A FlatBuffers that knows one frame.\<close>

definition one_frame :: "'root \<Rightarrow> 'root Flatbuffers" where
  "one_frame t =
     \<lparr>fbl_finish = \<lambda>_. replicate 16 1, fbl_has_identifier = \<lambda>b. b = replicate 16 1,
      fbl_verified = \<lambda>d n b. if b = replicate 16 1 then Some t else None\<rparr>"

lemma serializes_one_frame [simp]: "serializes (one_frame t) depth tables doubles t"
  by (simp add: serializes_def one_frame_def)

definition example_entity_table :: FbProjectedEntity where
  "example_entity_table =
     \<lparr>fpe_wid = 7, fpe_fid = 1, fpe_version = 2,
      fpe_position = Some \<lparr>fv_x = f64_0, fv_y = f64_0, fv_z = f64_0\<rparr>, fpe_semantic_type = Some ''tree'',
      fpe_geometry_ref = Some [], fpe_lifecycle = 1,
      fpe_properties = Some [Some \<lparr>fp_key = Some ''hp'', fp_value = FV_int (Some 5)\<rparr>], fpe_state = Some [],
      fpe_relations = Some [Some \<lparr>fr_type = Some ''near'', fr_target_wid = 9\<rparr>],
      fpe_capabilities = Some [Some ''burn''], fpe_frequency = 1, fpe_priority = 3,
      fpe_visibility_tags = Some []\<rparr>"

definition example_delta_table :: FbWorldStreamFrame where
  "example_delta_table = world_stream_frame (FS_delta (Some
     \<lparr>fd_stream_epoch = 1, fd_stream_sequence = 2, fd_snapshot_id = 3, fd_baseline_snapshot_id = 2,
      fd_tick = 4, fd_simulation_time_us = 5,
      fd_enters = Some [Some \<lparr>fe_wid = 7, fe_fid = 1, fe_entity = Some example_entity_table\<rparr>],
      fd_updates = Some [], fd_leaves = Some [Some \<lparr>fl_wid = 8, fl_fid = 2, fl_reason = 2\<rparr>]\<rparr>))"

lemma example_entity_encodes: "encode_entity example_limits example_wire_entity = Some example_entity_table"
  by (simp add: encode_entity_def example_wire_entity_def encode_bag_def fm_items_def fm_keys_def fm_size_upd
      encode_entry_def text_within_limits_def example_limits_def encode_relation_def encode_strings_def
      example_entity_table_def)

lemma example_delta_encodes:
  "encode_server_frame_into example_limits example_delta = Some example_delta_table"
  by (simp add: example_delta_def encode_delta_def encode_enters_def encode_enter_def
      example_entity_encodes example_delta_table_def encode_leave_def)
    (simp add: example_limits_def)

lemma example_delta_readable:
  "readable (one_frame example_delta_table) 6 (frame_tables example_delta_table)
     (frame_doubles example_delta_table) example_limits example_delta_table"
  by (simp add: readable_def one_frame_def example_limits_def frame_tables_def frame_doubles_def
      example_delta_table_def world_stream_frame_def fb_items_def option_list_def entity_tables_def
      entity_doubles_def entries_of_def example_entity_table_def negative_zero_def f64_0_def)

section \<open>Properties\<close>



text \<open>
  C22: the decoder lets nothing past the limits. Whatever bytes arrive, an accepted frame came from a
  buffer of legal size, and unless it is a reliable event, the encoder accepts it under the same
  limits and its tables decode to the same frame: every count and every text is within bounds.
\<close>

theorem decoded_frame_within_limits:
  assumes "decode_server_frame F bytes limits = Decoded frame" "\<forall>r. frame \<noteq> WF_reliable r"
  shows "8 \<le> length bytes \<and> length bytes \<le> unat (pl_max_frame_bytes limits) \<and>
    (\<exists>t. encode_server_frame_into limits frame = Some t \<and> decode_server_root limits t = Decoded frame)"
proof -
  obtain w where w: "open_frame F bytes limits = Decoded w" "decode_server_root limits w = Decoded frame"
    using assms(1) by (auto simp: decode_server_frame_def and_then_Decoded)
  have enters: "encode_enters limits xs \<noteq> None" if "\<forall>x \<in> set xs. \<exists>y. decode_enter limits y = Decoded x" for xs
    unfolding encode_enters_def encode_all_iff using that
    by (auto simp: encode_enter_def decode_enter_def fail_def and_then_Decoded split: option.splits
        dest!: decode_entity_encodable bspec)
  have updates: "encode_all (\<lambda>x. map_option Some (encode_update limits x)) xs \<noteq> None"
    if "\<forall>x \<in> set xs. \<exists>y. decode_update limits y = Decoded x" for xs
    unfolding encode_all_iff using that
    by (auto simp: encode_update_def decode_update_def fail_def and_then_Decoded split: option.splits
        dest!: decode_entity_encodable bspec)
  have "encode_server_frame_into limits frame \<noteq> None"
  proof (cases "fw_frame w")
    case (FS_keyframe p)
    then obtain k where k: "decode_keyframe limits k = Decoded frame"
      using w(2) by (auto simp: decode_server_root_def fail_def deref_def split: if_splits option.splits)
    then obtain xs where xs: "frame = WF_keyframe xs"
        "length (wk_entities xs) \<le> unat (pl_max_entities_per_frame limits)"
        "\<forall>x \<in> set (wk_entities xs). \<exists>y. decode_enter limits y = Decoded x"
      by (auto simp: decode_keyframe_def and_then_Decoded fail_def split: option.splits if_splits
          dest!: decode_all_set)
    then show ?thesis using enters [OF xs(3)] by (auto simp: encode_keyframe_def)
  next
    case (FS_delta p)
    then obtain k where k: "decode_delta limits k = Decoded frame"
      using w(2) by (auto simp: decode_server_root_def fail_def deref_def split: if_splits option.splits)
    then obtain d where d: "frame = WF_delta d"
        "length (wd_enters d) + length (wd_updates d) + length (wd_leaves d) \<le> unat (pl_max_entities_per_frame limits)"
        "\<forall>x \<in> set (wd_enters d). \<exists>y. decode_enter limits y = Decoded x"
        "\<forall>x \<in> set (wd_updates d). \<exists>y. decode_update limits y = Decoded x"
      by (auto simp: decode_delta_def and_then_Decoded fail_def split: if_splits dest!: decode_vector_all)
    then show ?thesis using enters [OF d(3)] updates [OF d(4)] by (auto simp: encode_delta_def)
  next
    case (FS_reliable p)
    then show ?thesis
      using w(2) assms(2)
      by (auto simp: decode_server_root_def fail_def deref_def decode_reliable_def and_then_Decoded
          split: if_splits option.splits)
  next
    case (FS_heartbeat p)
    then show ?thesis
      using w(2) by (auto simp: decode_server_root_def fail_def deref_def split: if_splits option.splits)
  qed (use w(2) in \<open>auto simp: decode_server_root_def fail_def split: if_splits\<close>)
  then obtain t where t: "encode_server_frame_into limits frame = Some t" by auto
  have "received frame = frame" using assms(2) by (cases frame) auto
  with decode_encode_root [OF t] have "decode_server_root limits t = Decoded frame" by simp
  with t w(1) show ?thesis
    by (auto simp: open_frame_def fail_def kMinFrameBytes_def split: if_splits)
qed

theorem decoded_frame_within_limits_witness:
  "\<exists>t. encode_server_frame_into example_limits example_delta = Some t \<and>
     decode_server_root example_limits t = Decoded example_delta"
proof -
  let ?F = "one_frame example_delta_table"
  have "decode_server_frame ?F (fbl_finish ?F example_delta_table) example_limits = Decoded (received example_delta)"
    by (rule decode_encoded [OF example_delta_encodes _ example_delta_readable]) (simp add: serializes_frame_def)
  then have "decode_server_frame ?F (fbl_finish ?F example_delta_table) example_limits = Decoded example_delta"
    by (simp add: example_delta_def)
  from decoded_frame_within_limits [OF this] show ?thesis by (simp add: example_delta_def)
qed

end
