(* ===== verification/Frame_Codec.thy ===== *)
theory Frame_Codec
  imports Codec_Roundtrip
begin

text \<open>
  \<^verbatim>\<open>libs/gateway/frame_codec.cpp\<close>: the direct encoder, which builds the tables from the types of the
  projection without the wire structures in between, and the encoders the gateway is given. The
  theorem states what the source promises of it: the same tables as by way of \<open>to_wire_frame\<close>.
  Then the other direction of the stream, the control frames of a client.
\<close>

section \<open>The direct encoder\<close>

fun direct_encode_value :: "ProtocolLimits \<Rightarrow> Value \<Rightarrow> FbPropertyValue option" where
  "direct_encode_value limits (VInt64 n) = Some (FV_int (Some n))"
| "direct_encode_value limits (VDouble d) = Some (FV_double (Some d))"
| "direct_encode_value limits (VBool b) = Some (FV_bool (Some b))"
| "direct_encode_value limits (VString t) =
     (if \<not> text_within_limits (length t) limits then None else Some (FV_string (Some (Some t))))"

definition direct_encode_entry :: "ProtocolLimits \<Rightarrow> string \<times> Value \<Rightarrow> FbPropertyEntry option option" where
  "direct_encode_entry limits = (\<lambda>(key, value).
     if \<not> text_within_limits (length key) limits then None
     else map_option (\<lambda>payload. Some \<lparr>fp_key = Some key, fp_value = payload\<rparr>)
            (direct_encode_value limits value))"

definition direct_encode_bag :: "ProtocolLimits \<Rightarrow> PropertyBag \<Rightarrow> FbPropertyEntry option list option" where
  "direct_encode_bag limits bag =
     (if fm_size bag > unat (pl_max_properties_per_entity limits) then None
      else encode_all (direct_encode_entry limits) (fm_items bag))"

definition direct_encode_strings :: "ProtocolLimits \<Rightarrow> string list \<Rightarrow> string option list option" where
  "direct_encode_strings limits source =
     encode_all (\<lambda>t. if \<not> text_within_limits (length t) limits then None else Some (Some t)) source"

definition direct_encode_relation :: "ProtocolLimits \<Rightarrow> Relation \<Rightarrow> FbRelationEntry option option" where
  "direct_encode_relation limits r =
     (if \<not> text_within_limits (length (rel_type r)) limits then None
      else Some (Some \<lparr>fr_type = Some (rel_type r), fr_target_wid = wid_value (rel_target r)\<rparr>))"

definition direct_encode_entity :: "ProtocolLimits \<Rightarrow> ProjectedEntity \<Rightarrow> FbProjectedEntity option" where
  "direct_encode_entity limits e =
     (if \<not> text_within_limits (length (pe_semantic_type e)) limits
         \<or> \<not> text_within_limits (length (pe_geometry_ref e)) limits
         \<or> length (pe_relations e) > unat (pl_max_relations_per_entity limits) then None
      else
        case (direct_encode_bag limits (pe_properties e), direct_encode_bag limits (pe_state e),
              encode_all (direct_encode_relation limits) (pe_relations e),
              direct_encode_strings limits (pe_capabilities e),
              direct_encode_strings limits (pm_visibility_tags (pe_metadata e))) of
          (Some properties, Some state, Some relations, Some capabilities, Some visibility_tags) \<Rightarrow>
            Some \<lparr>fpe_wid = wid_value (pe_wid e), fpe_fid = fid_value (pe_fid e),
              fpe_version = pe_version e,
              fpe_position = Some \<lparr>fv_x = ecef_x (pe_position e), fv_y = ecef_y (pe_position e),
                                   fv_z = ecef_z (pe_position e)\<rparr>,
              fpe_semantic_type = Some (pe_semantic_type e),
              fpe_geometry_ref = Some (pe_geometry_ref e),
              fpe_lifecycle = lifecycle_byte (pe_lifecycle e),
              fpe_properties = Some properties, fpe_state = Some state, fpe_relations = Some relations,
              fpe_capabilities = Some capabilities,
              fpe_frequency = frequency_byte (pm_frequency (pe_metadata e)),
              fpe_priority = pm_priority (pe_metadata e), fpe_visibility_tags = Some visibility_tags\<rparr>
        | _ \<Rightarrow> None)"

definition direct_encode_enter :: "ProtocolLimits \<Rightarrow> EntityEnter \<Rightarrow> FbEntityEnter option" where
  "direct_encode_enter limits x = map_option (\<lambda>entity.
     \<lparr>fe_wid = wid_value (ee_wid x), fe_fid = fid_value (ee_fid x), fe_entity = Some entity\<rparr>)
     (direct_encode_entity limits (ee_entity x))"

definition direct_encode_update :: "ProtocolLimits \<Rightarrow> EntityUpdate \<Rightarrow> FbEntityUpdate option" where
  "direct_encode_update limits x = map_option (\<lambda>entity.
     \<lparr>fu_wid = wid_value (eu_wid x), fu_fid = fid_value (eu_fid x), fu_entity = Some entity\<rparr>)
     (direct_encode_entity limits (eu_entity x))"

definition direct_encode_enters :: "ProtocolLimits \<Rightarrow> EntityEnter list \<Rightarrow> FbEntityEnter option list option" where
  "direct_encode_enters limits enters = encode_all (\<lambda>x. map_option Some (direct_encode_enter limits x)) enters"

fun reason_byte :: "LeaveReason \<Rightarrow> u8" where
  "reason_byte LR_out_of_area = 0"
| "reason_byte LR_not_relevant = 1"
| "reason_byte LR_destroyed = 2"
| "reason_byte LR_policy_changed = 3"

definition direct_encode_leave :: "EntityLeave \<Rightarrow> FbEntityLeave" where
  "direct_encode_leave x =
     \<lparr>fl_wid = wid_value (el_wid x), fl_fid = fid_value (el_fid x), fl_reason = reason_byte (el_reason x)\<rparr>"

definition direct_encode_keyframe :: "ProtocolLimits \<Rightarrow> Keyframe \<Rightarrow> FbWorldStreamFrame option" where
  "direct_encode_keyframe limits k =
     (if length (kf_entities k) \<le> unat (pl_max_entities_per_frame limits) then
        map_option (\<lambda>entities. world_stream_frame (FS_keyframe (Some
          \<lparr>fk_stream_epoch = kf_stream_epoch k, fk_stream_sequence = kf_stream_sequence k,
           fk_snapshot_id = kf_snapshot_id k, fk_baseline_snapshot_id = kf_baseline_snapshot_id k,
           fk_tick = kf_tick k, fk_simulation_time_us = kf_simulation_time_us k,
           fk_entities = Some entities\<rparr>)))
          (direct_encode_enters limits (kf_entities k))
      else None)"

definition direct_encode_delta :: "ProtocolLimits \<Rightarrow> Delta \<Rightarrow> FbWorldStreamFrame option" where
  "direct_encode_delta limits d =
     (let total = length (df_enters d) + length (df_updates d) + length (df_leaves d) in
      if total \<le> unat (pl_max_entities_per_frame limits) then
        case (direct_encode_enters limits (df_enters d),
              encode_all (\<lambda>x. map_option Some (direct_encode_update limits x)) (df_updates d)) of
          (Some enters, Some updates) \<Rightarrow> Some (world_stream_frame (FS_delta (Some
            \<lparr>fd_stream_epoch = df_stream_epoch d, fd_stream_sequence = df_stream_sequence d,
             fd_snapshot_id = df_snapshot_id d, fd_baseline_snapshot_id = df_baseline_snapshot_id d,
             fd_tick = df_tick d, fd_simulation_time_us = df_simulation_time_us d,
             fd_enters = Some enters, fd_updates = Some updates,
             fd_leaves = Some (map (\<lambda>x. Some (direct_encode_leave x)) (df_leaves d))\<rparr>)))
        | _ \<Rightarrow> None
      else None)"

fun encode_state_frame_into :: "ProtocolLimits \<Rightarrow> StateFrame \<Rightarrow> FbWorldStreamFrame option" where
  "encode_state_frame_into limits (SF_keyframe k) = direct_encode_keyframe limits k"
| "encode_state_frame_into limits (SF_delta d) = direct_encode_delta limits d"

definition frame_encoder ::
  "FbWorldStreamFrame Flatbuffers \<Rightarrow> ProtocolLimits \<Rightarrow> StateFrame \<Rightarrow> bytes" where
  "frame_encoder F limits frame =
     (case encode_state_frame_into limits frame of None \<Rightarrow> [] | Some t \<Rightarrow> fbl_finish F t)"

definition receipt_encoder ::
  "FbWorldStreamFrame Flatbuffers \<Rightarrow> ProtocolLimits \<Rightarrow> CommandReceipt \<Rightarrow> bytes" where
  "receipt_encoder F limits receipt = encode_server_frame F
     (WF_reliable \<lparr>wrl_kind = RK_command_receipt, wrl_receipt = to_wire_receipt receipt,
                   wrl_error = wire_protocol_error\<rparr>) limits"

definition heartbeat_encoder ::
  "FbWorldStreamFrame Flatbuffers \<Rightarrow> ProtocolLimits \<Rightarrow> u64 \<Rightarrow> u64 \<Rightarrow> bytes" where
  "heartbeat_encoder F limits tick snapshot_id = encode_server_frame F
     (WF_heartbeat \<lparr>wh_server_tick = tick, wh_latest_snapshot_id = snapshot_id\<rparr>) limits"

definition encode_protocol_error ::
  "FbWorldStreamFrame Flatbuffers \<Rightarrow> string \<Rightarrow> string \<Rightarrow> ProtocolLimits \<Rightarrow> bytes" where
  "encode_protocol_error F code message limits = encode_server_frame F
     (WF_reliable \<lparr>wrl_kind = RK_protocol_error, wrl_receipt = wire_command_receipt,
                   wrl_error = \<lparr>wpe_code = code, wpe_message = message\<rparr>\<rparr>) limits"

section \<open>Equivalence\<close>

lemma direct_encode_value_eq: "direct_encode_value limits v = encode_payload limits (to_wire_value v)"
  by (cases v) auto

lemma fm_items_fmmap: "fm_items (fmmap f m) = map (\<lambda>(k, v). (k, f v)) (fm_items m)"
  by (auto simp: fm_items_def fm_keys_def fmlookup_dom_iff)

lemma direct_encode_bag_eq: "direct_encode_bag limits bag = encode_bag limits (to_wire_attributes bag)"
proof -
  have "encode_entry limits (case kv of (k, v) \<Rightarrow> (k, to_wire_value v)) = direct_encode_entry limits kv" for kv
    by (cases kv) (simp add: encode_entry_def direct_encode_entry_def direct_encode_value_eq)
  then show ?thesis
    by (simp add: direct_encode_bag_def encode_bag_def to_wire_attributes_def fm_items_fmmap encode_all_map
        fm_size_def)
qed

lemma direct_encode_entity_eq:
  "direct_encode_entity limits e = encode_entity limits (to_wire_entity e)"
proof -
  have relation: "encode_relation limits (to_wire_relation r) = direct_encode_relation limits r" for r
    by (simp add: encode_relation_def direct_encode_relation_def to_wire_relation_def)
  show ?thesis
    by (simp add: direct_encode_entity_def encode_entity_def to_wire_entity_def direct_encode_bag_eq
        encode_all_map relation direct_encode_strings_def encode_strings_def wire_bytes
        split: option.split)
qed

lemma direct_encode_enters_eq:
  "direct_encode_enters limits xs = encode_enters limits (map to_wire_enter xs)"
  by (simp add: direct_encode_enters_def encode_enters_def encode_all_map direct_encode_enter_def
      encode_enter_def direct_encode_entity_eq to_wire_enter_def)

lemma encode_state_frame_eq:
  "encode_state_frame_into limits f = encode_server_frame_into limits (to_wire_frame f)"
proof (cases f)
  case (SF_keyframe k)
  then show ?thesis
    by (simp add: direct_encode_keyframe_def encode_keyframe_def direct_encode_enters_eq)
next
  case (SF_delta d)
  have "reason_byte r = wire_reason_byte (to_wire_leave_reason r)" for r by (cases r) auto
  then have leave: "encode_leave (to_wire_leave x) = direct_encode_leave x" for x
    by (simp add: encode_leave_def direct_encode_leave_def to_wire_leave_def)
  have update: "encode_update limits (to_wire_update x) = direct_encode_update limits x" for x
    by (simp add: encode_update_def direct_encode_update_def to_wire_update_def direct_encode_entity_eq)
  show ?thesis
    using SF_delta
    by (simp add: direct_encode_delta_def encode_delta_def direct_encode_enters_eq encode_all_map
        update leave comp_def split: option.split)
qed

definition example_frame :: StateFrame where
  "example_frame = SF_keyframe
     \<lparr>kf_stream_epoch = 1, kf_stream_sequence = 1, kf_snapshot_id = 4, kf_baseline_snapshot_id = 4,
      kf_tick = 2, kf_simulation_time_us = 100, kf_entities = []\<rparr>"

definition example_table :: FbWorldStreamFrame where
  "example_table = world_stream_frame (FS_keyframe (Some
     \<lparr>fk_stream_epoch = 1, fk_stream_sequence = 1, fk_snapshot_id = 4, fk_baseline_snapshot_id = 4,
      fk_tick = 2, fk_simulation_time_us = 100, fk_entities = Some []\<rparr>))"



section \<open>Control frames\<close>

lemma one_frame_simps: "fbl_finish (one_frame t) x = replicate 16 1"
  by (simp add: one_frame_def)

lemma decode_control_encodable:
  "decode_control_root limits w = Decoded c \<Longrightarrow> client_control_root limits c \<noteq> None"
  by (auto simp: decode_control_root_def deref_def fail_def text_within_limits_def
      split: if_splits FbClientControl.splits option.splits)

lemma decode_control_root_null:
  "decode_control_root limits w = Null_dereference \<longleftrightarrow>
     fc_schema_version w = data_schema_version \<and> fc_control w \<in> {FC_ack None, FC_keyframe_request None}"
  by (auto simp: decode_control_root_def deref_def fail_def
      split: if_splits FbClientControl.splits option.splits)

lemma decode_control_refused:
  "decode_control_root limits w = Refused r \<Longrightarrow>
     dfl_error_code r \<in> {error_version_incompatible, error_invalid_request, error_limit_exceeded}"
  by (auto simp: decode_control_root_def deref_def fail_def
      split: if_splits FbClientControl.splits option.splits)

lemma open_frame_outcome:
  "open_frame F bytes limits = Refused r \<Longrightarrow>
     dfl_error_code r \<in> {error_version_incompatible, error_invalid_request, error_limit_exceeded}"
  "open_frame F bytes limits \<noteq> Null_dereference"
  by (auto simp: open_frame_def fail_def split: if_splits option.splits)


text \<open>A verified buffer whose control table is missing makes the decoder read through null.\<close>

lemma missing_control_table_dereferenced:
  assumes "open_frame F bytes limits = Decoded \<lparr>fc_schema_version = data_schema_version, fc_control = FC_ack None\<rparr>"
  shows "decode_client_control F bytes limits = Null_dereference"
  using assms by (simp add: decode_client_control_def decode_control_root_null)

text \<open>
  The server reads the control frame the client encoded, an acknowledgement or a keyframe
  request, if FlatBuffers serializes its two tables as documented and the buffer is within the
  bound on its size.
\<close>

lemma client_control_roundtrip:
  assumes "client_control_root limits control = Some t"
    and "serializes F 2 2 [] t" "readable F 2 2 [] limits t"
  shows "decode_client_control F (encode_client_control F control limits) limits = Decoded control"
  using open_finished [OF assms(2,3)] assms(1)
  by (cases control)
    (auto simp: decode_client_control_def encode_client_control_def decode_control_root_def deref_def
      split: if_splits)

end
