(* ===== verification/Gateway_Core.thy ===== *)
theory Gateway_Core
  imports Sessions Durable Gateway_Queues Projection_Engine
begin

text \<open>
  \<^verbatim>\<open>libs/gateway/gateway_core.cpp\<close>: the transport-independent core of the gateway. It opens sessions,
  attaches streams, admits commands, in process and durably, tracks them until they are applied, and
  moves the engine's frames into the queues of the connections.

  What the core is given from outside is the record \<open>GatewayHooks\<close>: the authentication and
  authorization interfaces, the command submitter, the durable log and the encoders. Submitter and
  log change a state of their own, the type \<open>'e\<close>, which the operations thread through. The clock and
  the token generator are arguments, as in \<open>Sessions\<close>. A \<open>DurableCompletion\<close> callback is a number; to
  call it is to return an event, in the order of the calls. The engine the core refers to is part of
  its state. The thread pool may encode frames in parallel into disjoint slots; the model is serial.
\<close>

section \<open>Interfaces\<close>

record DurableRecord =
  dr_kind :: DurableRecordKind
  dr_target_tick :: u64
  dr_payload :: bytes

record DurableAppendOutcome =
  dao_lsn :: u64
  dao_ok :: bool

type_synonym DurableTicket = nat

text \<open>\<open>append\<close> answers a ticket or refuses; \<open>try_outcome\<close> answers once the record is written.\<close>

record 'e DurableAdmissionLog =
  dl_append :: "'e \<Rightarrow> DurableRecord \<Rightarrow> DurableTicket option \<times> 'e"
  dl_try_outcome :: "'e \<Rightarrow> DurableTicket \<Rightarrow> DurableAppendOutcome option \<times> 'e"

record 'e GatewayHooks =
  gh_authenticate :: "string \<Rightarrow> Principal option"
  gh_can_observe :: "Principal \<Rightarrow> bool"
  gh_can_write_property :: "Principal \<Rightarrow> WorldId \<Rightarrow> string \<Rightarrow> bool"
  gh_can_manage_objects :: "Principal \<Rightarrow> bool"
  gh_submitter :: "('e \<Rightarrow> u64 \<Rightarrow> CommandPayload \<Rightarrow> CommandMeta \<Rightarrow> u64 \<times> 'e) option"
  gh_frame_encoder :: "(StateFrame \<Rightarrow> FrameBytes) option"
  gh_receipt_encoder :: "(CommandReceipt \<Rightarrow> FrameBytes) option"
  gh_heartbeat_encoder :: "(u64 \<Rightarrow> u64 \<Rightarrow> FrameBytes) option"
  gh_durable_log :: "'e DurableAdmissionLog option"

section \<open>State\<close>

record ConnectionState =
  cst_session :: SessionId
  cst_state_queue :: StateQueue
  cst_reliable_queue :: ReliableQueue
  cst_last_ack_tick :: u64
  cst_last_heartbeat_tick :: u64
  cst_must_disconnect :: bool
  cst_disconnect_reason :: GatewayError

record PendingCommand =
  pcm_session :: SessionId
  pcm_client_sequence :: u64
  pcm_durable_key :: "DurableKey option"

record PendingDurable =
  pdu_key :: DurableKey
  pdu_session :: SessionId
  pdu_client_sequence :: u64
  pdu_ingress_sequence :: u64
  pdu_target_tick :: u64
  pdu_expected_object_version :: u64
  pdu_payload :: CommandPayload
  pdu_ticket :: DurableTicket
  pdu_completion :: nat

record GatewayCore =
  gw_config :: GatewayConfig
  gw_engine :: ProjectionEngine
  gw_sessions :: SessionManager
  gw_ownership :: OwnershipRegistry
  gw_control_api_version :: u32
  gw_data_schema_version :: u32
  gw_ingress_sequence :: u64
  gw_connections :: "(ConnectionId, ConnectionState) fmap"
  gw_pending_commands :: "(u64, PendingCommand) fmap"
  gw_pending_subscriptions :: "(SessionId, AreaSubscription) fmap"
  gw_last_pump_tick :: u64
  gw_last_pump_keyframe_count :: u64
  gw_durable_index :: DurableIdempotencyIndex
  gw_pending_durable :: "(u64, PendingDurable) fmap"
  gw_durable_outcome_tickets :: "DurableTicket list"

record CompletionEvent =
  ce_completion :: nat
  ce_error :: GatewayError
  ce_receipt :: CommandReceipt

definition connection_state :: "SessionId \<Rightarrow> u64 \<Rightarrow> u64 \<Rightarrow> ConnectionState" where
  "connection_state session state_bytes reliable_bytes =
     \<lparr>cst_session = session, cst_state_queue = state_queue state_bytes,
      cst_reliable_queue = reliable_queue reliable_bytes, cst_last_ack_tick = 0,
      cst_last_heartbeat_tick = 0, cst_must_disconnect = False, cst_disconnect_reason = GE_none\<rparr>"

definition gateway_core :: "GatewayConfig \<Rightarrow> ProjectionEngine \<Rightarrow> u32 \<Rightarrow> u32 \<Rightarrow> GatewayCore" where
  "gateway_core config engine control_api_version data_version =
     \<lparr>gw_config = config, gw_engine = engine,
      gw_sessions = session_manager
        \<lparr>smc_ticket_ttl_seconds = gc_stream_ticket_ttl_seconds config,
         smc_command_rate_per_session = gc_command_rate_per_session config,
         smc_max_sessions = gc_max_sessions config\<rparr>,
      gw_ownership = fmempty, gw_control_api_version = control_api_version,
      gw_data_schema_version = data_version,
      gw_ingress_sequence = gc_initial_ingress_sequence config, gw_connections = fmempty,
      gw_pending_commands = fmempty, gw_pending_subscriptions = fmempty, gw_last_pump_tick = 0,
      gw_last_pump_keyframe_count = 0, gw_durable_index = fmempty, gw_pending_durable = fmempty,
      gw_durable_outcome_tickets = []\<rparr>"

text \<open>\<open>engine_.add_connection\<close> and the like, on the connections of the engine.\<close>

definition engine_connections ::
  "GatewayCore \<Rightarrow> (Connections \<Rightarrow> 'a \<times> Connections) \<Rightarrow> 'a \<times> GatewayCore" where
  "engine_connections g f =
     (let (r, cs) = f (eg_connections (gw_engine g))
      in (r, g\<lparr>gw_engine := (gw_engine g)\<lparr>eg_connections := cs\<rparr>\<rparr>))"

definition remove_engine_connection :: "GatewayCore \<Rightarrow> ConnectionId \<Rightarrow> GatewayCore" where
  "remove_engine_connection g i = g\<lparr>gw_engine := snd (remove_connection (gw_engine g) i)\<rparr>"

section \<open>Control plane\<close>

datatype OpenSessionResult = SessionRefused GatewayError | SessionOpened SessionInfo string u32

definition open_session ::
  "'e GatewayHooks \<Rightarrow> GatewayCore \<Rightarrow> string \<Rightarrow> u32 \<Rightarrow> u32 \<Rightarrow> u32 \<Rightarrow> u32 \<Rightarrow> u64 \<Rightarrow> i64 \<Rightarrow> i64 \<Rightarrow> string \<Rightarrow>
     OpenSessionResult \<times> GatewayCore" where
  "open_session H g credential control_min control_max data_min data_max current_tick now now' token =
     (if control_max < gw_control_api_version g \<or> control_min > gw_control_api_version g
         \<or> data_max < gw_data_schema_version g \<or> data_min > gw_data_schema_version g
      then (SessionRefused GE_protocol_incompatible, g)
      else case gh_authenticate H credential of
        None \<Rightarrow> (SessionRefused GE_auth_failed, g)
      | Some p \<Rightarrow>
          if \<not> gh_can_observe H p then (SessionRefused GE_permission_denied, g)
          else
            let (i, m) = sm_open (gw_sessions g) p (gw_control_api_version g)
                           (gw_data_schema_version g) current_tick now
            in if \<not> sid_valid i then (SessionRefused GE_limit_exceeded, g\<lparr>gw_sessions := m\<rparr>)
               else let info = the (sm_find m i);
                        (ticket, m) = sm_issue_ticket m i token now'
                    in (SessionOpened info ticket (gc_stream_ticket_ttl_seconds (gw_config g)),
                        g\<lparr>gw_sessions := m\<rparr>))"

fun close_connections :: "SessionId \<Rightarrow> GatewayCore \<Rightarrow> (ConnectionId \<times> ConnectionState) list \<Rightarrow> GatewayCore" where
  "close_connections i g [] = g"
| "close_connections i g ((c, st) # cs) =
     (if cst_session st = i
      then close_connections i
             ((remove_engine_connection g c)\<lparr>gw_connections := fmdrop c (gw_connections g)\<rparr>) cs
      else close_connections i g cs)"

definition close_session :: "GatewayCore \<Rightarrow> SessionId \<Rightarrow> bool \<times> GatewayCore" where
  "close_session g i =
     (case sm_find (gw_sessions g) i of
        None \<Rightarrow> (False, g)
      | Some _ \<Rightarrow>
          (True, close_connections i
             (g\<lparr>gw_ownership := own_release_all (gw_ownership g) i,
                gw_sessions := sm_close (gw_sessions g) i\<rparr>)
             (fm_items (gw_connections g))))"

definition f64_abs :: "f64 \<Rightarrow> f64" where
  "f64_abs x = F64 (f64_bits x AND 0x7FFFFFFFFFFFFFFF)"

definition area_within :: "f64 \<Rightarrow> Aabb \<Rightarrow> bool" where
  "area_within extent area \<longleftrightarrow>
     (let east = f64_abs (f64_sub (enu_east (aabb_maximum area)) (enu_east (aabb_minimum area)));
          north = f64_abs (f64_sub (enu_north (aabb_maximum area)) (enu_north (aabb_minimum area)));
          up = f64_abs (f64_sub (enu_up (aabb_maximum area)) (enu_up (aabb_minimum area)))
      in \<not> (f64_lt extent east \<or> f64_lt extent north \<or> f64_lt extent up))"

text \<open>The connections of a session, and an operation of the engine on each of them.\<close>

definition session_connections :: "GatewayCore \<Rightarrow> SessionId \<Rightarrow> ConnectionId list" where
  "session_connections g i =
     map fst (filter (\<lambda>(c, st). cst_session st = i) (fm_items (gw_connections g)))"

definition on_session_connections ::
  "(Connections \<Rightarrow> ConnectionId \<Rightarrow> bool \<times> Connections) \<Rightarrow> GatewayCore \<Rightarrow> SessionId \<Rightarrow> GatewayCore" where
  "on_session_connections f g i =
     foldl (\<lambda>g c. snd (engine_connections g (\<lambda>cs. f cs c))) g (session_connections g i)"

definition gateway_update_subscription :: "GatewayCore \<Rightarrow> SessionId \<Rightarrow> AreaSubscription \<Rightarrow> GatewayError \<times> GatewayCore" where
  "gateway_update_subscription g i s =
     (if sm_find (gw_sessions g) i = None then (GE_invalid_request, g)
      else if (case as_area s of None \<Rightarrow> False
               | Some area \<Rightarrow> \<not> area_within (gc_max_aoi_extent_meters (gw_config g)) area)
      then (GE_limit_exceeded, g)
      else
        (GE_none, (on_session_connections (\<lambda>cs c. update_subscription cs c s) g i)
           \<lparr>gw_pending_subscriptions := fmupd i s (gw_pending_subscriptions g)\<rparr>))"

fun acquire_keys ::
  "'e GatewayHooks \<Rightarrow> Principal \<Rightarrow> SessionId \<Rightarrow> WorldId \<Rightarrow> u64 \<Rightarrow> u64 \<Rightarrow> OwnershipRegistry \<Rightarrow> string list \<Rightarrow>
     GatewayError \<times> OwnershipRegistry" where
  "acquire_keys H p i target lease current grants [] = (GE_none, grants)"
| "acquire_keys H p i target lease current grants (key # keys) =
     (if \<not> gh_can_write_property H p target key then (GE_permission_denied, grants)
      else let (granted, grants) = own_acquire grants i target key lease current
           in if \<not> granted then (GE_permission_denied, grants)
              else acquire_keys H p i target lease current grants keys)"

definition acquire_ownership ::
  "'e GatewayHooks \<Rightarrow> GatewayCore \<Rightarrow> SessionId \<Rightarrow> WorldId \<Rightarrow> string list \<Rightarrow> u64 \<Rightarrow> u64 \<Rightarrow> GatewayError \<times> GatewayCore" where
  "acquire_ownership H g i target keys lease_until_tick current_tick =
     (case sm_find (gw_sessions g) i of
        None \<Rightarrow> (GE_invalid_request, g)
      | Some info \<Rightarrow>
          if \<not> wid_valid target \<or> keys = [] \<or> lease_until_tick \<le> current_tick
          then (GE_invalid_request, g)
          else let (err, grants) = acquire_keys H (si_principal info) i target lease_until_tick
                     current_tick (gw_ownership g) keys
               in (err, g\<lparr>gw_ownership := grants\<rparr>))"

definition release_ownership ::
  "GatewayCore \<Rightarrow> SessionId \<Rightarrow> WorldId \<Rightarrow> string list \<Rightarrow> GatewayError \<times> GatewayCore" where
  "release_ownership g i target keys =
     (if sm_find (gw_sessions g) i = None then (GE_invalid_request, g)
      else (GE_none, g\<lparr>gw_ownership :=
        foldl (\<lambda>grants key. snd (own_release grants i target key)) (gw_ownership g) keys\<rparr>))"

section \<open>Admission of commands\<close>

text \<open>The target tick and the payload, or the reason to refuse; the token is spent in any case.\<close>

definition admission_payload ::
  "'e GatewayHooks \<Rightarrow> GatewayCore \<Rightarrow> SessionId \<Rightarrow> SessionInfo \<Rightarrow> ExternalCommand \<Rightarrow> u64 \<Rightarrow>
     GatewayError + CommandPayload" where
  "admission_payload H g i info command current_tick =
     (case ec_params command of
        SetPropertyParams key v \<Rightarrow>
          if \<not> wid_valid (ec_target_wid command) then Inl GE_invalid_request
          else if \<not> gh_can_write_property H (si_principal info) (ec_target_wid command) key
          then Inl GE_permission_denied
          else if \<not> own_holds (gw_ownership g) i (ec_target_wid command) key current_tick
          then Inl GE_permission_denied
          else Inr (SetPropertyCommand (ec_target_wid command) key v)
      | CreateObjectParams requested_id semantic_type geometry_ref position properties \<Rightarrow>
          if \<not> gh_can_manage_objects H (si_principal info) then Inl GE_permission_denied
          else if \<not> wid_valid requested_id
             \<or> of_nat (fm_size properties) > gc_max_command_parameters (gw_config g)
          then Inl GE_invalid_request
          else Inr (CreateObjectCommand ((default_object requested_id)
            \<lparr>wo_semantic_type := semantic_type, wo_geometry_ref := geometry_ref,
             wo_position := position, wo_properties := properties\<rparr>))
      | DestroyObjectParams \<Rightarrow>
          if \<not> gh_can_manage_objects H (si_principal info) then Inl GE_permission_denied
          else if \<not> wid_valid (ec_target_wid command) then Inl GE_invalid_request
          else Inr (DestroyObjectCommand (ec_target_wid command)))"

definition check_command_admission ::
  "'e GatewayHooks \<Rightarrow> GatewayCore \<Rightarrow> SessionId \<Rightarrow> SessionInfo \<Rightarrow> ExternalCommand \<Rightarrow> u64 \<Rightarrow> i64 \<Rightarrow>
     (GatewayError + u64 \<times> CommandPayload) \<times> GatewayCore" where
  "check_command_admission H g i info command current_tick now =
     (let (ok, m) = sm_consume_command_budget (gw_sessions g) i now;
          g = g\<lparr>gw_sessions := m\<rparr>
      in if \<not> ok then (Inl GE_rate_limited, g)
         else
           let target_tick = (if ec_target_tick_hint command \<noteq> 0 then ec_target_tick_hint command
                              else current_tick + gc_command_lead_ticks (gw_config g))
           in if target_tick < current_tick + 1
                 \<or> target_tick > current_tick + gc_max_command_lead_ticks (gw_config g)
              then (Inl GE_tick_out_of_window, g)
              else (case admission_payload H g i info command current_tick of
                      Inl err \<Rightarrow> Inl err
                    | Inr payload \<Rightarrow> Inr (target_tick, payload), g))"

definition rejected_receipt :: "GatewayError \<Rightarrow> ExternalCommand \<Rightarrow> CommandReceipt" where
  "rejected_receipt err command =
     \<lparr>rc_status = RS_rejected, rc_error = err, rc_client_sequence = ec_client_sequence command,
      rc_ingress_sequence = 0, rc_durable_lsn = 0\<rparr>"

definition emplace_pending :: "u64 \<Rightarrow> PendingCommand \<Rightarrow> (u64, PendingCommand) fmap \<Rightarrow> (u64, PendingCommand) fmap" where
  "emplace_pending ingress p m = (if fm_has m ingress then m else fmupd ingress p m)"

definition submit_command ::
  "'e GatewayHooks \<Rightarrow> GatewayCore \<Rightarrow> 'e \<Rightarrow> SessionId \<Rightarrow> ExternalCommand \<Rightarrow> u64 \<Rightarrow> i64 \<Rightarrow>
     (GatewayError \<times> CommandReceipt) \<times> GatewayCore \<times> 'e" where
  "submit_command H g e i command current_tick now =
     (let rejected = (\<lambda>err. (err, rejected_receipt err command)) in
      case sm_find (gw_sessions g) i of
        None \<Rightarrow> (rejected GE_invalid_request, g, e)
      | Some info \<Rightarrow>
          if i \<noteq> ec_session command then (rejected GE_invalid_request, g, e)
          else case sm_find_receipt (gw_sessions g) i (ec_client_sequence command) of
            Some cached \<Rightarrow> ((GE_none, cached\<lparr>rc_status := RS_duplicate\<rparr>), g, e)
          | None \<Rightarrow>
              let (decision, g) = check_command_admission H g i info command current_tick now in
              case decision of
                Inl err \<Rightarrow> (rejected err, g, e)
              | Inr (target_tick, payload) \<Rightarrow>
                  (case gh_submitter H of
                     None \<Rightarrow> (rejected GE_invalid_request, g, e)
                   | Some submit \<Rightarrow>
                       if gw_ingress_sequence g = - 1 then (rejected GE_limit_exceeded, g, e)
                       else
                         let ingress = gw_ingress_sequence g + 1;
                             g = g\<lparr>gw_ingress_sequence := ingress\<rparr>;
                             (sequence, e) = submit e target_tick payload
                               \<lparr>cm_ingress_sequence = ingress,
                                cm_expected_object_version = ec_expected_object_version command,
                                cm_durable_lsn = 0\<rparr>
                         in if sequence = 0 then (rejected GE_limit_exceeded, g, e)
                            else
                              let receipt = \<lparr>rc_status = RS_accepted, rc_error = GE_none,
                                    rc_client_sequence = ec_client_sequence command,
                                    rc_ingress_sequence = ingress, rc_durable_lsn = 0\<rparr>
                              in ((GE_none, receipt),
                                  g\<lparr>gw_pending_commands := emplace_pending ingress
                                      \<lparr>pcm_session = i, pcm_client_sequence = ec_client_sequence command,
                                       pcm_durable_key = None\<rparr> (gw_pending_commands g),
                                    gw_sessions := sm_store_receipt (gw_sessions g) i receipt\<rparr>, e)))"


section \<open>Durable admission\<close>

text \<open>
  The error of a final entry. A recovered record can hold any number; one of no enumerator, which
  this program never writes, is read as no error.
\<close>

definition error_of_number :: "ErrorNumber \<Rightarrow> GatewayError" where
  "error_of_number n =
     (case find (\<lambda>err. error_number err = n)
        [GE_none, GE_protocol_incompatible, GE_auth_failed, GE_permission_denied, GE_rate_limited,
         GE_invalid_request, GE_limit_exceeded, GE_ticket_invalid, GE_epoch_mismatch, GE_ack_unknown,
         GE_baseline_unavailable, GE_slow_client, GE_version_conflict, GE_missing_object,
         GE_tick_out_of_window, GE_unsupported_operation, GE_idempotency_conflict,
         GE_durability_unavailable] of
        Some err \<Rightarrow> err | None \<Rightarrow> GE_none)"

definition entry_receipt :: "DurableIdempotencyEntry \<Rightarrow> CommandReceipt" where
  "entry_receipt entry =
     \<lparr>rc_status = (case die_state entry of
          DS_pending \<Rightarrow> RS_accepted | DS_durable_accepted \<Rightarrow> RS_durable_accepted
        | DS_applied \<Rightarrow> RS_applied | DS_rejected \<Rightarrow> RS_rejected),
      rc_error = (if die_state entry = DS_rejected then error_of_number (die_error entry) else GE_none),
      rc_client_sequence = die_client_sequence entry, rc_ingress_sequence = die_ingress_sequence entry,
      rc_durable_lsn = die_lsn entry\<rparr>"

definition submit_durable_command ::
  "'e GatewayHooks \<Rightarrow> GatewayCore \<Rightarrow> 'e \<Rightarrow> SessionId \<Rightarrow> ExternalCommand \<Rightarrow> u64 \<Rightarrow> i64 \<Rightarrow> nat \<Rightarrow>
     CompletionEvent list \<times> GatewayCore \<times> 'e" where
  "submit_durable_command H g e i command current_tick now completion =
     (let complete = (\<lambda>err receipt. [\<lparr>ce_completion = completion, ce_error = err, ce_receipt = receipt\<rparr>]);
          rejected = (\<lambda>err. complete err (rejected_receipt err command)) in
      case (sm_find (gw_sessions g) i, ec_request_id command) of
        (Some info, Some request_id) \<Rightarrow>
          if i \<noteq> ec_session command then (rejected GE_invalid_request, g, e)
          else
            let key = (pr_id (si_principal info), request_id);
                fingerprint = make_command_fingerprint command in
            (case index_lookup (gw_durable_index g) key fingerprint of
               (Some entry, content_match) \<Rightarrow>
                 if \<not> content_match then (rejected GE_idempotency_conflict, g, e)
                 else let receipt = entry_receipt entry in (complete (rc_error receipt) receipt, g, e)
             | (None, _) \<Rightarrow>
                 let (decision, g) = check_command_admission H g i info command current_tick now in
                 case decision of
                   Inl err \<Rightarrow> (rejected err, g, e)
                 | Inr (target_tick, payload) \<Rightarrow>
                     (case gh_durable_log H of
                        None \<Rightarrow> (rejected GE_durability_unavailable, g, e)
                      | Some wal \<Rightarrow>
                          if gw_ingress_sequence g = - 1 then (rejected GE_limit_exceeded, g, e)
                          else
                            let (ticket, e) = dl_append wal e
                              \<lparr>dr_kind = DK_external_command, dr_target_tick = target_tick,
                               dr_payload = encode_external_command_record (pr_id (si_principal info))
                                 request_id target_tick command\<rparr> in
                            (case ticket of
                               None \<Rightarrow> (rejected GE_durability_unavailable, g, e)
                             | Some ticket \<Rightarrow>
                                 let ingress = gw_ingress_sequence g + 1 in
                                 ([], g\<lparr>gw_ingress_sequence := ingress,
                                    gw_durable_index := register_pending (gw_durable_index g) key fingerprint
                                      (ec_client_sequence command),
                                    gw_pending_durable :=
                                      (if fm_has (gw_pending_durable g) ingress then gw_pending_durable g
                                       else fmupd ingress
                                        \<lparr>pdu_key = key, pdu_session = i,
                                         pdu_client_sequence = ec_client_sequence command,
                                         pdu_ingress_sequence = ingress, pdu_target_tick = target_tick,
                                         pdu_expected_object_version = ec_expected_object_version command,
                                         pdu_payload = payload, pdu_ticket = ticket,
                                         pdu_completion = completion\<rparr> (gw_pending_durable g))\<rparr>, e))))
      | _ \<Rightarrow> (rejected GE_invalid_request, g, e))"

text \<open>The tickets of outcome records that are still being written stay.\<close>

fun sweep_tickets ::
  "'e DurableAdmissionLog \<Rightarrow> 'e \<Rightarrow> DurableTicket list \<Rightarrow> DurableTicket list \<times> 'e" where
  "sweep_tickets wal e [] = ([], e)"
| "sweep_tickets wal e (t # ts) =
     (let (written, e) = dl_try_outcome wal e t;
          (rest, e) = sweep_tickets wal e ts
      in (if written = None then t # rest else rest, e))"

text \<open>What happens once the log answers for a pending command.\<close>

definition finish_durable ::
  "'e GatewayHooks \<Rightarrow> GatewayCore \<Rightarrow> 'e \<Rightarrow> PendingDurable \<Rightarrow> DurableAppendOutcome \<Rightarrow>
     CompletionEvent \<times> GatewayCore \<times> 'e" where
  "finish_durable H g e pending written =
     (let complete = (\<lambda>err receipt.
            \<lparr>ce_completion = pdu_completion pending, ce_error = err, ce_receipt = receipt\<rparr>) in
      if \<not> dao_ok written then
        (complete GE_durability_unavailable
           \<lparr>rc_status = RS_rejected, rc_error = GE_durability_unavailable,
            rc_client_sequence = pdu_client_sequence pending, rc_ingress_sequence = 0, rc_durable_lsn = 0\<rparr>,
         g\<lparr>gw_durable_index := index_erase (gw_durable_index g) (pdu_key pending)\<rparr>, e)
      else
        let g = g\<lparr>gw_durable_index := mark_durable_accepted (gw_durable_index g) (pdu_key pending)
                    (dao_lsn written) (pdu_ingress_sequence pending)\<rparr>;
            (sequence, e) =
              (case gh_submitter H of
                 None \<Rightarrow> (0, e)
               | Some submit \<Rightarrow> submit e (pdu_target_tick pending) (pdu_payload pending)
                   \<lparr>cm_ingress_sequence = pdu_ingress_sequence pending,
                    cm_expected_object_version = pdu_expected_object_version pending,
                    cm_durable_lsn = dao_lsn written\<rparr>)
        in if sequence = 0 then
             let receipt = \<lparr>rc_status = RS_rejected, rc_error = GE_limit_exceeded,
                   rc_client_sequence = pdu_client_sequence pending,
                   rc_ingress_sequence = pdu_ingress_sequence pending, rc_durable_lsn = dao_lsn written\<rparr>
             in (complete GE_limit_exceeded receipt,
                 g\<lparr>gw_durable_index := mark_final (gw_durable_index g) (pdu_key pending) False GE_limit_exceeded,
                   gw_sessions := sm_store_receipt (gw_sessions g) (pdu_session pending) receipt\<rparr>, e)
           else
             let receipt = \<lparr>rc_status = RS_durable_accepted, rc_error = GE_none,
                   rc_client_sequence = pdu_client_sequence pending,
                   rc_ingress_sequence = pdu_ingress_sequence pending, rc_durable_lsn = dao_lsn written\<rparr>
             in (complete GE_none receipt,
                 g\<lparr>gw_sessions := sm_store_receipt (gw_sessions g) (pdu_session pending) receipt,
                   gw_pending_commands := emplace_pending (pdu_ingress_sequence pending)
                     \<lparr>pcm_session = pdu_session pending, pcm_client_sequence = pdu_client_sequence pending,
                      pcm_durable_key = Some (pdu_key pending)\<rparr> (gw_pending_commands g)\<rparr>, e))"

text \<open>
  The loop runs over an \<open>unordered_map\<close>; the order in which it visits the keys is an argument, since
  it decides the order in which the commands reach the command buffer.
\<close>

fun poll_pending ::
  "'e GatewayHooks \<Rightarrow> 'e DurableAdmissionLog \<Rightarrow> GatewayCore \<Rightarrow> 'e \<Rightarrow> u64 list \<Rightarrow>
     CompletionEvent list \<times> GatewayCore \<times> 'e" where
  "poll_pending H wal g e [] = ([], g, e)"
| "poll_pending H wal g e (k # order) =
     (case fmlookup (gw_pending_durable g) k of
        None \<Rightarrow> poll_pending H wal g e order
      | Some pending \<Rightarrow>
          let (written, e) = dl_try_outcome wal e (pdu_ticket pending) in
          case written of
            None \<Rightarrow> poll_pending H wal g e order
          | Some w \<Rightarrow>
              let (event, g, e) = finish_durable H
                    (g\<lparr>gw_pending_durable := fmdrop k (gw_pending_durable g)\<rparr>) e pending w;
                  (events, g, e) = poll_pending H wal g e order
              in (event # events, g, e))"

text \<open>A ticket only ever comes from the log, so without one there is nothing to poll.\<close>

definition poll_durable_tickets ::
  "'e GatewayHooks \<Rightarrow> GatewayCore \<Rightarrow> 'e \<Rightarrow> u64 list \<Rightarrow> CompletionEvent list \<times> GatewayCore \<times> 'e" where
  "poll_durable_tickets H g e order =
     (case gh_durable_log H of
        None \<Rightarrow> ([], g, e)
      | Some wal \<Rightarrow>
          let (tickets, e) = sweep_tickets wal e (gw_durable_outcome_tickets g)
          in poll_pending H wal (g\<lparr>gw_durable_outcome_tickets := tickets\<rparr>) e order)"

definition restore_durable_record :: "GatewayCore \<Rightarrow> DurableRecordKind \<Rightarrow> u64 \<Rightarrow> bytes \<Rightarrow> bool \<times> GatewayCore" where
  "restore_durable_record g kind lsn payload =
     (let (ok, index) = index_restore (gw_durable_index g) kind lsn payload
      in (ok, g\<lparr>gw_durable_index := index\<rparr>))"

definition request_keyframe :: "GatewayCore \<Rightarrow> SessionId \<Rightarrow> GatewayError \<times> GatewayCore" where
  "request_keyframe g i =
     (if sm_find (gw_sessions g) i = None then (GE_invalid_request, g)
      else (GE_none, on_session_connections schedule_keyframe g i))"

section \<open>Data plane\<close>

definition issue_stream_ticket :: "GatewayCore \<Rightarrow> SessionId \<Rightarrow> string \<Rightarrow> i64 \<Rightarrow> string option \<times> GatewayCore" where
  "issue_stream_ticket g i token now =
     (if sm_find (gw_sessions g) i = None then (None, g)
      else let (ticket, m) = sm_issue_ticket (gw_sessions g) i token now
           in (Some ticket, g\<lparr>gw_sessions := m\<rparr>))"

definition default_subscription :: AreaSubscription where
  "default_subscription = \<lparr>as_area = None, as_follow = None, as_follow_radius_meters = F64 0\<rparr>"

definition attach_stream ::
  "GatewayCore \<Rightarrow> ConnectionId \<Rightarrow> string \<Rightarrow> i64 \<Rightarrow> ConnectionId option \<times> GatewayCore" where
  "attach_stream g connection ticket now =
     (let (info, m) = sm_redeem_ticket (gw_sessions g) ticket now;
          g = g\<lparr>gw_sessions := m\<rparr> in
      case info of
        None \<Rightarrow> (None, g)
      | Some info \<Rightarrow>
          if conn_value connection = 0 then (None, g)
          else
            let s = (case fmlookup (gw_pending_subscriptions g) (si_id info) of
                       None \<Rightarrow> default_subscription | Some s \<Rightarrow> s);
                (added, g) = engine_connections g (\<lambda>cs. add_connection cs connection s)
            in if \<not> added then (None, g)
               else
                 let st = (case fmlookup (gw_connections g) connection of
                       Some st \<Rightarrow> st
                     | None \<Rightarrow> connection_state (si_id info) (gc_max_state_queue_bytes (gw_config g))
                         (gc_max_reliable_queue_bytes (gw_config g)))
                 in (Some connection,
                     g\<lparr>gw_connections := fmupd connection (st\<lparr>cst_last_ack_tick := gw_last_pump_tick g\<rparr>)
                         (gw_connections g)\<rparr>))"

definition detach_stream :: "GatewayCore \<Rightarrow> ConnectionId \<Rightarrow> GatewayCore" where
  "detach_stream g connection =
     (remove_engine_connection g connection)\<lparr>gw_connections := fmdrop connection (gw_connections g)\<rparr>"

definition mark_disconnect :: "ConnectionState \<Rightarrow> GatewayError \<Rightarrow> ConnectionState" where
  "mark_disconnect st reason = st\<lparr>cst_must_disconnect := True, cst_disconnect_reason := reason\<rparr>"

definition update_state :: "ConnectionId \<Rightarrow> ConnectionState \<Rightarrow> GatewayCore \<Rightarrow> GatewayCore" where
  "update_state c st g = g\<lparr>gw_connections := fmupd c st (gw_connections g)\<rparr>"

definition inbound_ack :: "GatewayCore \<Rightarrow> ConnectionId \<Rightarrow> u64 \<Rightarrow> u64 \<Rightarrow> bool \<times> GatewayCore" where
  "inbound_ack g connection stream_epoch snapshot_id =
     (case fmlookup (gw_connections g) connection of
        None \<Rightarrow> (False, g)
      | Some st \<Rightarrow>
          let refused = (\<lambda>g reason. (False, update_state connection (mark_disconnect st reason) g)) in
          (case fmlookup (eg_connections (gw_engine g)) connection of
             None \<Rightarrow> refused g GE_epoch_mismatch
           | Some projection \<Rightarrow>
               if cn_stream_epoch projection \<noteq> stream_epoch then refused g GE_epoch_mismatch
               else
                 let (result, g) = engine_connections g (\<lambda>cs. acknowledge cs connection snapshot_id) in
                 (case result of
                    AK_error_epoch_mismatch \<Rightarrow> refused g GE_epoch_mismatch
                  | AK_error_unknown_snapshot \<Rightarrow> refused g GE_ack_unknown
                  | AK_accepted \<Rightarrow>
                      (True, update_state connection (st\<lparr>cst_last_ack_tick := gw_last_pump_tick g\<rparr>) g)
                  | AK_duplicate_ignored \<Rightarrow> (True, g))))"

definition inbound_keyframe_request :: "GatewayCore \<Rightarrow> ConnectionId \<Rightarrow> bool \<times> GatewayCore" where
  "inbound_keyframe_request g connection =
     (if \<not> fm_has (gw_connections g) connection then (False, g)
      else engine_connections g (\<lambda>cs. schedule_keyframe cs connection))"

section \<open>The pump\<close>

text \<open>First pass: what the engine has for each connection that lives.\<close>

definition pump_collect ::
  "GatewayCore \<times> (ConnectionId \<times> StateFrame option) list \<Rightarrow> ConnectionId \<Rightarrow>
     GatewayCore \<times> (ConnectionId \<times> StateFrame option) list" where
  "pump_collect = (\<lambda>(g, frames) c.
     case fmlookup (gw_connections g) c of
       None \<Rightarrow> (g, frames)
     | Some st \<Rightarrow>
         if cst_must_disconnect st then (g, frames)
         else
           let g = (if sq_resync_required (cst_state_queue st)
                    then update_state c (st\<lparr>cst_state_queue := sq_clear_resync (cst_state_queue st)\<rparr>)
                           (snd (engine_connections g (\<lambda>cs. schedule_keyframe cs c)))
                    else g);
               (frame, engine) = next_frame (gw_engine g) c
           in (g\<lparr>gw_engine := engine\<rparr>, frames @ [(c, frame)]))"

text \<open>Second pass: kind (0 none, 1 keyframe, 2 delta), baseline and bytes of each frame.\<close>

record EncodedSlot =
  enc_connection :: ConnectionId
  enc_frame_kind :: nat
  enc_baseline :: u64
  enc_bytes :: FrameBytes

definition encode_slot :: "'e GatewayHooks \<Rightarrow> ConnectionId \<times> StateFrame option \<Rightarrow> EncodedSlot" where
  "encode_slot H = (\<lambda>(c, frame).
     case frame of
       None \<Rightarrow> \<lparr>enc_connection = c, enc_frame_kind = 0, enc_baseline = 0, enc_bytes = []\<rparr>
     | Some f \<Rightarrow>
         \<lparr>enc_connection = c,
          enc_frame_kind = (case f of SF_keyframe _ \<Rightarrow> 1 | SF_delta _ \<Rightarrow> 2),
          enc_baseline = (case f of SF_keyframe _ \<Rightarrow> 0 | SF_delta d \<Rightarrow> df_baseline_snapshot_id d),
          enc_bytes = (case gh_frame_encoder H of None \<Rightarrow> [] | Some encode \<Rightarrow> encode f)\<rparr>)"

text \<open>Third pass: queue the frame or a heartbeat, and give up on a client that does not acknowledge.\<close>

definition pump_deliver ::
  "'e GatewayHooks \<Rightarrow> u64 \<Rightarrow> u64 \<Rightarrow> u64 \<Rightarrow> GatewayCore \<Rightarrow> EncodedSlot \<Rightarrow> GatewayCore" where
  "pump_deliver H tick ack_timeout_ticks heartbeat_ticks g slot =
     (case fmlookup (gw_connections g) (enc_connection slot) of
        None \<Rightarrow> g
      | Some st \<Rightarrow>
          if cst_must_disconnect st then g
          else
            let latest = eg_latest_snapshot_id (gw_engine g);
                keyframe = (enc_frame_kind slot = 1);
                (st, g) =
                  (if enc_frame_kind slot \<noteq> 0 \<and> gh_frame_encoder H \<noteq> None then
                     (st\<lparr>cst_state_queue := sq_push (cst_state_queue st)
                        \<lparr>qf_snapshot_id = latest, qf_baseline_snapshot_id = enc_baseline slot,
                         qf_is_keyframe = keyframe, qf_bytes = enc_bytes slot\<rparr>\<rparr>,
                      if keyframe then g\<lparr>gw_last_pump_keyframe_count := gw_last_pump_keyframe_count g + 1\<rparr>
                      else g)
                   else case gh_heartbeat_encoder H of
                       Some heartbeat \<Rightarrow>
                         (if enc_frame_kind slot = 0 \<and> tick - cst_last_heartbeat_tick st \<ge> heartbeat_ticks
                          then (st\<lparr>cst_last_heartbeat_tick := tick,
                                  cst_reliable_queue := snd (rq_push (cst_reliable_queue st)
                                    (heartbeat tick latest))\<rparr>, g)
                          else (st, g))
                     | None \<Rightarrow> (st, g));
                st = (if cst_last_ack_tick st \<noteq> 0 \<and> tick - cst_last_ack_tick st > ack_timeout_ticks
                      then mark_disconnect st GE_slow_client else st)
            in update_state (enc_connection slot) st g)"

text \<open>\<open>None\<close>: the division by a tick length of zero, which a validated configuration excludes.\<close>

definition pump :: "'e GatewayHooks \<Rightarrow> GatewayCore \<Rightarrow> u64 \<Rightarrow> GatewayCore option" where
  "pump H g tick =
     (let g = g\<lparr>gw_last_pump_tick := tick\<rparr>;
          dt = pc_tick_dt_microseconds (eg_config (gw_engine g)) in
      if dt = 0 then None
      else
        let ack_timeout_ticks = (ucast (gc_ack_timeout_seconds (gw_config g)) * 1000000) div dt;
            heartbeat_ticks = (ucast (gc_heartbeat_interval_seconds (gw_config g)) * 1000000) div dt;
            (g, frames) = foldl pump_collect (g, []) (fm_keys (gw_connections g));
            slots = map (encode_slot H) frames
        in Some (foldl (pump_deliver H tick ack_timeout_ticks heartbeat_ticks)
             (g\<lparr>gw_last_pump_keyframe_count := 0\<rparr>) slots))"

section \<open>Applied commands\<close>

definition outcome_receipt :: "PendingCommand \<Rightarrow> CommandOutcome \<Rightarrow> CommandReceipt" where
  "outcome_receipt command result =
     \<lparr>rc_status = (if co_applied result then RS_applied else RS_rejected),
      rc_error = (if co_applied result then GE_none
        else case co_reason result of
          CR_version_conflict \<Rightarrow> GE_version_conflict
        | CR_missing_object \<Rightarrow> GE_missing_object
        | _ \<Rightarrow> GE_invalid_request),
      rc_client_sequence = pcm_client_sequence command,
      rc_ingress_sequence = co_ingress_sequence result, rc_durable_lsn = 0\<rparr>"

definition push_receipt :: "FrameBytes \<Rightarrow> GatewayCore \<Rightarrow> ConnectionId \<Rightarrow> GatewayCore" where
  "push_receipt bytes g c =
     (case fmlookup (gw_connections g) c of
        None \<Rightarrow> g
      | Some st \<Rightarrow>
          let (pushed, q) = rq_push (cst_reliable_queue st) bytes;
              st = st\<lparr>cst_reliable_queue := q\<rparr>
          in update_state c (if pushed then st else mark_disconnect st GE_slow_client) g)"

definition write_outcome ::
  "'e GatewayHooks \<Rightarrow> GatewayCore \<Rightarrow> 'e \<Rightarrow> PendingCommand \<Rightarrow> CommandReceipt \<Rightarrow> GatewayCore \<times> 'e" where
  "write_outcome H g e command receipt =
     (case pcm_durable_key command of
        None \<Rightarrow> (g, e)
      | Some key \<Rightarrow>
          let applied = (rc_status receipt = RS_applied);
              g = g\<lparr>gw_durable_index := mark_final (gw_durable_index g) key applied (rc_error receipt)\<rparr>
          in case gh_durable_log H of
               None \<Rightarrow> (g, e)
             | Some wal \<Rightarrow>
                 let (ticket, e) = dl_append wal e
                   \<lparr>dr_kind = DK_command_outcome, dr_target_tick = 0,
                    dr_payload = encode_command_outcome_record (fst key) (snd key)
                      (pcm_client_sequence command) (rc_ingress_sequence receipt) applied (rc_error receipt)\<rparr>
                 in (case ticket of
                       None \<Rightarrow> g
                     | Some t \<Rightarrow> g\<lparr>gw_durable_outcome_tickets := gw_durable_outcome_tickets g @ [t]\<rparr>, e))"

definition command_applied ::
  "'e GatewayHooks \<Rightarrow> GatewayCore \<times> 'e \<Rightarrow> CommandOutcome \<Rightarrow> GatewayCore \<times> 'e" where
  "command_applied H = (\<lambda>(g, e) result.
     case fmlookup (gw_pending_commands g) (co_ingress_sequence result) of
       None \<Rightarrow> (g, e)
     | Some command \<Rightarrow>
         let receipt = outcome_receipt command result;
             g = g\<lparr>gw_pending_commands := fmdrop (co_ingress_sequence result) (gw_pending_commands g),
                   gw_sessions := sm_store_receipt (gw_sessions g) (pcm_session command) receipt\<rparr>;
             (g, e) = write_outcome H g e command receipt
         in (case gh_receipt_encoder H of
               None \<Rightarrow> g
             | Some encode \<Rightarrow>
                 foldl (push_receipt (encode receipt)) g (session_connections g (pcm_session command)), e))"

definition on_commands_applied ::
  "'e GatewayHooks \<Rightarrow> GatewayCore \<Rightarrow> 'e \<Rightarrow> ApplyReport \<Rightarrow> GatewayCore \<times> 'e" where
  "on_commands_applied H g e report = foldl (command_applied H) (g, e) (ar_outcomes report)"

section \<open>Output\<close>

definition next_outbound :: "GatewayCore \<Rightarrow> ConnectionId \<Rightarrow> FrameBytes option \<times> GatewayCore" where
  "next_outbound g connection =
     (case fmlookup (gw_connections g) connection of
        None \<Rightarrow> (None, g)
      | Some st \<Rightarrow>
          (case rq_pop (cst_reliable_queue st) of
             (Some bytes, q) \<Rightarrow> (Some bytes, update_state connection (st\<lparr>cst_reliable_queue := q\<rparr>) g)
           | (None, _) \<Rightarrow>
               (case sq_pop (cst_state_queue st) of
                  (Some frame, q) \<Rightarrow>
                    (Some (qf_bytes frame), update_state connection (st\<lparr>cst_state_queue := q\<rparr>) g)
                | (None, _) \<Rightarrow> (None, g))))"

definition must_disconnect :: "GatewayCore \<Rightarrow> ConnectionId \<Rightarrow> bool" where
  "must_disconnect g connection \<longleftrightarrow>
     (case fmlookup (gw_connections g) connection of None \<Rightarrow> False | Some st \<Rightarrow> cst_must_disconnect st)"

definition disconnect_reason :: "GatewayCore \<Rightarrow> ConnectionId \<Rightarrow> GatewayError" where
  "disconnect_reason g connection =
     (case fmlookup (gw_connections g) connection of None \<Rightarrow> GE_none | Some st \<Rightarrow> cst_disconnect_reason st)"

definition connection_count :: "GatewayCore \<Rightarrow> nat" where
  "connection_count g = fm_size (gw_connections g)"

end
