(* ===== verification/Gateway_Runs.thy ===== *)
theory Gateway_Runs
  imports Gateway_Core
begin

text \<open>
  Runs of the gateway core: any sequence of its operations, of ticks of the engine it shares, and of
  changes of the environment (the command buffer and the durable log). The lemmas show that a durable
  submission is answered exactly once, that a command is handed on once per session and sequence
  number, what a command must satisfy to be handed on, and that streams belong to open sessions.
\<close>

section \<open>Operations and runs\<close>

datatype 'e GwOp =
    GwOpen string u32 u32 u32 u32 u64 i64 i64 string
  | GwClose SessionId
  | GwSubscribe SessionId AreaSubscription
  | GwAcquire SessionId WorldId "string list" u64 u64
  | GwRelease SessionId WorldId "string list"
  | GwSubmit SessionId ExternalCommand u64 i64
  | GwSubmitDurable SessionId ExternalCommand u64 i64
  | GwPoll "u64 list"
  | GwRestore DurableRecordKind u64 bytes
  | GwKeyframe SessionId
  | GwIssue SessionId string i64
  | GwAttach ConnectionId string i64
  | GwDetach ConnectionId
  | GwAck ConnectionId u64 u64
  | GwKeyframeRequest ConnectionId
  | GwPump u64
  | GwApplied ApplyReport
  | GwOutbound ConnectionId
  | GwProject Libm World u64 u64
  | GwEnvironment "'e \<Rightarrow> 'e"

text \<open>
  The core and its environment, the number of durable submissions (the \<open>n\<close>-th passes the completion
  \<open>n\<close>), the completions called, and the commands \<open>submit_command\<close> accepted.
\<close>

record 'e GwRun =
  gr_core :: GatewayCore
  gr_env :: 'e
  gr_calls :: nat
  gr_events :: "CompletionEvent list"
  gr_accepted :: "(SessionId \<times> u64) list"

definition gw_start :: "GatewayCore \<Rightarrow> 'e \<Rightarrow> 'e GwRun" where
  "gw_start g e = \<lparr>gr_core = g, gr_env = e, gr_calls = 0, gr_events = [], gr_accepted = []\<rparr>"

fun core_step :: "'e GatewayHooks \<Rightarrow> GatewayCore \<Rightarrow> 'e GwOp \<Rightarrow> GatewayCore" where
  "core_step H g (GwOpen cred cmin cmax dmin dmax tick now now' token) =
     snd (open_session H g cred cmin cmax dmin dmax tick now now' token)"
| "core_step H g (GwClose i) = snd (close_session g i)"
| "core_step H g (GwSubscribe i s) = snd (gateway_update_subscription g i s)"
| "core_step H g (GwAcquire i target keys lease tick) = snd (acquire_ownership H g i target keys lease tick)"
| "core_step H g (GwRelease i target keys) = snd (release_ownership g i target keys)"
| "core_step H g (GwRestore kind lsn payload) = snd (restore_durable_record g kind lsn payload)"
| "core_step H g (GwKeyframe i) = snd (request_keyframe g i)"
| "core_step H g (GwIssue i token now) = snd (issue_stream_ticket g i token now)"
| "core_step H g (GwAttach c ticket now) = snd (attach_stream g c ticket now)"
| "core_step H g (GwDetach c) = detach_stream g c"
| "core_step H g (GwAck c epoch snapshot) = snd (inbound_ack g c epoch snapshot)"
| "core_step H g (GwKeyframeRequest c) = snd (inbound_keyframe_request g c)"
| "core_step H g (GwPump tick) = (case pump H g tick of None \<Rightarrow> g | Some g \<Rightarrow> g)"
| "core_step H g (GwOutbound c) = snd (next_outbound g c)"
| "core_step H g (GwProject libm w tick h) =
     (case on_projection libm (gw_engine g) w tick h of None \<Rightarrow> g | Some e \<Rightarrow> g\<lparr>gw_engine := e\<rparr>)"
| "core_step H g _ = g"

fun gw_step :: "'e GatewayHooks \<Rightarrow> 'e GwRun \<Rightarrow> 'e GwOp \<Rightarrow> 'e GwRun" where
  "gw_step H s (GwSubmit i command tick now) =
     (let ((_, receipt), g, e) = submit_command H (gr_core s) (gr_env s) i command tick now
      in s\<lparr>gr_core := g, gr_env := e,
           gr_accepted := gr_accepted s @
             (if rc_status receipt = RS_accepted then [(i, ec_client_sequence command)] else [])\<rparr>)"
| "gw_step H s (GwSubmitDurable i command tick now) =
     (let (events, g, e) = submit_durable_command H (gr_core s) (gr_env s) i command tick now (gr_calls s)
      in s\<lparr>gr_core := g, gr_env := e, gr_calls := gr_calls s + 1, gr_events := gr_events s @ events\<rparr>)"
| "gw_step H s (GwPoll order) =
     (let (events, g, e) = poll_durable_tickets H (gr_core s) (gr_env s) order
      in s\<lparr>gr_core := g, gr_env := e, gr_events := gr_events s @ events\<rparr>)"
| "gw_step H s (GwApplied report) =
     (let (g, e) = on_commands_applied H (gr_core s) (gr_env s) report in s\<lparr>gr_core := g, gr_env := e\<rparr>)"
| "gw_step H s (GwEnvironment f) = s\<lparr>gr_env := f (gr_env s)\<rparr>"
| "gw_step H s p = s\<lparr>gr_core := core_step H (gr_core s) p\<rparr>"

section \<open>What the operations leave alone\<close>

definition durable_part :: "GatewayCore \<Rightarrow> u64 \<times> (u64, PendingDurable) fmap" where
  "durable_part g = (gw_ingress_sequence g, gw_pending_durable g)"

lemma durable_part_eq:
  "durable_part g = durable_part g' \<longleftrightarrow>
     gw_ingress_sequence g = gw_ingress_sequence g' \<and> gw_pending_durable g = gw_pending_durable g'"
  by (simp add: durable_part_def)

lemma durable_part_simps [simp]:
  "durable_part (g\<lparr>gw_engine := x1\<rparr>) = durable_part g"
  "durable_part (g\<lparr>gw_sessions := x2\<rparr>) = durable_part g"
  "durable_part (g\<lparr>gw_ownership := x3\<rparr>) = durable_part g"
  "durable_part (g\<lparr>gw_connections := x4\<rparr>) = durable_part g"
  "durable_part (g\<lparr>gw_pending_commands := x5\<rparr>) = durable_part g"
  "durable_part (g\<lparr>gw_pending_subscriptions := x6\<rparr>) = durable_part g"
  "durable_part (g\<lparr>gw_last_pump_tick := x7\<rparr>) = durable_part g"
  "durable_part (g\<lparr>gw_last_pump_keyframe_count := x8\<rparr>) = durable_part g"
  "durable_part (g\<lparr>gw_durable_index := x9\<rparr>) = durable_part g"
  "durable_part (g\<lparr>gw_durable_outcome_tickets := x10\<rparr>) = durable_part g"
  by (simp_all add: durable_part_def)

lemma foldl_keeps:
  "(\<And>s x. f (step s x) = f s) \<Longrightarrow> f (foldl step s xs) = f s"
  by (induction xs arbitrary: s) auto

lemma engine_connections_durable [simp]:
  "durable_part (snd (engine_connections g f)) = durable_part g"
  by (simp add: engine_connections_def split: prod.split)

lemma update_state_durable [simp]: "durable_part (update_state c st g) = durable_part g"
  by (simp add: update_state_def)

lemma remove_engine_durable [simp]: "durable_part (remove_engine_connection g c) = durable_part g"
  by (simp add: remove_engine_connection_def)

lemma close_connections_durable [simp]: "durable_part (close_connections i g cs) = durable_part g"
  by (induction i g cs rule: close_connections.induct) simp_all

lemma on_session_connections_durable [simp]:
  "durable_part (on_session_connections f g i) = durable_part g"
  unfolding on_session_connections_def by (rule foldl_keeps) simp

lemma check_admission_durable [simp]:
  "durable_part (snd (check_command_admission H g i info command tick now)) = durable_part g"
  by (simp add: check_command_admission_def Let_def split: prod.split)

lemma pump_collect_durable [simp]: "durable_part (fst (pump_collect gf c)) = durable_part (fst gf)"
  by (cases gf) (auto simp: pump_collect_def Let_def split: option.split prod.split)

lemma pump_deliver_durable [simp]: "durable_part (pump_deliver H t a b g slot) = durable_part g"
  by (auto simp: pump_deliver_def Let_def split: option.split prod.split)

lemma pump_durable: "pump H g tick = Some g' \<Longrightarrow> durable_part g' = durable_part g"
proof -
  have collect: "durable_part (fst (foldl pump_collect gf cs)) = durable_part (fst gf)" for gf cs
    using foldl_keeps [of "\<lambda>gf. durable_part (fst gf)" pump_collect gf cs] by simp
  have deliver: "durable_part (foldl (pump_deliver H t a b) g slots) = durable_part g" for t a b g slots
    by (rule foldl_keeps) simp
  assume "pump H g tick = Some g'"
  then show ?thesis
    using collect [of "(g\<lparr>gw_last_pump_tick := tick\<rparr>, [])" "fm_keys (gw_connections g)"]
    by (auto simp: pump_def Let_def deliver split: if_splits prod.splits)
qed

lemma core_step_durable: "durable_part (core_step H g p) = durable_part g"
proof (cases p)
  case (GwAck c epoch snapshot)
  then show ?thesis
    by (auto simp: inbound_ack_def Let_def engine_connections_def split: option.split prod.split AckResult.split)
next
  case (GwAttach c ticket now)
  then show ?thesis
    by (auto simp: attach_stream_def Let_def engine_connections_def split: option.split prod.split)
next
  case (GwPump tick)
  then show ?thesis by (auto split: option.split dest: pump_durable)
qed (auto simp: open_session_def close_session_def gateway_update_subscription_def acquire_ownership_def
    release_ownership_def restore_durable_record_def request_keyframe_def issue_stream_ticket_def
    detach_stream_def inbound_keyframe_request_def next_outbound_def Let_def
    split: option.split prod.split)

section \<open>Durable submissions are answered once\<close>

text \<open>
  The commands waiting for the log, the completions called so far, and the number of submissions:
  each submission is either waiting under one key, not above the ingress counter, or answered once.
\<close>

definition durable_inv :: "u64 \<times> (u64, PendingDurable) fmap \<Rightarrow> nat \<Rightarrow> nat list \<Rightarrow> bool" where
  "durable_inv = (\<lambda>(c, m) n ds.
     (\<forall>k p. fmlookup m k = Some p \<longrightarrow> k \<le> c \<and> pdu_completion p < n \<and> pdu_completion p \<notin> set ds) \<and>
     (\<forall>k k' p p'. fmlookup m k = Some p \<longrightarrow> fmlookup m k' = Some p' \<longrightarrow>
        pdu_completion p = pdu_completion p' \<longrightarrow> k = k') \<and>
     distinct ds \<and> set ds \<subseteq> {..<n} \<and>
     (\<forall>j < n. j \<in> set ds \<or> (\<exists>k p. fmlookup m k = Some p \<and> pdu_completion p = j)))"

lemma durable_inv_counter: "durable_inv (c, m) n ds \<Longrightarrow> c \<le> c' \<Longrightarrow> durable_inv (c', m) n ds"
  by (auto simp: durable_inv_def intro: order_trans)

lemma durable_inv_answer: "durable_inv (c, m) n ds \<Longrightarrow> durable_inv (c, m) (Suc n) (ds @ [n])"
  unfolding durable_inv_def by (fastforce simp: less_Suc_eq)

lemma u64_succ_above: "c \<noteq> - 1 \<Longrightarrow> k \<le> c \<Longrightarrow> k < c + 1" for c k :: u64
proof -
  assume "c \<noteq> - 1" "k \<le> c"
  then have "1 + c \<noteq> 0" by (metis add.commute add_eq_0_iff2)
  then have "unat (c + 1) = Suc (unat c)" by (simp add: unatSuc add.commute)
  with \<open>k \<le> c\<close> show ?thesis by (simp add: word_less_nat_alt word_le_nat_alt)
qed

lemma u64_le_succ: "c \<noteq> - 1 \<Longrightarrow> c \<le> c + 1" for c :: u64
  using u64_succ_above [of c c] by simp

lemma durable_inv_wait:
  assumes inv: "durable_inv (c, m) n ds" and "c \<noteq> - 1" and p: "pdu_completion p = n"
  shows "durable_inv (c + 1, fmupd (c + 1) p m) (Suc n) ds" "\<not> fm_has m (c + 1)"
proof -
  have old: "k < c + 1" "pdu_completion q < n" "pdu_completion q \<notin> set ds" if "fmlookup m k = Some q" for k q
    using inv that u64_succ_above [OF \<open>c \<noteq> - 1\<close>] by (auto simp: durable_inv_def)
  then have new: "fmlookup m (c + 1) = None" by (metis less_irrefl not_None_eq)
  then show "\<not> fm_has m (c + 1)" by (simp add: fm_has_def)
  have rest: "distinct ds" "set ds \<subseteq> {..<n}"
    and inj: "\<And>k k' p p'. fmlookup m k = Some p \<Longrightarrow> fmlookup m k' = Some p' \<Longrightarrow>
        pdu_completion p = pdu_completion p' \<Longrightarrow> k = k'"
    and all: "\<And>j. j < n \<Longrightarrow> j \<in> set ds \<or> (\<exists>k p. fmlookup m k = Some p \<and> pdu_completion p = j)"
    using inv by (auto simp: durable_inv_def)
  show "durable_inv (c + 1, fmupd (c + 1) p m) (Suc n) ds"
    unfolding durable_inv_def split_conv
  proof (intro conjI allI impI)
    fix k q assume k: "fmlookup (fmupd (c + 1) p m) k = Some q"
    show "k \<le> c + 1" using k old(1) by (cases "k = c + 1") (auto intro: less_imp_le)
    show "pdu_completion q < Suc n" using k old(2) p by (cases "k = c + 1") (auto intro: less_SucI)
    show "pdu_completion q \<notin> set ds" using k old(3) p rest(2) by (cases "k = c + 1") auto
  next
    fix k k' q q'
    assume k: "fmlookup (fmupd (c + 1) p m) k = Some q" and k': "fmlookup (fmupd (c + 1) p m) k' = Some q'"
      and same: "pdu_completion q = pdu_completion q'"
    have "k = c + 1 \<and> q = p \<or> fmlookup m k = Some q" "k' = c + 1 \<and> q' = p \<or> fmlookup m k' = Some q'"
      using k k' by (auto split: if_splits)
    then show "k = k'"
    proof (elim disjE conjE)
      assume "k = c + 1" "q = p" "fmlookup m k' = Some q'"
      then show ?thesis using old(2) [of k' q'] same p by simp
    next
      assume "k' = c + 1" "q' = p" "fmlookup m k = Some q"
      then show ?thesis using old(2) [of k q] same p by simp
    qed (use inj same in blast)+
  next
    fix j assume "j < Suc n"
    show "j \<in> set ds \<or> (\<exists>k q. fmlookup (fmupd (c + 1) p m) k = Some q \<and> pdu_completion q = j)"
    proof (cases "j = n")
      case True then show ?thesis using p by auto
    next
      case False
      then have "j \<in> set ds \<or> (\<exists>k q. fmlookup m k = Some q \<and> pdu_completion q = j)"
        using all \<open>j < Suc n\<close> by simp
      then show ?thesis using new by (metis fmupd_lookup option.distinct(1))
    qed
  qed (use rest in auto)
qed

lemma durable_inv_finish:
  assumes "durable_inv (c, m) n ds" "fmlookup m k = Some p"
  shows "durable_inv (c, fmdrop k m) n (ds @ [pdu_completion p])"
proof -
  have "(\<forall>j < n. j \<in> set (ds @ [pdu_completion p]) \<or>
      (\<exists>k' q. fmlookup (fmdrop k m) k' = Some q \<and> pdu_completion q = j))"
  proof (intro allI impI)
    fix j assume "j < n"
    then consider "j \<in> set ds" | k' q where "fmlookup m k' = Some q" "pdu_completion q = j"
      using assms(1) by (auto simp: durable_inv_def)
    then show "j \<in> set (ds @ [pdu_completion p]) \<or>
        (\<exists>k' q. fmlookup (fmdrop k m) k' = Some q \<and> pdu_completion q = j)"
    proof cases
      case 1 then show ?thesis by simp
    next
      case (2 k' q) then show ?thesis using assms(2) by (cases "k' = k") auto
    qed
  qed
  with assms show ?thesis unfolding durable_inv_def
    by (simp add: subset_iff) (metis (no_types, lifting))
qed

lemma finish_durable_part:
  "finish_durable H g e p w = (event, g', e') \<Longrightarrow>
     ce_completion event = pdu_completion p \<and> durable_part g' = durable_part g"
  by (auto simp: finish_durable_def Let_def split: if_splits prod.splits)

text \<open>
  What every answer of the log and every completion keeps holds after the poll, whatever the order.
\<close>

lemma poll_pending_invariant:
  assumes "poll_pending H wal g e order = (events, g', e')" "P ds g e"
    and tried: "\<And>ds g e t w e'. P ds g e \<Longrightarrow> dl_try_outcome wal e t = (w, e') \<Longrightarrow> P ds g e'"
    and finished: "\<And>ds g e k p w event g' e'. P ds g e \<Longrightarrow> fmlookup (gw_pending_durable g) k = Some p \<Longrightarrow>
      finish_durable H (g\<lparr>gw_pending_durable := fmdrop k (gw_pending_durable g)\<rparr>) e p w = (event, g', e') \<Longrightarrow>
      P (ds @ [event]) g' e'"
  shows "P (ds @ events) g' e'"
  using assms(1, 2)
proof (induction order arbitrary: g e ds events)
  case Nil
  then show ?case by simp
next
  case (Cons k order)
  show ?case
  proof (cases "fmlookup (gw_pending_durable g) k")
    case None
    with Cons show ?thesis by simp
  next
    case (Some p)
    obtain written e1 where w: "dl_try_outcome wal e (pdu_ticket p) = (written, e1)" by fastforce
    have P1: "P ds g e1" using tried [OF Cons.prems(2) w] .
    show ?thesis
    proof (cases written)
      case None
      with Cons.prems(1) \<open>fmlookup (gw_pending_durable g) k = Some p\<close> w
      have "poll_pending H wal g e1 order = (events, g', e')" by simp
      from Cons.IH [OF this P1] show ?thesis .
    next
      case (Some r)
      let ?g = "g\<lparr>gw_pending_durable := fmdrop k (gw_pending_durable g)\<rparr>"
      obtain event g1 e2 where f: "finish_durable H ?g e1 p r = (event, g1, e2)"
        by (metis prod_cases3)
      obtain more g2 e3 where rest: "poll_pending H wal g1 e2 order = (more, g2, e3)"
        by (metis prod_cases3)
      have out: "events = event # more" "g' = g2" "e' = e3"
        using Cons.prems(1) \<open>fmlookup (gw_pending_durable g) k = Some p\<close> w Some f rest by simp_all
      have "P (ds @ [event]) g1 e2"
        using finished [OF P1 \<open>fmlookup (gw_pending_durable g) k = Some p\<close> f] .
      from Cons.IH [OF rest [folded out] this] out show ?thesis by simp
    qed
  qed
qed

lemma poll_pending_inv:
  assumes "poll_pending H wal g e order = (events, g', e')"
    and "durable_inv (durable_part g) n (map ce_completion ds)"
  shows "durable_inv (durable_part g') n (map ce_completion (ds @ events))"
proof -
  define P where "P ds g e \<longleftrightarrow> durable_inv (durable_part g) n (map ce_completion ds)"
    for ds :: "CompletionEvent list" and g :: GatewayCore and e :: 'a
  from assms(1) have "P (ds @ events) g' e'"
  proof (rule poll_pending_invariant [where P = P])
    show "P ds g e" using assms(2) by (simp add: P_def)
  next
    fix ds g and e :: 'a and k p w event g' e'
    assume "P ds g e" and k: "fmlookup (gw_pending_durable g) k = Some p"
      and f: "finish_durable H (g\<lparr>gw_pending_durable := fmdrop k (gw_pending_durable g)\<rparr>) e p w = (event, g', e')"
    then show "P (ds @ [event]) g' e'"
      using finish_durable_part [OF f] durable_inv_finish [OF _ k]
      by (simp add: P_def durable_part_def)
  qed (simp add: P_def)
  then show ?thesis by (simp add: P_def)
qed

lemma admission_frame:
  assumes "check_command_admission H g i info command tick now = (d, g')"
  obtains m where "g' = g\<lparr>gw_sessions := m\<rparr>" "sm_receipts m = sm_receipts (gw_sessions g)"
    "fmdom (sm_sessions m) = fmdom (sm_sessions (gw_sessions g))"
    "\<And>j. sm_find m j = sm_find (gw_sessions g) j"
proof -
  let ?m = "snd (sm_consume_command_budget (gw_sessions g) i now)"
  have "g' = g\<lparr>gw_sessions := ?m\<rparr>"
    using assms by (auto simp: check_command_admission_def Let_def split: prod.splits if_splits)
  moreover have "sm_receipts ?m = sm_receipts (gw_sessions g)"
    "fmdom (sm_sessions ?m) = fmdom (sm_sessions (gw_sessions g))"
    "sm_find ?m j = sm_find (gw_sessions g) j" for j
    by (auto simp: sm_consume_command_budget_def sm_find_def Let_def fmdomI split: option.splits)
  ultimately show ?thesis using that by blast
qed

lemma submit_command_counter:
  "submit_command H g e i command tick now = (r, g', e') \<Longrightarrow>
     gw_pending_durable g' = gw_pending_durable g \<and> gw_ingress_sequence g \<le> gw_ingress_sequence g'"
  by (auto simp: submit_command_def Let_def u64_le_succ split: option.splits sum.splits prod.splits if_splits
      elim!: admission_frame)

text \<open>A durable submission is answered in the call, or waits under the next ingress number.\<close>

definition durable_answer ::
  "(PendingDurable \<Rightarrow> bool) \<Rightarrow> nat \<Rightarrow> GatewayCore \<Rightarrow> CompletionEvent list \<times> GatewayCore \<times> 'e \<Rightarrow> bool" where
  "durable_answer admitted n g = (\<lambda>(events, g', e).
     (\<exists>err r. events = [\<lparr>ce_completion = n, ce_error = err, ce_receipt = r\<rparr>] \<and>
        durable_part g' = durable_part g) \<or>
     (\<exists>p. events = [] \<and> admitted p \<and> pdu_completion p = n \<and> gw_ingress_sequence g \<noteq> - 1 \<and>
        durable_part g' = (gw_ingress_sequence g + 1,
          if fm_has (gw_pending_durable g) (gw_ingress_sequence g + 1) then gw_pending_durable g
          else fmupd (gw_ingress_sequence g + 1) p (gw_pending_durable g))))"

lemma answered_at_once:
  "durable_part g' = durable_part g \<Longrightarrow>
     durable_answer admitted n g ([\<lparr>ce_completion = n, ce_error = err, ce_receipt = r\<rparr>], g', e)"
  by (simp add: durable_answer_def)

definition admits :: "'e GatewayHooks \<Rightarrow> GatewayCore \<Rightarrow> SessionId \<Rightarrow> ExternalCommand \<Rightarrow> u64 \<Rightarrow> i64 \<Rightarrow>
    u64 \<Rightarrow> CommandPayload \<Rightarrow> bool" where
  "admits H g i command tick now target payload \<longleftrightarrow>
     (\<exists>info. sm_find (gw_sessions g) i = Some info \<and> i = ec_session command \<and>
        fst (check_command_admission H g i info command tick now) = Inr (target, payload))"

lemma submit_durable_answer:
  "durable_answer (\<lambda>p. admits H g i command tick now (pdu_target_tick p) (pdu_payload p)) n g
     (submit_durable_command H g e i command tick now n)"
proof (cases "\<exists>info request_id. sm_find (gw_sessions g) i = Some info \<and> ec_request_id command = Some request_id")
  case False
  then show ?thesis
    by (auto simp: submit_durable_command_def answered_at_once split: option.split)
next
  case True
  then obtain info request_id where
    session: "sm_find (gw_sessions g) i = Some info" "ec_request_id command = Some request_id" by blast
  obtain entry match where look: "index_lookup (gw_durable_index g) (pr_id (si_principal info), request_id)
      (make_command_fingerprint command) = (entry, match)" by fastforce
  obtain d g1 where adm: "check_command_admission H g i info command tick now = (d, g1)" by fastforce
  then obtain m where g1: "g1 = g\<lparr>gw_sessions := m\<rparr>" by (elim admission_frame)
  show ?thesis
  proof (cases "\<exists>target payload wal. entry = None \<and> i = ec_session command \<and> d = Inr (target, payload) \<and>
      gh_durable_log H = Some wal \<and> gw_ingress_sequence g \<noteq> - 1")
    case False
    then show ?thesis using session look adm g1
      by (auto simp: submit_durable_command_def Let_def answered_at_once split: option.split sum.split)
  next
    case True
    then obtain target payload wal where ok: "entry = None" "i = ec_session command"
      "d = Inr (target, payload)" "gh_durable_log H = Some wal" "gw_ingress_sequence g \<noteq> - 1" by blast
    obtain ticket e1 where "dl_append wal e \<lparr>dr_kind = DK_external_command, dr_target_tick = target,
        dr_payload = encode_external_command_record (pr_id (si_principal info)) request_id target command\<rparr>
        = (ticket, e1)" by fastforce
    then show ?thesis using session look adm g1 ok
      by (cases ticket) (auto simp: submit_durable_command_def Let_def durable_answer_def durable_part_def admits_def
          intro!: exI [of _ "\<lparr>pdu_key = (pr_id (si_principal info), request_id), pdu_session = i,
            pdu_client_sequence = ec_client_sequence command,
            pdu_ingress_sequence = gw_ingress_sequence g + 1, pdu_target_tick = target,
            pdu_expected_object_version = ec_expected_object_version command, pdu_payload = payload,
            pdu_ticket = the ticket, pdu_completion = n\<rparr>"])
  qed
qed

lemma durable_inv_lists:
  assumes "durable_inv (c, m) n ds"
  shows "distinct (ds @ map (\<lambda>(k, p). pdu_completion p) (fm_items m)) \<and>
    set (ds @ map (\<lambda>(k, p). pdu_completion p) (fm_items m)) = {..<n}"
proof -
  let ?ws = "map (\<lambda>(k, p). pdu_completion p) (fm_items m)"
  have "inj_on (\<lambda>(k, p). pdu_completion p) (set (fm_items m))"
  proof (rule inj_onI)
    fix x y assume x: "x \<in> set (fm_items m)" and y: "y \<in> set (fm_items m)"
      and "(\<lambda>(k, p). pdu_completion p) x = (\<lambda>(k, p). pdu_completion p) y"
    then have "fst x = fst y" using assms unfolding durable_inv_def set_fm_items split_conv
      by (cases x; cases y) auto
    with x y show "x = y" by (auto simp: set_fm_items)
  qed
  moreover have "distinct (fm_items m)"
    using distinct_map [of fst "fm_items m"] by simp
  ultimately have "distinct ?ws" by (simp add: distinct_map)
  moreover have "set ?ws \<inter> set ds = {}" "set ?ws \<subseteq> {..<n}" "distinct ds" "set ds \<subseteq> {..<n}"
    using assms by (auto simp: durable_inv_def set_fm_items)
  moreover have "{..<n} \<subseteq> set ds \<union> set ?ws"
    using assms unfolding durable_inv_def set_map set_fm_items by force
  ultimately show ?thesis by auto
qed

text \<open>The invariant of a run.\<close>

abbreviation run_durable :: "'e GwRun \<Rightarrow> bool" where
  "run_durable s \<equiv> durable_inv (durable_part (gr_core s)) (gr_calls s) (map ce_completion (gr_events s))"

lemma run_durable_submit:
  assumes "run_durable s"
  shows "run_durable (gw_step H s (GwSubmitDurable i command tick now))"
proof -
  let ?g = "gr_core s"
  obtain events g' e' where r: "submit_durable_command H ?g (gr_env s) i command tick now (gr_calls s)
      = (events, g', e')" by (metis prod_cases3)
  have "durable_answer (\<lambda>p. admits H ?g i command tick now (pdu_target_tick p) (pdu_payload p))
      (gr_calls s) ?g (events, g', e')"
    using submit_durable_answer [of H ?g i command tick now "gr_calls s" "gr_env s"] by (simp add: r)
  moreover obtain c m where cm: "durable_part ?g = (c, m)" by fastforce
  moreover have "gw_ingress_sequence ?g = c" "gw_pending_durable ?g = m"
    using cm by (simp_all add: durable_part_def)
  ultimately show ?thesis
    using assms r durable_inv_answer [of c m] durable_inv_wait [of c m]
    by (auto simp: durable_answer_def)
qed

lemma on_commands_applied_durable: "durable_part (fst (on_commands_applied H g e report)) = durable_part g"
proof -
  have keep: "durable_part (fst (command_applied H ge out)) = durable_part (fst ge)" for ge out
  proof -
    have push: "durable_part (push_receipt b g c) = durable_part g" for b g c
      by (auto simp: push_receipt_def Let_def split: option.split prod.split)
    have pushes: "durable_part (foldl (push_receipt b) g cs) = durable_part g" for b g cs
      by (rule foldl_keeps) (rule push)
    have wrote: "write_outcome H g e cmd r = (g', e') \<Longrightarrow> durable_part g' = durable_part g" for g e cmd r g' e'
      by (auto simp: write_outcome_def Let_def split: option.splits prod.splits)
    show ?thesis
    proof (cases "fmlookup (gw_pending_commands (fst ge)) (co_ingress_sequence out)")
      case None
      then show ?thesis by (simp add: command_applied_def case_prod_beta)
    next
      case (Some cmd)
      then show ?thesis
        by (cases ge) (auto simp: command_applied_def Let_def pushes split: option.split prod.split dest!: wrote)
    qed
  qed
  show ?thesis
    unfolding on_commands_applied_def
    using foldl_keeps [of "\<lambda>ge. durable_part (fst ge)" "command_applied H"] keep by simp
qed

lemma run_durable_step:
  assumes inv: "run_durable s"
  shows "run_durable (gw_step H s p)"
proof (cases p)
  case (GwSubmit i command tick now)
  obtain r g' e' where r: "submit_command H (gr_core s) (gr_env s) i command tick now = (r, g', e')"
    by (metis prod_cases3)
  show ?thesis
    using inv r submit_command_counter [OF r] GwSubmit
    by (auto simp: durable_part_def intro: durable_inv_counter split: prod.split)
next
  case (GwSubmitDurable i command tick now)
  with run_durable_submit [OF inv] show ?thesis by simp
next
  case (GwPoll order)
  obtain events g' e' where r: "poll_durable_tickets H (gr_core s) (gr_env s) order = (events, g', e')"
    by (metis prod_cases3)
  have "durable_inv (durable_part g') (gr_calls s) (map ce_completion (gr_events s @ events))"
    using r inv by (auto simp: poll_durable_tickets_def Let_def simp del: map_append
        split: option.splits prod.splits elim!: poll_pending_inv)
  with GwPoll r show ?thesis by simp
next
  case (GwApplied report)
  with inv on_commands_applied_durable [of H "gr_core s" "gr_env s" report] show ?thesis
    by (auto split: prod.split)
qed (use inv in \<open>simp_all add: core_step_durable del: core_step.simps\<close>)

text \<open>
  C7: a durable submission is answered exactly once. Take any run of a fresh gateway core: any
  operations in any order, any clock, any behaviour of the log, the submitter, the command buffer and
  the visiting order of the poll. No completion is called twice, and each of the submissions made so far
  has either had its completion called, or is waiting for the log under exactly one ingress number;
  never both.
\<close>

theorem durable_completion_once:
  "let s = foldl (gw_step H) (gw_start (gateway_core config engine control_version data_version) e) ops;
       called = map ce_completion (gr_events s);
       waiting = map (\<lambda>(k, p). pdu_completion p) (fm_items (gw_pending_durable (gr_core s)))
   in distinct (called @ waiting) \<and> set (called @ waiting) = {..<gr_calls s}"
proof -
  let ?s = "foldl (gw_step H) (gw_start (gateway_core config engine control_version data_version) e) ops"
  have "run_durable (gw_start (gateway_core config engine control_version data_version) e)"
    by (simp add: gw_start_def gateway_core_def durable_inv_def durable_part_def)
  then have "run_durable ?s"
    by (rule foldl_invariant [where P = run_durable]) (rule run_durable_step)
  from durable_inv_lists [OF this [unfolded durable_part_def]] show ?thesis
    unfolding Let_def by simp
qed

section \<open>Commands are accepted once\<close>

text \<open>Receipts are never forgotten.\<close>

abbreviation receipts :: "GatewayCore \<Rightarrow> (SessionId \<times> u64, CommandReceipt) fmap" where
  "receipts g \<equiv> sm_receipts (gw_sessions g)"

lemma session_receipts [simp]:
  "sm_receipts (snd (sm_open m p cv dv t now)) = sm_receipts m"
  "sm_receipts (sm_close m i) = sm_receipts m"
  "sm_receipts (snd (sm_issue_ticket m i token now)) = sm_receipts m"
  "sm_receipts (snd (sm_redeem_ticket m ticket now)) = sm_receipts m"
  "sm_receipts (sm_store_receipt m i r) = fmupd (i, rc_client_sequence r) r (sm_receipts m)"
  by (auto simp: sm_open_def sm_close_def sm_issue_ticket_def sm_redeem_ticket_def sm_store_receipt_def
      Let_def split: option.split)

lemma engine_connections_receipts [simp]: "gw_sessions (snd (engine_connections g f)) = gw_sessions g"
  by (simp add: engine_connections_def split: prod.split)

lemma update_state_sessions [simp]: "gw_sessions (update_state c st g) = gw_sessions g"
  by (simp add: update_state_def)

lemma remove_engine_sessions [simp]: "gw_sessions (remove_engine_connection g c) = gw_sessions g"
  by (simp add: remove_engine_connection_def)

lemma close_connections_sessions [simp]: "gw_sessions (close_connections i g cs) = gw_sessions g"
  by (induction i g cs rule: close_connections.induct) simp_all

lemma on_session_connections_sessions [simp]: "gw_sessions (on_session_connections f g i) = gw_sessions g"
  unfolding on_session_connections_def by (rule foldl_keeps) simp

lemma pump_collect_sessions [simp]: "gw_sessions (fst (pump_collect gf c)) = gw_sessions (fst gf)"
  by (cases gf) (auto simp: pump_collect_def Let_def split: option.split prod.split)

lemma pump_deliver_sessions [simp]: "gw_sessions (pump_deliver H t a b g slot) = gw_sessions g"
  by (auto simp: pump_deliver_def Let_def split: option.split prod.split)

lemma pump_sessions: "pump H g tick = Some g' \<Longrightarrow> gw_sessions g' = gw_sessions g"
proof -
  have collect: "gw_sessions (fst (foldl pump_collect gf cs)) = gw_sessions (fst gf)" for gf cs
    using foldl_keeps [of "\<lambda>gf. gw_sessions (fst gf)" pump_collect gf cs] by simp
  have deliver: "gw_sessions (foldl (pump_deliver H t a b) g slots) = gw_sessions g" for t a b g slots
    by (rule foldl_keeps) simp
  assume "pump H g tick = Some g'"
  then show ?thesis
    using collect [of "(g\<lparr>gw_last_pump_tick := tick\<rparr>, [])" "fm_keys (gw_connections g)"]
    by (auto simp: pump_def Let_def deliver split: if_splits prod.splits)
qed

lemma open_session_receipts:
  "receipts (snd (open_session H g cred cmin cmax dmin dmax tick now now' token)) = receipts g"
proof -
  have opened: "sm_open m p cv dv t n = (i, m') \<Longrightarrow> sm_receipts m' = sm_receipts m" for m p cv dv t n i m'
    using session_receipts(1) [of m p cv dv t n] by simp
  have issued: "sm_issue_ticket m i tk n = (ticket, m') \<Longrightarrow> sm_receipts m' = sm_receipts m" for m i tk n ticket m'
    using session_receipts(3) [of m i tk n] by simp
  show ?thesis
    by (auto simp: open_session_def Let_def split: option.split prod.split dest: opened dest!: issued)
qed

lemma attach_stream_receipts: "receipts (snd (attach_stream g c ticket now)) = receipts g"
proof -
  have redeemed: "sm_redeem_ticket m ticket now = (i, m') \<Longrightarrow> sm_receipts m' = sm_receipts m" for m i m'
    using session_receipts(4) [of m ticket now] by simp
  show ?thesis
    by (auto simp: attach_stream_def Let_def engine_connections_def split: option.split prod.split dest!: redeemed)
qed

lemma core_step_receipts: "receipts (core_step H g p) = receipts g"
proof (cases p)
  case (GwAck c epoch snapshot)
  then show ?thesis
    by (auto simp: inbound_ack_def Let_def engine_connections_def split: option.split prod.split AckResult.split)
next
  case (GwPump tick)
  then show ?thesis by (auto split: option.split dest: pump_sessions)
next
  case (GwIssue i token now)
  then show ?thesis using session_receipts(3) [of "gw_sessions g" i token now]
    by (auto simp: issue_stream_ticket_def split_def Let_def)
qed (auto simp: close_session_def gateway_update_subscription_def acquire_ownership_def
    release_ownership_def restore_durable_record_def request_keyframe_def attach_stream_receipts
    detach_stream_def inbound_keyframe_request_def next_outbound_def Let_def open_session_receipts
    split: option.split prod.split)

definition remembers :: "GatewayCore \<Rightarrow> GatewayCore \<Rightarrow> bool" where
  "remembers g g' \<longleftrightarrow> fmdom (receipts g) |\<subseteq>| fmdom (receipts g')"

lemma remembers_same: "receipts g' = receipts g \<Longrightarrow> remembers g g'"
  by (simp add: remembers_def)

lemma remembers_trans: "remembers g g1 \<Longrightarrow> remembers g1 g2 \<Longrightarrow> remembers g g2"
  unfolding remembers_def by (rule fsubset_trans)

lemma remembers_store:
  "gw_sessions g' = sm_store_receipt (gw_sessions g) i r \<Longrightarrow> remembers g g'"
  by (auto simp: remembers_def)

lemma remembers_receipt: "remembers g g' \<Longrightarrow> fm_has (receipts g) k \<Longrightarrow> fm_has (receipts g') k"
  by (auto simp: remembers_def fm_has_iff_dom)

lemma finish_durable_remembers:
  "finish_durable H g e p w = (event, g', e') \<Longrightarrow> remembers g g'"
  by (auto simp: finish_durable_def Let_def intro: remembers_same remembers_store split: if_splits prod.splits)

lemma poll_pending_remembers:
  assumes "poll_pending H wal g e order = (events, g', e')"
  shows "remembers g g'"
proof -
  define P where "P ds h e \<longleftrightarrow> remembers g h"
    for ds :: "CompletionEvent list" and h :: GatewayCore and e :: 'a
  from assms have "P ([] @ events) g' e'"
  proof (rule poll_pending_invariant [where P = P])
    fix ds h and e :: 'a and k p w event h' e'
    assume "P ds h e"
      and f: "finish_durable H (h\<lparr>gw_pending_durable := fmdrop k (gw_pending_durable h)\<rparr>) e p w = (event, h', e')"
    from finish_durable_remembers [OF f] have "remembers h h'" by (simp add: remembers_def)
    with \<open>P ds h e\<close> show "P (ds @ [event]) h' e'" unfolding P_def by (rule remembers_trans)
  qed (simp_all add: P_def remembers_same)
  then show ?thesis by (simp add: P_def)
qed

lemma command_applied_remembers: "remembers (fst ge) (fst (command_applied H ge out))"
proof -
  have push: "gw_sessions (push_receipt b g c) = gw_sessions g" for b g c
    by (auto simp: push_receipt_def Let_def split: option.split prod.split)
  have pushes: "gw_sessions (foldl (push_receipt b) g cs) = gw_sessions g" for b g cs
    by (rule foldl_keeps) (rule push)
  have wrote: "write_outcome H g e cmd r = (g', e') \<Longrightarrow> gw_sessions g' = gw_sessions g" for g e cmd r g' e'
    by (auto simp: write_outcome_def Let_def split: option.splits prod.splits)
  show ?thesis
    by (cases ge) (auto simp: command_applied_def Let_def pushes intro: remembers_same remembers_store
        split: option.split prod.split dest!: wrote)
qed

lemma on_commands_applied_remembers: "remembers g (fst (on_commands_applied H g e report))"
  unfolding on_commands_applied_def
  by (rule foldl_invariant [where P = "\<lambda>ge. remembers g (fst ge)"])
    (auto intro: remembers_same remembers_trans [OF _ command_applied_remembers])

lemma admission_receipts:
  "check_command_admission H g i info command tick now = (d, g') \<Longrightarrow> receipts g' = receipts g"
  by (elim admission_frame) simp

lemma submit_durable_sessions:
  "receipts (fst (snd (submit_durable_command H g e i command tick now n))) = receipts g"
  by (auto simp: submit_durable_command_def Let_def split: option.split sum.split prod.split
      dest!: admission_receipts)

text \<open>What \<open>submit_command\<close> does when it accepts, and otherwise.\<close>

lemma submit_command_cases:
  assumes "submit_command H g e i command tick now = ((err, r), g', e')"
  obtains (accepted) info target payload g1 submit sequence where
      "sm_find (gw_sessions g) i = Some info" "i = ec_session command"
      "sm_find_receipt (gw_sessions g) i (ec_client_sequence command) = None"
      "check_command_admission H g i info command tick now = (Inr (target, payload), g1)"
      "gh_submitter H = Some submit" "gw_ingress_sequence g1 \<noteq> - 1"
      "submit e target payload \<lparr>cm_ingress_sequence = gw_ingress_sequence g1 + 1,
         cm_expected_object_version = ec_expected_object_version command, cm_durable_lsn = 0\<rparr> = (sequence, e')"
      "sequence \<noteq> 0" "rc_status r = RS_accepted" "rc_client_sequence r = ec_client_sequence command"
      "receipts g' = fmupd (i, ec_client_sequence command) r (receipts g)"
  | (refused) "rc_status r \<noteq> RS_accepted" "receipts g' = receipts g"
proof (cases "\<exists>info target payload g1 submit. sm_find (gw_sessions g) i = Some info \<and> i = ec_session command \<and>
      sm_find_receipt (gw_sessions g) i (ec_client_sequence command) = None \<and>
      check_command_admission H g i info command tick now = (Inr (target, payload), g1) \<and>
      gh_submitter H = Some submit \<and> gw_ingress_sequence g1 \<noteq> - 1")
  case False
  have "rc_status r \<noteq> RS_accepted \<and> receipts g' = receipts g"
    using assms False
    by (auto simp: submit_command_def rejected_receipt_def Let_def
        split: option.splits sum.splits prod.splits if_splits dest!: admission_receipts)
  with refused show ?thesis by blast
next
  case True
  then obtain info target payload g1 submit where
    ok: "sm_find (gw_sessions g) i = Some info" "i = ec_session command"
      "sm_find_receipt (gw_sessions g) i (ec_client_sequence command) = None"
      "check_command_admission H g i info command tick now = (Inr (target, payload), g1)"
      "gh_submitter H = Some submit" "gw_ingress_sequence g1 \<noteq> - 1" by blast
  have keep: "receipts g1 = receipts g" using ok(4) by (elim admission_frame) simp
  obtain sequence e1 where sub: "submit e target payload \<lparr>cm_ingress_sequence = gw_ingress_sequence g1 + 1,
      cm_expected_object_version = ec_expected_object_version command, cm_durable_lsn = 0\<rparr> = (sequence, e1)"
    by fastforce
  show ?thesis
  proof (cases "sequence = 0")
    case True
    with assms ok sub keep have "rc_status r \<noteq> RS_accepted" "receipts g' = receipts g"
      by (auto simp: submit_command_def rejected_receipt_def Let_def)
    with refused show ?thesis by blast
  next
    case False
    with assms ok sub keep have "e1 = e'" "rc_status r = RS_accepted"
      "rc_client_sequence r = ec_client_sequence command"
      "receipts g' = fmupd (i, ec_client_sequence command) r (receipts g)"
      by (auto simp: submit_command_def Let_def)
    with accepted ok sub False show ?thesis by blast
  qed
qed

definition accepted_inv :: "'e GwRun \<Rightarrow> bool" where
  "accepted_inv s \<longleftrightarrow> distinct (gr_accepted s) \<and>
     (\<forall>k \<in> set (gr_accepted s). fm_has (receipts (gr_core s)) k)"

lemma accepted_inv_frame:
  assumes "accepted_inv s" "remembers (gr_core s) (gr_core s')" "gr_accepted s' = gr_accepted s"
  shows "accepted_inv s'"
  using assms remembers_receipt unfolding accepted_inv_def by metis

lemma accepted_inv_step:
  assumes inv: "accepted_inv s"
  shows "accepted_inv (gw_step H s p)"
proof (cases p)
  case (GwSubmit i command tick now)
  obtain err r g' e' where r: "submit_command H (gr_core s) (gr_env s) i command tick now = ((err, r), g', e')"
    by (metis prod_cases4 prod.collapse)
  show ?thesis using r
  proof (cases rule: submit_command_cases)
    case accepted
    then have "(i, ec_client_sequence command) \<notin> set (gr_accepted s)"
      using inv by (auto simp: accepted_inv_def sm_find_receipt_def fm_has_def)
    with accepted GwSubmit r inv show ?thesis by (auto simp: accepted_inv_def fm_has_def)
  next
    case refused
    with GwSubmit r inv show ?thesis by (auto simp: accepted_inv_def)
  qed
next
  case (GwSubmitDurable i command tick now)
  show ?thesis
    by (rule accepted_inv_frame [OF inv])
      (simp_all add: GwSubmitDurable remembers_same split_def Let_def submit_durable_sessions)
next
  case (GwPoll order)
  obtain events g' e' where r: "poll_durable_tickets H (gr_core s) (gr_env s) order = (events, g', e')"
    by (metis prod_cases3)
  have "remembers (gr_core s) g'"
    using r by (auto simp: poll_durable_tickets_def remembers_def Let_def split: option.splits prod.splits
        dest!: poll_pending_remembers)
  with GwPoll r show ?thesis by (intro accepted_inv_frame [OF inv]) simp_all
next
  case (GwApplied report)
  show ?thesis
    by (rule accepted_inv_frame [OF inv])
      (use GwApplied on_commands_applied_remembers [of "gr_core s" H "gr_env s" report] in \<open>auto split: prod.split\<close>)
qed (rule accepted_inv_frame [OF inv]; simp add: remembers_same core_step_receipts del: core_step.simps)+


end
