(* ===== verification/Gateway_Safety.thy ===== *)
theory Gateway_Safety
  imports Gateway_Runs
begin

text \<open>
  Two more properties of the runs of the gateway core: a command reaches the simulation only if a
  client of an open session was allowed to ask for it, and streams belong to open sessions.
\<close>

section \<open>Only authorized commands reach the simulation\<close>

text \<open>
  The hooks with a submitter that writes down each of its calls beside the state of the environment.
\<close>

type_synonym SubmitCall = "u64 \<times> CommandPayload \<times> CommandMeta"

definition recording_log :: "'e DurableAdmissionLog \<Rightarrow> ('e \<times> SubmitCall list) DurableAdmissionLog" where
  "recording_log wal =
     \<lparr>dl_append = (\<lambda>(e, calls) r. let (t, e) = dl_append wal e r in (t, (e, calls))),
      dl_try_outcome = (\<lambda>(e, calls) t. let (w, e) = dl_try_outcome wal e t in (w, (e, calls)))\<rparr>"

definition recording :: "'e GatewayHooks \<Rightarrow> ('e \<times> SubmitCall list) GatewayHooks" where
  "recording H =
     \<lparr>gh_authenticate = gh_authenticate H, gh_can_observe = gh_can_observe H,
      gh_can_write_property = gh_can_write_property H, gh_can_manage_objects = gh_can_manage_objects H,
      gh_submitter = map_option (\<lambda>submit (e, calls) t p m.
        let (n, e) = submit e t p m in (n, (e, calls @ [(t, p, m)]))) (gh_submitter H),
      gh_frame_encoder = gh_frame_encoder H, gh_receipt_encoder = gh_receipt_encoder H,
      gh_heartbeat_encoder = gh_heartbeat_encoder H,
      gh_durable_log = map_option recording_log (gh_durable_log H)\<rparr>"

lemma recording_simps [simp]:
  "gh_can_write_property (recording H) = gh_can_write_property H"
  "gh_can_manage_objects (recording H) = gh_can_manage_objects H"
  "gh_durable_log (recording H) = map_option recording_log (gh_durable_log H)"
  by (simp_all add: recording_def)

lemma recording_log_keeps [simp]:
  "snd (snd (dl_append (recording_log wal) e r)) = snd e"
  "snd (snd (dl_try_outcome (recording_log wal) e t)) = snd e"
  by (cases e; simp add: recording_log_def split_def Let_def)+

text \<open>What a client must be allowed to do for a command to be carried out.\<close>

definition authorized :: "'e GatewayHooks \<Rightarrow> GatewayCore \<Rightarrow> SessionId \<Rightarrow> Principal \<Rightarrow> u64 \<Rightarrow> CommandPayload \<Rightarrow> bool" where
  "authorized H g i p tick payload \<longleftrightarrow>
     (case payload of
        SetPropertyCommand w key v \<Rightarrow>
          wid_valid w \<and> gh_can_write_property H p w key \<and> own_holds (gw_ownership g) i w key tick
      | CreateObjectCommand obj \<Rightarrow>
          gh_can_manage_objects H p \<and> wid_valid (wo_id obj) \<and>
          of_nat (fm_size (wo_properties obj)) \<le> gc_max_command_parameters (gw_config g)
      | DestroyObjectCommand w \<Rightarrow> gh_can_manage_objects H p \<and> wid_valid w)"

text \<open>The payload is what the command asks for.\<close>

definition asks_for :: "ExternalCommand \<Rightarrow> CommandPayload \<Rightarrow> bool" where
  "asks_for command payload \<longleftrightarrow>
     (case ec_params command of
        SetPropertyParams key v \<Rightarrow> payload = SetPropertyCommand (ec_target_wid command) key v
      | CreateObjectParams i type geometry position properties \<Rightarrow>
          (\<exists>obj. payload = CreateObjectCommand obj \<and> wo_id obj = i \<and> wo_semantic_type obj = type \<and>
             wo_geometry_ref obj = geometry \<and> wo_position obj = position \<and> wo_properties obj = properties)
      | DestroyObjectParams \<Rightarrow> payload = DestroyObjectCommand (ec_target_wid command))"

definition permits :: "'e GatewayHooks \<Rightarrow> GatewayCore \<Rightarrow> SessionId \<Rightarrow> ExternalCommand \<Rightarrow> u64 \<Rightarrow> u64 \<Rightarrow> CommandPayload \<Rightarrow> bool" where
  "permits H g i command tick target payload \<longleftrightarrow>
     (\<exists>info. sm_find (gw_sessions g) i = Some info \<and> ec_session command = i \<and> asks_for command payload \<and>
        authorized H g i (si_principal info) tick payload \<and>
        tick + 1 \<le> target \<and> target \<le> tick + gc_max_command_lead_ticks (gw_config g) \<and>
        (ec_target_tick_hint command \<noteq> 0 \<longrightarrow> target = ec_target_tick_hint command))"

fun requests :: "'e GatewayHooks \<Rightarrow> GatewayCore \<Rightarrow> 'f GwOp \<Rightarrow> u64 \<times> CommandPayload \<Rightarrow> bool" where
  "requests H g (GwSubmit i command tick now) (target, payload) = permits H g i command tick target payload"
| "requests H g (GwSubmitDurable i command tick now) (target, payload) = permits H g i command tick target payload"
| "requests H g _ _ = False"

lemma admission_payload_authorized:
  "admission_payload (recording H) (g\<lparr>gw_sessions := m\<rparr>) i info command tick = Inr payload \<Longrightarrow>
     asks_for command payload \<and> authorized H g i (si_principal info) tick payload"
  by (auto simp: admission_payload_def authorized_def asks_for_def not_less default_object_def
      split: CommandParams.splits if_splits)

lemma check_admission_window:
  "check_command_admission H g i info command tick now = (Inr (target, payload), g') \<Longrightarrow>
     tick + 1 \<le> target \<and> target \<le> tick + gc_max_command_lead_ticks (gw_config g) \<and>
     (ec_target_tick_hint command \<noteq> 0 \<longrightarrow> target = ec_target_tick_hint command) \<and>
     (\<exists>m. admission_payload H (g\<lparr>gw_sessions := m\<rparr>) i info command tick = Inr payload)"
  by (auto simp: check_command_admission_def Let_def not_less split: prod.splits if_splits sum.splits)

lemma admits_permits:
  assumes "admits (recording H) g i command tick now target payload"
  shows "permits H g i command tick target payload"
proof -
  obtain info g' where "sm_find (gw_sessions g) i = Some info" "i = ec_session command"
    and c: "check_command_admission (recording H) g i info command tick now = (Inr (target, payload), g')"
    using assms by (metis admits_def prod.collapse)
  with check_admission_window [OF c] admission_payload_authorized show ?thesis
    unfolding permits_def by blast
qed

text \<open>The commands that have reached the submitter or may still do so.\<close>

definition outstanding :: "GatewayCore \<Rightarrow> 'e \<times> SubmitCall list \<Rightarrow> (u64 \<times> CommandPayload) set" where
  "outstanding g e = (\<lambda>(t, p, m). (t, p)) ` set (snd e) \<union>
     {(pdu_target_tick q, pdu_payload q) |q. \<exists>k. fmlookup (gw_pending_durable g) k = Some q}"

lemma outstanding_frame:
  "durable_part g' = durable_part g \<Longrightarrow> snd e' = snd e \<Longrightarrow> outstanding g' e' = outstanding g e"
  by (simp add: outstanding_def durable_part_def)

lemma recording_submitter:
  assumes "gh_submitter (recording H) = Some submit" "submit e t p m = (n, e')"
  shows "snd e' = snd e @ [(t, p, m)]"
  using assms by (cases e) (auto simp: recording_def split_def Let_def)

lemma submit_command_outstanding:
  assumes "submit_command (recording H) g e i command tick now = (r, g', e')"
  shows "outstanding g' e' \<subseteq> outstanding g e \<union> {tp. requests H g (GwSubmit i command tick now) tp}"
proof (cases "\<exists>info target payload g1 submit. sm_find (gw_sessions g) i = Some info \<and> i = ec_session command \<and>
      sm_find_receipt (gw_sessions g) i (ec_client_sequence command) = None \<and>
      check_command_admission (recording H) g i info command tick now = (Inr (target, payload), g1) \<and>
      gh_submitter (recording H) = Some submit \<and> gw_ingress_sequence g1 \<noteq> - 1")
  case False
  have pending: "gw_pending_durable g' = gw_pending_durable g" using submit_command_counter [of "recording H"] assms by (metis prod.collapse)
  have "e' = e"
    using assms False by (auto simp: submit_command_def Let_def split: option.splits sum.splits prod.splits if_splits)
  with pending show ?thesis by (auto simp: outstanding_def)
next
  case True
  then obtain info target payload g1 submit where
    ok: "sm_find (gw_sessions g) i = Some info" "i = ec_session command"
      "sm_find_receipt (gw_sessions g) i (ec_client_sequence command) = None"
      "check_command_admission (recording H) g i info command tick now = (Inr (target, payload), g1)"
      "gh_submitter (recording H) = Some submit" "gw_ingress_sequence g1 \<noteq> - 1" by blast
  let ?m = "\<lparr>cm_ingress_sequence = gw_ingress_sequence g1 + 1,
      cm_expected_object_version = ec_expected_object_version command, cm_durable_lsn = 0\<rparr>"
  obtain n e1 where sub: "submit e target payload ?m = (n, e1)" by (metis surj_pair)
  have pending: "gw_pending_durable g' = gw_pending_durable g" using submit_command_counter [of "recording H"] assms by (metis prod.collapse)
  have "e' = e1" using assms ok sub by (auto simp: submit_command_def Let_def split: if_splits)
  then have "snd e' = snd e @ [(target, payload, ?m)]" using recording_submitter [OF ok(5) sub] by simp
  moreover have "permits H g i command tick target payload"
    by (rule admits_permits [where now = now]) (use ok in \<open>auto simp: admits_def\<close>)
  ultimately show ?thesis using pending by (auto simp: outstanding_def)
qed

lemma submit_durable_quiet: "snd (snd (snd (submit_durable_command (recording H) g e i command tick now n))) = snd e"
proof -
  have appended: "dl_append (recording_log wal) e r = (t, a, calls) \<Longrightarrow> calls = snd e" for wal r t a calls
    using recording_log_keeps(1) [of wal e r] by simp
  show ?thesis
    by (auto simp: submit_durable_command_def Let_def split: option.split sum.split prod.split dest: appended)
qed

lemma submit_durable_outstanding:
  assumes "submit_durable_command (recording H) g e i command tick now n = (events, g', e')"
  shows "outstanding g' e' \<subseteq> outstanding g e \<union> {tp. requests H g (GwSubmitDurable i command tick now) tp}"
proof -
  have quiet: "snd e' = snd e" using submit_durable_quiet [of H g e i command tick now n] assms by simp
  have "durable_answer (\<lambda>p. admits (recording H) g i command tick now (pdu_target_tick p) (pdu_payload p)) n g
      (events, g', e')"
    using submit_durable_answer [of "recording H" g i command tick now n e] assms by simp
  then have "durable_part g' = durable_part g \<or>
      (\<exists>p. admits (recording H) g i command tick now (pdu_target_tick p) (pdu_payload p) \<and>
        gw_pending_durable g' = (if fm_has (gw_pending_durable g) (gw_ingress_sequence g + 1)
          then gw_pending_durable g else fmupd (gw_ingress_sequence g + 1) p (gw_pending_durable g)))"
    unfolding durable_answer_def split_conv durable_part_def [of g'] prod.inject by blast
  then consider "durable_part g' = durable_part g"
    | p where "admits (recording H) g i command tick now (pdu_target_tick p) (pdu_payload p)"
        "gw_pending_durable g' = (if fm_has (gw_pending_durable g) (gw_ingress_sequence g + 1)
          then gw_pending_durable g else fmupd (gw_ingress_sequence g + 1) p (gw_pending_durable g))"
    by (elim disjE exE conjE)
  then show ?thesis
  proof cases
    case 1
    from outstanding_frame [OF this quiet] show ?thesis by simp
  next
    case (2 p)
    have "requests H g (GwSubmitDurable i command tick now) (pdu_target_tick p, pdu_payload p)"
      using admits_permits [OF 2(1)] by simp
    moreover have "fmlookup (gw_pending_durable g) k = Some q \<or> q = p"
      if "fmlookup (gw_pending_durable g') k = Some q" for k q
    proof (cases "fm_has (gw_pending_durable g) (gw_ingress_sequence g + 1)")
      case True
      with that 2(2) show ?thesis by simp
    next
      case False
      with that 2(2) show ?thesis by (cases "k = gw_ingress_sequence g + 1") simp_all
    qed
    then have "outstanding g' e' \<subseteq> outstanding g e \<union> {(pdu_target_tick p, pdu_payload p)}"
      unfolding outstanding_def quiet by blast
    ultimately show ?thesis by blast
  qed
qed

lemma sweep_tickets_quiet: "snd (snd (sweep_tickets (recording_log wal) e ts)) = snd e"
proof (induction ts arbitrary: e)
  case (Cons t ts)
  obtain w e1 where "dl_try_outcome (recording_log wal) e t = (w, e1)"
    by (metis surj_pair)
  moreover obtain ts' e2 where "sweep_tickets (recording_log wal) e1 ts = (ts', e2)" by (metis surj_pair)
  ultimately show ?case
    using Cons.IH [of e1] recording_log_keeps(2) [of wal e t] by simp
qed simp

lemma finish_durable_outstanding:
  assumes "finish_durable (recording H) (g\<lparr>gw_pending_durable := fmdrop k (gw_pending_durable g)\<rparr>) e p w
      = (event, g', e')" "fmlookup (gw_pending_durable g) k = Some p"
  shows "outstanding g' e' \<subseteq> outstanding g e"
proof -
  have pending: "gw_pending_durable g' = fmdrop k (gw_pending_durable g)"
    using finish_durable_part [OF assms(1)] by (simp add: durable_part_def)
  have logged: "snd e' = snd e \<or> (\<exists>m. snd e' = snd e @ [(pdu_target_tick p, pdu_payload p, m)])"
  proof (cases "gh_submitter (recording H)")
    case None
    with assms(1) show ?thesis
      by (auto simp: finish_durable_def Let_def split: if_splits)
  next
    case (Some submit)
    obtain n e1 where r: "submit e (pdu_target_tick p) (pdu_payload p)
        \<lparr>cm_ingress_sequence = pdu_ingress_sequence p,
         cm_expected_object_version = pdu_expected_object_version p, cm_durable_lsn = dao_lsn w\<rparr> = (n, e1)"
      by (metis surj_pair)
    from Some assms(1) r have "e' = e \<or> e' = e1"
      by (auto simp: finish_durable_def Let_def split: if_splits)
    then show ?thesis using recording_submitter [OF Some r] by blast
  qed
  have old: "(pdu_target_tick p, pdu_payload p) \<in> outstanding g e"
    using assms(2) unfolding outstanding_def by blast
  have "fmlookup (gw_pending_durable g) j = Some q" if "fmlookup (fmdrop k (gw_pending_durable g)) j = Some q" for j q
    using that by (simp split: if_splits)
  then have "outstanding g' e \<subseteq> outstanding g e"
    unfolding outstanding_def pending by blast
  moreover have "outstanding g' e' \<subseteq> outstanding g' e \<union> {(pdu_target_tick p, pdu_payload p)}"
    using logged unfolding outstanding_def by (elim disjE exE; simp) blast+
  ultimately show ?thesis using old by blast
qed

lemma poll_outstanding:
  assumes "poll_durable_tickets (recording H) g e order = (events, g', e')"
  shows "outstanding g' e' \<subseteq> outstanding g e"
proof (cases "gh_durable_log H")
  case None
  with assms show ?thesis by (simp add: poll_durable_tickets_def)
next
  case (Some wal)
  define P where "P ds h e1 \<longleftrightarrow> outstanding h e1 \<subseteq> outstanding g e"
    for ds :: "CompletionEvent list" and h and e1 :: "'a \<times> SubmitCall list"
  obtain ts e1 where ts: "sweep_tickets (recording_log wal) e (gw_durable_outcome_tickets g) = (ts, e1)"
    by (metis surj_pair)
  then have quiet: "snd e1 = snd e" using sweep_tickets_quiet [of wal e "gw_durable_outcome_tickets g"] by simp
  have "poll_pending (recording H) (recording_log wal) (g\<lparr>gw_durable_outcome_tickets := ts\<rparr>) e1 order = (events, g', e')"
    using assms Some ts by (simp add: poll_durable_tickets_def)
  then have "P ([] @ events) g' e'"
  proof (rule poll_pending_invariant [where P = P])
    show "P [] (g\<lparr>gw_durable_outcome_tickets := ts\<rparr>) e1"
      unfolding P_def outstanding_def quiet by simp
  next
    fix ds h e2 t w e3
    assume "P ds h e2" "dl_try_outcome (recording_log wal) e2 t = (w, e3)"
    moreover from this(2) have "snd e3 = snd e2" using recording_log_keeps(2) [of wal e2 t] by simp
    ultimately show "P ds h e3" unfolding P_def outstanding_def by simp
  next
    fix ds h e2 k p w event h' e3
    assume "P ds h e2" and k: "fmlookup (gw_pending_durable h) k = Some p"
      and f: "finish_durable (recording H) (h\<lparr>gw_pending_durable := fmdrop k (gw_pending_durable h)\<rparr>) e2 p w
        = (event, h', e3)"
    with finish_durable_outstanding [OF f k] show "P (ds @ [event]) h' e3" unfolding P_def by blast
  qed
  then show ?thesis by (simp add: P_def)
qed

lemma applied_outstanding:
  "outstanding (fst (on_commands_applied (recording H) g e report)) (snd (on_commands_applied (recording H) g e report))
     = outstanding g e"
proof -
  have appended: "dl_append (recording_log wal) e r = (t, e') \<Longrightarrow> snd e' = snd e" for wal e r t e'
    using recording_log_keeps(1) [of wal e r] by simp
  have quiet: "write_outcome (recording H) g e cmd r = (g', e') \<Longrightarrow> snd e' = snd e" for g e cmd r g' e'
    by (auto simp: write_outcome_def Let_def split: option.splits prod.splits dest: appended)
  have calls: "snd (snd (command_applied (recording H) ge out)) = snd (snd ge)" for ge out
    by (cases ge) (auto simp: command_applied_def Let_def split: option.split prod.split dest: quiet)
  have "snd (snd (on_commands_applied (recording H) g e report)) = snd e"
    unfolding on_commands_applied_def
    using foldl_keeps [of "\<lambda>ge. snd (snd ge)" "command_applied (recording H)"] calls by simp
  moreover have "durable_part (fst (on_commands_applied (recording H) g e report)) = durable_part g"
    by (rule on_commands_applied_durable)
  ultimately show ?thesis by (intro outstanding_frame) simp_all
qed

text \<open>No step makes a command outstanding but the submission that asks for it.\<close>

lemma outstanding_step:
  assumes "\<forall>f. p = GwEnvironment f \<longrightarrow> (\<forall>e. snd (f e) = snd e)"
  shows "outstanding (gr_core (gw_step (recording H) s p)) (gr_env (gw_step (recording H) s p)) \<subseteq>
     outstanding (gr_core s) (gr_env s) \<union> {tp. requests H (gr_core s) p tp}"
proof (cases p)
  case (GwSubmit i command tick now)
  obtain r g' e' where r: "submit_command (recording H) (gr_core s) (gr_env s) i command tick now = (r, g', e')"
    by (metis prod_cases3)
  with submit_command_outstanding [OF r] GwSubmit show ?thesis by (cases r) simp
next
  case (GwSubmitDurable i command tick now)
  obtain events g' e' where r: "submit_durable_command (recording H) (gr_core s) (gr_env s) i command tick now
      (gr_calls s) = (events, g', e')" by (metis prod_cases3)
  with submit_durable_outstanding [OF r] GwSubmitDurable show ?thesis by simp
next
  case (GwPoll order)
  obtain events g' e' where r: "poll_durable_tickets (recording H) (gr_core s) (gr_env s) order = (events, g', e')"
    by (metis prod_cases3)
  with poll_outstanding [OF r] GwPoll show ?thesis by auto
next
  case (GwApplied report)
  with applied_outstanding [of H "gr_core s" "gr_env s" report]
  show ?thesis by (auto simp: split_def Let_def)
next
  case (GwEnvironment f)
  then have "snd (f (gr_env s)) = snd (gr_env s)" using assms by blast
  with GwEnvironment show ?thesis by (simp add: outstanding_def)
qed (simp add: outstanding_frame [OF core_step_durable refl] del: core_step.simps)+

text \<open>
  C8: only authorized commands reach the simulation. Take any run of a fresh gateway core whose
  submitter notes its calls. Behind every call stands an earlier submission of a client: at that
  moment its session was open and the command named this very session, the payload is what the command
  asks for, the principal was allowed to write the property or to manage objects, for a property the
  session held the lease, and the target tick lay in the window (in 64-bit arithmetic) or was the one
  the client named. This holds for the commands that waited for the log as well.
\<close>

theorem admission_authorized:
  assumes "s = foldl (gw_step (recording H))
      (gw_start (gateway_core config engine control_version data_version) (e, [])) ops"
    and "\<forall>f. GwEnvironment f \<in> set ops \<longrightarrow> (\<forall>e. snd (f e) = snd e)"
    and "(target, payload, meta) \<in> set (snd (gr_env s))"
  shows "\<exists>before op after. ops = before @ op # after \<and>
    requests H (gr_core (foldl (gw_step (recording H))
      (gw_start (gateway_core config engine control_version data_version) (e, [])) before)) op (target, payload)"
proof -
  let ?s0 = "gw_start (gateway_core config engine control_version data_version) (e, [])"
  let ?run = "foldl (gw_step (recording H)) ?s0"
  have "\<forall>tp \<in> outstanding (gr_core (?run ops)) (gr_env (?run ops)).
      \<exists>before op after. ops = before @ op # after \<and> requests H (gr_core (?run before)) op tp"
    using assms(2)
  proof (induction ops rule: rev_induct)
    case Nil
    then show ?case by (simp add: outstanding_def gw_start_def gateway_core_def)
  next
    case (snoc p ops)
    show ?case
    proof
      fix tp assume tp: "tp \<in> outstanding (gr_core (?run (ops @ [p]))) (gr_env (?run (ops @ [p])))"
      have "tp \<in> outstanding (gr_core (?run ops)) (gr_env (?run ops)) \<or> requests H (gr_core (?run ops)) p tp"
        using outstanding_step [of p H "?run ops"] snoc.prems tp by auto
      then show "\<exists>before op after. ops @ [p] = before @ op # after \<and> requests H (gr_core (?run before)) op tp"
      proof
        assume "tp \<in> outstanding (gr_core (?run ops)) (gr_env (?run ops))"
        then obtain before op after where "ops = before @ op # after" "requests H (gr_core (?run before)) op tp"
          using snoc.IH snoc.prems by auto
        then show ?thesis by (intro exI [of _ before] exI [of _ op] exI [of _ "after @ [p]"]) simp
      qed blast
    qed
  qed
  moreover have "(target, payload) \<in> outstanding (gr_core s) (gr_env s)"
    using assms(3) unfolding outstanding_def by force
  ultimately show ?thesis unfolding assms(1) by blast
qed

text \<open>A gateway whose only client may manage objects, and a log that writes at once.\<close>

definition example_gateway_config :: GatewayConfig where
  "example_gateway_config =
     \<lparr>gc_max_state_queue_bytes = 1000, gc_max_reliable_queue_bytes = 1000, gc_ack_timeout_seconds = 5,
      gc_heartbeat_interval_seconds = 5, gc_stream_ticket_ttl_seconds = 30,
      gc_command_rate_per_session = 100, gc_command_lead_ticks = 2, gc_max_command_lead_ticks = 10,
      gc_gateway_io_threads = 1, gc_encoding_workers = 1, gc_max_sessions = 4,
      gc_max_command_parameters = 8, gc_max_aoi_extent_meters = f64_one, gc_initial_ingress_sequence = 0\<rparr>"

definition example_log :: "nat DurableAdmissionLog" where
  "example_log =
     \<lparr>dl_append = (\<lambda>n r. (Some n, Suc n)),
      dl_try_outcome = (\<lambda>n t. (Some \<lparr>dao_lsn = of_nat (Suc t), dao_ok = True\<rparr>, n))\<rparr>"

definition example_hooks :: "nat GatewayHooks" where
  "example_hooks =
     \<lparr>gh_authenticate = (\<lambda>c. Some \<lparr>pr_id = c, pr_administrator = True\<rparr>),
      gh_can_observe = (\<lambda>_. True), gh_can_write_property = (\<lambda>_ _ _. True),
      gh_can_manage_objects = pr_administrator,
      gh_submitter = Some (\<lambda>n t p m. (1, n)), gh_frame_encoder = None, gh_receipt_encoder = None,
      gh_heartbeat_encoder = None, gh_durable_log = Some example_log\<rparr>"

definition example_destroy :: ExternalCommand where
  "example_destroy =
     \<lparr>ec_session = SessionId 1, ec_client_sequence = 1, ec_target_wid = WorldId 7,
      ec_params = DestroyObjectParams, ec_expected_object_version = 0, ec_target_tick_hint = 0,
      ec_request_id = None\<rparr>"

definition example_gateway_ops :: "'e GwOp list" where
  "example_gateway_ops =
     [GwOpen ''a'' 1 1 1 1 0 0 0 ''t1'', GwSubmit (SessionId 1) example_destroy 5 0]"

text \<open>The token bucket of a session with 100 commands per second, in which no time has passed.\<close>

lemmas f64_fields = f64_nan_def f64_finite_def f64_exponent_def f64_fraction_def f64_nat_def f64_rat_def
  f64_magnitude_def f64_negative_def f64_make_def

lemma example_floats:
  "i64_to_f64 0 = F64 0" "i64_to_f64 100 = F64 0x4059000000000000"
  "i64_to_f64 1000000000 = F64 0x41CDCD6500000000"
  by (simp_all add: i64_to_f64_def nat_to_f64_def bit_length.simps Let_def)

lemma example_products:
  "f64_div (F64 0) (F64 0x41CDCD6500000000) = F64 0" "f64_mul (F64 0) (F64 0x4059000000000000) = F64 0"
  by (simp_all add: f64_div_def f64_mul_def f64_fields f64_round_def round_bits_def Let_def)

lemma example_sum: "f64_add (F64 0x4059000000000000) (F64 0) = F64 0x4059000000000000"
proof -
  have rats: "f64_rat (F64 0x4059000000000000) = 100" "f64_rat (F64 0) = 0"
    by (simp_all add: f64_fields)
  have "rat_log2 100 = 6" by (simp add: rat_log2_def bit_length.simps Let_def)
  then have "round_bits 100 = 0x4059000000000000"
    by (simp add: round_bits_def f64_infinity_bits_def round_nearest_def Let_def)
  with rats show ?thesis
    by (simp add: f64_add_def f64_nan_def f64_finite_def f64_exponent_def f64_fraction_def f64_nat_def
        f64_round_def f64_negative_def f64_make_def Let_def)
qed

lemma example_tokens:
  "f64_min (F64 0x4059000000000000) (F64 0x4059000000000000) = F64 0x4059000000000000"
  "f64_lt (F64 0x4059000000000000) f64_one = False"
  by (simp_all add: f64_min_def f64_lt_def f64_one_def f64_fields)

lemma example_budget:
  assumes "fmlookup (sm_sessions m) i = Some st" "tb_tokens (ss_bucket st) = F64 0x4059000000000000"
    "tb_last_refill (ss_bucket st) = 0" "smc_command_rate_per_session (sm_config m) = 100"
  shows "fst (sm_consume_command_budget m i 0)"
  using assms by (simp add: sm_consume_command_budget_def rate_f64_def elapsed_seconds_def example_floats
      example_products example_sum example_tokens Let_def)

lemmas example_gateway_defs = gw_start_def gateway_core_def session_manager_def open_session_def sm_open_def
  sm_find_def sid_valid_def sm_issue_ticket_def example_gateway_config_def recording_def
  example_hooks_def rate_f64_def

lemma example_submission:
  "map (\<lambda>(t, p, m). (t, p)) (snd (gr_env (foldl (gw_step (recording example_hooks))
     (gw_start (gateway_core example_gateway_config engine 1 1) (0, [])) example_gateway_ops))) =
     [(7, DestroyObjectCommand (WorldId 7))]"
proof -
  let ?H = "recording example_hooks"
  let ?s0 = "gw_start (gateway_core example_gateway_config engine 1 1) (0 :: nat, [])"
  define s1 where "s1 = gw_step ?H ?s0 (GwOpen ''a'' 1 1 1 1 0 0 0 ''t1'')"
  define m where "m = gw_sessions (gr_core s1)"
  obtain st where st: "fmlookup (sm_sessions m) (SessionId 1) = Some st"
      "ss_bucket st = \<lparr>tb_tokens = F64 0x4059000000000000, tb_last_refill = 0\<rparr>"
      "si_principal (ss_info st) = \<lparr>pr_id = ''a'', pr_administrator = True\<rparr>"
    by (simp add: m_def s1_def example_gateway_defs Let_def example_floats)
  have rest: "sm_config m = \<lparr>smc_ticket_ttl_seconds = 30, smc_command_rate_per_session = 100, smc_max_sessions = 4\<rparr>"
      "sm_receipts m = fmempty" "gw_config (gr_core s1) = example_gateway_config"
      "gw_ingress_sequence (gr_core s1) = 0" "gr_env s1 = (0, [])"
    by (simp_all add: m_def s1_def example_gateway_defs Let_def)
  have budget: "fst (sm_consume_command_budget m (SessionId 1) 0)"
    by (rule example_budget [OF st(1)]) (simp_all add: st rest)
  have "snd (gr_env (gw_step ?H s1 (GwSubmit (SessionId 1) example_destroy 5 0))) =
      [(7, DestroyObjectCommand (WorldId 7), \<lparr>cm_ingress_sequence = 1, cm_expected_object_version = 0,
         cm_durable_lsn = 0\<rparr>)]"
    using budget st rest
    by (simp add: submit_command_def check_command_admission_def admission_payload_def m_def [symmetric]
        sm_find_def sm_find_receipt_def example_destroy_def recording_def example_hooks_def wid_valid_def
        example_gateway_config_def Let_def split_def)
  then show ?thesis by (simp add: example_gateway_ops_def s1_def [symmetric] del: gw_step.simps)
qed

theorem admission_authorized_witness:
  "\<forall>engine. \<exists>before op after. example_gateway_ops = before @ op # after \<and>
     requests example_hooks (gr_core (foldl (gw_step (recording example_hooks))
       (gw_start (gateway_core example_gateway_config engine 1 1) (0, [])) before)) op
       (7, DestroyObjectCommand (WorldId 7))"
proof
  fix engine
  obtain meta where "(7, DestroyObjectCommand (WorldId 7), meta) \<in> set (snd (gr_env (foldl
      (gw_step (recording example_hooks)) (gw_start (gateway_core example_gateway_config engine 1 1) (0, []))
      example_gateway_ops)))"
    using example_submission [of engine] by (auto simp: map_eq_Cons_conv)
  from admission_authorized [OF refl _ this]
  show "\<exists>before op after. example_gateway_ops = before @ op # after \<and>
     requests example_hooks (gr_core (foldl (gw_step (recording example_hooks))
       (gw_start (gateway_core example_gateway_config engine 1 1) (0, [])) before)) op
       (7, DestroyObjectCommand (WorldId 7))"
    by (simp add: example_gateway_ops_def)
qed

end
