(* ===== verification/Gateway_Streams.thy ===== *)
theory Gateway_Streams
  imports Gateway_Runs
begin

text \<open>
  The gateway core and the engine it shares know the same connections, and every one of them belongs
  to an open session, in every run of the core.
\<close>

section \<open>Connections of the core and of the engine\<close>

text \<open>The session of each connection, the connections of the engine, the identity of each session.\<close>

definition owners :: "GatewayCore \<Rightarrow> (ConnectionId, SessionId) fmap" where
  "owners g = fmmap cst_session (gw_connections g)"

definition engine_ids :: "GatewayCore \<Rightarrow> ConnectionId fset" where
  "engine_ids g = fmdom (eg_connections (gw_engine g))"

definition session_ids :: "GatewayCore \<Rightarrow> (SessionId, SessionId) fmap" where
  "session_ids g = fmmap (\<lambda>st. si_id (ss_info st)) (sm_sessions (gw_sessions g))"

lemmas stream_defs = owners_def engine_ids_def session_ids_def

definition stream_inv :: "GatewayCore \<Rightarrow> bool" where
  "stream_inv g \<longleftrightarrow> fmdom (owners g) = engine_ids g \<and>
     (\<forall>c i. fmlookup (owners g) c = Some i \<longrightarrow> fm_has (session_ids g) i) \<and>
     (\<forall>i j. fmlookup (session_ids g) i = Some j \<longrightarrow> j = i)"

definition same_streams :: "GatewayCore \<Rightarrow> GatewayCore \<Rightarrow> bool" where
  "same_streams g g' \<longleftrightarrow> owners g' = owners g \<and> engine_ids g' = engine_ids g \<and> session_ids g' = session_ids g"

lemma same_streams_refl [simp]: "same_streams g g"
  by (simp add: same_streams_def)

lemma same_streams_trans: "same_streams g g1 \<Longrightarrow> same_streams g1 g2 \<Longrightarrow> same_streams g g2"
  by (simp add: same_streams_def)

lemma stream_inv_same: "stream_inv g \<Longrightarrow> same_streams g g' \<Longrightarrow> stream_inv g'"
  by (simp add: stream_inv_def same_streams_def)

lemma same_streams_foldl:
  "(\<And>g x. same_streams (h g) (h (f g x))) \<Longrightarrow> same_streams (h g) (h (foldl f g xs))"
  by (induction xs arbitrary: g) (auto intro: same_streams_trans)

lemma fmmap_upd_same:
  "fmlookup m k = Some y \<Longrightarrow> f x = f y \<Longrightarrow> fmmap f (fmupd k x m) = fmmap f m"
  by (rule fmap_ext) auto

lemma fmdom_upd_same: "fmlookup m k = Some y \<Longrightarrow> fmdom (fmupd k x m) = fmdom m"
  using fmdomI [of m k y] by (simp add: finsert_absorb)

lemma update_state_streams:
  "fmlookup (gw_connections g) c = Some st \<Longrightarrow> cst_session st' = cst_session st \<Longrightarrow>
     same_streams g (update_state c st' g)"
  by (simp add: same_streams_def stream_defs update_state_def fmmap_upd_same)

lemma engine_connections_streams:
  "fmdom (snd (f (eg_connections (gw_engine g)))) = fmdom (eg_connections (gw_engine g)) \<Longrightarrow>
     same_streams g (snd (engine_connections g f))"
  by (simp add: same_streams_def stream_defs engine_connections_def split_def Let_def)

lemma engine_connections_parts [simp]:
  "gw_connections (snd (engine_connections g f)) = gw_connections g"
  by (simp add: engine_connections_def split: prod.split)

lemma connection_ops_dom:
  "fmdom (snd (schedule_keyframe cs c)) = fmdom cs"
  "fmdom (snd (acknowledge cs c n)) = fmdom cs"
  "fmdom (snd (update_subscription cs c s)) = fmdom cs"
  by (auto simp: schedule_keyframe_def acknowledge_def update_subscription_def fmdom_upd_same Let_def
      intro: fmdomI split: option.split prod.split)

section \<open>The engine keeps its connections\<close>

lemma project_world_connections: "eg_connections (project_world libm e w tick) = eg_connections e"
proof -
  have merge: "eg_connections (fst (foldl (merge_object libm v) ec ds)) = eg_connections (fst ec)" for v ec ds
    using foldl_keeps [of "\<lambda>ec. eg_connections (fst ec)" "merge_object libm v"]
    by (auto simp: merge_object_def Let_def split: prod.split)
  have stale: "eg_connections (foldl remove_stale e ws) = eg_connections e" for e ws
    by (rule foldl_keeps) (simp add: remove_stale_def)
  have erase: "eg_connections (fst (erase_stale e w)) = eg_connections e" for e
    by (simp add: erase_stale_def Let_def stale)
  show ?thesis
    unfolding project_world_def Let_def push_history_def split_def
    by (simp add: erase merge refresh_scan_cache_def refresh_world_snapshot_def)
qed

lemma on_projection_connections:
  "on_projection libm e w tick h = Some e' \<Longrightarrow> fmdom (eg_connections e') = fmdom (eg_connections e)"
proof -
  assume r: "on_projection libm e w tick h = Some e'"
  have step: "fmdom (eg_connections e2) = fmdom cs"
    if "foldl (connection_frame w tick) (Some e1) items = Some e2"
      "fmdom (eg_connections e1) = fmdom cs" "set items \<subseteq> set (fm_items cs)" for e1 e2 items cs
    using that
  proof (induction items arbitrary: e1)
    case (Cons x items)
    have none: "foldl (connection_frame w tick) None items = None" for items
      by (induction items) (simp_all add: connection_frame_def split: prod.split)
    obtain i c where x: "x = (i, c)" by fastforce
    obtain e3 where e3: "connection_frame w tick (Some e1) x = Some e3"
      using Cons.prems(1) none by (cases "connection_frame w tick (Some e1) x") simp_all
    have "i |\<in>| fmdom cs" using Cons.prems(3) x by (auto simp: set_fm_items intro: fmdomI)
    moreover obtain c' where "eg_connections e3 = fmupd i c' (eg_connections e1)"
      using e3 x by (auto simp: connection_frame_def Let_def)
    ultimately have "fmdom (eg_connections e3) = fmdom cs"
      using Cons.prems(2) by (simp add: finsert_absorb)
    with Cons e3 show ?case by simp
  qed simp
  from r show ?thesis
    unfolding on_projection_def Let_def
    using step [of "project_world libm e w tick" "fm_items (eg_connections e)" e' "eg_connections e"]
    by (simp add: project_world_connections)
qed

section \<open>Each operation\<close>

lemma remove_engine_ids [simp]:
  "engine_ids (remove_engine_connection g c) = engine_ids g |-| {|c|}"
  "owners (remove_engine_connection g c) = owners g"
  "session_ids (remove_engine_connection g c) = session_ids g"
  "gw_connections (remove_engine_connection g c) = gw_connections g"
  by (auto simp: stream_defs remove_engine_connection_def remove_connection_def)

lemma detach_stream_inv: "stream_inv g \<Longrightarrow> stream_inv (detach_stream g c)"
  by (auto simp: stream_inv_def detach_stream_def stream_defs remove_engine_connection_def
      remove_connection_def split: if_splits)

text \<open>Closing a session leaves the connections of the others.\<close>

lemma close_connections_lookup:
  "fmlookup (gw_connections (close_connections i g cs)) c =
     (if \<exists>st. (c, st) \<in> set cs \<and> cst_session st = i then None else fmlookup (gw_connections g) c)"
  "fmlookup (eg_connections (gw_engine (close_connections i g cs))) c =
     (if \<exists>st. (c, st) \<in> set cs \<and> cst_session st = i then None
      else fmlookup (eg_connections (gw_engine g)) c)"
  by (induction i g cs rule: close_connections.induct)
    (auto simp: remove_engine_connection_def remove_connection_def split: if_splits)

lemma stream_inv_lookup:
  "stream_inv g \<longleftrightarrow>
     (\<forall>c. fmlookup (gw_connections g) c = None \<longleftrightarrow> fmlookup (eg_connections (gw_engine g)) c = None) \<and>
     (\<forall>c st. fmlookup (gw_connections g) c = Some st \<longrightarrow>
        fmlookup (sm_sessions (gw_sessions g)) (cst_session st) \<noteq> None) \<and>
     (\<forall>i st. fmlookup (sm_sessions (gw_sessions g)) i = Some st \<longrightarrow> si_id (ss_info st) = i)"
proof -
  have dom: "fmdom m = fmdom m' \<longleftrightarrow> (\<forall>c. fmlookup m c = None \<longleftrightarrow> fmlookup m' c = None)"
    for m :: "(ConnectionId, 'x) fmap" and m' :: "(ConnectionId, 'y) fmap"
    by (metis fmdom_notD fmdom_notI fset_eqI)
  show ?thesis
    unfolding stream_inv_def stream_defs dom fm_has_def
    by (simp; blast)
qed

lemma close_session_inv: "stream_inv g \<Longrightarrow> stream_inv (snd (close_session g i))"
  unfolding stream_inv_lookup
  by (auto simp: close_session_def sm_close_def close_connections_lookup set_fm_items split: option.split)

lemma on_session_connections_streams:
  assumes "\<And>cs c. fmdom (snd (f cs c)) = fmdom cs"
  shows "same_streams g (on_session_connections f g i)"
  unfolding on_session_connections_def
  by (rule same_streams_foldl [where h = "\<lambda>g. g"]) (simp add: engine_connections_streams assms)

lemma open_session_inv:
  "stream_inv g \<Longrightarrow> stream_inv (snd (open_session H g cred cmin cmax dmin dmax tick now now' token))"
  unfolding stream_inv_lookup
  by (auto simp: open_session_def sm_open_def sm_issue_ticket_def Let_def fm_has_def split: option.splits if_splits)

lemma attach_stream_inv: "stream_inv g \<Longrightarrow> stream_inv (snd (attach_stream g c ticket now))"
  unfolding stream_inv_lookup
  by (auto simp: attach_stream_def sm_redeem_ticket_def sm_find_def add_connection_def engine_connections_def
      connection_state_def Let_def fm_has_def split: option.splits if_splits)

lemma inbound_ack_streams: "same_streams g (snd (inbound_ack g c epoch snapshot))"
proof (cases "fmlookup (gw_connections g) c")
  case (Some st)
  let ?r = "engine_connections g (\<lambda>cs. acknowledge cs c snapshot)"
  have ack: "same_streams g (snd ?r)"
    by (rule engine_connections_streams) (rule connection_ops_dom)
  have keep: "same_streams g (update_state c st' g')" if "same_streams g g'"
      "gw_connections g' = gw_connections g" "cst_session st' = cst_session st" for g' st'
    using same_streams_trans [OF that(1) update_state_streams] that Some by simp
  show ?thesis
    using ack keep [OF ack] keep [of g] Some
    by (auto simp: inbound_ack_def Let_def mark_disconnect_def split_def split: option.split AckResult.split)
qed (simp add: inbound_ack_def)

lemma pump_collect_streams: "same_streams (fst gf) (fst (pump_collect gf c))"
proof -
  obtain g frames where gf: "gf = (g, frames)" by fastforce
  have queued: "same_streams g' (g'\<lparr>gw_engine := e\<rparr>)" if "next_frame (gw_engine g') c = (f, e)" for g' f e
    using that by (auto simp: same_streams_def stream_defs next_frame_def split: option.splits)
  have resync: "same_streams g (update_state c (st\<lparr>cst_state_queue := q\<rparr>)
      (snd (engine_connections g (\<lambda>cs. schedule_keyframe cs c))))"
    if "fmlookup (gw_connections g) c = Some st" for st q
    by (rule same_streams_trans [OF engine_connections_streams update_state_streams])
      (use that in \<open>simp_all add: connection_ops_dom\<close>)
  show ?thesis unfolding gf
    by (auto simp: pump_collect_def Let_def resync split: option.split prod.split
        intro: queued same_streams_trans [OF resync queued])
qed

lemma pump_deliver_streams: "same_streams g (pump_deliver H t a b g slot)"
proof (cases "fmlookup (gw_connections g) (enc_connection slot)")
  case (Some st)
  have "same_streams g (update_state (enc_connection slot) st' (g\<lparr>gw_last_pump_keyframe_count := n\<rparr>))"
    "same_streams g (update_state (enc_connection slot) st' g)"
    if "cst_session st' = cst_session st" for st' n
    using that Some by (simp_all add: same_streams_def stream_defs update_state_def fmmap_upd_same)
  then show ?thesis
    using Some by (auto simp: pump_deliver_def Let_def mark_disconnect_def split: option.split)
qed (simp add: pump_deliver_def)

lemma pump_streams: "pump H g tick = Some g' \<Longrightarrow> same_streams g g'"
proof -
  have collect: "same_streams (fst gf) (fst (foldl pump_collect gf cs))" for gf cs
    by (rule same_streams_foldl [where h = fst]) (rule pump_collect_streams)
  have deliver: "same_streams g (foldl (pump_deliver H t a b) g slots)" for t a b g slots
    by (rule same_streams_foldl [where h = "\<lambda>g. g"]) (rule pump_deliver_streams)
  have frame: "same_streams g (g\<lparr>gw_last_pump_tick := x\<rparr>)" "same_streams g (g\<lparr>gw_last_pump_keyframe_count := y\<rparr>)" for g x y
    by (simp_all add: same_streams_def stream_defs)
  assume "pump H g tick = Some g'"
  then obtain g1 frames t a b slots where
    "foldl pump_collect (g\<lparr>gw_last_pump_tick := tick\<rparr>, []) (fm_keys (gw_connections g)) = (g1, frames)"
    "g' = foldl (pump_deliver H t a b) (g1\<lparr>gw_last_pump_keyframe_count := 0\<rparr>) slots"
    by (auto simp: pump_def Let_def split: if_splits prod.splits)
  then show ?thesis
    using frame(1) [of g tick] collect [of "(g\<lparr>gw_last_pump_tick := tick\<rparr>, [])" "fm_keys (gw_connections g)"]
      frame(2) [of g1 0] deliver [of "g1\<lparr>gw_last_pump_keyframe_count := 0\<rparr>" t a b slots]
    by (auto intro: same_streams_trans)
qed

section \<open>Every run\<close>

lemma same_streams_sessions:
  "gw_connections g' = gw_connections g \<Longrightarrow> gw_engine g' = gw_engine g \<Longrightarrow>
     session_ids g' = session_ids g \<Longrightarrow> same_streams g g'"
  by (simp add: same_streams_def owners_def engine_ids_def)

lemma session_ids_store [simp]:
  "session_ids (g\<lparr>gw_sessions := sm_store_receipt m i r\<rparr>) = session_ids (g\<lparr>gw_sessions := m\<rparr>)"
  by (simp add: session_ids_def sm_store_receipt_def)

lemma admission_streams:
  assumes "check_command_admission H g i info command tick now = (d, g')"
  shows "same_streams g g'"
proof -
  let ?m = "snd (sm_consume_command_budget (gw_sessions g) i now)"
  have "g' = g\<lparr>gw_sessions := ?m\<rparr>"
    using assms by (auto simp: check_command_admission_def Let_def split: prod.splits if_splits)
  moreover have "fmmap (\<lambda>st. si_id (ss_info st)) (sm_sessions ?m) =
      fmmap (\<lambda>st. si_id (ss_info st)) (sm_sessions (gw_sessions g))"
    by (auto simp: sm_consume_command_budget_def Let_def fmmap_upd_same split: option.split)
  ultimately show ?thesis by (simp add: same_streams_def stream_defs)
qed

lemma streams_frame:
  "same_streams g (g\<lparr>gw_pending_commands := x1\<rparr>)" "same_streams g (g\<lparr>gw_ingress_sequence := x2\<rparr>)"
  "same_streams g (g\<lparr>gw_durable_index := x3\<rparr>)" "same_streams g (g\<lparr>gw_pending_durable := x4\<rparr>)"
  "same_streams g (g\<lparr>gw_durable_outcome_tickets := x5\<rparr>)" "same_streams g (g\<lparr>gw_pending_subscriptions := x6\<rparr>)"
  "same_streams g (g\<lparr>gw_ownership := x7\<rparr>)"
  "same_streams g (g\<lparr>gw_sessions := sm_store_receipt (gw_sessions g) i r\<rparr>)"
  by (simp_all add: same_streams_def stream_defs sm_store_receipt_def)

lemma submit_streams:
  "submit_command H g e i command tick now = (r, g', e') \<Longrightarrow> same_streams g g'"
  "submit_durable_command H g e i command tick now n = (ev, g', e') \<Longrightarrow> same_streams g g'"
  by (auto simp: submit_command_def submit_durable_command_def Let_def same_streams_def stream_defs
      sm_store_receipt_def split: option.splits sum.splits prod.splits if_splits dest!: admission_streams)

lemma poll_streams:
  assumes "poll_durable_tickets H g e order = (events, g', e')"
  shows "same_streams g g'"
proof (cases "gh_durable_log H")
  case None
  with assms show ?thesis by (simp add: poll_durable_tickets_def)
next
  case (Some wal)
  obtain ts e1 where "sweep_tickets wal e (gw_durable_outcome_tickets g) = (ts, e1)" by fastforce
  with assms Some have r: "poll_pending H wal (g\<lparr>gw_durable_outcome_tickets := ts\<rparr>) e1 order = (events, g', e')"
    by (simp add: poll_durable_tickets_def)
  define P where "P ds h e \<longleftrightarrow> same_streams g h"
    for ds :: "CompletionEvent list" and h :: GatewayCore and e :: 'a
  from r have "P ([] @ events) g' e'"
  proof (rule poll_pending_invariant [where P = P])
    fix ds h and e :: 'a and k p w event h' e'
    assume "P ds h e"
      and f: "finish_durable H (h\<lparr>gw_pending_durable := fmdrop k (gw_pending_durable h)\<rparr>) e p w = (event, h', e')"
    from f have "same_streams h h'"
      by (auto simp: finish_durable_def same_streams_def stream_defs sm_store_receipt_def Let_def
          split: if_splits prod.splits)
    with \<open>P ds h e\<close> show "P (ds @ [event]) h' e'" unfolding P_def by (rule same_streams_trans)
  qed (simp_all add: P_def streams_frame)
  then show ?thesis by (simp add: P_def)
qed

lemma push_receipt_streams: "same_streams g (push_receipt b g c)"
proof (cases "fmlookup (gw_connections g) c")
  case (Some st)
  then show ?thesis
    by (auto simp: push_receipt_def mark_disconnect_def Let_def split: prod.split intro: update_state_streams)
qed (simp add: push_receipt_def)

lemma applied_streams: "same_streams g (fst (on_commands_applied H g e report))"
proof -
  have pushes: "same_streams g (foldl (push_receipt b) g cs)" for b g cs
    by (rule same_streams_foldl [where h = "\<lambda>g. g"]) (rule push_receipt_streams)
  have wrote: "write_outcome H g e cmd r = (g', e') \<Longrightarrow> same_streams g g'" for g e cmd r g' e'
    by (auto simp: write_outcome_def Let_def same_streams_def stream_defs split: option.splits prod.splits)
  have step: "same_streams (fst ge) (fst (command_applied H ge out))" for ge out
  proof (cases "fmlookup (gw_pending_commands (fst ge)) (co_ingress_sequence out)")
    case (Some cmd)
    obtain g e where ge: "ge = (g, e)" by fastforce
    let ?r = "outcome_receipt cmd out"
    let ?g = "g\<lparr>gw_pending_commands := fmdrop (co_ingress_sequence out) (gw_pending_commands g),
        gw_sessions := sm_store_receipt (gw_sessions g) (pcm_session cmd) ?r\<rparr>"
    obtain g1 e1 where w: "write_outcome H ?g e cmd ?r = (g1, e1)" by fastforce
    have "same_streams g ?g" by (simp add: same_streams_def stream_defs sm_store_receipt_def)
    from same_streams_trans [OF this wrote [OF w]] have "same_streams g g1" .
    with Some w ge pushes show ?thesis
      by (auto simp: command_applied_def Let_def split: option.split intro: same_streams_trans)
  qed (cases ge, simp add: command_applied_def)
  show ?thesis
    unfolding on_commands_applied_def
    using same_streams_foldl [where h = fst and f = "command_applied H" and g = "(g, e)"] step by simp
qed

lemma core_step_streams: "stream_inv g \<Longrightarrow> stream_inv (core_step H g p)"
proof (cases p)
  case (GwSubscribe i s)
  moreover assume "stream_inv g"
  moreover have "same_streams g (on_session_connections (\<lambda>cs c. update_subscription cs c s) g i)"
    by (rule on_session_connections_streams) (rule connection_ops_dom)
  ultimately show ?thesis
    by (auto simp: gateway_update_subscription_def
        intro: stream_inv_same same_streams_trans [OF _ streams_frame(6)])
next
  case (GwKeyframe i)
  moreover assume "stream_inv g"
  moreover have "same_streams g (on_session_connections schedule_keyframe g i)"
    by (rule on_session_connections_streams) (rule connection_ops_dom)
  ultimately show ?thesis by (auto simp: request_keyframe_def intro: stream_inv_same)
next
  case (GwAck c epoch snapshot)
  moreover assume "stream_inv g"
  ultimately show ?thesis using inbound_ack_streams by (auto intro: stream_inv_same)
next
  case (GwKeyframeRequest c)
  moreover assume "stream_inv g"
  moreover have "same_streams g (snd (engine_connections g (\<lambda>cs. schedule_keyframe cs c)))"
    by (rule engine_connections_streams) (rule connection_ops_dom)
  ultimately show ?thesis by (auto simp: inbound_keyframe_request_def intro: stream_inv_same)
next
  case (GwPump tick)
  moreover assume "stream_inv g"
  ultimately show ?thesis by (auto split: option.split intro: stream_inv_same pump_streams)
next
  case (GwProject libm w tick h)
  moreover assume "stream_inv g"
  ultimately show ?thesis
    by (auto simp: stream_inv_def stream_defs split: option.split dest: on_projection_connections)
next
  case (GwOutbound c)
  moreover assume "stream_inv g"
  ultimately show ?thesis
    by (auto simp: next_outbound_def split: option.split prod.split
        intro: stream_inv_same [OF _ update_state_streams])
next
  case (GwIssue i token now)
  moreover assume "stream_inv g"
  ultimately show ?thesis
    by (auto simp: issue_stream_ticket_def sm_issue_ticket_def stream_inv_lookup)
next
  case (GwAcquire i target keys lease tick)
  moreover assume "stream_inv g"
  ultimately show ?thesis
    by (auto simp: acquire_ownership_def split: option.split prod.split intro: stream_inv_same [OF _ streams_frame(7)])
next
  case (GwRelease i target keys)
  moreover assume "stream_inv g"
  ultimately show ?thesis
    by (auto simp: release_ownership_def intro: stream_inv_same [OF _ streams_frame(7)])
next
  case (GwRestore kind lsn payload)
  moreover assume "stream_inv g"
  ultimately show ?thesis
    by (auto simp: restore_durable_record_def Let_def split: prod.split
        intro: stream_inv_same [OF _ streams_frame(3)])
qed (simp_all add: open_session_inv close_session_inv attach_stream_inv detach_stream_inv)

lemma gw_step_streams: "stream_inv (gr_core s) \<Longrightarrow> stream_inv (gr_core (gw_step H s p))"
proof (cases p)
  case (GwApplied report)
  moreover assume "stream_inv (gr_core s)"
  ultimately show ?thesis using applied_streams [of "gr_core s" H "gr_env s" report]
    by (auto split: prod.split intro: stream_inv_same)
qed (auto simp: core_step_streams simp del: core_step.simps split: prod.split
    dest: submit_streams poll_streams intro: stream_inv_same)

lemma stream_inv_facts:
  assumes "stream_inv g"
  shows "fmdom (gw_connections g) = fmdom (eg_connections (gw_engine g))"
    "fmran' (fmmap cst_session (gw_connections g)) \<subseteq> fmdom' (sm_sessions (gw_sessions g))"
proof -
  show "fmdom (gw_connections g) = fmdom (eg_connections (gw_engine g))"
    using assms by (simp add: stream_inv_def stream_defs)
  show "fmran' (fmmap cst_session (gw_connections g)) \<subseteq> fmdom' (sm_sessions (gw_sessions g))"
  proof
    fix i assume "i \<in> fmran' (fmmap cst_session (gw_connections g))"
    then obtain c st where "fmlookup (gw_connections g) c = Some st" "cst_session st = i"
      by (auto simp: fmlookup_ran'_iff)
    with assms show "i \<in> fmdom' (sm_sessions (gw_sessions g))"
      unfolding stream_inv_lookup fmlookup_dom'_iff by auto
  qed
qed

text \<open>
  C10: streams belong to open sessions. In every run of a fresh gateway core on a fresh projection
  engine the core and the engine have exactly the same connections, and the session of every
  connection is open. So closing a session ends all its streams: the core then holds no connection of
  it, has no frame or receipt to send on one, and the engine has stopped projecting for them.
\<close>

theorem streams_of_open_sessions:
  "let g = gr_core (foldl (gw_step H)
         (gw_start (gateway_core config (projection_engine libm projection policy) control_version data_version) e) ops)
   in fmdom (gw_connections g) = fmdom (eg_connections (gw_engine g)) \<and>
      fmran' (fmmap cst_session (gw_connections g)) \<subseteq> fmdom' (sm_sessions (gw_sessions g)) \<and>
      (\<forall>i. session_connections (snd (close_session g i)) i = [])"
proof -
  let ?s = "foldl (gw_step H)
      (gw_start (gateway_core config (projection_engine libm projection policy) control_version data_version) e) ops"
  have "stream_inv (gr_core (gw_start (gateway_core config (projection_engine libm projection policy)
      control_version data_version) e))"
    by (simp add: stream_inv_lookup gw_start_def gateway_core_def projection_engine_def session_manager_def)
  then have "stream_inv (gr_core ?s)"
    by (rule foldl_invariant [where P = "\<lambda>s. stream_inv (gr_core s)"]) (rule gw_step_streams)
  then have inv: "stream_inv (gr_core ?s)" and closed: "stream_inv (snd (close_session (gr_core ?s) i))" for i
    by (simp_all add: close_session_inv)
  have "session_connections (snd (close_session (gr_core ?s) i)) i = []" for i
  proof -
    let ?g = "snd (close_session (gr_core ?s) i)"
    have "fmlookup (sm_sessions (gw_sessions ?g)) i = None"
      by (auto simp: close_session_def sm_find_def sm_close_def split: option.split)
    then have "cst_session st \<noteq> i" if "fmlookup (gw_connections ?g) c = Some st" for c st
      using closed [of i] that unfolding stream_inv_lookup by metis
    then show ?thesis
      by (auto simp: session_connections_def filter_empty_conv set_fm_items)
  qed
  with stream_inv_facts [OF inv] show ?thesis by (simp add: Let_def)
qed

end
