(* ===== verification/State_Machines.thy ===== *)
theory State_Machines
  imports Prelude
begin

text \<open>
  \<^verbatim>\<open>libs/ai/fsm.cpp\<close>, \<^verbatim>\<open>libs/ai/hfsm.cpp\<close>: the flat and the hierarchical state machine. Both choose a
  transition with \<open>std::min_element\<close> under an order that puts the matching transitions first, then
  the higher priority, then the smaller target. The loop of the hierarchical machine climbs from a
  state to its parent; that it ends is a theorem, so it is modelled as a partial function.
\<close>

section \<open>The choice of a transition\<close>

record FsmTransition =
  ft_event :: string
  ft_target :: string
  ft_priority :: i32

datatype TransitionResult = TR_ignored | TR_transitioned

text \<open>\<open>std::min_element\<close>: the first of the smallest elements.\<close>

definition min_element :: "('a \<Rightarrow> 'a \<Rightarrow> bool) \<Rightarrow> 'a list \<Rightarrow> 'a option" where
  "min_element lt xs =
     (case xs of [] \<Rightarrow> None | x # xs \<Rightarrow> Some (foldl (\<lambda>best y. if lt y best then y else best) x xs))"

text \<open>The comparator of both machines; \<open>match\<close> and \<open>body\<close> are what differs.\<close>

definition transition_before :: "('t \<Rightarrow> bool) \<Rightarrow> ('t \<Rightarrow> FsmTransition) \<Rightarrow> 't \<Rightarrow> 't \<Rightarrow> bool" where
  "transition_before match body left right =
     (if match left \<noteq> match right then match left
      else if ft_priority (body left) \<noteq> ft_priority (body right)
      then sint (ft_priority (body left)) > sint (ft_priority (body right))
      else ft_target (body left) < ft_target (body right))"

section \<open>The flat machine\<close>

record FsmState =
  fs_id :: string
  fs_transitions :: "FsmTransition list"

record FiniteStateMachine =
  fsm_states :: "FsmState list"
  fsm_current :: string

definition fsm_empty :: FiniteStateMachine where
  "fsm_empty = \<lparr>fsm_states = [], fsm_current = []\<rparr>"

definition fsm_defined :: "FiniteStateMachine \<Rightarrow> string \<Rightarrow> bool" where
  "fsm_defined m i \<longleftrightarrow> (\<exists>s \<in> set (fsm_states m). fs_id s = i)"

definition fsm_define_state :: "FiniteStateMachine \<Rightarrow> FsmState \<Rightarrow> bool \<times> FiniteStateMachine" where
  "fsm_define_state m s =
     (if fs_id s = [] \<or> fsm_defined m (fs_id s) then (False, m)
      else (True, m\<lparr>fsm_states := fsm_states m @ [s]\<rparr>))"

definition fsm_set_initial :: "FiniteStateMachine \<Rightarrow> string \<Rightarrow> bool \<times> FiniteStateMachine" where
  "fsm_set_initial m i = (if \<not> fsm_defined m i then (False, m) else (True, m\<lparr>fsm_current := i\<rparr>))"

definition fsm_dispatch :: "FiniteStateMachine \<Rightarrow> string \<Rightarrow> TransitionResult \<times> FiniteStateMachine" where
  "fsm_dispatch m event =
     (case find (\<lambda>s. fs_id s = fsm_current m) (fsm_states m) of
        None \<Rightarrow> (TR_ignored, m)
      | Some s \<Rightarrow>
          (case min_element (transition_before (\<lambda>t. ft_event t = event) (\<lambda>t. t)) (fs_transitions s) of
             None \<Rightarrow> (TR_ignored, m)
           | Some t \<Rightarrow>
               if ft_event t \<noteq> event \<or> \<not> fsm_defined m (ft_target t) then (TR_ignored, m)
               else (TR_transitioned, m\<lparr>fsm_current := ft_target t\<rparr>)))"

section \<open>The hierarchical machine\<close>

record HierarchicalState =
  hs_id :: string
  hs_parent :: string

record HierarchicalTransition =
  ht_source :: string
  ht_transition :: FsmTransition

record HierarchicalStateMachine =
  hm_states :: "HierarchicalState list"
  hm_transitions :: "HierarchicalTransition list"
  hm_current :: string

definition hfsm_empty :: HierarchicalStateMachine where
  "hfsm_empty = \<lparr>hm_states = [], hm_transitions = [], hm_current = []\<rparr>"

definition find_state :: "HierarchicalStateMachine \<Rightarrow> string \<Rightarrow> HierarchicalState option" where
  "find_state m i = find (\<lambda>s. hs_id s = i) (hm_states m)"

definition transition_for :: "HierarchicalStateMachine \<Rightarrow> string \<Rightarrow> string \<Rightarrow> HierarchicalTransition option" where
  "transition_for m i event =
     (case min_element (transition_before
              (\<lambda>t. ht_source t = i \<and> ft_event (ht_transition t) = event) ht_transition)
            (hm_transitions m) of
        None \<Rightarrow> None
      | Some t \<Rightarrow> if ht_source t \<noteq> i \<or> ft_event (ht_transition t) \<noteq> event then None else Some t)"

definition hfsm_define_state ::
  "HierarchicalStateMachine \<Rightarrow> HierarchicalState \<Rightarrow> bool \<times> HierarchicalStateMachine" where
  "hfsm_define_state m s =
     (if hs_id s = [] \<or> (\<exists>item \<in> set (hm_states m). hs_id item = hs_id s)
         \<or> (hs_parent s \<noteq> [] \<and> find_state m (hs_parent s) = None)
      then (False, m) else (True, m\<lparr>hm_states := hm_states m @ [s]\<rparr>))"

definition add_transition ::
  "HierarchicalStateMachine \<Rightarrow> HierarchicalTransition \<Rightarrow> bool \<times> HierarchicalStateMachine" where
  "add_transition m t =
     (if ht_source t = [] \<or> ft_event (ht_transition t) = [] \<or> ft_target (ht_transition t) = []
         \<or> find_state m (ht_source t) = None \<or> find_state m (ft_target (ht_transition t)) = None
      then (False, m) else (True, m\<lparr>hm_transitions := hm_transitions m @ [t]\<rparr>))"

definition hfsm_set_initial :: "HierarchicalStateMachine \<Rightarrow> string \<Rightarrow> bool \<times> HierarchicalStateMachine" where
  "hfsm_set_initial m i =
     (if find_state m i = None then (False, m) else (True, m\<lparr>hm_current := i\<rparr>))"

text \<open>The loop of \<open>dispatch\<close>; \<open>None\<close> is a loop that does not end.\<close>

partial_function (option) hfsm_climb ::
  "HierarchicalStateMachine \<Rightarrow> string \<Rightarrow> string \<Rightarrow> HierarchicalTransition option option" where
  "hfsm_climb m event candidate =
     (if candidate = [] then Some None
      else case transition_for m candidate event of
        Some t \<Rightarrow> Some (Some t)
      | None \<Rightarrow> hfsm_climb m event
          (case find_state m candidate of None \<Rightarrow> [] | Some s \<Rightarrow> hs_parent s))"

definition hfsm_dispatch ::
  "HierarchicalStateMachine \<Rightarrow> string \<Rightarrow> (TransitionResult \<times> HierarchicalStateMachine) option" where
  "hfsm_dispatch m event =
     (case hfsm_climb m event (hm_current m) of
        None \<Rightarrow> None
      | Some None \<Rightarrow> Some (TR_ignored, m)
      | Some (Some t) \<Rightarrow> Some (TR_transitioned, m\<lparr>hm_current := ft_target (ht_transition t)\<rparr>))"

section \<open>The chosen transition is the best match\<close>

text \<open>
  The reference: among the matching transitions those of the highest priority, of these the smallest
  target.
\<close>

definition best_match :: "('t \<Rightarrow> bool) \<Rightarrow> ('t \<Rightarrow> FsmTransition) \<Rightarrow> 't set \<Rightarrow> 't \<Rightarrow> bool" where
  "best_match match body ts t \<longleftrightarrow>
     t \<in> ts \<and> match t \<and>
     (\<forall>u \<in> ts. match u \<longrightarrow> sint (ft_priority (body u)) \<le> sint (ft_priority (body t))) \<and>
     (\<forall>u \<in> ts. match u \<longrightarrow> ft_priority (body u) = ft_priority (body t) \<longrightarrow>
        ft_target (body t) \<le> ft_target (body u))"

interpretation transition_order: strict_weak_order "transition_before match body"
  by unfold_locales (auto simp: transition_before_def split: if_splits dest: signed_word_eqI)

context strict_weak_order
begin

lemma min_element_least:
  assumes "min_element lt xs = Some b"
  shows "b \<in> set xs" "\<And>y. y \<in> set xs \<Longrightarrow> \<not> lt y b"
proof -
  have "foldl (\<lambda>best y. if lt y best then y else best) x xs \<in> set (x # xs) \<and>
      (\<forall>y \<in> set (x # xs). \<not> lt y (foldl (\<lambda>best y. if lt y best then y else best) x xs))" for x xs
  proof (induction xs rule: rev_induct)
    case Nil
    then show ?case using lt_asym by auto
  next
    case (snoc z xs)
    let ?m = "foldl (\<lambda>best y. if lt y best then y else best) x xs"
    show ?case
    proof (cases "lt z ?m")
      case True
      have "\<not> lt y z" if "y \<in> set (x # xs)" for y
      proof
        assume "lt y z"
        then show False using snoc that True lt_negtrans [of y ?m z] lt_asym [of z ?m] by auto
      qed
      with True show ?thesis using lt_asym by auto
    next
      case False
      with snoc show ?thesis by auto
    qed
  qed
  with assms show "b \<in> set xs" "\<And>y. y \<in> set xs \<Longrightarrow> \<not> lt y b"
    by (auto simp: min_element_def split: list.splits)
qed

lemma min_element_None: "min_element lt xs = None \<longleftrightarrow> xs = []"
  by (simp add: min_element_def split: list.split)

end

lemma chosen_best:
  assumes "min_element (transition_before match body) ts = Some t"
  shows "if \<exists>u \<in> set ts. match u then best_match match body (set ts) t else \<not> match t"
proof -
  note least = transition_order.min_element_least [OF assms]
  show ?thesis
  proof (cases "\<exists>u \<in> set ts. match u")
    case True
    then obtain u where "u \<in> set ts" "match u" by blast
    then have "match t" using least(2) [of u] by (auto simp: transition_before_def split: if_splits)
    moreover have "sint (ft_priority (body u)) \<le> sint (ft_priority (body t))"
      "ft_priority (body u) = ft_priority (body t) \<Longrightarrow> ft_target (body t) \<le> ft_target (body u)"
      if "u \<in> set ts" "match u" for u
      using least(2) [OF that(1)] that \<open>match t\<close> by (auto simp: transition_before_def split: if_splits)
    ultimately show ?thesis using True least(1) by (auto simp: best_match_def)
  next
    case False
    with least(1) show ?thesis by auto
  qed
qed

text \<open>All best matches have one target.\<close>

lemma best_match_target:
  assumes "best_match match body ts t" "best_match match body ts u"
  shows "ft_target (body t) = ft_target (body u)"
proof -
  have "sint (ft_priority (body t)) = sint (ft_priority (body u))"
    using assms by (auto simp: best_match_def intro: order_antisym)
  then have "ft_priority (body t) = ft_priority (body u)" by (rule signed_word_eqI)
  with assms show ?thesis by (auto simp: best_match_def intro: order_antisym)
qed

section \<open>Runs of the flat machine\<close>

datatype FsmOp = FsmDefine FsmState | FsmInitial string | FsmDispatch string

fun fsm_step :: "FiniteStateMachine \<Rightarrow> FsmOp \<Rightarrow> FiniteStateMachine" where
  "fsm_step m (FsmDefine s) = snd (fsm_define_state m s)"
| "fsm_step m (FsmInitial i) = snd (fsm_set_initial m i)"
| "fsm_step m (FsmDispatch event) = snd (fsm_dispatch m event)"

definition fsm_wf :: "FiniteStateMachine \<Rightarrow> bool" where
  "fsm_wf m \<longleftrightarrow> distinct (map fs_id (fsm_states m)) \<and> [] \<notin> fs_id ` set (fsm_states m) \<and>
     (fsm_current m = [] \<or> fsm_defined m (fsm_current m))"

lemma fsm_wf_step: "fsm_wf m \<Longrightarrow> fsm_wf (fsm_step m p)"
  by (cases p)
    (auto simp: fsm_wf_def fsm_define_state_def fsm_set_initial_def fsm_dispatch_def fsm_defined_def
      split: option.split)

lemma fsm_wf_run: "fsm_wf (foldl fsm_step fsm_empty ops)"
  by (induction ops rule: rev_induct) (simp_all add: fsm_wf_step, simp add: fsm_wf_def fsm_empty_def)

definition best_transitions :: "FsmState \<Rightarrow> string \<Rightarrow> FsmTransition set" where
  "best_transitions s event =
     {t. best_match (\<lambda>t. ft_event t = event) (\<lambda>t. t) (set (fs_transitions s)) t}"

text \<open>
  C36: dispatch of the flat machine. In every machine that its operations can build, the current state
  is unset or defined, and dispatch of an event does this: if no transition of the current state
  matches the event, or the best match (highest priority, then smallest target) leads to a state that
  is not defined, nothing changes; otherwise the machine moves to its target. An undefined best target
  hides lower matches that are defined.
\<close>

theorem fsm_dispatch_best:
  "let m = foldl fsm_step fsm_empty ops in
   (if fsm_current m = [] then True else fsm_defined m (fsm_current m)) \<and>
   (case find (\<lambda>s. fs_id s = fsm_current m) (fsm_states m) of
      None \<Rightarrow> fsm_dispatch m event = (TR_ignored, m)
    | Some s \<Rightarrow>
        if \<exists>t. t \<in> best_transitions s event \<and> fsm_defined m (ft_target t)
        then \<exists>t. t \<in> best_transitions s event \<and> fsm_defined m (ft_target t) \<and>
          fsm_dispatch m event = (TR_transitioned, m\<lparr>fsm_current := ft_target t\<rparr>)
        else fsm_dispatch m event = (TR_ignored, m))"
proof -
  let ?m = "foldl fsm_step fsm_empty ops"
  have dispatch: "if \<exists>t. t \<in> best_transitions s event \<and> fsm_defined m (ft_target t)
        then \<exists>t. t \<in> best_transitions s event \<and> fsm_defined m (ft_target t) \<and>
          fsm_dispatch m event = (TR_transitioned, m\<lparr>fsm_current := ft_target t\<rparr>)
        else fsm_dispatch m event = (TR_ignored, m)"
    if s: "find (\<lambda>s. fs_id s = fsm_current m) (fsm_states m) = Some s" for m s
  proof (cases "min_element (transition_before (\<lambda>t. ft_event t = event) (\<lambda>t. t)) (fs_transitions s)")
    case None
    then have "fs_transitions s = []" by (simp add: transition_order.min_element_None)
    then have "best_transitions s event = {}" by (simp add: best_transitions_def best_match_def)
    with s None show ?thesis by (simp add: fsm_dispatch_def)
  next
    case (Some t)
    show ?thesis
    proof (cases "\<exists>u \<in> set (fs_transitions s). ft_event u = event")
      case True
      then have best: "t \<in> best_transitions s event"
        using chosen_best [OF Some] by (simp add: best_transitions_def)
      then have event: "ft_event t = event" by (simp add: best_transitions_def best_match_def)
      have same: "ft_target u = ft_target t" if "u \<in> best_transitions s event" for u
        using best_match_target [of _ "\<lambda>t. t"] that best unfolding best_transitions_def by blast
      show ?thesis
      proof (cases "fsm_defined m (ft_target t)")
        case True
        with best event s Some show ?thesis by (auto simp: fsm_dispatch_def)
      next
        case False
        with same have "\<not> (\<exists>t. t \<in> best_transitions s event \<and> fsm_defined m (ft_target t))" by metis
        with False s Some show ?thesis by (simp add: fsm_dispatch_def)
      qed
    next
      case False
      then have "ft_event t \<noteq> event" "best_transitions s event = {}"
        using chosen_best [OF Some] by (auto simp: best_transitions_def best_match_def)
      with s Some show ?thesis by (simp add: fsm_dispatch_def)
    qed
  qed
  have "if fsm_current ?m = [] then True else fsm_defined ?m (fsm_current ?m)"
    using fsm_wf_run [of ops] unfolding fsm_wf_def by presburger
  then show ?thesis
  proof (cases "find (\<lambda>s. fs_id s = fsm_current ?m) (fsm_states ?m)")
    case None
    then have "fsm_dispatch ?m event = (TR_ignored, ?m)" by (simp add: fsm_dispatch_def)
    with None \<open>if fsm_current ?m = [] then True else fsm_defined ?m (fsm_current ?m)\<close>
    show ?thesis by (simp add: Let_def)
  next
    case (Some s)
    with \<open>if fsm_current ?m = [] then True else fsm_defined ?m (fsm_current ?m)\<close>
    show ?thesis unfolding Let_def Some option.case by (intro conjI dispatch [OF Some])
  qed
qed

section \<open>The climb ends\<close>

text \<open>A state and its ancestors; \<open>define_state\<close> accepts a parent only if it is defined already.\<close>

fun lineage :: "HierarchicalState list \<Rightarrow> string \<Rightarrow> string list" where
  "lineage [] i = []"
| "lineage (s # earlier) i =
     (if hs_id s = i then i # lineage earlier (hs_parent s) else lineage earlier i)"

text \<open>In order of definition: ids are new and not empty, parents are empty or defined before.\<close>

fun states_ok :: "HierarchicalState list \<Rightarrow> bool" where
  "states_ok [] = True"
| "states_ok (s # earlier) \<longleftrightarrow>
     hs_id s \<noteq> [] \<and> hs_id s \<notin> hs_id ` set earlier \<and>
     (hs_parent s = [] \<or> hs_parent s \<in> hs_id ` set earlier) \<and> states_ok earlier"

definition hfsm_wf :: "HierarchicalStateMachine \<Rightarrow> bool" where
  "hfsm_wf m \<longleftrightarrow> states_ok (rev (hm_states m)) \<and>
     (\<forall>t \<in> set (hm_transitions m). ft_event (ht_transition t) \<noteq> [] \<and>
        ht_source t \<in> hs_id ` set (hm_states m) \<and> ft_target (ht_transition t) \<in> hs_id ` set (hm_states m)) \<and>
     (hm_current m = [] \<or> hm_current m \<in> hs_id ` set (hm_states m))"

lemma find_state_None: "find_state m i = None \<longleftrightarrow> i \<notin> hs_id ` set (hm_states m)"
  by (auto simp: find_state_def find_None_iff)

lemma find_state_Some: "find_state m i = Some s \<Longrightarrow> s \<in> set (hm_states m) \<and> hs_id s = i"
  by (auto simp: find_state_def find_Some_iff in_set_conv_nth)

lemma states_ok_unique:
  "states_ok ss \<Longrightarrow> s \<in> set ss \<Longrightarrow> t \<in> set ss \<Longrightarrow> hs_id s = hs_id t \<Longrightarrow> s = t"
proof (induction ss)
  case (Cons u ss)
  have "hs_id v \<noteq> hs_id u" if "v \<in> set ss" for v
    using Cons.prems(1) imageI [OF that, of hs_id] by auto
  with Cons show ?case by auto
qed simp

text \<open>What the loop finds, from the lineage of the candidate.\<close>

definition first_transition :: "HierarchicalStateMachine \<Rightarrow> string \<Rightarrow> string list \<Rightarrow> HierarchicalTransition option" where
  "first_transition m event is =
     (case find (\<lambda>i. transition_for m i event \<noteq> None) is of None \<Rightarrow> None | Some i \<Rightarrow> transition_for m i event)"

lemma first_transition_simps:
  "first_transition m event [] = None"
  "first_transition m event (i # is) =
     (case transition_for m i event of None \<Rightarrow> first_transition m event is | Some t \<Rightarrow> Some t)"
  by (auto simp: first_transition_def split: option.split)

lemma climb_lineage:
  assumes "states_ok (rev (hm_states m))"
  shows "states_ok ss \<Longrightarrow> set ss \<subseteq> set (hm_states m) \<Longrightarrow> i = [] \<or> i \<in> hs_id ` set ss \<Longrightarrow>
     hfsm_climb m event i = Some (first_transition m event (lineage ss i))"
proof (induction ss arbitrary: i)
  case Nil
  then show ?case by (simp add: hfsm_climb.simps first_transition_simps)
next
  case (Cons s ss)
  show ?case
  proof (cases "i = hs_id s")
    case True
    have "i \<noteq> []" "s \<in> set (hm_states m)" using Cons.prems True by auto
    have "find_state m i = Some s"
    proof (cases "find_state m i")
      case None
      with \<open>s \<in> set (hm_states m)\<close> True show ?thesis by (simp add: find_state_None)
    next
      case (Some s')
      with find_state_Some [OF Some] states_ok_unique [OF assms, of s' s] True \<open>s \<in> set (hm_states m)\<close>
      show ?thesis by simp
    qed
    then have "hfsm_climb m event i = (case transition_for m i event of Some t \<Rightarrow> Some (Some t)
        | None \<Rightarrow> hfsm_climb m event (hs_parent s))"
      using \<open>i \<noteq> []\<close> by (subst hfsm_climb.simps) (simp split: option.split)
    with Cons.IH [of "hs_parent s"] Cons.prems True show ?thesis
      by (auto simp: first_transition_simps split: option.split)
  next
    case False
    with Cons show ?thesis by auto
  qed
qed

datatype HfsmOp =
    HfsmDefine HierarchicalState
  | HfsmTransition HierarchicalTransition
  | HfsmInitial string
  | HfsmDispatch string

text \<open>\<open>None\<close>: a dispatch that does not return.\<close>

fun hfsm_step :: "HierarchicalStateMachine option \<Rightarrow> HfsmOp \<Rightarrow> HierarchicalStateMachine option" where
  "hfsm_step None p = None"
| "hfsm_step (Some m) (HfsmDefine s) = Some (snd (hfsm_define_state m s))"
| "hfsm_step (Some m) (HfsmTransition t) = Some (snd (add_transition m t))"
| "hfsm_step (Some m) (HfsmInitial i) = Some (snd (hfsm_set_initial m i))"
| "hfsm_step (Some m) (HfsmDispatch event) = map_option snd (hfsm_dispatch m event)"

lemma transition_for_in: "transition_for m i event = Some t \<Longrightarrow> t \<in> set (hm_transitions m)"
  by (auto simp: transition_for_def split: option.splits if_splits dest: transition_order.min_element_least(1))

lemma first_transition_in: "first_transition m event is = Some t \<Longrightarrow> t \<in> set (hm_transitions m)"
  by (auto simp: first_transition_def split: option.splits dest: transition_for_in)

lemma dispatch_lineage:
  assumes "hfsm_wf m"
  shows "hfsm_dispatch m event =
     Some (case first_transition m event (lineage (rev (hm_states m)) (hm_current m)) of
        None \<Rightarrow> (TR_ignored, m)
      | Some t \<Rightarrow> (TR_transitioned, m\<lparr>hm_current := ft_target (ht_transition t)\<rparr>))"
  using assms climb_lineage [of m "rev (hm_states m)" "hm_current m" event]
  by (auto simp: hfsm_wf_def hfsm_dispatch_def split: option.split)

lemma hfsm_wf_step:
  assumes "hfsm_wf m"
  shows "\<exists>m'. hfsm_step (Some m) p = Some m' \<and> hfsm_wf m'"
proof (cases p)
  case (HfsmDispatch event)
  with assms dispatch_lineage [OF assms, of event] show ?thesis
    by (auto simp: hfsm_wf_def split: option.split dest!: first_transition_in)
qed (use assms in \<open>auto simp: hfsm_wf_def hfsm_define_state_def add_transition_def hfsm_set_initial_def
      find_state_None\<close>)

lemma hfsm_wf_run: "\<exists>m. foldl hfsm_step (Some hfsm_empty) ops = Some m \<and> hfsm_wf m"
proof (induction ops rule: rev_induct)
  case Nil
  then show ?case by (simp add: hfsm_wf_def hfsm_empty_def)
next
  case (snoc p ops)
  then show ?case using hfsm_wf_step by auto
qed

text \<open>
  C34: dispatch of the hierarchical machine terminates. However a machine is built and used through its
  operations, every dispatch returns: the loop over parents cannot run in a circle, since a parent must
  be defined before its child. It moves to the target of the transition that the nearest of the current
  state and its ancestors has for the event, and is ignored if none of them has one.
\<close>

theorem hfsm_dispatch_terminates:
  "\<exists>m. foldl hfsm_step (Some hfsm_empty) ops = Some m \<and>
     (\<forall>event. hfsm_dispatch m event =
        Some (case find (\<lambda>i. transition_for m i event \<noteq> None) (lineage (rev (hm_states m)) (hm_current m)) of
           None \<Rightarrow> (TR_ignored, m)
         | Some i \<Rightarrow> (TR_transitioned,
             m\<lparr>hm_current := ft_target (ht_transition (the (transition_for m i event)))\<rparr>)))"
proof -
  obtain m where m: "foldl hfsm_step (Some hfsm_empty) ops = Some m" "hfsm_wf m"
    using hfsm_wf_run by blast
  have "hfsm_dispatch m event =
      Some (case find (\<lambda>i. transition_for m i event \<noteq> None) (lineage (rev (hm_states m)) (hm_current m)) of
         None \<Rightarrow> (TR_ignored, m)
       | Some i \<Rightarrow> (TR_transitioned, m\<lparr>hm_current := ft_target (ht_transition (the (transition_for m i event)))\<rparr>))"
    for event
  proof (cases "find (\<lambda>i. transition_for m i event \<noteq> None) (lineage (rev (hm_states m)) (hm_current m))")
    case None
    then show ?thesis by (simp add: dispatch_lineage [OF m(2)] first_transition_def)
  next
    case (Some i)
    then have "transition_for m i event \<noteq> None" by (auto simp: find_Some_iff)
    with Some show ?thesis by (auto simp: dispatch_lineage [OF m(2)] first_transition_def)
  qed
  with m(1) show ?thesis by blast
qed

text \<open>
  C35: a hierarchical machine stays well-typed. Whatever operations run on it, ids are unique and not
  empty, every parent is unset or a state defined earlier, every transition has an event and links two
  defined states, and the current state is unset or defined.
\<close>

theorem hfsm_well_typed:
  "\<exists>m. foldl hfsm_step (Some hfsm_empty) ops = Some m \<and>
     distinct (map hs_id (hm_states m)) \<and>
     hs_parent ` set (hm_states m) \<subseteq> insert [] (hs_id ` set (hm_states m)) \<and>
     (\<lambda>t. ht_source t) ` set (hm_transitions m) \<union> (\<lambda>t. ft_target (ht_transition t)) ` set (hm_transitions m)
       \<subseteq> hs_id ` set (hm_states m) \<and>
     [] \<notin> hs_id ` set (hm_states m) \<union> (\<lambda>t. ft_event (ht_transition t)) ` set (hm_transitions m) \<and>
     hm_current m \<in> insert [] (hs_id ` set (hm_states m))"
proof -
  obtain m where m: "foldl hfsm_step (Some hfsm_empty) ops = Some m" "hfsm_wf m"
    using hfsm_wf_run by blast
  have "states_ok ss \<Longrightarrow> distinct (map hs_id ss) \<and> [] \<notin> hs_id ` set ss \<and>
      hs_parent ` set ss \<subseteq> insert [] (hs_id ` set ss)" for ss
    by (induction ss) auto
  from this [of "rev (hm_states m)"] m show ?thesis
    by (intro exI [of _ m]) (auto simp: hfsm_wf_def rev_map [symmetric])
qed

end
