(* ===== verification/Decision.thy ===== *)
theory Decision
  imports Simulation World_Refinement Debug
begin

text \<open>
  \<^verbatim>\<open>libs/ai/decision.cpp\<close>, \<^verbatim>\<open>libs/ai/task_scheduler.cpp\<close>: the read-only snapshot an AI decides on, the
  buffer of its intents, which reach the world as commands, and the scheduler of AI tasks.
\<close>

section \<open>The snapshot of a decision\<close>

record DecisionSnapshot =
  ds_tick :: u64
  ds_objects :: "WorldObject list"

definition ds_capture :: "World \<Rightarrow> u64 \<Rightarrow> DecisionSnapshot" where
  "ds_capture w tick = \<lparr>ds_tick = tick, ds_objects = world_snapshot w\<rparr>"

text \<open>\<open>std::lower_bound\<close> on a sorted sequence, by its specification.\<close>

definition ds_find :: "DecisionSnapshot \<Rightarrow> WorldId \<Rightarrow> WorldObject option" where
  "ds_find s i =
     (case dropWhile (\<lambda>obj. wo_id obj < i) (ds_objects s) of
        [] \<Rightarrow> None
      | obj # _ \<Rightarrow> if wo_id obj \<noteq> i then None else Some obj)"

section \<open>The buffer of intents\<close>

record SetPropertyIntent =
  spi_target :: WorldId
  spi_key :: string
  spi_value :: Value

record IntentFlushReport =
  ifr_enqueued :: nat
  ifr_deferred :: nat

record PendingIntent =
  pin_sequence :: u64
  pin_target_tick :: u64
  pin_intent :: SetPropertyIntent

record DecisionIntentSnapshot =
  dis_next_sequence :: u64
  dis_pending :: "PendingIntent list"

record DecisionIntentBuffer =
  ib_next_sequence :: u64
  ib_pending :: "PendingIntent list"

definition intent_buffer :: DecisionIntentBuffer where
  "intent_buffer = \<lparr>ib_next_sequence = 1, ib_pending = []\<rparr>"

definition ib_submit :: "DecisionIntentBuffer \<Rightarrow> u64 \<Rightarrow> SetPropertyIntent \<Rightarrow> bool \<times> DecisionIntentBuffer" where
  "ib_submit b target_tick intent =
     (if \<not> wid_valid (spi_target intent) \<or> spi_key intent = [] then (False, b)
      else (True,
        \<lparr>ib_next_sequence = ib_next_sequence b + 1,
         ib_pending = ib_pending b @ [\<lparr>pin_sequence = ib_next_sequence b, pin_target_tick = target_tick,
           pin_intent = intent\<rparr>]\<rparr>))"

text \<open>The loop of \<open>flush\<close>; the answer of \<open>enqueue\<close> is not looked at.\<close>

fun flush_loop ::
  "u64 \<Rightarrow> CommandBuffer \<Rightarrow> nat \<Rightarrow> PendingIntent list \<Rightarrow> PendingIntent list \<Rightarrow>
     nat \<times> PendingIntent list \<times> CommandBuffer" where
  "flush_loop tick commands enqueued deferred [] = (enqueued, deferred, commands)"
| "flush_loop tick commands enqueued deferred (p # ps) =
     (if pin_target_tick p > tick then flush_loop tick commands enqueued (deferred @ [p]) ps
      else flush_loop tick
        (snd (enqueue_plain commands (pin_target_tick p)
          (SetPropertyCommand (spi_target (pin_intent p)) (spi_key (pin_intent p)) (spi_value (pin_intent p)))))
        (enqueued + 1) deferred ps)"

definition ib_flush ::
  "DecisionIntentBuffer \<Rightarrow> u64 \<Rightarrow> CommandBuffer \<Rightarrow> IntentFlushReport \<times> DecisionIntentBuffer \<times> CommandBuffer" where
  "ib_flush b tick commands =
     (let (enqueued, deferred, commands) =
        flush_loop tick commands 0 [] (stable_sort (lt_key pin_sequence) (ib_pending b))
      in (\<lparr>ifr_enqueued = enqueued, ifr_deferred = length deferred\<rparr>, b\<lparr>ib_pending := deferred\<rparr>, commands))"

definition ib_size :: "DecisionIntentBuffer \<Rightarrow> nat" where
  "ib_size b = length (ib_pending b)"

definition ib_snapshot :: "DecisionIntentBuffer \<Rightarrow> DecisionIntentSnapshot" where
  "ib_snapshot b = \<lparr>dis_next_sequence = ib_next_sequence b, dis_pending = ib_pending b\<rparr>"

fun intents_restorable :: "u64 \<Rightarrow> u64 \<Rightarrow> PendingIntent list \<Rightarrow> bool" where
  "intents_restorable next_sequence previous [] = True"
| "intents_restorable next_sequence previous (p # ps) =
     (if pin_sequence p = 0 \<or> pin_sequence p \<ge> next_sequence \<or> pin_sequence p = previous
         \<or> \<not> wid_valid (spi_target (pin_intent p)) \<or> spi_key (pin_intent p) = []
      then False else intents_restorable next_sequence (pin_sequence p) ps)"

definition ib_restore :: "DecisionIntentBuffer \<Rightarrow> DecisionIntentSnapshot \<Rightarrow> bool \<times> DecisionIntentBuffer" where
  "ib_restore b s =
     (if dis_next_sequence s = 0 then (False, b)
      else let pending = stable_sort (lt_key pin_sequence) (dis_pending s) in
        if intents_restorable (dis_next_sequence s) 0 pending then
          (True, \<lparr>ib_next_sequence = dis_next_sequence s, ib_pending = pending\<rparr>)
        else (False, b))"

section \<open>The task scheduler\<close>

text \<open>
  A task names its function by a number, \<open>None\<close> for an empty \<open>std::function\<close>; what the functions do
  to the scheduler and to their own environment is the argument of \<open>run_budget\<close>.
\<close>

record AiTask =
  at_owner :: WorldId
  at_priority :: i32
  at_execute :: "nat option"

record QueuedTask =
  qt_sequence :: u64
  qt_task :: AiTask

record AiTaskScheduler =
  ts_next_sequence :: u64
  ts_pending :: "QueuedTask list"

definition task_scheduler :: AiTaskScheduler where
  "task_scheduler = \<lparr>ts_next_sequence = 1, ts_pending = []\<rparr>"

definition task_submit :: "AiTaskScheduler \<Rightarrow> AiTask \<Rightarrow> u64 \<times> AiTaskScheduler" where
  "task_submit s task =
     (if at_execute task = None then (0, s)
      else (ts_next_sequence s,
        \<lparr>ts_next_sequence = ts_next_sequence s + 1,
         ts_pending = ts_pending s @ [\<lparr>qt_sequence = ts_next_sequence s, qt_task = task\<rparr>]\<rparr>))"

definition task_before :: "QueuedTask \<Rightarrow> QueuedTask \<Rightarrow> bool" where
  "task_before left right =
     (if at_priority (qt_task left) \<noteq> at_priority (qt_task right)
      then sint (at_priority (qt_task left)) > sint (at_priority (qt_task right))
      else if at_owner (qt_task left) \<noteq> at_owner (qt_task right)
      then at_owner (qt_task left) < at_owner (qt_task right)
      else qt_sequence left < qt_sequence right)"

fun run_tasks ::
  "(nat \<Rightarrow> AiTaskScheduler \<times> 'e \<Rightarrow> AiTaskScheduler \<times> 'e) \<Rightarrow> AiTaskScheduler \<times> 'e \<Rightarrow> QueuedTask list \<Rightarrow>
     AiTaskScheduler \<times> 'e" where
  "run_tasks exec s [] = s"
| "run_tasks exec s (t # ts) = run_tasks exec (exec (the (at_execute (qt_task t))) s) ts"

text \<open>The report counts the tasks pending after the run, those the tasks submitted included.\<close>

definition run_budget ::
  "(nat \<Rightarrow> AiTaskScheduler \<times> 'e \<Rightarrow> AiTaskScheduler \<times> 'e) \<Rightarrow> AiTaskScheduler \<Rightarrow> 'e \<Rightarrow> nat \<Rightarrow>
     (nat \<times> nat) \<times> AiTaskScheduler \<times> 'e" where
  "run_budget exec s e max_tasks =
     (let pending = stable_sort task_before (ts_pending s);
          count = min max_tasks (length pending);
          ready = take count pending;
          (s, e) = run_tasks exec (s\<lparr>ts_pending := drop count pending\<rparr>, e) ready
      in ((count, length (ts_pending s)), s, e))"

section \<open>A snapshot reads like the world\<close>

lemma lower_bound_keys:
  "sorted_wrt (<) ks \<Longrightarrow> \<forall>k \<in> set ks. wo_id (g k) = k \<Longrightarrow>
     (case dropWhile (\<lambda>obj. wo_id obj < i) (map g ks) of
        [] \<Rightarrow> None | obj # _ \<Rightarrow> if wo_id obj \<noteq> i then None else Some obj) =
     (if i \<in> set ks then Some (g i) else None)"
  by (induction ks) (auto simp: not_less)

lemma snapshot_keys:
  assumes "world_wf w"
  shows "\<forall>k \<in> set (fm_keys (objects w)). wo_id (the (world_find w k)) = k"
    "i \<in> set (fm_keys (objects w)) \<longleftrightarrow> world_find w i \<noteq> None"
  using world_wfD(3) [OF assms]
  by (auto simp: world_find_def find_entry_def fmlookup_dom_iff)

text \<open>
  An AI decides on what the world holds. Looking an id up in the sorted snapshot of a well-formed
  world by binary search gives exactly the object, or nothing, that the world itself gives.
\<close>

lemma decision_snapshot_reads_world:
  assumes "world_wf w"
  shows "ds_find (ds_capture w tick) i = world_find w i"
proof -
  have "ds_find (ds_capture w tick) i =
      (if i \<in> set (fm_keys (objects w)) then Some (the (world_find w i)) else None)"
    unfolding ds_find_def ds_capture_def DecisionSnapshot.select_convs world_snapshot_eq [OF assms]
    using lower_bound_keys [OF _ snapshot_keys(1) [OF assms], of i]
    by (simp add: strict_sorted_iff)
  also have "\<dots> = world_find w i"
    using snapshot_keys(2) [OF assms, of i] by auto
  finally show ?thesis .
qed

section \<open>The order of flushed intents\<close>

definition intent_command :: "PendingIntent \<Rightarrow> CommandPayload" where
  "intent_command p =
     SetPropertyCommand (spi_target (pin_intent p)) (spi_key (pin_intent p)) (spi_value (pin_intent p))"

lemma flush_loop_eq:
  "flush_loop tick commands enqueued deferred ps =
     (enqueued + length (filter (\<lambda>p. \<not> pin_target_tick p > tick) ps),
      deferred @ filter (\<lambda>p. pin_target_tick p > tick) ps,
      foldl (\<lambda>b p. snd (enqueue_plain b (pin_target_tick p) (intent_command p))) commands
        (filter (\<lambda>p. \<not> pin_target_tick p > tick) ps))"
  by (induction ps arbitrary: commands enqueued deferred) (auto simp: intent_command_def)

lemma ib_flush_eq:
  "ib_flush b tick commands =
     (let ps = stable_sort (lt_key pin_sequence) (ib_pending b);
          due = filter (\<lambda>p. \<not> pin_target_tick p > tick) ps;
          later = filter (\<lambda>p. pin_target_tick p > tick) ps
      in (\<lparr>ifr_enqueued = length due, ifr_deferred = length later\<rparr>, b\<lparr>ib_pending := later\<rparr>,
          foldl (\<lambda>b p. snd (enqueue_plain b (pin_target_tick p) (intent_command p))) commands due))"
  by (simp add: ib_flush_def flush_loop_eq Let_def)

end
