(* ===== verification/World_Runtime.thy ===== *)
theory World_Runtime
  imports Decision
begin

text \<open>
  \<^verbatim>\<open>runtime/world_runtime/world_runtime.cpp\<close>: one tick of the world, from the command buffer through the
  callbacks of the tracks, the AI and the observers to the clock. Callbacks are functions on what the
  code hands them and on an environment of their own, of type \<open>'e\<close>; the spatial query is of type \<open>'q\<close>
  and only passed on. The measured durations are an argument of the step. The callbacks are taken not
  to change the registrations of the runtime while it steps. \<^verbatim>\<open>libs/observability/metrics.cpp\<close> and the
  bounded log buffer are here as well.
\<close>

section \<open>Metrics and the log buffer\<close>

record TickMetrics =
  tm_tick :: u64
  tm_total_microseconds :: u64
  tm_track_a_microseconds :: u64
  tm_track_b_microseconds :: u64
  tm_track_c_microseconds :: u64
  tm_commands_applied :: nat
  tm_commands_rejected :: nat
  tm_events_processed :: nat
  tm_overloaded :: bool

record 'e MetricsRecorder =
  mr_latest :: "TickMetrics option"
  mr_overload_count :: u64
  mr_sink :: "('e \<Rightarrow> TickMetrics \<Rightarrow> 'e) option"

definition metrics_recorder :: "'e MetricsRecorder" where
  "metrics_recorder = \<lparr>mr_latest = None, mr_overload_count = 0, mr_sink = None\<rparr>"

definition set_sink :: "'e MetricsRecorder \<Rightarrow> ('e \<Rightarrow> TickMetrics \<Rightarrow> 'e) option \<Rightarrow> 'e MetricsRecorder" where
  "set_sink r sink = r\<lparr>mr_sink := sink\<rparr>"

definition metrics_record :: "'e MetricsRecorder \<Rightarrow> 'e \<Rightarrow> TickMetrics \<Rightarrow> 'e MetricsRecorder \<times> 'e" where
  "metrics_record r e m =
     (r\<lparr>mr_overload_count := mr_overload_count r + (if tm_overloaded m then 1 else 0), mr_latest := Some m\<rparr>,
      case mr_sink r of None \<Rightarrow> e | Some sink \<Rightarrow> sink e m)"

datatype LogLevel = LL_trace | LL_debug | LL_info | LL_warning | LL_error | LL_critical

record LogContext =
  lc_tick :: "u64 option"
  lc_world_id :: "WorldId option"

record LogRecord =
  lr_level :: LogLevel
  lr_category :: string
  lr_message :: string
  lr_context :: LogContext

record BoundedLogBuffer =
  lb_capacity :: nat
  lb_records :: "LogRecord list"
  lb_dropped :: u64

definition log_buffer :: "nat \<Rightarrow> BoundedLogBuffer" where
  "log_buffer capacity = \<lparr>lb_capacity = capacity, lb_records = [], lb_dropped = 0\<rparr>"

definition lb_push :: "BoundedLogBuffer \<Rightarrow> LogRecord \<Rightarrow> bool \<times> BoundedLogBuffer" where
  "lb_push b r =
     (if length (lb_records b) \<ge> lb_capacity b then (False, b\<lparr>lb_dropped := lb_dropped b + 1\<rparr>)
      else (True, b\<lparr>lb_records := lb_records b @ [r]\<rparr>))"

definition lb_drain :: "BoundedLogBuffer \<Rightarrow> LogRecord list \<times> BoundedLogBuffer" where
  "lb_drain b = (lb_records b, b\<lparr>lb_records := []\<rparr>)"

definition lb_size :: "BoundedLogBuffer \<Rightarrow> nat" where
  "lb_size b = length (lb_records b)"

section \<open>The runtime\<close>

record StepResult =
  sr_tick :: u64
  sr_commands :: ApplyReport
  sr_state_hash :: u64

datatype TickPhase = TP_input | TP_track_a | TP_track_b | TP_track_c | TP_projection

type_synonym 'e PhaseCallback = "'e \<Rightarrow> World \<Rightarrow> CommandBuffer \<Rightarrow> u64 \<Rightarrow> 'e \<times> World \<times> CommandBuffer"
type_synonym 'e AiDecisionCallback = "'e \<Rightarrow> DecisionSnapshot \<Rightarrow> DecisionIntentBuffer \<Rightarrow> 'e \<times> DecisionIntentBuffer"
type_synonym ('e, 'q) ProjectionObserver = "'e \<Rightarrow> World \<Rightarrow> u64 \<Rightarrow> u64 \<Rightarrow> 'q option \<Rightarrow> 'e"
type_synonym 'e CheckpointAnchorCallback = "'e \<Rightarrow> u64 \<Rightarrow> u64 \<Rightarrow> 'e"

record ('e, 'q) WorldRuntime =
  rt_world :: World
  rt_commands :: CommandBuffer
  rt_clock :: TickClock
  rt_metrics :: "'e MetricsRecorder"
  rt_callbacks :: "TickPhase \<Rightarrow> 'e PhaseCallback list"
  rt_ai_callbacks :: "'e AiDecisionCallback list"
  rt_projection_observers :: "('e, 'q) ProjectionObserver list"
  rt_checkpoint_anchor_callbacks :: "'e CheckpointAnchorCallback list"
  rt_spatial_query :: "'q option"
  rt_ai_intents :: DecisionIntentBuffer

text \<open>A default-constructed \<open>TickClock\<close> has ticks of 20 ms.\<close>

definition world_runtime :: "('e, 'q) WorldRuntime" where
  "world_runtime =
     \<lparr>rt_world = empty_world, rt_commands = command_buffer kFirstCommandSequence, rt_clock = tick_clock 20000,
      rt_metrics = metrics_recorder, rt_callbacks = (\<lambda>_. []), rt_ai_callbacks = [],
      rt_projection_observers = [], rt_checkpoint_anchor_callbacks = [], rt_spatial_query = None,
      rt_ai_intents = intent_buffer\<rparr>"

definition rt_submit ::
  "('e, 'q) WorldRuntime \<Rightarrow> u64 \<Rightarrow> CommandPayload \<Rightarrow> CommandMeta \<Rightarrow> u64 \<times> ('e, 'q) WorldRuntime" where
  "rt_submit rt target_tick payload meta =
     (let (n, b) = enqueue (rt_commands rt) target_tick payload meta in (n, rt\<lparr>rt_commands := b\<rparr>))"

definition rt_submit_plain ::
  "('e, 'q) WorldRuntime \<Rightarrow> u64 \<Rightarrow> CommandPayload \<Rightarrow> u64 \<times> ('e, 'q) WorldRuntime" where
  "rt_submit_plain rt target_tick payload =
     (let (n, b) = enqueue_plain (rt_commands rt) target_tick payload in (n, rt\<lparr>rt_commands := b\<rparr>))"

definition add_phase_callback ::
  "('e, 'q) WorldRuntime \<Rightarrow> TickPhase \<Rightarrow> 'e PhaseCallback option \<Rightarrow> ('e, 'q) WorldRuntime" where
  "add_phase_callback rt phase callback =
     (case callback of None \<Rightarrow> rt
      | Some f \<Rightarrow> rt\<lparr>rt_callbacks := (rt_callbacks rt)(phase := rt_callbacks rt phase @ [f])\<rparr>)"

definition add_ai_decision_callback ::
  "('e, 'q) WorldRuntime \<Rightarrow> 'e AiDecisionCallback option \<Rightarrow> ('e, 'q) WorldRuntime" where
  "add_ai_decision_callback rt callback =
     (case callback of None \<Rightarrow> rt | Some f \<Rightarrow> rt\<lparr>rt_ai_callbacks := rt_ai_callbacks rt @ [f]\<rparr>)"

definition add_projection_observer ::
  "('e, 'q) WorldRuntime \<Rightarrow> ('e, 'q) ProjectionObserver option \<Rightarrow> ('e, 'q) WorldRuntime" where
  "add_projection_observer rt observer =
     (case observer of None \<Rightarrow> rt
      | Some f \<Rightarrow> rt\<lparr>rt_projection_observers := rt_projection_observers rt @ [f]\<rparr>)"

definition add_checkpoint_anchor_callback ::
  "('e, 'q) WorldRuntime \<Rightarrow> 'e CheckpointAnchorCallback option \<Rightarrow> ('e, 'q) WorldRuntime" where
  "add_checkpoint_anchor_callback rt callback =
     (case callback of None \<Rightarrow> rt
      | Some f \<Rightarrow> rt\<lparr>rt_checkpoint_anchor_callbacks := rt_checkpoint_anchor_callbacks rt @ [f]\<rparr>)"

definition authoritative_state_modules :: "string list" where
  "authoritative_state_modules =
     [''world'', ''clock'', ''command_buffer'', ''event_bus'', ''ai_intents'', ''random_streams'',
      ''artifacts'', ''ecs_active_set'']"

definition set_spatial_query :: "('e, 'q) WorldRuntime \<Rightarrow> 'q option \<Rightarrow> ('e, 'q) WorldRuntime" where
  "set_spatial_query rt query = rt\<lparr>rt_spatial_query := query\<rparr>"

fun run_phase ::
  "u64 \<Rightarrow> 'e PhaseCallback list \<Rightarrow> 'e \<times> World \<times> CommandBuffer \<Rightarrow> 'e \<times> World \<times> CommandBuffer" where
  "run_phase tick [] s = s"
| "run_phase tick (f # fs) (e, w, b) = run_phase tick fs (f e w b tick)"

fun run_ai ::
  "DecisionSnapshot \<Rightarrow> 'e AiDecisionCallback list \<Rightarrow> 'e \<times> DecisionIntentBuffer \<Rightarrow> 'e \<times> DecisionIntentBuffer" where
  "run_ai snapshot [] s = s"
| "run_ai snapshot (f # fs) (e, intents) = run_ai snapshot fs (f e snapshot intents)"

text \<open>The part of track B that lets the AI decide.\<close>

definition ai_phase ::
  "('e, 'q) WorldRuntime \<Rightarrow> u64 \<Rightarrow> 'e \<times> World \<times> CommandBuffer \<Rightarrow> 'e \<times> DecisionIntentBuffer \<times> CommandBuffer" where
  "ai_phase rt tick = (\<lambda>(e, w, b).
     if rt_ai_callbacks rt \<noteq> [] then
       let (e, intents) = run_ai (ds_capture w tick) (rt_ai_callbacks rt) (e, rt_ai_intents rt);
           (_, intents, b) = ib_flush intents tick b
       in (e, intents, b)
     else (e, rt_ai_intents rt, b))"

text \<open>The measured microseconds of the input phase and of the three tracks.\<close>

record PhaseTimes =
  pt_input :: i64
  pt_track_a :: i64
  pt_track_b :: i64
  pt_track_c :: i64

definition step_metrics :: "u64 \<Rightarrow> PhaseTimes \<Rightarrow> ApplyReport \<Rightarrow> TickMetrics" where
  "step_metrics tick micros report =
     \<lparr>tm_tick = tick,
      tm_total_microseconds = ucast (pt_input micros + pt_track_a micros + pt_track_b micros + pt_track_c micros),
      tm_track_a_microseconds = ucast (pt_track_a micros),
      tm_track_b_microseconds = ucast (pt_track_b micros),
      tm_track_c_microseconds = ucast (pt_track_c micros),
      tm_commands_applied = ar_applied report, tm_commands_rejected = ar_rejected report,
      tm_events_processed = 0, tm_overloaded = False\<rparr>"

definition rt_step ::
  "('e, 'q) WorldRuntime \<Rightarrow> 'e \<Rightarrow> PhaseTimes \<Rightarrow> StepResult \<times> ('e, 'q) WorldRuntime \<times> 'e" where
  "rt_step rt e micros =
     (let tick = ucast (clock_tick (rt_clock rt));
          (report, b, w) = apply_commands (rt_commands rt) (rt_world rt) tick;
          (e, w, b) = run_phase tick (rt_callbacks rt TP_track_a) (e, w, b);
          (e, w, b) = run_phase tick (rt_callbacks rt TP_track_b) (e, w, b);
          (e, intents, b) = ai_phase rt tick (e, w, b);
          (e, w, b) = run_phase tick (rt_callbacks rt TP_track_c) (e, w, b);
          h = world_state_hash w;
          e = foldl (\<lambda>e f. f e w tick h (rt_spatial_query rt)) e (rt_projection_observers rt);
          e = foldl (\<lambda>e f. f e tick h) e (rt_checkpoint_anchor_callbacks rt);
          (e, w, b) = run_phase tick (rt_callbacks rt TP_projection) (e, w, b);
          (metrics, e) = metrics_record (rt_metrics rt) e (step_metrics tick micros report)
      in (\<lparr>sr_tick = tick, sr_commands = report, sr_state_hash = h\<rparr>,
          rt\<lparr>rt_world := w, rt_commands := b, rt_clock := clock_advance (rt_clock rt),
             rt_metrics := metrics, rt_ai_intents := intents\<rparr>, e))"

fun rt_run ::
  "('e, 'q) WorldRuntime \<Rightarrow> 'e \<Rightarrow> PhaseTimes list \<Rightarrow> StepResult list \<times> ('e, 'q) WorldRuntime \<times> 'e" where
  "rt_run rt e [] = ([], rt, e)"
| "rt_run rt e (t # ts) =
     (let (r, rt, e) = rt_step rt e t; (rs, rt, e) = rt_run rt e ts in (r # rs, rt, e))"

section \<open>Runtimes that cannot be told apart\<close>

text \<open>
  Two worlds with the same objects and counters, whatever their addresses and generations; two buffers
  with the same entries in order of their sequence numbers.
\<close>

definition same_world :: "World \<Rightarrow> World \<Rightarrow> bool" where
  "same_world w1 w2 \<longleftrightarrow> world_wf w1 \<and> world_wf w2 \<and> world_abs w1 = world_abs w2"

definition same_commands :: "CommandBuffer \<Rightarrow> CommandBuffer \<Rightarrow> bool" where
  "same_commands b1 b2 \<longleftrightarrow>
     cb_next_sequence b1 = cb_next_sequence b2 \<and> cb_included_durable_lsn b1 = cb_included_durable_lsn b2 \<and>
     stable_sort (lt_key cmd_sequence) (cb_pending b1) = stable_sort (lt_key cmd_sequence) (cb_pending b2)"

definition same_intents :: "DecisionIntentBuffer \<Rightarrow> DecisionIntentBuffer \<Rightarrow> bool" where
  "same_intents b1 b2 \<longleftrightarrow> ib_next_sequence b1 = ib_next_sequence b2 \<and>
     stable_sort (lt_key pin_sequence) (ib_pending b1) = stable_sort (lt_key pin_sequence) (ib_pending b2)"

text \<open>The stable sort by a key is the one of the library; sorting in between changes nothing.\<close>

lemma stable_sort_key: "stable_sort (lt_key f) xs = sort_key f xs"
proof (induction xs)
  case (Cons x xs)
  have "insert_by (lt_key f) x ys = insort_key f x ys" for ys
    by (induction ys) (auto simp: lt_key_def)
  with Cons show ?case by simp
qed simp

lemma sort_key_filters:
  assumes "\<And>k. filter (\<lambda>x. f x = k) xs = filter (\<lambda>x. f x = k) ys"
  shows "sort_key f xs = sort_key f ys"
proof (rule properties_for_sort_key)
  have "count (mset xs) x = count (mset ys) x" for x
  proof -
    have "count (mset zs) x = count (mset (filter (\<lambda>y. f y = f x) zs)) x" for zs
      by (induction zs) auto
    with assms show ?thesis by metis
  qed
  then show "mset (sort_key f ys) = mset xs" by (simp add: multiset_eq_iff)
  show "filter (\<lambda>x. f k = f x) (sort_key f ys) = filter (\<lambda>x. f k = f x) xs" for k
    using assms [of "f k"] sort_key_stable [of f "f k" ys] by (simp add: eq_commute [of "f k"])
qed simp

lemma sort_key_append_cong:
  assumes "sort_key f xs = sort_key f ys"
  shows "sort_key f (xs @ zs) = sort_key f (ys @ zs)"
proof (rule sort_key_filters)
  fix k
  show "filter (\<lambda>x. f x = k) (xs @ zs) = filter (\<lambda>x. f x = k) (ys @ zs)"
    using assms sort_key_stable [of f k xs] sort_key_stable [of f k ys] by simp
qed

lemma sort_filter_sorted: "sort_key f (filter P (sort_key f xs)) = filter P (sort_key f xs)"
  by (simp add: filter_sort sort_key_id_if_sorted)

subsection \<open>Commands and intents\<close>

lemma same_world_find: "same_world w1 w2 \<Longrightarrow> world_find w1 = world_find w2"
  by (simp add: same_world_def world_abs_def)

lemma visit_payload_same:
  assumes "same_world w1 w2" "visit_payload w1 p = (ok1, v1)" "visit_payload w2 p = (ok2, v2)"
  shows "ok1 = ok2 \<and> same_world v1 v2"
proof -
  define q where "q = (case p of CreateObjectCommand obj \<Rightarrow> OpInsert obj
    | DestroyObjectCommand i \<Rightarrow> OpErase i | SetPropertyCommand i k v \<Rightarrow> OpSetProperty i k v)"
  have "keeps_id q" "world_op True w1 q = (ok1, v1)" "world_op True w2 q = (ok2, v2)"
    using assms(2,3) by (auto simp: q_def keeps_id_def split: CommandPayload.split)
  with world_op_simulates [of w1 q True ok1 v1] world_op_simulates [of w2 q True ok2 v2] assms(1)
  show ?thesis unfolding same_world_def by (metis prod.inject)
qed

lemma execute_command_same:
  assumes "same_world w1 w2"
  shows "fst (execute_command w1 c) = fst (execute_command w2 c)"
    "same_world (snd (execute_command w1 c)) (snd (execute_command w2 c))"
proof -
  have "precondition w1 c = precondition w2 c"
    unfolding precondition_def same_world_find [OF assms] ..
  moreover obtain ok1 v1 ok2 v2 where
    v: "visit_payload w1 (cmd_payload c) = (ok1, v1)" "visit_payload w2 (cmd_payload c) = (ok2, v2)"
    by fastforce
  moreover have "ok1 = ok2 \<and> same_world v1 v2" using visit_payload_same [OF assms v] .
  ultimately show "fst (execute_command w1 c) = fst (execute_command w2 c)"
    "same_world (snd (execute_command w1 c)) (snd (execute_command w2 c))"
    using assms by (auto simp: execute_command_def Let_def)
qed

lemma run_commands_same:
  "same_world w1 w2 \<Longrightarrow> fst (run_commands w1 cs) = fst (run_commands w2 cs) \<and>
     same_world (snd (run_commands w1 cs)) (snd (run_commands w2 cs))"
proof (induction cs arbitrary: w1 w2)
  case (Cons c cs)
  show ?case
    using Cons.IH [OF execute_command_same(2) [OF Cons.prems, of c]] execute_command_same(1) [OF Cons.prems, of c]
    by (simp add: split_def Let_def)
qed simp

lemma apply_commands_same:
  assumes "same_world w1 w2" "same_commands b1 b2"
    and "apply_commands b1 w1 tick = (r1, c1, v1)" "apply_commands b2 w2 tick = (r2, c2, v2)"
  shows "r1 = r2 \<and> same_commands c1 c2 \<and> same_world v1 v2"
  using assms run_commands_same [OF assms(1)]
  by (auto simp: apply_commands_eq same_commands_def Let_def split_def)

lemma enqueue_same:
  assumes "same_commands b1 b2"
  shows "fst (enqueue b1 t p m) = fst (enqueue b2 t p m)"
    "same_commands (snd (enqueue b1 t p m)) (snd (enqueue b2 t p m))"
  using assms
  by (auto simp: enqueue_def same_commands_def Let_def stable_sort_key intro: sort_key_append_cong)

lemma submit_intent_same:
  assumes "same_intents b1 b2"
  shows "fst (ib_submit b1 t i) = fst (ib_submit b2 t i)"
    "same_intents (snd (ib_submit b1 t i)) (snd (ib_submit b2 t i))"
  using assms
  by (auto simp: ib_submit_def same_intents_def Let_def stable_sort_key intro: sort_key_append_cong)

lemma enqueue_all_same:
  "same_commands b1 b2 \<Longrightarrow>
     same_commands (foldl (\<lambda>b p. snd (enqueue_plain b (t p) (c p))) b1 ps)
       (foldl (\<lambda>b p. snd (enqueue_plain b (t p) (c p))) b2 ps)"
  by (induction ps arbitrary: b1 b2) (auto simp: enqueue_plain_def intro: enqueue_same)

lemma ib_flush_same:
  assumes "same_intents i1 i2" "same_commands b1 b2"
    and "ib_flush i1 tick b1 = (r1, j1, c1)" "ib_flush i2 tick b2 = (r2, j2, c2)"
  shows "r1 = r2 \<and> same_intents j1 j2 \<and> same_commands c1 c2"
  using assms enqueue_all_same [OF assms(2)]
  by (auto simp: ib_flush_eq same_intents_def Let_def)

lemma world_snapshot_same: "same_world w1 w2 \<Longrightarrow> world_snapshot w1 = world_snapshot w2"
proof -
  assume same: "same_world w1 w2"
  then have find: "world_find w1 = world_find w2" by (rule same_world_find)
  then have "fm_keys (objects w1) = fm_keys (objects w2)"
    by (intro fm_keys_content) (simp add: fun_eq_iff world_content_def)
  with same find show ?thesis by (simp add: same_world_def world_snapshot_eq)
qed

lemma world_state_hash_same: "same_world w1 w2 \<Longrightarrow> world_state_hash w1 = world_state_hash w2"
  by (simp add: world_state_hash_def world_snapshot_same)

section \<open>Callbacks that keep to the interfaces\<close>

text \<open>
  A callback that uses the world and the buffers through their operations cannot tell such worlds and
  buffers apart. This is the contract of a callback.
\<close>

definition phase_callback_ok :: "'e PhaseCallback \<Rightarrow> bool" where
  "phase_callback_ok f \<longleftrightarrow>
     (\<forall>e w1 w2 b1 b2 tick. same_world w1 w2 \<and> same_commands b1 b2 \<longrightarrow>
        fst (f e w1 b1 tick) = fst (f e w2 b2 tick) \<and>
        same_world (fst (snd (f e w1 b1 tick))) (fst (snd (f e w2 b2 tick))) \<and>
        same_commands (snd (snd (f e w1 b1 tick))) (snd (snd (f e w2 b2 tick))))"

definition ai_callback_ok :: "'e AiDecisionCallback \<Rightarrow> bool" where
  "ai_callback_ok f \<longleftrightarrow>
     (\<forall>e snapshot i1 i2. same_intents i1 i2 \<longrightarrow>
        fst (f e snapshot i1) = fst (f e snapshot i2) \<and>
        same_intents (snd (f e snapshot i1)) (snd (f e snapshot i2)))"

definition observer_ok :: "('e, 'q) ProjectionObserver \<Rightarrow> bool" where
  "observer_ok f \<longleftrightarrow>
     (\<forall>e w1 w2 tick h q. same_world w1 w2 \<longrightarrow> f e w1 tick h q = f e w2 tick h q)"

definition callbacks_ok :: "('e, 'q) WorldRuntime \<Rightarrow> bool" where
  "callbacks_ok rt \<longleftrightarrow>
     (\<forall>phase. \<forall>f \<in> set (rt_callbacks rt phase). phase_callback_ok f) \<and>
     (\<forall>f \<in> set (rt_ai_callbacks rt). ai_callback_ok f) \<and>
     (\<forall>f \<in> set (rt_projection_observers rt). observer_ok f)"

lemma run_phase_same:
  assumes "\<forall>f \<in> set fs. phase_callback_ok f" "same_world w1 w2" "same_commands b1 b2"
    and "run_phase tick fs (e, w1, b1) = (e1, v1, c1)" "run_phase tick fs (e, w2, b2) = (e2, v2, c2)"
  shows "e1 = e2 \<and> same_world v1 v2 \<and> same_commands c1 c2"
  using assms
proof (induction fs arbitrary: e w1 w2 b1 b2)
  case (Cons f fs)
  obtain d1 u1 a1 d2 u2 a2 where r: "f e w1 b1 tick = (d1, u1, a1)" "f e w2 b2 tick = (d2, u2, a2)"
    by (metis prod_cases3)
  have "fst (f e w1 b1 tick) = fst (f e w2 b2 tick) \<and>
      same_world (fst (snd (f e w1 b1 tick))) (fst (snd (f e w2 b2 tick))) \<and>
      same_commands (snd (snd (f e w1 b1 tick))) (snd (snd (f e w2 b2 tick)))"
    using Cons.prems(1-3) unfolding phase_callback_ok_def by simp
  with r have "d1 = d2" "same_world u1 u2" "same_commands a1 a2" by simp_all
  with Cons.IH [of u1 u2 a1 a2 d1] Cons.prems r show ?case by simp
qed simp

lemma run_ai_same:
  assumes "\<forall>f \<in> set fs. ai_callback_ok f" "same_intents i1 i2"
    and "run_ai snapshot fs (e, i1) = (e1, j1)" "run_ai snapshot fs (e, i2) = (e2, j2)"
  shows "e1 = e2 \<and> same_intents j1 j2"
  using assms
proof (induction fs arbitrary: e i1 i2)
  case (Cons f fs)
  obtain d1 a1 d2 a2 where r: "f e snapshot i1 = (d1, a1)" "f e snapshot i2 = (d2, a2)" by fastforce
  have "fst (f e snapshot i1) = fst (f e snapshot i2) \<and>
      same_intents (snd (f e snapshot i1)) (snd (f e snapshot i2))"
    using Cons.prems(1,2) unfolding ai_callback_ok_def by simp
  with r have "d1 = d2" "same_intents a1 a2" by simp_all
  with Cons.IH [of a1 a2 d1] Cons.prems r show ?case by simp
qed simp

lemma observers_same:
  "\<forall>f \<in> set fs. observer_ok f \<Longrightarrow> same_world w1 w2 \<Longrightarrow>
     foldl (\<lambda>e f. f e w1 tick h q) e fs = foldl (\<lambda>e f. f e w2 tick h q) e fs"
  by (induction fs arbitrary: e) (auto simp: observer_ok_def)

section \<open>Determinism\<close>

definition same_runtime :: "('e, 'q) WorldRuntime \<Rightarrow> ('e, 'q) WorldRuntime \<Rightarrow> bool" where
  "same_runtime r1 r2 \<longleftrightarrow>
     same_world (rt_world r1) (rt_world r2) \<and> same_commands (rt_commands r1) (rt_commands r2) \<and>
     same_intents (rt_ai_intents r1) (rt_ai_intents r2) \<and> rt_clock r1 = rt_clock r2 \<and>
     mr_sink (rt_metrics r1) = mr_sink (rt_metrics r2) \<and> rt_callbacks r1 = rt_callbacks r2 \<and>
     rt_ai_callbacks r1 = rt_ai_callbacks r2 \<and>
     rt_projection_observers r1 = rt_projection_observers r2 \<and>
     rt_checkpoint_anchor_callbacks r1 = rt_checkpoint_anchor_callbacks r2 \<and>
     rt_spatial_query r1 = rt_spatial_query r2"

lemma ai_phase_same:
  assumes same: "same_runtime r1 r2" and ok: "callbacks_ok r1"
    and ws: "same_world w1 w2" and bs: "same_commands b1 b2"
    and p: "ai_phase r1 tick (e, w1, b1) = (e1, i1, c1)" "ai_phase r2 tick (e, w2, b2) = (e2, i2, c2)"
  shows "e1 = e2 \<and> same_intents i1 i2 \<and> same_commands c1 c2"
proof (cases "rt_ai_callbacks r1 = []")
  case True
  with p same bs show ?thesis by (auto simp: ai_phase_def same_runtime_def)
next
  case False
  have snapshot: "ds_capture w1 tick = ds_capture w2 tick"
    by (simp add: ds_capture_def world_snapshot_same [OF ws])
  have fs: "rt_ai_callbacks r2 = rt_ai_callbacks r1" using same by (simp add: same_runtime_def)
  obtain d1 j1 d2 j2 where a:
    "run_ai (ds_capture w2 tick) (rt_ai_callbacks r1) (e, rt_ai_intents r1) = (d1, j1)"
    "run_ai (ds_capture w2 tick) (rt_ai_callbacks r1) (e, rt_ai_intents r2) = (d2, j2)" by fastforce
  have "d1 = d2 \<and> same_intents j1 j2"
    using run_ai_same [OF _ _ a] same ok by (simp add: same_runtime_def callbacks_ok_def)
  moreover obtain x1 k1 y1 x2 k2 y2 where f: "ib_flush j1 tick b1 = (x1, k1, y1)" "ib_flush j2 tick b2 = (x2, k2, y2)"
    by (metis prod_cases3)
  ultimately show ?thesis
    using ib_flush_same [OF _ bs f] p False a snapshot fs by (simp add: ai_phase_def)
qed

lemma rt_step_same:
  assumes same: "same_runtime r1 r2" and ok: "callbacks_ok r1"
    and steps: "rt_step r1 e t = (s1, r1', e1)" "rt_step r2 e t = (s2, r2', e2)"
  shows "s1 = s2 \<and> e1 = e2 \<and> same_runtime r1' r2' \<and> callbacks_ok r1'"
proof -
  define tick :: u64 where "tick = ucast (clock_tick (rt_clock r1))"
  let ?fs = "rt_callbacks r1"
  have fields: "rt_clock r2 = rt_clock r1" "rt_callbacks r2 = ?fs"
      "rt_projection_observers r2 = rt_projection_observers r1"
      "rt_checkpoint_anchor_callbacks r2 = rt_checkpoint_anchor_callbacks r1"
      "rt_spatial_query r2 = rt_spatial_query r1" "mr_sink (rt_metrics r2) = mr_sink (rt_metrics r1)"
    using same by (simp_all add: same_runtime_def)
  have fok: "\<forall>f \<in> set (?fs phase). phase_callback_ok f" for phase using ok by (simp add: callbacks_ok_def)
  obtain q1 b1 w1 q2 b2 w2 where due:
    "apply_commands (rt_commands r1) (rt_world r1) tick = (q1, b1, w1)"
    "apply_commands (rt_commands r2) (rt_world r2) tick = (q2, b2, w2)" by (metis prod_cases3)
  have S0: "q1 = q2 \<and> same_commands b1 b2 \<and> same_world w1 w2"
    using apply_commands_same [OF _ _ due] same by (simp add: same_runtime_def)
  obtain ea va ca eb vb cb where A: "run_phase tick (?fs TP_track_a) (e, w1, b1) = (ea, va, ca)"
    "run_phase tick (?fs TP_track_a) (e, w2, b2) = (eb, vb, cb)" by (metis prod_cases3)
  have SA: "ea = eb \<and> same_world va vb \<and> same_commands ca cb"
    using run_phase_same [OF fok _ _ A] S0 by simp
  obtain ec vc cc ed vd cd where B: "run_phase tick (?fs TP_track_b) (ea, va, ca) = (ec, vc, cc)"
    "run_phase tick (?fs TP_track_b) (ea, vb, cb) = (ed, vd, cd)" by (metis prod_cases3)
  have SB: "ec = ed \<and> same_world vc vd \<and> same_commands cc cd"
    using run_phase_same [OF fok _ _ B] SA by simp
  obtain ee ie ce ef ig cf where I: "ai_phase r1 tick (ec, vc, cc) = (ee, ie, ce)"
    "ai_phase r2 tick (ec, vd, cd) = (ef, ig, cf)" by (metis prod_cases3)
  have SI: "ee = ef \<and> same_intents ie ig \<and> same_commands ce cf"
    using ai_phase_same [OF same ok _ _ I] SB by simp
  obtain eg vg cg eh vh ch where C: "run_phase tick (?fs TP_track_c) (ee, vc, ce) = (eg, vg, cg)"
    "run_phase tick (?fs TP_track_c) (ee, vd, cf) = (eh, vh, ch)" by (metis prod_cases3)
  have SC: "eg = eh \<and> same_world vg vh \<and> same_commands cg ch"
    using run_phase_same [OF fok _ _ C] SB SI by simp
  let ?h = "world_state_hash vg"
  let ?observe = "\<lambda>v. foldl (\<lambda>e f. f e v tick ?h (rt_spatial_query r1)) eg (rt_projection_observers r1)"
  let ?e = "foldl (\<lambda>e f. f e tick ?h) (?observe vg) (rt_checkpoint_anchor_callbacks r1)"
  have h: "world_state_hash vh = ?h" using SC world_state_hash_same by metis
  have O: "?observe vh = ?observe vg"
    using observers_same [of "rt_projection_observers r1" vg vh] SC ok by (simp add: callbacks_ok_def)
  obtain ek vk ck el vl cl where P: "run_phase tick (?fs TP_projection) (?e, vg, cg) = (ek, vk, ck)"
    "run_phase tick (?fs TP_projection) (?e, vh, ch) = (el, vl, cl)" by (metis prod_cases3)
  have SP: "ek = el \<and> same_world vk vl \<and> same_commands ck cl"
    using run_phase_same [OF fok _ _ P] SC by simp
  note agree = S0 [THEN conjunct1, symmetric] SA [THEN conjunct1, symmetric] SB [THEN conjunct1, symmetric]
    SI [THEN conjunct1, symmetric] SC [THEN conjunct1, symmetric] SP [THEN conjunct1, symmetric]
  have s1: "s1 = \<lparr>sr_tick = tick, sr_commands = q1, sr_state_hash = ?h\<rparr>"
    and r1': "e1 = snd (metrics_record (rt_metrics r1) ek (step_metrics tick t q1))"
    "r1' = r1\<lparr>rt_world := vk, rt_commands := ck, rt_clock := clock_advance (rt_clock r1),
        rt_metrics := fst (metrics_record (rt_metrics r1) ek (step_metrics tick t q1)), rt_ai_intents := ie\<rparr>"
    using steps(1) unfolding rt_step_def Let_def tick_def [symmetric]
    by (simp_all add: due A B I C P metrics_record_def)
  have s2: "s2 = \<lparr>sr_tick = tick, sr_commands = q1, sr_state_hash = ?h\<rparr>"
    and r2': "e2 = snd (metrics_record (rt_metrics r2) ek (step_metrics tick t q1))"
    "r2' = r2\<lparr>rt_world := vl, rt_commands := cl, rt_clock := clock_advance (rt_clock r1),
        rt_metrics := fst (metrics_record (rt_metrics r2) ek (step_metrics tick t q1)), rt_ai_intents := ig\<rparr>"
    using steps(2) unfolding rt_step_def Let_def fields tick_def [symmetric]
    by (simp_all add: due A B I C P agree fields h O metrics_record_def)
  show ?thesis
    unfolding s1 s2 r1' r2'
    using SI SP same ok by (simp add: same_runtime_def callbacks_ok_def metrics_record_def)
qed

lemma rt_run_same:
  assumes "same_runtime r1 r2" "callbacks_ok r1"
  shows "fst (rt_run r1 e ts) = fst (rt_run r2 e ts) \<and>
    snd (snd (rt_run r1 e ts)) = snd (snd (rt_run r2 e ts)) \<and>
    same_runtime (fst (snd (rt_run r1 e ts))) (fst (snd (rt_run r2 e ts)))"
  using assms
proof (induction ts arbitrary: r1 r2 e)
  case (Cons t ts)
  obtain s1 r1' e1 s2 r2' e2 where steps: "rt_step r1 e t = (s1, r1', e1)" "rt_step r2 e t = (s2, r2', e2)"
    by (metis prod_cases3)
  note step = rt_step_same [OF Cons.prems steps]
  with Cons.IH [of r1' r2' e1] steps show ?case by (simp add: split_def Let_def)
qed simp

section \<open>Recovery\<close>

text \<open>
  A new process: a fresh runtime with its own registrations, whose world, clock, buffer and intents are
  restored from the snapshots of a running one. \<open>None\<close> if a snapshot is refused.
\<close>

definition restore_runtime :: "('e, 'q) WorldRuntime \<Rightarrow> ('e, 'q) WorldRuntime \<Rightarrow> ('e, 'q) WorldRuntime option" where
  "restore_runtime fresh running =
     (let (commands_ok, commands) = cb_restore (rt_commands fresh) (cb_snapshot (rt_commands running));
          (intents_ok, intents) = ib_restore (rt_ai_intents fresh) (ib_snapshot (rt_ai_intents running))
      in if \<not> commands_ok \<or> \<not> intents_ok then None
         else Some (fresh
           \<lparr>rt_world := restore_snapshot (rt_world fresh) (capture_snapshot (rt_world running)),
            rt_clock := restore_tick (rt_clock fresh) (clock_tick (rt_clock running)),
            rt_commands := commands, rt_ai_intents := intents\<rparr>))"

lemma restored_world_same:
  assumes "world_wf fresh" "world_wf w"
  shows "same_world (restore_snapshot fresh (capture_snapshot w)) w"
proof -
  let ?objs = "world_snapshot w"
  have "map_of (rev (map (\<lambda>obj. (wo_id obj, obj)) ?objs)) = world_find w"
  proof
    fix i
    have list: "map (\<lambda>obj. (wo_id obj, obj)) ?objs = map (\<lambda>i. (i, the (world_find w i))) (fm_keys (objects w))"
      unfolding world_snapshot_eq [OF assms(2)] using snapshot_keys(1) [OF assms(2)] by simp
    have "map_of (rev (map (\<lambda>obj. (wo_id obj, obj)) ?objs)) i =
        (if i \<in> set (fm_keys (objects w)) then Some (the (world_find w i)) else None)"
      unfolding list rev_map using map_of_map_pair [of "\<lambda>i. the (world_find w i)" "rev (fm_keys (objects w))" i]
      by simp
    also have "\<dots> = world_find w i" using snapshot_keys(2) [OF assms(2), of i] by auto
    finally show "map_of (rev (map (\<lambda>obj. (wo_id obj, obj)) ?objs)) i = world_find w i" .
  qed
  with restore_refines [OF assms(1)] assms(2) show ?thesis
    by (simp add: same_world_def restore_snapshot_def capture_snapshot_def world_abs_def)
qed

lemma sorted_again: "stable_sort (lt_key f) (stable_sort (lt_key f) xs) = stable_sort (lt_key f) xs"
  by (rule stable_sort_key_sorted) (rule sorted_stable_sort_key)

lemma restored_same:
  assumes "world_wf (rt_world fresh)" "world_wf (rt_world running)"
    and regs: "rt_callbacks fresh = rt_callbacks running" "rt_ai_callbacks fresh = rt_ai_callbacks running"
      "rt_projection_observers fresh = rt_projection_observers running"
      "rt_checkpoint_anchor_callbacks fresh = rt_checkpoint_anchor_callbacks running"
      "rt_spatial_query fresh = rt_spatial_query running"
      "mr_sink (rt_metrics fresh) = mr_sink (rt_metrics running)"
      "dt_microseconds (rt_clock fresh) = dt_microseconds (rt_clock running)"
    and "restore_runtime fresh running = Some restored"
  shows "same_runtime restored running"
proof -
  have "same_commands b (rt_commands running)"
    if "cb_restore (rt_commands fresh) (cb_snapshot (rt_commands running)) = (True, b)" for b
    using that by (auto simp: cb_restore_def cb_snapshot_def same_commands_def sorted_again Let_def split: if_splits)
  moreover have "same_intents b (rt_ai_intents running)"
    if "ib_restore (rt_ai_intents fresh) (ib_snapshot (rt_ai_intents running)) = (True, b)" for b
    using that by (auto simp: ib_restore_def ib_snapshot_def same_intents_def sorted_again Let_def split: if_splits)
  moreover have "restore_tick (rt_clock fresh) (clock_tick (rt_clock running)) = rt_clock running"
    using regs(7) by (simp add: restore_tick_def)
  ultimately show ?thesis
    using assms restored_world_same [OF assms(1,2)]
    by (auto simp: restore_runtime_def same_runtime_def Let_def split: prod.splits if_splits)
qed


text \<open>A track that submits a command for the next tick, and an AI that submits an intent.\<close>

definition example_track :: "nat PhaseCallback" where
  "example_track e w b tick =
     (Suc e, w, snd (enqueue_plain b (tick + 1) (SetPropertyCommand (WorldId 1) ''hp'' (VInt64 (of_nat e)))))"

definition example_ai :: "nat AiDecisionCallback" where
  "example_ai e snapshot intents =
     (e, snd (ib_submit intents (ds_tick snapshot)
        \<lparr>spi_target = WorldId 1, spi_key = ''mood'', spi_value = VInt64 (of_nat (length (ds_objects snapshot)))\<rparr>))"

lemma example_callbacks_ok: "phase_callback_ok example_track" "ai_callback_ok example_ai"
  by (auto simp: phase_callback_ok_def example_track_def enqueue_plain_def enqueue_same
      ai_callback_ok_def example_ai_def submit_intent_same)

definition example_runtime :: "(nat, unit) WorldRuntime" where
  "example_runtime =
     add_ai_decision_callback (add_phase_callback world_runtime TP_track_a (Some example_track)) (Some example_ai)"

definition example_running :: "(nat, unit) WorldRuntime" where
  "example_running =
     snd (rt_submit_plain (example_runtime\<lparr>rt_world := example_shared,
       rt_clock := restore_tick (rt_clock example_runtime) 7\<rparr>) 9 (DestroyObjectCommand (WorldId 1)))"


end
