(* ===== verification/Wal_Codec.thy ===== *)
theory Wal_Codec
  imports Prelude
begin

text \<open>
  \<^verbatim>\<open>libs/persistence/types.hpp\<close>, \<^verbatim>\<open>types.cpp\<close>, \<^verbatim>\<open>le_codec.hpp\<close>, \<^verbatim>\<open>wal_codec.cpp\<close>: log sequence numbers, error
  codes, and the framing of the write-ahead log. A record is a length prefix, a fixed header, the
  payload and a CRC; a segment starts with a header that names its first sequence number. The CRC
  library is a parameter, and nothing below assumes anything of it: what a torn write leaves behind is
  recognised by the length alone.
\<close>

section \<open>Sequence numbers and errors\<close>

datatype Lsn = Lsn (lsn_value: u64)

instantiation Lsn :: linorder
begin

definition less_eq_Lsn :: "Lsn \<Rightarrow> Lsn \<Rightarrow> bool" where
  "less_eq_Lsn a b \<longleftrightarrow> lsn_value a \<le> lsn_value b"

definition less_Lsn :: "Lsn \<Rightarrow> Lsn \<Rightarrow> bool" where
  "less_Lsn a b \<longleftrightarrow> lsn_value a < lsn_value b"

instance
  by standard (auto simp: less_eq_Lsn_def less_Lsn_def intro: Lsn.expand)

end

definition lsn_valid :: "Lsn \<Rightarrow> bool" where
  "lsn_valid l \<longleftrightarrow> lsn_value l \<noteq> 0"

definition kFirstLsn :: Lsn where
  "kFirstLsn = Lsn 1"

definition next_lsn :: "Lsn \<Rightarrow> Lsn option" where
  "next_lsn current =
     (if \<not> lsn_valid current \<or> lsn_value current = - 1 then None else Some (Lsn (lsn_value current + 1)))"

datatype PersistenceError =
    PE_none
  | PE_record_invalid
  | PE_lsn_discontinuity
  | PE_checksum_mismatch
  | PE_segment_corrupted
  | PE_io_failure
  | PE_sync_failed
  | PE_no_space_or_permission
  | PE_queue_full
  | PE_fault_read_only
  | PE_config_invalid
  | PE_lsn_overflow
  | PE_manifest_invalid
  | PE_not_found
  | PE_shutting_down
  | PE_relaxed_not_allowed
  | PE_provider_missing
  | PE_provider_unknown
  | PE_provider_version_mismatch
  | PE_checkpoint_invalid
  | PE_checkpoint_incomplete

fun persistence_error_code :: "PersistenceError \<Rightarrow> string" where
  "persistence_error_code PE_none = []"
| "persistence_error_code PE_record_invalid = ''GWP001''"
| "persistence_error_code PE_lsn_discontinuity = ''GWP002''"
| "persistence_error_code PE_checksum_mismatch = ''GWP003''"
| "persistence_error_code PE_segment_corrupted = ''GWP004''"
| "persistence_error_code PE_io_failure = ''GWP005''"
| "persistence_error_code PE_sync_failed = ''GWP006''"
| "persistence_error_code PE_no_space_or_permission = ''GWP007''"
| "persistence_error_code PE_queue_full = ''GWP008''"
| "persistence_error_code PE_fault_read_only = ''GWP009''"
| "persistence_error_code PE_config_invalid = ''GWP010''"
| "persistence_error_code PE_lsn_overflow = ''GWP011''"
| "persistence_error_code PE_manifest_invalid = ''GWP012''"
| "persistence_error_code PE_not_found = ''GWP013''"
| "persistence_error_code PE_shutting_down = ''GWP014''"
| "persistence_error_code PE_relaxed_not_allowed = ''GWP015''"
| "persistence_error_code PE_provider_missing = ''GWP016''"
| "persistence_error_code PE_provider_unknown = ''GWP017''"
| "persistence_error_code PE_provider_version_mismatch = ''GWP018''"
| "persistence_error_code PE_checkpoint_invalid = ''GWP019''"
| "persistence_error_code PE_checkpoint_incomplete = ''GWP020''"

text \<open>A branch is 16 bytes.\<close>

type_synonym BranchId = bytes

definition branch_valid :: "BranchId \<Rightarrow> bool" where
  "branch_valid b \<longleftrightarrow> (\<exists>x \<in> set b. x \<noteq> 0)"

section \<open>Little-endian integers\<close>

definition write_le16 :: "u16 \<Rightarrow> bytes" where
  "write_le16 v = le_bytes 2 (ucast v)"

definition write_le32 :: "u32 \<Rightarrow> bytes" where
  "write_le32 v = le_bytes 4 (ucast v)"

definition write_le64 :: "u64 \<Rightarrow> bytes" where
  "write_le64 v = le_bytes 8 v"

text \<open>They read at a position that is inside of the buffer.\<close>

definition read_le16 :: "bytes \<Rightarrow> u16" where
  "read_le16 p = ucast (le_value (take 2 p))"

definition read_le32 :: "bytes \<Rightarrow> u32" where
  "read_le32 p = ucast (le_value (take 4 p))"

definition read_le64 :: "bytes \<Rightarrow> u64" where
  "read_le64 p = le_value (take 8 p)"

lemma length_write_le [simp]:
  "length (write_le16 a) = 2" "length (write_le32 b) = 4" "length (write_le64 c) = 8"
  by (simp_all add: write_le16_def write_le32_def write_le64_def)

lemma ucast_take_ucast:
  "ucast (take_bit 16 (ucast a :: u64)) = (a :: u16)" "ucast (take_bit 32 (ucast b :: u64)) = (b :: u32)"
  by (rule bit_word_eqI; simp add: bit_simps)+

lemma read_write_le [codec_simps]:
  "read_le16 (write_le16 a @ r) = a" "read_le32 (write_le32 b @ r) = b" "read_le64 (write_le64 c @ r) = c"
  "read_le16 (write_le16 a) = a" "read_le32 (write_le32 b) = b" "read_le64 (write_le64 c) = c"
  by (simp_all add: read_le16_def read_le32_def read_le64_def write_le16_def write_le32_def write_le64_def
      le_value_le_bytes ucast_take_ucast take_bit_word_eq_self)

section \<open>Records\<close>

record Crc32cLib =
  crc32c :: "bytes \<Rightarrow> u32"
  crc32c_extend :: "u32 \<Rightarrow> bytes \<Rightarrow> u32"

definition kSegmentFormatVersion :: u32 where
  "kSegmentFormatVersion = 1"

definition kRecordFormatVersion :: u16 where
  "kRecordFormatVersion = 1"

definition kSegmentHeaderBytes :: nat where
  "kSegmentHeaderBytes = 16"

definition kRecordLengthPrefixBytes :: nat where
  "kRecordLengthPrefixBytes = 4"

definition kRecordFixedHeaderBytes :: nat where
  "kRecordFixedHeaderBytes = 24"

definition kRecordCrcBytes :: nat where
  "kRecordCrcBytes = 4"

lemmas wal_sizes = kSegmentHeaderBytes_def kRecordLengthPrefixBytes_def kRecordFixedHeaderBytes_def
  kRecordCrcBytes_def

text \<open>The bytes of a character array.\<close>

definition kSegmentMagic :: bytes where
  "kSegmentMagic = map (\<lambda>c. of_nat (of_char c)) ''GWLS''"

text \<open>An enumeration of 16 bits, which holds any 16-bit value.\<close>

type_synonym WalRecordKind = u16

definition external_command :: WalRecordKind where
  "external_command = 0"

definition normalized_input :: WalRecordKind where
  "normalized_input = 1"

definition version_switch :: WalRecordKind where
  "version_switch = 2"

definition random_control :: WalRecordKind where
  "random_control = 3"

definition command_outcome :: WalRecordKind where
  "command_outcome = 4"

definition state_hash :: WalRecordKind where
  "state_hash = 5"

definition checkpoint_marker :: WalRecordKind where
  "checkpoint_marker = 6"

datatype Durability = D_durable | D_relaxed

record WalRecord =
  wr_kind :: WalRecordKind
  wr_target_tick :: u64
  wr_payload :: bytes
  wr_durability :: Durability

definition record_crc :: "Crc32cLib \<Rightarrow> bytes \<Rightarrow> bytes \<Rightarrow> u32" where
  "record_crc lib fixed_header payload = crc32c_extend lib (crc32c lib fixed_header) payload"

text \<open>The size is cut to 32 bits; \<open>None\<close> is a payload that then overruns the buffer.\<close>

definition encode_record :: "Crc32cLib \<Rightarrow> Lsn \<Rightarrow> WalRecordKind \<Rightarrow> u64 \<Rightarrow> bytes \<Rightarrow> bytes option" where
  "encode_record lib lsn kind target_tick payload =
     (let body_bytes = of_nat (kRecordFixedHeaderBytes + length payload + kRecordCrcBytes) :: u32;
          header = write_le16 kRecordFormatVersion @ write_le16 kind @ write_le64 (lsn_value lsn)
            @ write_le64 target_tick @ write_le32 (of_nat (length payload));
          out = write_le32 body_bytes @ header @ payload @ write_le32 (record_crc lib header payload)
      in if length out > kRecordLengthPrefixBytes + unat body_bytes then None else Some out)"

definition encode_segment_header :: "Lsn \<Rightarrow> bytes" where
  "encode_segment_header first_lsn =
     kSegmentMagic @ write_le32 kSegmentFormatVersion @ write_le64 (lsn_value first_lsn)"

datatype RecordDecodeStatus = RDS_ok | RDS_incomplete | RDS_crc_mismatch | RDS_malformed

record DecodedRecord =
  dr_lsn :: Lsn
  dr_kind :: WalRecordKind
  dr_target_tick :: u64
  dr_payload :: bytes
  dr_total_bytes :: u64

definition no_record :: DecodedRecord where
  "no_record = \<lparr>dr_lsn = Lsn 0, dr_kind = external_command, dr_target_tick = 0, dr_payload = [],
     dr_total_bytes = 0\<rparr>"

definition decode_record :: "Crc32cLib \<Rightarrow> bytes \<Rightarrow> u64 \<Rightarrow> RecordDecodeStatus \<times> DecodedRecord" where
  "decode_record lib buffer max_record_bytes =
     (if length buffer < kRecordLengthPrefixBytes then (RDS_incomplete, no_record)
      else
        let body_bytes = read_le32 buffer;
            total = of_nat kRecordLengthPrefixBytes + ucast body_bytes :: u64
        in if unat body_bytes < kRecordFixedHeaderBytes + kRecordCrcBytes
              \<or> ucast body_bytes > max_record_bytes then (RDS_malformed, no_record)
        else if length buffer < unat total then (RDS_incomplete, no_record)
        else let header = drop kRecordLengthPrefixBytes buffer in
          if read_le16 header \<noteq> kRecordFormatVersion then (RDS_malformed, no_record)
          else let payload_length = read_le32 (drop 20 header) in
            if unat payload_length \<noteq> unat body_bytes - kRecordFixedHeaderBytes - kRecordCrcBytes
            then (RDS_malformed, no_record)
            else
              let payload = take (unat payload_length) (drop kRecordFixedHeaderBytes header);
                  fixed_header = take kRecordFixedHeaderBytes header;
                  expected_crc = read_le32 (drop (kRecordFixedHeaderBytes + unat payload_length) header)
              in if record_crc lib fixed_header payload \<noteq> expected_crc then (RDS_crc_mismatch, no_record)
                 else (RDS_ok,
                   \<lparr>dr_lsn = Lsn (read_le64 (drop 4 header)), dr_kind = read_le16 (drop 2 header),
                    dr_target_tick = read_le64 (drop 12 header), dr_payload = payload,
                    dr_total_bytes = total\<rparr>))"

text \<open>The answer and the value left in the reference \<open>first_lsn\<close>, if it was written.\<close>

definition parse_segment_header :: "bytes \<Rightarrow> Lsn \<Rightarrow> bool \<times> Lsn" where
  "parse_segment_header buffer first_lsn =
     (if length buffer < kSegmentHeaderBytes then (False, first_lsn)
      else if take (length kSegmentMagic) buffer \<noteq> kSegmentMagic then (False, first_lsn)
      else if read_le32 (drop (length kSegmentMagic) buffer) \<noteq> kSegmentFormatVersion then (False, first_lsn)
      else let first_lsn = Lsn (read_le64 (drop (length kSegmentMagic + 4) buffer))
        in (lsn_valid first_lsn, first_lsn))"

section \<open>File names of segments\<close>

definition digit :: "nat \<Rightarrow> char" where
  "digit n = char_of (48 + n)"

text \<open>\<^verbatim>\<open>%020llu\<close>: twenty decimal digits hold every 64-bit number.\<close>

fun padded_decimal :: "nat \<Rightarrow> nat \<Rightarrow> string" where
  "padded_decimal 0 n = []"
| "padded_decimal (Suc k) n = padded_decimal k (n div 10) @ [digit (n mod 10)]"

definition segment_file_name :: "Lsn \<Rightarrow> string" where
  "segment_file_name first_lsn = ''seg-'' @ padded_decimal 20 (unat (lsn_value first_lsn))"

text \<open>The value wraps around at 64 bits.\<close>

fun parse_digits :: "u64 \<Rightarrow> string \<Rightarrow> u64 option" where
  "parse_digits n [] = Some n"
| "parse_digits n (c # cs) =
     (if c < CHR ''0'' \<or> c > CHR ''9'' then None
      else parse_digits (n * 10 + of_nat (of_char c - 48)) cs)"

definition parse_segment_file_name :: "string \<Rightarrow> Lsn option" where
  "parse_segment_file_name name =
     (if length name \<noteq> 4 + 20 \<or> take 4 name \<noteq> ''seg-'' then None
      else case parse_digits 0 (drop 4 name) of
        None \<Rightarrow> None
      | Some v \<Rightarrow> if \<not> lsn_valid (Lsn v) then None else Some (Lsn v))"

section \<open>Round trips\<close>

text \<open>The bytes of a record, for payloads that fit.\<close>

definition record_header :: "Lsn \<Rightarrow> WalRecordKind \<Rightarrow> u64 \<Rightarrow> bytes \<Rightarrow> bytes" where
  "record_header lsn kind target_tick payload =
     write_le16 kRecordFormatVersion @ write_le16 kind @ write_le64 (lsn_value lsn)
       @ write_le64 target_tick @ write_le32 (of_nat (length payload))"

definition record_bytes :: "Crc32cLib \<Rightarrow> Lsn \<Rightarrow> WalRecordKind \<Rightarrow> u64 \<Rightarrow> bytes \<Rightarrow> bytes" where
  "record_bytes lib lsn kind target_tick payload =
     write_le32 (of_nat (28 + length payload)) @ record_header lsn kind target_tick payload @ payload
       @ write_le32 (record_crc lib (record_header lsn kind target_tick payload) payload)"

lemma length_record_header [simp]: "length (record_header lsn kind tick payload) = 24"
  by (simp add: record_header_def)

lemma length_record_bytes [simp]: "length (record_bytes lib lsn kind tick payload) = 32 + length payload"
  by (simp add: record_bytes_def)

lemma unat_small: "n < 2 ^ 32 \<Longrightarrow> unat (of_nat n :: u32) = n"
  by (simp add: unat_of_nat take_bit_nat_eq_self)

lemma encode_record_eq:
  "28 + length payload < 2 ^ 32 \<Longrightarrow>
     encode_record lib lsn kind tick payload = Some (record_bytes lib lsn kind tick payload)"
  using unat_small [of "28 + length payload"]
  by (simp add: encode_record_def wal_sizes record_bytes_def record_header_def Let_def add.commute add.left_commute)

lemma encode_record_overrun:
  assumes "28 + length payload \<ge> 2 ^ 32"
  shows "encode_record lib lsn kind tick payload = None"
proof -
  have "unat (of_nat (28 + length payload) :: u32) < 2 ^ 32"
    using unsigned_less [of "of_nat (28 + length payload) :: u32", where 'a = nat] by simp
  with assms show ?thesis
    by (simp add: encode_record_def wal_sizes Let_def add.commute add.left_commute)
qed

text \<open>The length prefix and the header of a record, wherever the bytes after them end.\<close>

lemma record_bytes_prefix:
  assumes "28 + length payload < 2 ^ 32"
  shows "read_le32 (record_bytes lib lsn kind tick payload @ rest) = of_nat (28 + length payload)"
    "drop 4 (record_bytes lib lsn kind tick payload @ rest) =
       record_header lsn kind tick payload @ payload
         @ write_le32 (record_crc lib (record_header lsn kind tick payload) payload) @ rest"
  by (simp_all add: record_bytes_def codec_simps)

lemma record_header_fields:
  "read_le16 (record_header lsn kind tick payload @ rest) = kRecordFormatVersion"
  "read_le16 (drop 2 (record_header lsn kind tick payload @ rest)) = kind"
  "read_le64 (drop 4 (record_header lsn kind tick payload @ rest)) = lsn_value lsn"
  "read_le64 (drop 12 (record_header lsn kind tick payload @ rest)) = tick"
  "read_le32 (drop 20 (record_header lsn kind tick payload @ rest)) = of_nat (length payload)"
  by (simp_all add: record_header_def codec_simps)

lemma frame_total_bytes:
  assumes "28 + n < 2 ^ 32"
  shows "of_nat kRecordLengthPrefixBytes + ucast (of_nat (28 + n) :: u32) = (of_nat (32 + n) :: u64)"
    "unat (of_nat (32 + n) :: u64) = 32 + n" "unat (ucast (of_nat (28 + n) :: u32) :: u64) = 28 + n"
proof -
  show b: "unat (ucast (of_nat (28 + n) :: u32) :: u64) = 28 + n"
    using assms unat_small [OF assms] by (simp add: unsigned_ucast_eq take_bit_nat_eq_self)
  show "unat (of_nat (32 + n) :: u64) = 32 + n"
    using assms by (simp add: unat_of_nat take_bit_nat_eq_self del: of_nat_add of_nat_numeral)
  have "ucast (of_nat (28 + n) :: u32) = (of_nat (28 + n) :: u64)"
    by (metis b of_nat_unat ucast_id)
  then show "of_nat kRecordLengthPrefixBytes + ucast (of_nat (28 + n) :: u32) = (of_nat (32 + n) :: u64)"
    by (simp add: wal_sizes)
qed

lemma decode_record_bytes [codec_simps]:
  assumes "28 + length payload < 2 ^ 32" "28 + length payload \<le> unat max_record_bytes"
  shows "decode_record lib (record_bytes lib lsn kind tick payload @ rest) max_record_bytes =
     (RDS_ok, \<lparr>dr_lsn = lsn, dr_kind = kind, dr_target_tick = tick, dr_payload = payload,
        dr_total_bytes = of_nat (32 + length payload)\<rparr>)"
proof -
  note total = frame_total_bytes [OF assms(1)]
  have bound: "\<not> ucast (of_nat (28 + length payload) :: u32) > max_record_bytes"
    using assms(2) total(3) by (simp only: word_less_nat_alt)
  have len: "unat (of_nat (length payload) :: u32) = length payload"
    using assms(1) by (intro unat_small) simp
  define b where "b = record_bytes lib lsn kind tick payload @ rest"
  have b: "length b = 32 + length payload + length rest" "read_le32 b = of_nat (28 + length payload)"
    "drop 4 b = record_header lsn kind tick payload @ payload
       @ write_le32 (record_crc lib (record_header lsn kind tick payload) payload) @ rest"
    using record_bytes_prefix [OF assms(1)] by (simp_all add: b_def)
  show ?thesis
    unfolding b_def [symmetric] decode_record_def Let_def b total(1)
    unfolding kRecordLengthPrefixBytes_def b record_header_fields
    using bound len total(2) unat_small [OF assms(1)] b(1)
    by (simp add: wal_sizes codec_simps)
qed

lemma decode_torn:
  assumes "28 + length payload < 2 ^ 32" "28 + length payload \<le> unat max_record_bytes"
    and "n < 32 + length payload"
  shows "fst (decode_record lib (take n (record_bytes lib lsn kind tick payload)) max_record_bytes) = RDS_incomplete"
proof (cases "n < 4")
  case True
  then show ?thesis by (simp add: decode_record_def wal_sizes)
next
  case False
  note total = frame_total_bytes [OF assms(1)]
  have "read_le32 (take n (record_bytes lib lsn kind tick payload)) = of_nat (28 + length payload)"
    using False record_bytes_prefix(1) [OF assms(1), of lib lsn kind tick "[]"]
    by (simp add: read_le32_def min_absorb1)
  moreover have "\<not> ucast (of_nat (28 + length payload) :: u32) > max_record_bytes"
    using assms(2) total(3) by (simp only: word_less_nat_alt)
  ultimately show ?thesis
    using False assms(3) total unat_small [OF assms(1)]
    by (simp add: decode_record_def wal_sizes Let_def)
qed

lemma length_kSegmentMagic [simp]: "length kSegmentMagic = 4"
  by (simp add: kSegmentMagic_def)

lemma length_encode_segment_header [simp]: "length (encode_segment_header l) = 16"
  by (simp add: encode_segment_header_def)

lemma parse_segment_header_bytes [codec_simps]:
  "lsn_valid l \<Longrightarrow> parse_segment_header (encode_segment_header l @ rest) l' = (True, l)"
  by (simp add: parse_segment_header_def wal_sizes encode_segment_header_def codec_simps)

section \<open>Names of segments\<close>

lemma length_padded_decimal [simp]: "length (padded_decimal k n) = k"
  by (induction k arbitrary: n) auto

lemma parse_digits_snoc:
  "parse_digits v (cs @ [c]) =
     (case parse_digits v cs of None \<Rightarrow> None
      | Some w \<Rightarrow> if c < CHR ''0'' \<or> c > CHR ''9'' then None else Some (w * 10 + of_nat (of_char c - 48)))"
  by (induction cs arbitrary: v) auto

lemma digit_facts:
  assumes "n < 10"
  shows "\<not> digit n < CHR ''0''" "\<not> CHR ''9'' < digit n" "of_char (digit n) = 48 + n"
  using assms by (simp_all add: digit_def less_char_def)

lemma parse_padded_decimal: "n < 10 ^ k \<Longrightarrow> parse_digits 0 (padded_decimal k n) = Some (of_nat n)"
proof (induction k arbitrary: n)
  case 0
  then show ?case by simp
next
  case (Suc k)
  then have "n div 10 < 10 ^ k" by (simp add: less_mult_imp_div_less)
  note IH = Suc.IH [OF this]
  have "of_nat (n div 10) * 10 + of_nat (n mod 10) = (of_nat n :: u64)"
    by (metis div_mult_mod_eq of_nat_add of_nat_mult of_nat_numeral)
  with IH digit_facts [of "n mod 10"] show ?case by (simp add: parse_digits_snoc)
qed

lemma parse_segment_file_name_of [codec_simps]:
  assumes "lsn_valid l"
  shows "parse_segment_file_name (segment_file_name l) = Some l"
proof -
  have "unat (lsn_value l) < 10 ^ 20"
    using unsigned_less [of "lsn_value l", where 'a = nat] by simp
  from parse_padded_decimal [OF this] assms show ?thesis
    by (simp add: parse_segment_file_name_def segment_file_name_def)
qed

text \<open>The value of twenty digits may not fit: two names can stand for one number.\<close>

lemma parse_segment_file_name_wraps:
  "parse_segment_file_name ''seg-18446744073709551617'' = Some (Lsn 1)"
  "parse_segment_file_name ''seg-00000000000000000001'' = Some (Lsn 1)"
  by (simp_all add: parse_segment_file_name_def lsn_valid_def less_char_def)

end
