(* ===== verification/Storage.thy ===== *)
theory Storage
  imports Wal_Codec Foundation
begin

text \<open>
  \<^verbatim>\<open>libs/persistence/storage.cpp\<close>: the POSIX file operations and the atomic publication of a file.
  The disk holds for every file its bytes and how many of them are known to be on stable storage. The
  outcomes of the system calls come from a plan: a call takes the next outcome of the plan and succeeds
  when there is none left. The outcomes of \<open>truncate\<close> have a plan of their own, because the scan of
  the log does not look at its answer. The counter of temporary names belongs to the process.
\<close>

section \<open>Paths and system calls\<close>

text \<open>The components of a path; \<open>p / name\<close> appends one.\<close>

type_synonym Path = "string list"

definition path_append :: "Path \<Rightarrow> string \<Rightarrow> Path" where
  "path_append p name = p @ [name]"

definition parent_path :: "Path \<Rightarrow> Path" where
  "parent_path p = butlast p"

definition path_filename :: "Path \<Rightarrow> string" where
  "path_filename p = (if p = [] then [] else List.last p)"

datatype Errno = ENOSPC | EACCES | EPERM | EDQUOT | EINTR | ENOENT | ENOTDIR | EEXIST | EIO

definition map_errno :: "Errno \<Rightarrow> PersistenceError" where
  "map_errno error_number =
     (if error_number = ENOSPC \<or> error_number = EACCES \<or> error_number = EPERM \<or> error_number = EDQUOT
      then PE_no_space_or_permission else PE_io_failure)"

text \<open>The outcome of a system call; a short count is one of \<open>read\<close> or \<open>write\<close>.\<close>

datatype SysResult = Sys_ok | Sys_short nat | Sys_error Errno

record FileNode =
  fn_bytes :: bytes
  fn_synced :: nat

record Disk =
  dk_files :: "(Path, FileNode) fmap"
  dk_dirs :: "Path fset"
  dk_plan :: "SysResult list"
  dk_truncate_plan :: "SysResult list"
  dk_temp_counter :: u64

text \<open>One call: its error number, if it failed.\<close>

fun call_outcome :: "SysResult list \<Rightarrow> Errno option \<times> SysResult list" where
  "call_outcome [] = (None, [])"
| "call_outcome (Sys_error e # plan) = (Some e, plan)"
| "call_outcome (r # plan) = (None, plan)"

definition sys_call :: "Disk \<Rightarrow> Errno option \<times> Disk" where
  "sys_call d = (let (e, plan) = call_outcome (dk_plan d) in (e, d\<lparr>dk_plan := plan\<rparr>))"

text \<open>A call that is repeated while it is interrupted.\<close>

fun retried_outcome :: "SysResult list \<Rightarrow> Errno option \<times> SysResult list" where
  "retried_outcome [] = (None, [])"
| "retried_outcome (Sys_error e # plan) = (if e = EINTR then retried_outcome plan else (Some e, plan))"
| "retried_outcome (r # plan) = (None, plan)"

definition retried_call :: "Disk \<Rightarrow> Errno option \<times> Disk" where
  "retried_call d = (let (e, plan) = retried_outcome (dk_plan d) in (e, d\<lparr>dk_plan := plan\<rparr>))"

section \<open>Writable files\<close>

text \<open>A handle names its file; the code never uses a handle after its file was renamed.\<close>

record WritableFile =
  wf_path :: Path
  wf_size :: u64

definition update_node :: "Path \<Rightarrow> (FileNode \<Rightarrow> FileNode) \<Rightarrow> Disk \<Rightarrow> Disk" where
  "update_node p f d =
     (case fmlookup (dk_files d) p of None \<Rightarrow> d | Some n \<Rightarrow> d\<lparr>dk_files := fmupd p (f n) (dk_files d)\<rparr>)"

text \<open>The loop of \<open>write\<close>: what it has written, its error, and the rest of the plan.\<close>

fun write_loop :: "SysResult list \<Rightarrow> bytes \<Rightarrow> bytes \<Rightarrow> PersistenceError \<times> bytes \<times> SysResult list" where
  "write_loop [] data written = (PE_none, written @ data, [])"
| "write_loop (r # plan) data written =
     (if data = [] then (PE_none, written, r # plan)
      else case r of
        Sys_ok \<Rightarrow> (PE_none, written @ data, plan)
      | Sys_short n \<Rightarrow> write_loop plan (drop n data) (written @ take n data)
      | Sys_error e \<Rightarrow> if e = EINTR then write_loop plan data written else (map_errno e, written, plan))"

definition file_write :: "WritableFile \<Rightarrow> bytes \<Rightarrow> Disk \<Rightarrow> PersistenceError \<times> WritableFile \<times> Disk" where
  "file_write f data d =
     (let (error, written, plan) = write_loop (dk_plan d) data [];
          d = update_node (wf_path f) (\<lambda>n. n\<lparr>fn_bytes := fn_bytes n @ written\<rparr>) (d\<lparr>dk_plan := plan\<rparr>)
      in if error \<noteq> PE_none then (error, f, d)
         else (PE_none, f\<lparr>wf_size := wf_size f + of_nat (length data)\<rparr>, d))"

definition file_sync :: "WritableFile \<Rightarrow> Disk \<Rightarrow> PersistenceError \<times> Disk" where
  "file_sync f d =
     (let (e, d) = retried_call d in
      case e of
        Some error_number \<Rightarrow>
          let mapped = map_errno error_number
          in (if mapped = PE_io_failure then PE_sync_failed else mapped, d)
      | None \<Rightarrow> (PE_none, update_node (wf_path f) (\<lambda>n. n\<lparr>fn_synced := length (fn_bytes n)\<rparr>) d))"

section \<open>File operations\<close>

definition open_append :: "Path \<Rightarrow> Disk \<Rightarrow> (PersistenceError + WritableFile) \<times> Disk" where
  "open_append p d =
     (let (e, d) = sys_call d in
      case e of Some error_number \<Rightarrow> (Inl (map_errno error_number), d)
      | None \<Rightarrow>
          case fmlookup (dk_files d) p of None \<Rightarrow> (Inl (map_errno ENOENT), d)
          | Some n \<Rightarrow>
              let (e, d) = sys_call d in
              case e of Some error_number \<Rightarrow> (Inl (map_errno error_number), d)
              | None \<Rightarrow> (Inr \<lparr>wf_path = p, wf_size = of_nat (length (fn_bytes n))\<rparr>, d))"

definition create_exclusive :: "Path \<Rightarrow> Disk \<Rightarrow> (PersistenceError + WritableFile) \<times> Disk" where
  "create_exclusive p d =
     (let (e, d) = sys_call d in
      case e of Some error_number \<Rightarrow> (Inl (map_errno error_number), d)
      | None \<Rightarrow>
          if parent_path p |\<notin>| dk_dirs d then (Inl (map_errno ENOENT), d)
          else if fmlookup (dk_files d) p \<noteq> None then (Inl (map_errno EEXIST), d)
          else (Inr \<lparr>wf_path = p, wf_size = 0\<rparr>,
                d\<lparr>dk_files := fmupd p \<lparr>fn_bytes = [], fn_synced = 0\<rparr> (dk_files d)\<rparr>))"

definition rename_file :: "Path \<Rightarrow> Path \<Rightarrow> Disk \<Rightarrow> PersistenceError \<times> Disk" where
  "rename_file source dest d =
     (let (e, d) = sys_call d in
      case e of Some error_number \<Rightarrow> (map_errno error_number, d)
      | None \<Rightarrow>
          case fmlookup (dk_files d) source of None \<Rightarrow> (map_errno ENOENT, d)
          | Some n \<Rightarrow> (PE_none, d\<lparr>dk_files := fmupd dest n (fmdrop source (dk_files d))\<rparr>))"

definition sync_directory :: "Path \<Rightarrow> Disk \<Rightarrow> PersistenceError \<times> Disk" where
  "sync_directory dir d =
     (let (e, d) = sys_call d in
      case e of Some error_number \<Rightarrow> (map_errno error_number, d)
      | None \<Rightarrow>
          if dir |\<notin>| dk_dirs d then (map_errno ENOENT, d)
          else let (e, d) = retried_call d in (if e = None then PE_none else PE_sync_failed, d))"

definition truncate_file :: "Path \<Rightarrow> u64 \<Rightarrow> Disk \<Rightarrow> PersistenceError \<times> Disk" where
  "truncate_file p len d =
     (let (e, plan) = call_outcome (dk_truncate_plan d); d = d\<lparr>dk_truncate_plan := plan\<rparr> in
      case e of Some error_number \<Rightarrow> (map_errno error_number, d)
      | None \<Rightarrow>
          case fmlookup (dk_files d) p of None \<Rightarrow> (map_errno ENOENT, d)
          | Some n \<Rightarrow>
              let bs = take (unat len) (fn_bytes n) @ replicate (unat len - length (fn_bytes n)) 0
              in (PE_none, update_node p (\<lambda>n. n\<lparr>fn_bytes := bs, fn_synced := min (fn_synced n) (unat len)\<rparr>) d))"

fun read_loop :: "SysResult list \<Rightarrow> bytes \<Rightarrow> bytes \<Rightarrow> (PersistenceError + bytes) \<times> SysResult list" where
  "read_loop [] rest contents = (Inr (contents @ rest), [])"
| "read_loop (r # plan) rest contents =
     (if rest = [] then (Inr contents, r # plan)
      else case r of
        Sys_ok \<Rightarrow> (Inr (contents @ rest), plan)
      | Sys_short n \<Rightarrow> if n = 0 then (Inr contents, plan)
          else read_loop plan (drop n rest) (contents @ take n rest)
      | Sys_error e \<Rightarrow> if e = EINTR then read_loop plan rest contents else (Inl (map_errno e), plan))"

definition read_file :: "Path \<Rightarrow> Disk \<Rightarrow> (PersistenceError + bytes) \<times> Disk" where
  "read_file p d =
     (let (e, d) = sys_call d;
          e = (if e = None \<and> fmlookup (dk_files d) p = None then Some ENOENT else e) in
      case e of
        Some error_number \<Rightarrow>
          (Inl (if error_number = ENOENT \<or> error_number = ENOTDIR then PE_not_found
                else map_errno error_number), d)
      | None \<Rightarrow>
          let (e1, d) = sys_call d in
          case e1 of Some error_number \<Rightarrow> (Inl (map_errno error_number), d)
          | None \<Rightarrow>
              let (e2, d) = sys_call d in
              case e2 of Some error_number \<Rightarrow> (Inl (map_errno error_number), d)
              | None \<Rightarrow>
                  let (result, plan) = read_loop (dk_plan d) (fn_bytes (the (fmlookup (dk_files d) p))) []
                  in (result, d\<lparr>dk_plan := plan\<rparr>))"

text \<open>The order of a directory is not specified; here it is that of the names.\<close>

definition list_files :: "Path \<Rightarrow> Disk \<Rightarrow> (PersistenceError + Path list) \<times> Disk" where
  "list_files dir d =
     (let (e, d) = sys_call d;
          e = (if e = None \<and> dir |\<notin>| dk_dirs d then Some ENOENT else e) in
      case e of
        Some error_number \<Rightarrow> (Inl (if error_number = ENOENT then PE_not_found else PE_io_failure), d)
      | None \<Rightarrow> (Inr (filter (\<lambda>p. p \<noteq> [] \<and> parent_path p = dir) (fm_keys (dk_files d))), d))"

definition list_directories :: "Path \<Rightarrow> Disk \<Rightarrow> (PersistenceError + Path list) \<times> Disk" where
  "list_directories dir d =
     (let (e, d) = sys_call d;
          e = (if e = None \<and> dir |\<notin>| dk_dirs d then Some ENOENT else e) in
      case e of
        Some error_number \<Rightarrow> (Inl (if error_number = ENOENT then PE_not_found else PE_io_failure), d)
      | None \<Rightarrow> (Inr (filter (\<lambda>p. p \<noteq> [] \<and> parent_path p = dir) (sorted_list_of_fset (dk_dirs d))), d))"

definition remove_file :: "Path \<Rightarrow> Disk \<Rightarrow> PersistenceError \<times> Disk" where
  "remove_file p d =
     (let (e, d) = sys_call d in
      case e of
        Some error_number \<Rightarrow> (if error_number \<noteq> ENOENT then map_errno error_number else PE_none, d)
      | None \<Rightarrow> (PE_none, d\<lparr>dk_files := fmdrop p (dk_files d)\<rparr>))"

text \<open>The directory and those above it, as one call.\<close>

definition create_directories :: "Path \<Rightarrow> Disk \<Rightarrow> PersistenceError \<times> Disk" where
  "create_directories dir d =
     (let (e, d) = sys_call d in
      case e of Some error_number \<Rightarrow> (map_errno error_number, d)
      | None \<Rightarrow> (PE_none, d\<lparr>dk_dirs := dk_dirs d |\<union>| fset_of_list (map (\<lambda>n. take n dir) [0..<Suc (length dir)])\<rparr>))"

section \<open>Atomic publication\<close>

fun decimal :: "nat \<Rightarrow> string" where
  "decimal n = (if n < 10 then [digit n] else decimal (n div 10) @ [digit (n mod 10)])"

declare decimal.simps [simp del]

definition kTempFilePrefix :: string where
  "kTempFilePrefix = ''tmp-''"

definition atomic_publish :: "Path \<Rightarrow> bytes \<Rightarrow> Disk \<Rightarrow> PersistenceError \<times> Disk" where
  "atomic_publish final_path contents d =
     (let parent = parent_path final_path;
          counter = dk_temp_counter d + 1;
          d = d\<lparr>dk_temp_counter := counter\<rparr>;
          temp_name = kTempFilePrefix @ path_filename final_path @ ''-'' @ decimal (unat counter);
          temp_path = path_append parent temp_name;
          (created, d) = create_exclusive temp_path d
      in case created of
        Inl error \<Rightarrow> (error, d)
      | Inr f \<Rightarrow>
          let (error, f, d) = file_write f contents d;
              (error, d) = (if error = PE_none then file_sync f d else (error, d));
              (error, d) = (if error = PE_none then rename_file temp_path final_path d else (error, d));
              (error, d) = (if error = PE_none then sync_directory parent d else (error, d));
              (_, d) = (if error \<noteq> PE_none then remove_file temp_path d else (PE_none, d))
          in (error, d))"

section \<open>The layout of a branch\<close>

definition hex_digits :: string where
  "hex_digits = ''0123456789abcdef''"

record DurableLayout =
  dl_root :: Path

definition wal_dir :: "DurableLayout \<Rightarrow> Path" where
  "wal_dir l = path_append (dl_root l) ''wal''"

definition manifest_dir :: "DurableLayout \<Rightarrow> Path" where
  "manifest_dir l = path_append (dl_root l) ''manifests''"

definition checkpoint_dir :: "DurableLayout \<Rightarrow> Path" where
  "checkpoint_dir l = path_append (dl_root l) ''checkpoints''"

definition directory_manifest_path :: "DurableLayout \<Rightarrow> Path" where
  "directory_manifest_path l = path_append (manifest_dir l) ''directory.gwmanifest''"

definition make_durable_layout :: "Path \<Rightarrow> WorldId \<Rightarrow> BranchId \<Rightarrow> DurableLayout" where
  "make_durable_layout durable_root world branch =
     (let branch_text = concat (map (\<lambda>b.
        [hex_digits ! unat (drop_bit 4 b AND 15), hex_digits ! unat (b AND 15)]) branch)
      in \<lparr>dl_root = path_append (path_append durable_root (''world-'' @ decimal (unat (wid_value world))))
             (''branch-'' @ branch_text)\<rparr>)"

section \<open>What the calls do to files\<close>

lemma map_errno_error [simp]: "map_errno e \<noteq> PE_none"
  by (simp add: map_errno_def)

lemma call_outcome_cases: "\<exists>e plan. call_outcome p = (e, plan)"
  by simp

lemma sys_call_frame [frame_simps]:
  "dk_files (snd (sys_call d)) = dk_files d" "dk_dirs (snd (sys_call d)) = dk_dirs d"
  "dk_truncate_plan (snd (sys_call d)) = dk_truncate_plan d"
  "dk_files (snd (retried_call d)) = dk_files d" "dk_dirs (snd (retried_call d)) = dk_dirs d"
  "dk_truncate_plan (snd (retried_call d)) = dk_truncate_plan d"
  by (simp_all add: sys_call_def retried_call_def split: prod.split)

lemma sys_call_eqD:
  assumes "sys_call d = (e, d')"
  shows "dk_files d' = dk_files d" "dk_dirs d' = dk_dirs d" "dk_truncate_plan d' = dk_truncate_plan d"
  using sys_call_frame(1-3) [of d] assms by simp_all

lemma retried_call_eqD:
  assumes "retried_call d = (e, d')"
  shows "dk_files d' = dk_files d" "dk_dirs d' = dk_dirs d" "dk_truncate_plan d' = dk_truncate_plan d"
  using sys_call_frame(4-6) [of d] assms by simp_all

lemma update_node_lookup:
  "fmlookup (dk_files (update_node p f d)) q =
     (if q = p then map_option f (fmlookup (dk_files d) p) else fmlookup (dk_files d) q)"
  by (auto simp: update_node_def split: option.split)

lemma update_node_frame [frame_simps]:
  "dk_dirs (update_node p f d) = dk_dirs d" "dk_truncate_plan (update_node p f d) = dk_truncate_plan d"
  by (simp_all add: update_node_def split: option.split)

lemma write_loop_written:
  "write_loop plan data written = (e, written', plan') \<Longrightarrow>
     \<exists>k. written' = written @ take k data \<and> (if e = PE_none then length data \<le> k else k < length data)"
proof (induction plan data written rule: write_loop.induct)
  case (1 data written)
  then show ?case by (auto intro: exI [of _ "length data"])
next
  case (2 r plan data written)
  show ?case
  proof (cases "data = []")
    case True
    with 2 show ?thesis by auto
  next
    case False
    show ?thesis
    proof (cases r)
      case Sys_ok
      with False 2 show ?thesis by (auto intro: exI [of _ "length data"])
    next
      case (Sys_short n)
      with False 2(3) 2(1) [OF False] obtain k where
        "written' = (written @ take n data) @ take k (drop n data)"
        "if e = PE_none then length (drop n data) \<le> k else k < length (drop n data)" by auto
      then show ?thesis by (intro exI [of _ "n + k"]) (auto simp: take_add)
    next
      case (Sys_error e')
      show ?thesis
      proof (cases "e' = EINTR")
        case True
        with False 2 Sys_error show ?thesis by simp
      next
        case other: False
        with False 2(3) Sys_error have "e \<noteq> PE_none" "written' = written" by auto
        with False show ?thesis by (intro exI [of _ 0]) simp
      qed
    qed
  qed
qed

text \<open>A write appends a prefix of the data, all of it if it succeeds.\<close>

lemma file_write_lookup:
  assumes "file_write f data d = (e, f', d')"
  shows "\<exists>k. (\<forall>q. fmlookup (dk_files d') q = (if q = wf_path f
       then map_option (\<lambda>n. n\<lparr>fn_bytes := fn_bytes n @ take k data\<rparr>) (fmlookup (dk_files d) q)
       else fmlookup (dk_files d) q)) \<and>
     (if e = PE_none then length data \<le> k else k < length data)"
    "wf_path f' = wf_path f" "dk_dirs d' = dk_dirs d" "dk_truncate_plan d' = dk_truncate_plan d"
proof -
  obtain error written plan where loop: "write_loop (dk_plan d) data [] = (error, written, plan)"
    by (metis prod_cases3)
  from write_loop_written [OF loop] obtain k where
    k: "written = take k data" "if error = PE_none then length data \<le> k else k < length data" by auto
  show "\<exists>k. (\<forall>q. fmlookup (dk_files d') q = (if q = wf_path f
       then map_option (\<lambda>n. n\<lparr>fn_bytes := fn_bytes n @ take k data\<rparr>) (fmlookup (dk_files d) q)
       else fmlookup (dk_files d) q)) \<and>
     (if e = PE_none then length data \<le> k else k < length data)"
    by (rule exI [of _ k]) (use assms loop k in
      \<open>auto simp: file_write_def Let_def update_node_lookup update_node_frame split: if_splits\<close>)
  show "wf_path f' = wf_path f" "dk_dirs d' = dk_dirs d" "dk_truncate_plan d' = dk_truncate_plan d"
    using assms loop by (auto simp: file_write_def Let_def update_node_frame split: if_splits)
qed

lemma file_sync_lookup:
  assumes "file_sync f d = (e, d')"
  shows "fmlookup (dk_files d') q = (if q = wf_path f \<and> e = PE_none
       then map_option (\<lambda>n. n\<lparr>fn_synced := length (fn_bytes n)\<rparr>) (fmlookup (dk_files d) q)
       else fmlookup (dk_files d) q)"
    "dk_dirs d' = dk_dirs d" "dk_truncate_plan d' = dk_truncate_plan d"
  using assms by (auto simp: file_sync_def Let_def update_node_lookup update_node_frame
      split: prod.splits option.splits if_splits dest: retried_call_eqD)

lemma create_exclusive_lookup:
  assumes "create_exclusive p d = (r, d')"
  shows "case r of
       Inl e \<Rightarrow> e \<noteq> PE_none \<and> dk_files d' = dk_files d
     | Inr f \<Rightarrow> wf_path f = p \<and> wf_size f = 0 \<and> fmlookup (dk_files d) p = None \<and>
         dk_files d' = fmupd p \<lparr>fn_bytes = [], fn_synced = 0\<rparr> (dk_files d)"
    "dk_dirs d' = dk_dirs d" "dk_truncate_plan d' = dk_truncate_plan d"
  using assms by (auto simp: create_exclusive_def Let_def
      split: prod.splits option.splits if_splits dest: sys_call_eqD)

lemma rename_file_lookup:
  assumes "rename_file source dest d = (e, d')"
  shows "if e = PE_none
     then \<exists>n. fmlookup (dk_files d) source = Some n \<and> dk_files d' = fmupd dest n (fmdrop source (dk_files d))
     else dk_files d' = dk_files d"
    "dk_dirs d' = dk_dirs d" "dk_truncate_plan d' = dk_truncate_plan d"
  using assms by (auto simp: rename_file_def Let_def
      split: prod.splits option.splits if_splits dest: sys_call_eqD)

lemma sync_directory_frame:
  assumes "sync_directory dir d = (e, d')"
  shows "dk_files d' = dk_files d" "dk_dirs d' = dk_dirs d" "dk_truncate_plan d' = dk_truncate_plan d"
proof -
  obtain e1 d1 where 1: "sys_call d = (e1, d1)" by (metis surj_pair)
  obtain e2 d2 where 2: "retried_call d1 = (e2, d2)" by (metis surj_pair)
  show "dk_files d' = dk_files d" "dk_dirs d' = dk_dirs d" "dk_truncate_plan d' = dk_truncate_plan d"
    using assms sys_call_eqD [OF 1] retried_call_eqD [OF 2]
    by (auto simp: sync_directory_def 1 2 split: option.splits if_splits)
qed

lemma remove_file_lookup:
  assumes "remove_file p d = (e, d')"
  shows "dk_files d' = dk_files d \<or> dk_files d' = fmdrop p (dk_files d)"
    "dk_dirs d' = dk_dirs d" "dk_truncate_plan d' = dk_truncate_plan d"
  using assms by (auto simp: remove_file_def Let_def
      split: prod.splits option.splits if_splits dest: sys_call_eqD)

section \<open>Publication is atomic\<close>

definition temp_path :: "Path \<Rightarrow> Disk \<Rightarrow> Path" where
  "temp_path final_path d =
     path_append (parent_path final_path)
       (kTempFilePrefix @ path_filename final_path @ ''-'' @ decimal (unat (dk_temp_counter d + 1)))"

lemma temp_path_other: "final_path \<noteq> [] \<Longrightarrow> temp_path final_path d \<noteq> final_path"
proof
  assume "final_path \<noteq> []" "temp_path final_path d = final_path"
  then have "path_filename (temp_path final_path d) = List.last final_path"
    by (simp add: path_filename_def)
  then show False
    using \<open>final_path \<noteq> []\<close> by (simp add: temp_path_def path_append_def path_filename_def kTempFilePrefix_def)
qed

lemma atomic_publish_eq:
  "atomic_publish final_path contents d =
     (case create_exclusive (temp_path final_path d) (d\<lparr>dk_temp_counter := dk_temp_counter d + 1\<rparr>) of
        (Inl error, d1) \<Rightarrow> (error, d1)
      | (Inr f, d1) \<Rightarrow>
          (case file_write f contents d1 of (e2, f2, d2) \<Rightarrow>
           case if e2 = PE_none then file_sync f2 d2 else (e2, d2) of (e3, d3) \<Rightarrow>
           case if e3 = PE_none then rename_file (temp_path final_path d) final_path d3 else (e3, d3) of (e4, d4) \<Rightarrow>
           case if e4 = PE_none then sync_directory (parent_path final_path) d4 else (e4, d4) of (e5, d5) \<Rightarrow>
           case if e5 \<noteq> PE_none then remove_file (temp_path final_path d) d5 else (PE_none, d5) of (_, d6) \<Rightarrow>
             (e5, d6)))"
  by (simp add: atomic_publish_def temp_path_def Let_def split: prod.split sum.split)

text \<open>The five calls after the creation of the temporary file.\<close>

lemma publish_files:
  assumes "final_path \<noteq> []" "atomic_publish final_path contents d = (e, d')"
  shows "dk_dirs d' = dk_dirs d" "dk_truncate_plan d' = dk_truncate_plan d"
    "\<forall>p. p \<noteq> final_path \<longrightarrow> p \<noteq> temp_path final_path d \<longrightarrow> fmlookup (dk_files d') p = fmlookup (dk_files d) p"
    "fmlookup (dk_files d') final_path = fmlookup (dk_files d) final_path \<and> e \<noteq> PE_none \<or>
     fmlookup (dk_files d') final_path = Some \<lparr>fn_bytes = contents, fn_synced = length contents\<rparr>"
proof -
  let ?t = "temp_path final_path d"
  let ?d = "d\<lparr>dk_temp_counter := dk_temp_counter d + 1\<rparr>"
  note other = temp_path_other [OF assms(1), of d]
  obtain r d1 where create: "create_exclusive ?t ?d = (r, d1)" by (metis surj_pair)
  note created = create_exclusive_lookup [OF create]
  let ?goal = "dk_dirs d' = dk_dirs d \<and> dk_truncate_plan d' = dk_truncate_plan d \<and>
    (\<forall>p. p \<noteq> final_path \<longrightarrow> p \<noteq> ?t \<longrightarrow> fmlookup (dk_files d') p = fmlookup (dk_files d) p) \<and>
    (fmlookup (dk_files d') final_path = fmlookup (dk_files d) final_path \<and> e \<noteq> PE_none \<or>
     fmlookup (dk_files d') final_path = Some \<lparr>fn_bytes = contents, fn_synced = length contents\<rparr>)"
  have ?goal
  proof (cases r)
    case (Inl err)
    then have "e = err" "d' = d1"
      using assms(2) [unfolded atomic_publish_eq create prod.case Inl sum.case] by simp_all
    with Inl created show ?thesis by simp
  next
    case (Inr f)
    obtain e2 f2 d2 where wrote: "file_write f contents d1 = (e2, f2, d2)" by (metis prod_cases3)
    from file_write_lookup(1) [OF wrote] obtain k where
      written: "\<forall>q. fmlookup (dk_files d2) q = (if q = wf_path f
         then map_option (\<lambda>n. n\<lparr>fn_bytes := fn_bytes n @ take k contents\<rparr>) (fmlookup (dk_files d1) q)
         else fmlookup (dk_files d1) q)"
        "if e2 = PE_none then length contents \<le> k else k < length contents" by blast
    note written = written file_write_lookup(2-) [OF wrote]
    obtain e3 d3 where sync: "(if e2 = PE_none then file_sync f2 d2 else (e2, d2)) = (e3, d3)"
      by (metis surj_pair)
    obtain e4 d4 where rename: "(if e3 = PE_none then rename_file ?t final_path d3 else (e3, d3)) = (e4, d4)"
      by (metis surj_pair)
    obtain e5 d5 where dir: "(if e4 = PE_none then sync_directory (parent_path final_path) d4 else (e4, d4)) = (e5, d5)"
      by (metis surj_pair)
    obtain e6 d6 where clean: "(if e5 \<noteq> PE_none then remove_file ?t d5 else (PE_none, d5)) = (e6, d6)"
      by (metis surj_pair)
    have result: "e = e5" "d' = d6"
      using assms(2) [unfolded atomic_publish_eq create prod.case Inr sum.case wrote sync rename dir clean]
      by simp_all
    have f: "wf_path f = ?t" and d1: "dk_files d1 = fmupd ?t \<lparr>fn_bytes = [], fn_synced = 0\<rparr> (dk_files d)"
      using created Inr by simp_all
    have 3: "dk_dirs d3 = dk_dirs d" "dk_truncate_plan d3 = dk_truncate_plan d"
      "p \<noteq> ?t \<Longrightarrow> fmlookup (dk_files d3) p = fmlookup (dk_files d) p"
      "e3 = PE_none \<Longrightarrow> fmlookup (dk_files d3) ?t = Some \<lparr>fn_bytes = contents, fn_synced = length contents\<rparr>" for p
      using sync file_sync_lookup [of f2 d2 e3 d3] written f d1 created(2,3)
      by (auto split: if_splits)
    have 4: "dk_dirs d4 = dk_dirs d" "dk_truncate_plan d4 = dk_truncate_plan d"
      "if e4 = PE_none then dk_files d4 = fmupd final_path \<lparr>fn_bytes = contents, fn_synced = length contents\<rparr>
          (fmdrop ?t (dk_files d3)) else dk_files d4 = dk_files d3"
      using rename rename_file_lookup [of ?t final_path d3 e4 d4] 3 by (auto split: if_splits)
    have 5: "dk_dirs d5 = dk_dirs d" "dk_truncate_plan d5 = dk_truncate_plan d" "dk_files d5 = dk_files d4"
      "e4 \<noteq> PE_none \<Longrightarrow> e5 \<noteq> PE_none"
      using dir sync_directory_frame [of "parent_path final_path" d4 e5 d5] 4 by (auto split: if_splits)
    have 6: "dk_dirs d6 = dk_dirs d" "dk_truncate_plan d6 = dk_truncate_plan d"
      "p \<noteq> ?t \<Longrightarrow> fmlookup (dk_files d6) p = fmlookup (dk_files d5) p" for p
      using clean remove_file_lookup [of ?t d5 e6 d6] 5 by (auto split: if_splits)
    show ?thesis
      unfolding result using 3 4 5 6 other by (auto split: if_splits)
  qed
  then show "dk_dirs d' = dk_dirs d" "dk_truncate_plan d' = dk_truncate_plan d"
    "\<forall>p. p \<noteq> final_path \<longrightarrow> p \<noteq> ?t \<longrightarrow> fmlookup (dk_files d') p = fmlookup (dk_files d) p"
    "fmlookup (dk_files d') final_path = fmlookup (dk_files d) final_path \<and> e \<noteq> PE_none \<or>
     fmlookup (dk_files d') final_path = Some \<lparr>fn_bytes = contents, fn_synced = length contents\<rparr>"
    by blast+
qed

text \<open>
  C19: publication of a file is atomic. Whatever system calls fail on the way, and however little a
  failing write wrote, the final name afterwards has exactly its old contents or exactly the new ones,
  all of them synced, and success means the new ones; only the temporary file is touched otherwise.
\<close>

theorem publish_is_atomic:
  assumes "final_path \<noteq> []"
  shows "case atomic_publish final_path contents d of (e, d') \<Rightarrow>
     (if e = PE_none
      then fmlookup (dk_files d') final_path = Some \<lparr>fn_bytes = contents, fn_synced = length contents\<rparr>
      else fmlookup (dk_files d') final_path \<in>
        {fmlookup (dk_files d) final_path, Some \<lparr>fn_bytes = contents, fn_synced = length contents\<rparr>}) \<and>
     (\<forall>p. if p \<in> {final_path, temp_path final_path d} then True
        else fmlookup (dk_files d') p = fmlookup (dk_files d) p)"
proof -
  obtain e d' where "atomic_publish final_path contents d = (e, d')" by (metis surj_pair)
  with publish_files [OF assms this] show ?thesis by auto
qed

definition example_disk :: Disk where
  "example_disk = \<lparr>dk_files = fmempty, dk_dirs = {|[''data'']|},
     dk_plan = [Sys_ok, Sys_short 1, Sys_error EINTR, Sys_error ENOSPC], dk_truncate_plan = [],
     dk_temp_counter = 0\<rparr>"

theorem publish_is_atomic_witness:
  "fst (atomic_publish [''data'', ''m''] [1, 2] example_disk) = PE_no_space_or_permission \<and>
   fmlookup (dk_files (snd (atomic_publish [''data'', ''m''] [1, 2] example_disk))) [''data'', ''m''] = None"
proof -
  have e: "fst (atomic_publish [''data'', ''m''] [1, 2] example_disk) = PE_no_space_or_permission"
    by (simp add: atomic_publish_def example_disk_def Let_def create_exclusive_def sys_call_def
        file_write_def update_node_def path_append_def parent_path_def path_filename_def map_errno_def
        remove_file_def)
  moreover have "fmlookup (dk_files (snd (atomic_publish [''data'', ''m''] [1, 2] example_disk)))
      [''data'', ''m''] \<noteq> Some \<lparr>fn_bytes = [1, 2], fn_synced = 2\<rparr>"
    by (simp add: atomic_publish_def example_disk_def Let_def create_exclusive_def sys_call_def
        file_write_def update_node_def path_append_def parent_path_def path_filename_def map_errno_def
        remove_file_def kTempFilePrefix_def)
  ultimately show ?thesis
    using publish_is_atomic [of "[''data'', ''m'']" "[1, 2]" example_disk]
    by (auto simp: example_disk_def split: prod.splits)
qed

text \<open>
  The counter of temporary names starts again in every process, and a creation that fails does not
  remove the file it found: a temporary file that a crash left behind makes the next publication fail.
\<close>

lemma publish_blocked_by_leftover:
  assumes "dk_plan d = []" "final_path \<noteq> []" "fmlookup (dk_files d) (temp_path final_path d) \<noteq> None"
  shows "fst (atomic_publish final_path contents d) = PE_io_failure"
  using assms by (auto simp: atomic_publish_eq create_exclusive_def sys_call_def map_errno_def Let_def)

end
