(* ===== verification/Manifest.thy ===== *)
theory Manifest
  imports Storage
begin

text \<open>
  \<^verbatim>\<open>libs/persistence/manifest.cpp\<close>: the manifest that binds a directory to a world and a branch.
\<close>

definition kManifestMagic :: bytes where
  "kManifestMagic = map (\<lambda>c. of_nat (of_char c)) ''GWDM''"

definition kDirectoryManifestFormatVersion :: u32 where
  "kDirectoryManifestFormatVersion = 1"

definition manifest_body_bytes :: nat where
  "manifest_body_bytes = 4 + 4 + 8 + 16"

definition manifest_total_bytes :: nat where
  "manifest_total_bytes = manifest_body_bytes + 4"

record DirectoryManifest =
  dm_format_version :: u32
  dm_world :: WorldId
  dm_branch :: BranchId

definition encode_manifest :: "Crc32cLib \<Rightarrow> DirectoryManifest \<Rightarrow> bytes" where
  "encode_manifest lib manifest =
     (let body = kManifestMagic @ write_le32 (dm_format_version manifest)
            @ write_le64 (wid_value (dm_world manifest)) @ dm_branch manifest
      in body @ write_le32 (crc32c lib body))"

definition load_directory_manifest ::
  "Crc32cLib \<Rightarrow> Path \<Rightarrow> Disk \<Rightarrow> (PersistenceError + DirectoryManifest) \<times> Disk" where
  "load_directory_manifest lib manifest_path d =
     (let (r, d) = read_file manifest_path d in
      (case r of
         Inl error \<Rightarrow> Inl error
       | Inr bs \<Rightarrow>
           if length bs \<noteq> manifest_total_bytes then Inl PE_manifest_invalid
           else if take (length kManifestMagic) bs \<noteq> kManifestMagic then Inl PE_manifest_invalid
           else
             let expected_crc = read_le32 (drop manifest_body_bytes bs);
                 actual_crc = crc32c lib (take manifest_body_bytes bs)
             in if expected_crc \<noteq> actual_crc then Inl PE_checksum_mismatch
                else
                  let manifest =
                    \<lparr>dm_format_version = read_le32 (drop (length kManifestMagic) bs),
                     dm_world = WorldId (read_le64 (drop (length kManifestMagic + 4) bs)),
                     dm_branch = take 16 (drop (length kManifestMagic + 4 + 8) bs)\<rparr>
                  in if dm_format_version manifest \<noteq> kDirectoryManifestFormatVersion then Inl PE_manifest_invalid
                     else if \<not> wid_valid (dm_world manifest) \<or> \<not> branch_valid (dm_branch manifest)
                     then Inl PE_manifest_invalid
                     else Inr manifest, d))"

definition publish_directory_manifest ::
  "Crc32cLib \<Rightarrow> Path \<Rightarrow> DirectoryManifest \<Rightarrow> Disk \<Rightarrow> PersistenceError \<times> Disk" where
  "publish_directory_manifest lib manifest_path manifest d =
     atomic_publish manifest_path (encode_manifest lib manifest) d"

section \<open>A published manifest is read back\<close>

lemma length_kManifestMagic [simp]: "length kManifestMagic = 4"
  by (simp add: kManifestMagic_def)

lemma read_file_frame:
  assumes "read_file p d = (r, d')"
  shows "dk_files d' = dk_files d" "dk_dirs d' = dk_dirs d" "dk_truncate_plan d' = dk_truncate_plan d"
    "dk_temp_counter d' = dk_temp_counter d"
  using assms by (auto simp: read_file_def sys_call_def Let_def split: prod.splits option.splits if_splits)

lemma load_frame:
  assumes "load_directory_manifest lib p d = (r, d')"
  shows "dk_files d' = dk_files d" "dk_dirs d' = dk_dirs d" "dk_truncate_plan d' = dk_truncate_plan d"
    "dk_temp_counter d' = dk_temp_counter d"
  using assms read_file_frame [of p d] by (auto simp: load_directory_manifest_def split: prod.splits)

lemma read_file_quiet:
  "dk_plan d = [] \<Longrightarrow> fmlookup (dk_files d) p = Some n \<Longrightarrow> read_file p d = (Inr (fn_bytes n), d)"
  by (simp add: read_file_def sys_call_def)

lemma load_encoded:
  assumes "dk_plan d = []" "fmlookup (dk_files d) p = Some \<lparr>fn_bytes = encode_manifest lib m, fn_synced = s\<rparr>"
    and "length (dm_branch m) = 16" "wid_valid (dm_world m)" "branch_valid (dm_branch m)"
    and "dm_format_version m = kDirectoryManifestFormatVersion"
  shows "load_directory_manifest lib p d = (Inr m, d)"
proof -
  have "length (encode_manifest lib m) = manifest_total_bytes"
    using assms(3) by (simp add: encode_manifest_def manifest_total_bytes_def manifest_body_bytes_def Let_def)
  then show ?thesis
    using assms
    by (simp add: load_directory_manifest_def read_file_quiet)
      (simp add: encode_manifest_def manifest_body_bytes_def Let_def codec_simps)
qed

text \<open>
  C20: a published manifest is read back. If the publication of a valid manifest reports success, whatever
  system calls were interrupted or short on the way, loading it afterwards gives exactly that manifest.
\<close>

theorem published_manifest_loads:
  assumes "publish_directory_manifest lib p m d = (PE_none, d')" "p \<noteq> []"
    and "length (dm_branch m) = 16" "wid_valid (dm_world m)" "branch_valid (dm_branch m)"
    and "dm_format_version m = kDirectoryManifestFormatVersion"
  shows "fst (load_directory_manifest lib p (d'\<lparr>dk_plan := []\<rparr>)) = Inr m"
proof -
  have "fmlookup (dk_files d') p = Some \<lparr>fn_bytes = encode_manifest lib m, fn_synced = length (encode_manifest lib m)\<rparr>"
    using publish_files(4) [OF assms(2) assms(1) [unfolded publish_directory_manifest_def]] by simp
  then have "load_directory_manifest lib p (d'\<lparr>dk_plan := []\<rparr>) = (Inr m, d'\<lparr>dk_plan := []\<rparr>)"
    by (intro load_encoded [where s = "length (encode_manifest lib m)"]) (use assms in simp_all)
  then show ?thesis by simp
qed

definition example_crc :: Crc32cLib where
  "example_crc = \<lparr>crc32c = (\<lambda>bs. of_nat (length bs)), crc32c_extend = (\<lambda>c bs. c + of_nat (length bs))\<rparr>"

definition example_manifest :: DirectoryManifest where
  "example_manifest = \<lparr>dm_format_version = kDirectoryManifestFormatVersion, dm_world = WorldId 7,
     dm_branch = replicate 15 0 @ [1]\<rparr>"

definition example_directory :: Disk where
  "example_directory = \<lparr>dk_files = fmempty, dk_dirs = {|[''data'']|},
     dk_plan = [Sys_ok, Sys_short 10, Sys_error EINTR, Sys_ok, Sys_error EINTR], dk_truncate_plan = [],
     dk_temp_counter = 0\<rparr>"

theorem published_manifest_loads_witness:
  "\<exists>d'. publish_directory_manifest example_crc [''data'', ''m''] example_manifest example_directory = (PE_none, d') \<and>
     fst (load_directory_manifest example_crc [''data'', ''m''] (d'\<lparr>dk_plan := []\<rparr>)) = Inr example_manifest"
proof -
  let ?r = "publish_directory_manifest example_crc [''data'', ''m''] example_manifest example_directory"
  have "encode_manifest example_crc example_manifest \<noteq> []"
    by (metis append_is_Nil_conv encode_manifest_def length_kManifestMagic list.size(3) zero_neq_numeral)
  moreover have "drop 10 (encode_manifest example_crc example_manifest) \<noteq> []"
    by (simp add: encode_manifest_def Let_def example_manifest_def)
  ultimately have "fst ?r = PE_none"
    by (simp add: publish_directory_manifest_def atomic_publish_def example_directory_def Let_def
        create_exclusive_def sys_call_def retried_call_def file_write_def file_sync_def update_node_def
        rename_file_def sync_directory_def path_append_def parent_path_def path_filename_def kTempFilePrefix_def)
  then obtain d' where d': "?r = (PE_none, d')" by (metis prod.collapse)
  with published_manifest_loads [OF d'] show ?thesis
    by (auto simp: example_manifest_def wid_valid_def branch_valid_def)
qed

end
