(* ===== verification/Wal_Reader.thy ===== *)
theory Wal_Reader
  imports Storage
begin

text \<open>
  \<^verbatim>\<open>libs/persistence/wal_reader.cpp\<close>: the scan of a log directory. It reads the segments in order,
  checks the framing, the CRC and the sequence numbers of every record, and cuts off what a torn write
  left at the end of the active segment. Memory mapping a file is reading it.
\<close>

section \<open>Results\<close>

datatype TailPolicy = TP_trim_active_tail | TP_strict

record CorruptionReport =
  cr_segment :: Path
  cr_offset :: u64
  cr_expected_lsn :: Lsn
  cr_error :: PersistenceError

record ScannedRecord =
  scr_lsn :: Lsn
  scr_kind :: WalRecordKind
  scr_target_tick :: u64
  scr_payload :: bytes

record WalScanResult =
  wsr_records :: "ScannedRecord list"
  wsr_error :: PersistenceError
  wsr_corruption :: CorruptionReport
  wsr_trimmed_bytes :: u64
  wsr_first_lsn :: Lsn
  wsr_last_lsn :: Lsn
  wsr_next_lsn :: Lsn
  wsr_active_segment :: Path

definition empty_scan :: WalScanResult where
  "empty_scan = \<lparr>wsr_records = [], wsr_error = PE_none,
     wsr_corruption = \<lparr>cr_segment = [], cr_offset = 0, cr_expected_lsn = Lsn 0, cr_error = PE_none\<rparr>,
     wsr_trimmed_bytes = 0, wsr_first_lsn = Lsn 0, wsr_last_lsn = Lsn 0, wsr_next_lsn = Lsn 0,
     wsr_active_segment = []\<rparr>"

section \<open>One segment\<close>

record SegmentEntry =
  se_path :: Path
  se_first_lsn :: Lsn
  se_active :: bool

definition ends_with :: "string \<Rightarrow> string \<Rightarrow> bool" where
  "ends_with t suffix \<longleftrightarrow> length t \<ge> length suffix \<and> drop (length t - length suffix) t = suffix"

definition starts_with :: "string \<Rightarrow> string \<Rightarrow> bool" where
  "starts_with t prefix \<longleftrightarrow> length t \<ge> length prefix \<and> take (length prefix) t = prefix"

definition mapping_error :: "Errno \<Rightarrow> PersistenceError" where
  "mapping_error e = (if e = ENOENT then PE_not_found else PE_io_failure)"

definition map_file :: "Path \<Rightarrow> Disk \<Rightarrow> (PersistenceError + bytes) \<times> Disk" where
  "map_file p d =
     (let (e, d) = sys_call d;
          e = (if e = None \<and> fmlookup (dk_files d) p = None then Some ENOENT else e) in
      case e of Some error_number \<Rightarrow> (Inl (mapping_error error_number), d)
      | None \<Rightarrow>
          let bs = fn_bytes (the (fmlookup (dk_files d) p)) in
          if bs = [] then (Inr [], d)
          else let (e1, d) = sys_call d in
            case e1 of Some error_number \<Rightarrow> (Inl (mapping_error error_number), d)
            | None \<Rightarrow> (Inr bs, d))"

definition report_corruption ::
  "WalScanResult \<Rightarrow> SegmentEntry \<Rightarrow> u64 \<Rightarrow> Lsn \<Rightarrow> PersistenceError \<Rightarrow> WalScanResult" where
  "report_corruption result segment offset expected error =
     result\<lparr>wsr_error := error,
       wsr_corruption := \<lparr>cr_segment = se_path segment, cr_offset = offset, cr_expected_lsn = expected,
         cr_error = error\<rparr>\<rparr>"

text \<open>The answer of \<open>truncate_file\<close> is not looked at.\<close>

definition trim_active_tail ::
  "WalScanResult \<Rightarrow> SegmentEntry \<Rightarrow> u64 \<Rightarrow> Disk \<Rightarrow> WalScanResult \<times> Disk" where
  "trim_active_tail result segment good_offset d =
     (let (mapped, d) = map_file (se_path segment) d;
          mapped_size = (case mapped of Inl _ \<Rightarrow> 0 | Inr bs \<Rightarrow> of_nat (length bs));
          result = (if mapped_size > good_offset
            then result\<lparr>wsr_trimmed_bytes := wsr_trimmed_bytes result + (mapped_size - good_offset)\<rparr> else result);
          (_, d) = truncate_file (se_path segment) good_offset d
      in (result\<lparr>wsr_active_segment := se_path segment\<rparr>, d))"

text \<open>A record that is read in full is at least as long as its frame.\<close>

lemma decode_record_length:
  assumes "decode_record lib buffer max_record_bytes = (RDS_ok, r)"
  shows "32 \<le> unat (dr_total_bytes r)" "unat (dr_total_bytes r) \<le> length buffer"
proof -
  have "unat (ucast (read_le32 buffer) :: u64) = unat (read_le32 buffer)" "unat (read_le32 buffer) < 2 ^ 32"
    using unsigned_less [of "read_le32 buffer", where 'a = nat]
    by (simp_all add: unsigned_ucast_eq take_bit_nat_eq_self)
  then have "unat (4 + ucast (read_le32 buffer) :: u64) = 4 + unat (read_le32 buffer)"
    by (simp add: unat_word_ariths)
  with assms show "32 \<le> unat (dr_total_bytes r)" "unat (dr_total_bytes r) \<le> length buffer"
    by (auto simp: decode_record_def Let_def wal_sizes split: if_splits)
qed

lemma decode_record_progress:
  assumes "(RDS_ok, r) = decode_record lib buffer max_record_bytes"
  shows "0 < unat (dr_total_bytes r) \<and> unat (dr_total_bytes r) \<le> length buffer"
  using decode_record_length [OF assms [symmetric]] by simp

text \<open>
  The loop over the records from an offset on; \<open>rest\<close> is what follows the offset. The first component
  is the answer of \<open>scan_segment\<close>.
\<close>

function scan_records ::
  "Crc32cLib \<Rightarrow> SegmentEntry \<Rightarrow> bool \<Rightarrow> u64 \<Rightarrow> WalScanResult \<Rightarrow> Disk \<Rightarrow> Lsn \<Rightarrow> u64 \<Rightarrow> bytes \<Rightarrow>
     bool \<times> WalScanResult \<times> Disk \<times> Lsn" where
  "scan_records lib segment trimmable max_record_bytes result d expected offset rest =
     (if rest = [] then (True, result, d, expected)
      else case decode_record lib rest max_record_bytes of (status, r) \<Rightarrow>
        if status \<noteq> RDS_ok then
          if trimmable then
            let (result, d) = trim_active_tail result segment offset d in (True, result, d, expected)
          else (False, report_corruption result segment offset expected
                  (if status = RDS_crc_mismatch then PE_checksum_mismatch else PE_segment_corrupted), d, expected)
        else if dr_lsn r \<noteq> expected then
          (False, report_corruption result segment offset expected PE_lsn_discontinuity, d, expected)
        else
          let result = result\<lparr>wsr_records := wsr_records result @
                [\<lparr>scr_lsn = dr_lsn r, scr_kind = dr_kind r, scr_target_tick = dr_target_tick r,
                  scr_payload = dr_payload r\<rparr>]\<rparr>
          in case next_lsn expected of
            None \<Rightarrow> (False, report_corruption result segment offset expected PE_lsn_overflow, d, expected)
          | Some n \<Rightarrow> scan_records lib segment trimmable max_record_bytes result d n
              (offset + dr_total_bytes r) (drop (unat (dr_total_bytes r)) rest))"
  by pat_completeness auto

termination
  by (relation "measure (\<lambda>(lib, segment, trimmable, m, result, d, expected, offset, rest). length rest)")
     (auto dest!: decode_record_progress)

declare scan_records.simps [simp del]

definition scan_segment ::
  "Crc32cLib \<Rightarrow> WalScanResult \<Rightarrow> SegmentEntry \<Rightarrow> Disk \<Rightarrow> TailPolicy \<Rightarrow> u64 \<Rightarrow> Lsn \<Rightarrow>
     bool \<times> WalScanResult \<times> Disk \<times> Lsn" where
  "scan_segment lib result segment d policy max_record_bytes expected =
     (let (mapped, d) = map_file (se_path segment) d in
      case mapped of
        Inl error \<Rightarrow> (False, report_corruption result segment 0 expected error, d, expected)
      | Inr bs \<Rightarrow>
          let trimmable = (se_active segment \<and> policy = TP_trim_active_tail) in
          if length bs < kSegmentHeaderBytes then
            if bs = [] then
              if se_active segment then (True, result\<lparr>wsr_active_segment := se_path segment\<rparr>, d, expected)
              else (False, report_corruption result segment 0 expected PE_segment_corrupted, d, expected)
            else if trimmable then
              let (result, d) = trim_active_tail result segment 0 d in (True, result, d, expected)
            else (False, report_corruption result segment 0 expected PE_segment_corrupted, d, expected)
          else
            let (parsed, header_first) = parse_segment_header bs (Lsn 0) in
            if \<not> parsed then
              if trimmable then
                let (result, d) = trim_active_tail result segment 0 d in (True, result, d, expected)
              else (False, report_corruption result segment 0 expected PE_segment_corrupted, d, expected)
            else if header_first \<noteq> expected then
              (False, report_corruption result segment 0 expected PE_lsn_discontinuity, d, expected)
            else
              let result = (if se_active segment then result\<lparr>wsr_active_segment := se_path segment\<rparr> else result)
              in scan_records lib segment trimmable max_record_bytes result d expected
                   (of_nat kSegmentHeaderBytes) (drop kSegmentHeaderBytes bs))"

section \<open>The directory\<close>

definition kSegmentExtension :: string where
  "kSegmentExtension = ''.gwal''"

definition kActiveSegmentSuffix :: string where
  "kActiveSegmentSuffix = ''.gwal.active''"

text \<open>The body of the loop over the files: the entry it adds, if any.\<close>

definition segment_entry :: "Path \<Rightarrow> SegmentEntry option" where
  "segment_entry file =
     (let name = path_filename file in
      if starts_with name kTempFilePrefix then None
      else if ends_with name kActiveSegmentSuffix then
        map_option (\<lambda>l. \<lparr>se_path = file, se_first_lsn = l, se_active = True\<rparr>)
          (parse_segment_file_name (take (length name - length kActiveSegmentSuffix) name))
      else if ends_with name kSegmentExtension then
        map_option (\<lambda>l. \<lparr>se_path = file, se_first_lsn = l, se_active = False\<rparr>)
          (parse_segment_file_name (take (length name - length kSegmentExtension) name))
      else None)"

definition segment_before :: "SegmentEntry \<Rightarrow> SegmentEntry \<Rightarrow> bool" where
  "segment_before left right =
     (if se_active left \<noteq> se_active right then \<not> se_active left
      else se_first_lsn left < se_first_lsn right)"

fun scan_segments ::
  "Crc32cLib \<Rightarrow> TailPolicy \<Rightarrow> u64 \<Rightarrow> SegmentEntry list \<Rightarrow> WalScanResult \<Rightarrow> Disk \<Rightarrow> Lsn \<Rightarrow>
     bool \<times> WalScanResult \<times> Disk \<times> Lsn" where
  "scan_segments lib policy max_record_bytes [] result d expected = (True, result, d, expected)"
| "scan_segments lib policy max_record_bytes (segment # segments) result d expected =
     (case scan_segment lib result segment d policy max_record_bytes expected of
        (ok, result, d, expected) \<Rightarrow>
          if \<not> ok then (False, result, d, expected)
          else scan_segments lib policy max_record_bytes segments result d expected)"

definition scan_wal_directory ::
  "Crc32cLib \<Rightarrow> Path \<Rightarrow> TailPolicy \<Rightarrow> Lsn \<Rightarrow> u64 \<Rightarrow> Disk \<Rightarrow> WalScanResult \<times> Disk" where
  "scan_wal_directory lib dir policy first_expected max_record_bytes d =
     (let (listed, d) = list_files dir d in
      case listed of
        Inl error \<Rightarrow>
          (if error = PE_not_found then (empty_scan, d)
           else (empty_scan\<lparr>wsr_error := error,
                  wsr_corruption := \<lparr>cr_segment = dir, cr_offset = 0, cr_expected_lsn = first_expected,
                    cr_error = error\<rparr>\<rparr>, d))
      | Inr files \<Rightarrow>
          let segments = stable_sort segment_before (List.map_filter segment_entry files) in
          if segments = [] \<and> \<not> lsn_valid first_expected then (empty_scan, d)
          else
            let first_lsn = (if segments \<noteq> [] then se_first_lsn (hd segments) else Lsn 0);
                expected = (if segments \<noteq> [] \<and> \<not> lsn_valid first_expected then first_lsn else first_expected);
                (ok, result, d, next_expected) = scan_segments lib policy max_record_bytes segments
                  (empty_scan\<lparr>wsr_first_lsn := first_lsn\<rparr>) d expected
            in if \<not> ok then (result, d)
               else
                 let result = (if lsn_valid next_expected \<and> lsn_value next_expected > lsn_value expected
                       then result\<lparr>wsr_last_lsn := Lsn (lsn_value next_expected - 1)\<rparr> else result)
                 in (result\<lparr>wsr_next_lsn := next_expected\<rparr>, d))"

end
