(* ===== verification/Wal_Journal.thy ===== *)
theory Wal_Journal
  imports Wal_Reader
begin

text \<open>
  What a log directory holds, as a list of records cut into segments, and what the scan of \<open>Wal_Reader\<close>
  makes of it: it returns exactly these records and leaves a directory without a torn tail.
\<close>

section \<open>The bytes of records\<close>

definition fits :: "u64 \<Rightarrow> WalRecord \<Rightarrow> bool" where
  "fits max_record_bytes r \<longleftrightarrow>
     28 + length (wr_payload r) < 2 ^ 32 \<and> 28 + length (wr_payload r) \<le> unat max_record_bytes"

definition frame_bytes :: "Crc32cLib \<Rightarrow> nat \<Rightarrow> WalRecord \<Rightarrow> bytes" where
  "frame_bytes lib n r = record_bytes lib (Lsn (of_nat n)) (wr_kind r) (wr_target_tick r) (wr_payload r)"

fun journal_bytes :: "Crc32cLib \<Rightarrow> nat \<Rightarrow> WalRecord list \<Rightarrow> bytes" where
  "journal_bytes lib n [] = []"
| "journal_bytes lib n (r # rs) = frame_bytes lib n r @ journal_bytes lib (Suc n) rs"

definition scanned_record :: "nat \<Rightarrow> WalRecord \<Rightarrow> ScannedRecord" where
  "scanned_record n r = \<lparr>scr_lsn = Lsn (of_nat n), scr_kind = wr_kind r,
     scr_target_tick = wr_target_tick r, scr_payload = wr_payload r\<rparr>"

fun scanned :: "nat \<Rightarrow> WalRecord list \<Rightarrow> ScannedRecord list" where
  "scanned n [] = []"
| "scanned n (r # rs) = scanned_record n r # scanned (Suc n) rs"

text \<open>What is left of a record that was not written in full, or nothing.\<close>

definition torn :: "Crc32cLib \<Rightarrow> u64 \<Rightarrow> nat \<Rightarrow> bytes \<Rightarrow> bool" where
  "torn lib max_record_bytes n tail \<longleftrightarrow>
     tail = [] \<or> (\<exists>r k. fits max_record_bytes r \<and> k < length (frame_bytes lib n r) \<and>
       tail = take k (frame_bytes lib n r))"

lemma length_frame_bytes [simp]: "length (frame_bytes lib n r) = 32 + length (wr_payload r)"
  by (simp add: frame_bytes_def)

lemma length_scanned [simp]: "length (scanned n rs) = length rs"
  by (induction rs arbitrary: n) auto

lemma scanned_append [simp]: "scanned n (rs @ ss) = scanned n rs @ scanned (n + length rs) ss"
  by (induction rs arbitrary: n) auto

lemma scanned_nth: "i < length rs \<Longrightarrow> scanned n rs ! i = scanned_record (n + i) (rs ! i)"
  by (induction rs arbitrary: n i) (auto simp: nth_Cons split: nat.split)

lemma journal_bytes_append [simp]:
  "journal_bytes lib n (rs @ ss) = journal_bytes lib n rs @ journal_bytes lib (n + length rs) ss"
  by (induction rs arbitrary: n) auto

lemma torn_decode: "torn lib m n tail \<Longrightarrow> tail \<noteq> [] \<Longrightarrow> fst (decode_record lib tail m) = RDS_incomplete"
  using decode_torn unfolding torn_def frame_bytes_def fits_def by fastforce

lemma torn_Nil [simp]: "torn lib m n []"
  by (simp add: torn_def)

lemma next_lsn_of_nat: "0 < n \<Longrightarrow> Suc n < 2 ^ 64 \<Longrightarrow> next_lsn (Lsn (of_nat n)) = Some (Lsn (of_nat (Suc n)))"
proof -
  assume "0 < n" "Suc n < 2 ^ 64"
  then have n: "unat (of_nat n :: u64) = n" by (simp add: unat_of_nat take_bit_nat_eq_self)
  then have "(of_nat n :: u64) \<noteq> 0" using \<open>0 < n\<close> by (metis less_irrefl unat_0)
  moreover have "(of_nat n :: u64) \<noteq> - 1"
  proof
    assume "(of_nat n :: u64) = - 1"
    then have "unat (- 1 :: u64) = n" using n by simp
    then show False using \<open>Suc n < 2 ^ 64\<close> by (simp add: unsigned_minus_1_eq_mask mask_eq_exp_minus_1)
  qed
  ultimately show ?thesis by (simp add: next_lsn_def lsn_valid_def add.commute)
qed

lemma scan_records_journal:
  assumes "\<forall>r \<in> set rs. fits m r" "0 < n" "n + length rs < 2 ^ 64"
  shows "scan_records lib segment trimmable m result d (Lsn (of_nat n)) offset (journal_bytes lib n rs @ tail) =
     scan_records lib segment trimmable m (result\<lparr>wsr_records := wsr_records result @ scanned n rs\<rparr>) d
       (Lsn (of_nat (n + length rs))) (offset + of_nat (length (journal_bytes lib n rs))) tail"
  using assms
proof (induction rs arbitrary: n result offset)
  case Nil
  then show ?case by simp
next
  case (Cons r rs)
  have fit: "28 + length (wr_payload r) < 2 ^ 32" "28 + length (wr_payload r) \<le> unat m"
    using Cons.prems(1) by (simp_all add: fits_def)
  have "frame_bytes lib n r \<noteq> []" by (metis add_is_0 length_frame_bytes list.size(3) zero_neq_numeral)
  moreover have "unat (of_nat (32 + length (wr_payload r)) :: u64) = 32 + length (wr_payload r)"
    using frame_total_bytes(2) fit(1) by simp
  moreover have "next_lsn (Lsn (of_nat n)) = Some (Lsn (of_nat (Suc n)))"
    using Cons.prems by (intro next_lsn_of_nat) auto
  ultimately have "scan_records lib segment trimmable m result d (Lsn (of_nat n)) offset
      (journal_bytes lib n (r # rs) @ tail) =
    scan_records lib segment trimmable m (result\<lparr>wsr_records := wsr_records result @ [scanned_record n r]\<rparr>) d
      (Lsn (of_nat (Suc n))) (offset + of_nat (32 + length (wr_payload r))) (journal_bytes lib (Suc n) rs @ tail)"
    using decode_record_bytes [OF fit, of lib "Lsn (of_nat n)" "wr_kind r" "wr_target_tick r" "journal_bytes lib (Suc n) rs @ tail"]
    by (subst scan_records.simps)
      (simp add: frame_bytes_def [symmetric] Let_def scanned_record_def del: of_nat_add of_nat_Suc)
  then show ?case
    using Cons.IH [of "Suc n"] Cons.prems by (simp add: add.assoc del: of_nat_Suc)
qed

section \<open>One segment\<close>

definition seg_bytes :: "Crc32cLib \<Rightarrow> nat \<Rightarrow> WalRecord list \<Rightarrow> bytes" where
  "seg_bytes lib n rs = encode_segment_header (Lsn (of_nat n)) @ journal_bytes lib n rs"

text \<open>What an active segment may hold: part of its header, or records and a torn tail.\<close>

definition active_bytes :: "Crc32cLib \<Rightarrow> u64 \<Rightarrow> nat \<Rightarrow> WalRecord list \<Rightarrow> bytes \<Rightarrow> bool" where
  "active_bytes lib m n rs bs \<longleftrightarrow>
     (rs = [] \<and> (\<exists>k < 16. bs = take k (encode_segment_header (Lsn (of_nat n))))) \<or>
     (\<exists>tail. bs = seg_bytes lib n rs @ tail \<and> torn lib m (n + length rs) tail)"

text \<open>What the scan leaves of it.\<close>

definition trimmed_bytes :: "Crc32cLib \<Rightarrow> nat \<Rightarrow> WalRecord list \<Rightarrow> bytes \<Rightarrow> bytes" where
  "trimmed_bytes lib n rs bs = (if length bs < 16 then [] else seg_bytes lib n rs)"

lemma length_seg_bytes [simp]: "length (seg_bytes lib n rs) = 16 + length (journal_bytes lib n rs)"
  by (simp add: seg_bytes_def)

text \<open>A cut keeps every record that ends before it.\<close>

lemma cut_journal:
  assumes "\<forall>r \<in> set rs. fits m r" "torn lib m (n + length rs) tail"
  shows "\<exists>j tail'. j \<le> length rs \<and> take c (journal_bytes lib n rs @ tail) = journal_bytes lib n (take j rs) @ tail' \<and>
     torn lib m (n + j) tail' \<and>
     (\<forall>i \<le> length rs. length (journal_bytes lib n (take i rs)) \<le> c \<longrightarrow> i \<le> j)"
  using assms
proof (induction rs arbitrary: n c)
  case Nil
  have "torn lib m n (take c tail)"
  proof (cases "tail = []")
    case False
    then obtain r k where "fits m r" "k < length (frame_bytes lib n r)" "tail = take k (frame_bytes lib n r)"
      using Nil by (auto simp: torn_def)
    then show ?thesis
      unfolding torn_def by (intro disjI2 exI [of _ r] exI [of _ "min c k"]) (auto simp: min_def)
  qed simp
  then show ?case by (intro exI [of _ 0] exI [of _ "take c tail"]) simp
next
  case (Cons r rs)
  let ?f = "frame_bytes lib n r"
  show ?case
  proof (cases "c < length ?f")
    case True
    have "torn lib m n (take c ?f)"
      using Cons.prems(1) True unfolding torn_def by auto
    moreover have "take c (journal_bytes lib n (r # rs) @ tail) = take c ?f"
      using True by simp
    moreover have "\<not> length (journal_bytes lib n (take i (r # rs))) \<le> c" if "0 < i" for i
      using True that by (cases i) auto
    ultimately show ?thesis by (intro exI [of _ 0] exI [of _ "take c ?f"]) auto
  next
    case False
    have "torn lib m (Suc n + length rs) tail" using Cons.prems(2) by simp
    then obtain j tail' where IH: "j \<le> length rs"
      "take (c - length ?f) (journal_bytes lib (Suc n) rs @ tail) = journal_bytes lib (Suc n) (take j rs) @ tail'"
      "torn lib m (Suc n + j) tail'"
      "\<forall>i \<le> length rs. length (journal_bytes lib (Suc n) (take i rs)) \<le> c - length ?f \<longrightarrow> i \<le> j"
      using Cons.IH [of "Suc n" "c - length ?f"] Cons.prems(1) by auto
    have "take c (journal_bytes lib n (r # rs) @ tail) = journal_bytes lib n (take (Suc j) (r # rs)) @ tail'"
      using False IH(2) by simp
    moreover have "i \<le> Suc j" if "i \<le> Suc (length rs)" "length (journal_bytes lib n (take i (r # rs))) \<le> c" for i
      using that IH(4) by (cases i) auto
    ultimately show ?thesis using IH(1,3) by (intro exI [of _ "Suc j"] exI [of _ tail']) auto
  qed
qed

lemma cut_active:
  assumes "\<forall>r \<in> set rs. fits m r" "active_bytes lib m n rs bs"
  shows "\<exists>j. j \<le> length rs \<and> active_bytes lib m n (take j rs) (take c bs) \<and>
     (\<forall>i \<le> length rs. length (seg_bytes lib n (take i rs)) \<le> c \<longrightarrow> i \<le> j)"
proof (cases "c < 16 \<or> length bs < 16")
  case True
  have "\<exists>k<16. take c bs = take k (encode_segment_header (Lsn (of_nat n)))"
  proof -
    consider k where "k < 16" "bs = take k (encode_segment_header (Lsn (of_nat n)))"
      | tail where "bs = seg_bytes lib n rs @ tail"
      using assms(2) by (auto simp: active_bytes_def)
    then show ?thesis
    proof cases
      case 1
      then show ?thesis by (intro exI [of _ "min c k"]) auto
    next
      case 2
      with True show ?thesis by (intro exI [of _ c]) (auto simp: seg_bytes_def)
    qed
  qed
  moreover have "i = 0" if "i \<le> length rs" "length (seg_bytes lib n (take i rs)) \<le> c" for i
    using True assms(2) that by (auto simp: active_bytes_def)
  ultimately show ?thesis by (intro exI [of _ 0]) (auto simp: active_bytes_def)
next
  case False
  then obtain tail where tail: "bs = seg_bytes lib n rs @ tail" "torn lib m (n + length rs) tail"
    using assms(2) by (auto simp: active_bytes_def)
  from cut_journal [OF assms(1) tail(2), of "c - 16"] obtain j tail' where
    j: "j \<le> length rs" "take (c - 16) (journal_bytes lib n rs @ tail) = journal_bytes lib n (take j rs) @ tail'"
      "torn lib m (n + j) tail'"
      "\<forall>i \<le> length rs. length (journal_bytes lib n (take i rs)) \<le> c - 16 \<longrightarrow> i \<le> j" by blast
  have "take c bs = seg_bytes lib n (take j rs) @ tail'"
    using False j(2) by (simp add: tail(1) seg_bytes_def)
  with j show ?thesis by (intro exI [of _ j]) (auto simp: active_bytes_def)
qed

lemma sys_call_quiet: "dk_plan d = [] \<Longrightarrow> sys_call d = (None, d)"
  by (simp add: sys_call_def)

lemma map_file_quiet:
  "dk_plan d = [] \<Longrightarrow> fmlookup (dk_files d) p = Some n \<Longrightarrow> map_file p d = (Inr (fn_bytes n), d)"
  by (simp add: map_file_def sys_call_quiet Let_def)

lemma parse_of_nat:
  assumes "0 < n" "n < 2 ^ 64"
  shows "lsn_valid (Lsn (of_nat n))"
proof -
  have "unat (of_nat n :: u64) = n" using assms by (simp add: unat_of_nat take_bit_nat_eq_self)
  with assms(1) show ?thesis by (metis lsn_valid_def Lsn.sel less_irrefl unat_0)
qed

lemma scan_closed:
  assumes "dk_plan d = []" "fmlookup (dk_files d) p = Some \<lparr>fn_bytes = seg_bytes lib n rs, fn_synced = s\<rparr>"
    and "\<forall>r \<in> set rs. fits m r" "0 < n" "n + length rs < 2 ^ 64"
  shows "scan_segment lib result \<lparr>se_path = p, se_first_lsn = l, se_active = False\<rparr> d policy m (Lsn (of_nat n)) =
     (True, result\<lparr>wsr_records := wsr_records result @ scanned n rs\<rparr>, d, Lsn (of_nat (n + length rs)))"
  using scan_records_journal [OF assms(3-5), where tail = "[]"] parse_of_nat [of n] assms
  by (simp add: scan_segment_def map_file_quiet wal_sizes seg_bytes_def codec_simps scan_records.simps [of _ _ _ _ _ _ _ _ "[]"])

text \<open>A disk with one file replaced.\<close>

definition put_node :: "Path \<Rightarrow> FileNode \<Rightarrow> Disk \<Rightarrow> Disk" where
  "put_node p n d = d\<lparr>dk_files := fmupd p n (dk_files d)\<rparr>"

lemma put_node_same: "fmlookup (dk_files d) p = Some n \<Longrightarrow> put_node p n d = d"
proof -
  assume "fmlookup (dk_files d) p = Some n"
  then have "fmupd p n (dk_files d) = dk_files d" by (intro fmap_ext) auto
  then show ?thesis by (simp add: put_node_def)
qed

lemma put_node_frame [simp]:
  "dk_plan (put_node p n d) = dk_plan d" "dk_truncate_plan (put_node p n d) = dk_truncate_plan d"
  "dk_dirs (put_node p n d) = dk_dirs d" "dk_temp_counter (put_node p n d) = dk_temp_counter d"
  "fmlookup (dk_files (put_node p n d)) q = (if q = p then Some n else fmlookup (dk_files d) q)"
  by (simp_all add: put_node_def)

text \<open>A file cut to its first bytes.\<close>

definition cut_node :: "nat \<Rightarrow> FileNode \<Rightarrow> FileNode" where
  "cut_node k n = \<lparr>fn_bytes = take k (fn_bytes n), fn_synced = min (fn_synced n) k\<rparr>"

lemma trim_quiet:
  assumes "dk_plan d = []" "dk_truncate_plan d = []" "fmlookup (dk_files d) p = Some node"
    and "off \<le> length (fn_bytes node)" "length (fn_bytes node) < 2 ^ 64"
  shows "\<exists>t. trim_active_tail result \<lparr>se_path = p, se_first_lsn = l, se_active = True\<rparr> (of_nat off) d =
     (result\<lparr>wsr_trimmed_bytes := t, wsr_active_segment := p\<rparr>, put_node p (cut_node off node) d)"
proof -
  have "unat (of_nat off :: u64) = off" using assms(4,5) by (simp add: unat_of_nat take_bit_nat_eq_self)
  with assms have "truncate_file p (of_nat off) d = (PE_none, put_node p (cut_node off node) d)"
    by (cases d; cases node)
      (simp add: Let_def truncate_file_def put_node_def cut_node_def update_node_def)
  with assms have trim: "trim_active_tail result \<lparr>se_path = p, se_first_lsn = l, se_active = True\<rparr> (of_nat off) d =
      ((if of_nat (length (fn_bytes node)) > (of_nat off :: u64)
        then result\<lparr>wsr_trimmed_bytes := wsr_trimmed_bytes result + (of_nat (length (fn_bytes node)) - of_nat off)\<rparr>
        else result)\<lparr>wsr_active_segment := p\<rparr>, put_node p (cut_node off node) d)"
    by (simp add: trim_active_tail_def map_file_quiet Let_def)
  have "\<exists>t. (if b then result\<lparr>wsr_trimmed_bytes := x\<rparr> else result) = result\<lparr>wsr_trimmed_bytes := t\<rparr>" for b x
    by (intro exI [of _ "if b then x else wsr_trimmed_bytes result"]) simp
  then obtain t where t: "(if of_nat (length (fn_bytes node)) > (of_nat off :: u64)
        then result\<lparr>wsr_trimmed_bytes := wsr_trimmed_bytes result + (of_nat (length (fn_bytes node)) - of_nat off)\<rparr>
        else result) = result\<lparr>wsr_trimmed_bytes := t\<rparr>" by blast
  show ?thesis unfolding trim t by (rule exI) (rule refl)
qed

lemma cut_node_all: "fn_synced n \<le> length (fn_bytes n) \<Longrightarrow> cut_node (length (fn_bytes n)) n = n"
  by (simp add: cut_node_def)

text \<open>The active segment is cut after its last whole record, or emptied if its header is torn.\<close>

lemma scan_active:
  fixes node :: FileNode
  assumes "dk_plan d = []" "dk_truncate_plan d = []" "fmlookup (dk_files d) p = Some node"
    and "active_bytes lib m n rs (fn_bytes node)" "fn_synced node \<le> length (fn_bytes node)"
    and "length (fn_bytes node) < 2 ^ 64" "\<forall>r \<in> set rs. fits m r" "0 < n" "n + length rs < 2 ^ 64"
  shows "\<exists>t. scan_segment lib result \<lparr>se_path = p, se_first_lsn = l, se_active = True\<rparr> d
       TP_trim_active_tail m (Lsn (of_nat n)) =
     (True, result\<lparr>wsr_records := wsr_records result @ scanned n rs, wsr_trimmed_bytes := t, wsr_active_segment := p\<rparr>,
      put_node p (cut_node (length (trimmed_bytes lib n rs (fn_bytes node))) node) d, Lsn (of_nat (n + length rs)))"
proof -
  let ?bs = "fn_bytes node"
  let ?seg = "\<lparr>se_path = p, se_first_lsn = l, se_active = True\<rparr>"
  note map = map_file_quiet [OF assms(1,3)]
  have keep: "put_node p (cut_node (length ?bs) node) d = d"
    using cut_node_all [OF assms(5)] put_node_same [OF assms(3)] by simp
  have none: "result\<lparr>wsr_trimmed_bytes := wsr_trimmed_bytes result, wsr_active_segment := p\<rparr> =
      result\<lparr>wsr_active_segment := p\<rparr>" for result :: WalScanResult by simp
  show ?thesis
  proof (cases "length ?bs < 16")
    case True
    then have rs: "rs = []" using assms(4) by (auto simp: active_bytes_def)
    show ?thesis
    proof (cases "?bs = []")
      case True
      have "scan_segment lib result ?seg d TP_trim_active_tail m (Lsn (of_nat n)) =
          (True, result\<lparr>wsr_active_segment := p\<rparr>, d, Lsn (of_nat n))"
        using True by (simp add: scan_segment_def map wal_sizes)
      with True keep rs show ?thesis
        by (intro exI [of _ "wsr_trimmed_bytes result"]) (simp add: trimmed_bytes_def)
    next
      case False
      obtain t where t: "trim_active_tail result ?seg 0 d =
          (result\<lparr>wsr_trimmed_bytes := t, wsr_active_segment := p\<rparr>, put_node p (cut_node 0 node) d)"
        using trim_quiet [OF assms(1-3) _ assms(6), of 0 result l] by auto
      with True False rs show ?thesis
        by (intro exI [of _ t]) (simp add: scan_segment_def map wal_sizes trimmed_bytes_def)
    qed
  next
    case False
    then obtain tail where tail: "?bs = seg_bytes lib n rs @ tail" "torn lib m (n + length rs) tail"
      using assms(4) by (auto simp: active_bytes_def)
    let ?result = "result\<lparr>wsr_active_segment := p, wsr_records := wsr_records result @ scanned n rs\<rparr>"
    let ?off = "length (seg_bytes lib n rs)"
    have scan: "scan_segment lib result ?seg d TP_trim_active_tail m (Lsn (of_nat n)) =
        scan_records lib ?seg True m ?result d (Lsn (of_nat (n + length rs))) (of_nat ?off) tail"
      using scan_records_journal [OF assms(7-9)] parse_of_nat [of n] assms(8,9)
      by (simp add: scan_segment_def map tail(1) wal_sizes seg_bytes_def codec_simps)
    have trimmed: "trimmed_bytes lib n rs ?bs = seg_bytes lib n rs"
      using False by (simp add: trimmed_bytes_def)
    show ?thesis
    proof (cases "tail = []")
      case True
      with scan trimmed tail(1) keep show ?thesis
        by (intro exI [of _ "wsr_trimmed_bytes result"]) (simp add: scan_records.simps)
    next
      case False
      obtain t where t: "trim_active_tail ?result ?seg (of_nat ?off) d =
          (?result\<lparr>wsr_trimmed_bytes := t, wsr_active_segment := p\<rparr>, put_node p (cut_node ?off node) d)"
        using trim_quiet [OF assms(1-3) _ assms(6), of ?off ?result l] tail(1) by auto
      obtain r where dec: "decode_record lib tail m = (RDS_incomplete, r)"
        using torn_decode [OF tail(2) False] by (metis prod.collapse)
      then have "scan_records lib ?seg True m ?result d (Lsn (of_nat (n + length rs))) (of_nat ?off) tail =
          (True, ?result\<lparr>wsr_trimmed_bytes := t, wsr_active_segment := p\<rparr>, put_node p (cut_node ?off node) d,
           Lsn (of_nat (n + length rs)))"
        using False t by (subst scan_records.simps) (simp add: dec del: length_seg_bytes of_nat_add)
      with scan trimmed show ?thesis by (intro exI [of _ t]) simp
    qed
  qed
qed

section \<open>The files of a log\<close>

definition closed_name :: "nat \<Rightarrow> string" where
  "closed_name n = segment_file_name (Lsn (of_nat n)) @ kSegmentExtension"

definition active_name :: "nat \<Rightarrow> string" where
  "active_name n = segment_file_name (Lsn (of_nat n)) @ kActiveSegmentSuffix"

fun closed_nodes :: "Crc32cLib \<Rightarrow> nat \<Rightarrow> WalRecord list list \<Rightarrow> (string \<times> FileNode) list" where
  "closed_nodes lib n [] = []"
| "closed_nodes lib n (rs # segs) =
     (closed_name n, \<lparr>fn_bytes = seg_bytes lib n rs, fn_synced = length (seg_bytes lib n rs)\<rparr>)
       # closed_nodes lib (n + length rs) segs"

fun active_nodes :: "nat \<Rightarrow> (WalRecord list \<times> FileNode) option \<Rightarrow> (string \<times> FileNode) list" where
  "active_nodes n None = []"
| "active_nodes n (Some (rs, node)) = [(active_name n, node)]"

fun closed_entries :: "Path \<Rightarrow> nat \<Rightarrow> WalRecord list list \<Rightarrow> SegmentEntry list" where
  "closed_entries dir n [] = []"
| "closed_entries dir n (rs # segs) =
     \<lparr>se_path = path_append dir (closed_name n), se_first_lsn = Lsn (of_nat n), se_active = False\<rparr>
       # closed_entries dir (n + length rs) segs"

fun active_entries :: "Path \<Rightarrow> nat \<Rightarrow> (WalRecord list \<times> FileNode) option \<Rightarrow> SegmentEntry list" where
  "active_entries dir n None = []"
| "active_entries dir n (Some (rs, node)) =
     [\<lparr>se_path = path_append dir (active_name n), se_first_lsn = Lsn (of_nat n), se_active = True\<rparr>]"

lemma length_segment_file_name [simp]: "length (segment_file_name l) = 24"
  by (simp add: segment_file_name_def)

lemma segment_name_facts:
  "\<not> starts_with (segment_file_name l @ t) kTempFilePrefix"
  "ends_with (segment_file_name l @ kActiveSegmentSuffix) kActiveSegmentSuffix"
  "\<not> ends_with (segment_file_name l @ kSegmentExtension) kActiveSegmentSuffix"
  "ends_with (segment_file_name l @ kSegmentExtension) kSegmentExtension"
proof -
  show "\<not> starts_with (segment_file_name l @ t) kTempFilePrefix"
    by (simp add: starts_with_def segment_file_name_def kTempFilePrefix_def)
  show "\<not> ends_with (segment_file_name l @ kSegmentExtension) kActiveSegmentSuffix"
  proof
    assume "ends_with (segment_file_name l @ kSegmentExtension) kActiveSegmentSuffix"
    then have "List.last (drop 17 (segment_file_name l @ kSegmentExtension)) = CHR ''e''"
      by (simp add: ends_with_def kActiveSegmentSuffix_def kSegmentExtension_def)
    then show False by (simp add: kSegmentExtension_def)
  qed
qed (simp_all add: ends_with_def)

lemma filename_append [simp]: "path_filename (path_append dir name) = name"
  by (simp add: path_filename_def path_append_def)

lemma segment_entry_names:
  assumes "0 < n" "n < 2 ^ 64"
  shows "segment_entry (path_append dir (closed_name n)) =
      Some \<lparr>se_path = path_append dir (closed_name n), se_first_lsn = Lsn (of_nat n), se_active = False\<rparr>"
    "segment_entry (path_append dir (active_name n)) =
      Some \<lparr>se_path = path_append dir (active_name n), se_first_lsn = Lsn (of_nat n), se_active = True\<rparr>"
  using parse_of_nat [OF assms]
  by (simp_all add: segment_entry_def closed_name_def active_name_def segment_name_facts codec_simps)

lemma segment_entry_path: "segment_entry p = Some e \<Longrightarrow> se_path e = p"
  by (auto simp: segment_entry_def Let_def split: if_splits)

interpretation segment_order: strict_weak_order segment_before
  by unfold_locales (auto simp: segment_before_def split: if_splits)

context strict_weak_order
begin

lemma ascending_distinct: "sorted_wrt lt ys \<Longrightarrow> distinct ys"
  using lt_asym by (induction ys) auto

text \<open>A list that ascends strictly is what sorting makes of its permutations.\<close>

lemma stable_sort_ascending:
  assumes "sorted_wrt lt ys" "mset xs = mset ys"
  shows "stable_sort lt xs = ys"
proof -
  have pairs: "a = b \<or> lt a b \<or> lt b a" if "a \<in> set ys" "b \<in> set ys" for a b
    using that assms(1) by (induction ys) auto
  have "sorted_wrt (\<lambda>a b. \<not> lt b a) ys"
    using assms(1) by (rule sorted_wrt_mono_rel [rotated]) (rule lt_asym)
  then have "ys = stable_sort lt xs"
    by (rule sorted_unique [OF _ sorted_stable_sort]) (use assms(2) pairs in auto)
  then show ?thesis by simp
qed

end

lemma closed_entries_facts:
  assumes "[] \<notin> set segs" "e \<in> set (closed_entries dir n segs)"
  shows "\<not> se_active e \<and> (\<exists>k. n \<le> k \<and> k < n + length (concat segs) \<and> se_first_lsn e = Lsn (of_nat k))"
  using assms
proof (induction segs arbitrary: n)
  case (Cons rs segs)
  show ?case
  proof (cases "e \<in> set (closed_entries dir (n + length rs) segs)")
    case True
    from Cons.prems(1) have "[] \<notin> set segs" by simp
    from Cons.IH [OF this True] obtain k where "\<not> se_active e" "n + length rs \<le> k"
        "k < n + length rs + length (concat segs)" "se_first_lsn e = Lsn (of_nat k)" by blast
    then show ?thesis by (intro conjI exI [of _ k]) auto
  next
    case False
    with Cons.prems show ?thesis by (auto intro!: exI [of _ n] simp: neq_Nil_conv)
  qed
qed simp

lemma less_lsn_of_nat: "a < b \<Longrightarrow> b < 2 ^ 64 \<Longrightarrow> Lsn (of_nat a) < Lsn (of_nat b)"
  by (simp add: less_Lsn_def word_less_nat_alt unat_of_nat take_bit_nat_eq_self)

lemma closed_entries_ascend:
  assumes "[] \<notin> set segs" "n + length (concat segs) < 2 ^ 64"
  shows "sorted_wrt segment_before (closed_entries dir n segs)"
  using assms
proof (induction segs arbitrary: n)
  case (Cons rs segs)
  have "Lsn (of_nat n) < se_first_lsn e \<and> \<not> se_active e" if "e \<in> set (closed_entries dir (n + length rs) segs)" for e
  proof -
    from Cons.prems(1) have "[] \<notin> set segs" "0 < length rs" by auto
    from closed_entries_facts [OF this(1) that] obtain k where
      k: "\<not> se_active e" "n + length rs \<le> k" "k < n + length rs + length (concat segs)"
        "se_first_lsn e = Lsn (of_nat k)" by blast
    have "n < k" using k(2) \<open>0 < length rs\<close> by linarith
    moreover have "k < 2 ^ 64" using k(3) Cons.prems(2) by simp
    ultimately have "n < k" "k < 2 ^ 64" .
    from less_lsn_of_nat [OF this] k show ?thesis by simp
  qed
  with Cons show ?case by (auto simp: segment_before_def)
qed simp

lemma entries_ascend:
  assumes "[] \<notin> set segs" "n + length (concat segs) < 2 ^ 64"
  shows "sorted_wrt segment_before (closed_entries dir n segs @ active_entries dir (n + length (concat segs)) act)"
proof (cases act)
  case (Some a)
  obtain rs node where a: "a = (rs, node)" by fastforce
  show ?thesis
    unfolding Some a active_entries.simps sorted_wrt_append
    using closed_entries_ascend [OF assms] closed_entries_facts [OF assms(1)]
    by (auto simp: segment_before_def)
qed (simp add: closed_entries_ascend [OF assms])

text \<open>
  The files of a log directory: closed segments that are whole and synced, then perhaps an active one.
\<close>

definition wal_files ::
  "Crc32cLib \<Rightarrow> Path \<Rightarrow> WalRecord list list \<Rightarrow> (WalRecord list \<times> FileNode) option \<Rightarrow> Disk \<Rightarrow> bool" where
  "wal_files lib dir segs act d \<longleftrightarrow>
     (\<forall>name. fmlookup (dk_files d) (path_append dir name) =
        map_of (closed_nodes lib 1 segs @ active_nodes (1 + length (concat segs)) act) name)"

fun active_records :: "(WalRecord list \<times> FileNode) option \<Rightarrow> WalRecord list" where
  "active_records None = []"
| "active_records (Some (rs, node)) = rs"

definition log_records :: "WalRecord list list \<Rightarrow> (WalRecord list \<times> FileNode) option \<Rightarrow> WalRecord list" where
  "log_records segs act = concat segs @ active_records act"

fun active_ok :: "Crc32cLib \<Rightarrow> u64 \<Rightarrow> nat \<Rightarrow> (WalRecord list \<times> FileNode) option \<Rightarrow> bool" where
  "active_ok lib m n None = True"
| "active_ok lib m n (Some (rs, node)) \<longleftrightarrow>
     active_bytes lib m n rs (fn_bytes node) \<and> fn_synced node \<le> length (fn_bytes node) \<and>
     length (fn_bytes node) < 2 ^ 64"

definition journal_ok ::
  "Crc32cLib \<Rightarrow> u64 \<Rightarrow> WalRecord list list \<Rightarrow> (WalRecord list \<times> FileNode) option \<Rightarrow> bool" where
  "journal_ok lib m segs act \<longleftrightarrow>
     [] \<notin> set segs \<and> (\<forall>r \<in> set (log_records segs act). fits m r) \<and>
     1 + length (log_records segs act) < 2 ^ 64 \<and> active_ok lib m (1 + length (concat segs)) act"

lemma closed_nodes_entries:
  assumes "0 < n" "n + length (concat segs) < 2 ^ 64"
  shows "[] \<notin> set segs \<Longrightarrow> map (\<lambda>x. segment_entry (path_append dir (fst x))) (closed_nodes lib n segs) =
     map Some (closed_entries dir n segs)"
  using assms
proof (induction segs arbitrary: n)
  case (Cons rs segs)
  then show ?case by (simp add: segment_entry_names)
qed simp

lemma active_nodes_entries:
  assumes "0 < n" "n < 2 ^ 64"
  shows "map (\<lambda>x. segment_entry (path_append dir (fst x))) (active_nodes n act) = map Some (active_entries dir n act)"
  by (cases act) (auto simp: segment_entry_names [OF assms])

lemma map_filter_entries:
  assumes "distinct files" "\<And>p. p \<in> set files \<longleftrightarrow> (\<exists>name \<in> fst ` set nodes. p = path_append dir name)"
    and "map (\<lambda>x. segment_entry (path_append dir (fst x))) nodes = map Some entries" "distinct entries"
  shows "mset (List.map_filter segment_entry files) = mset entries"
proof -
  have "distinct (List.map_filter segment_entry files)"
    unfolding List.map_filter_def distinct_map
    using assms(1) by (auto intro!: inj_onI) (metis option.sel segment_entry_path)
  moreover have "e \<in> set (List.map_filter segment_entry files) \<longleftrightarrow> e \<in> set entries" for e
  proof -
    have "e \<in> set (List.map_filter segment_entry files) \<longleftrightarrow> (\<exists>p \<in> set files. segment_entry p = Some e)"
      by (auto simp: List.map_filter_def image_iff)
    also have "\<dots> \<longleftrightarrow> (\<exists>x \<in> set nodes. segment_entry (path_append dir (fst x)) = Some e)"
      using assms(2) by auto
    also have "\<dots> \<longleftrightarrow> Some e \<in> set (map (\<lambda>x. segment_entry (path_append dir (fst x))) nodes)"
      unfolding set_map image_iff by metis
    also have "\<dots> \<longleftrightarrow> e \<in> set entries" unfolding assms(3) by auto
    finally show ?thesis .
  qed
  ultimately show ?thesis
    using assms(4) by (metis set_eq_iff_mset_eq_distinct subsetI subset_antisym)
qed

lemma listed_path_iff: "p \<noteq> [] \<and> parent_path p = dir \<longleftrightarrow> (\<exists>name. p = path_append dir name)"
  by (auto simp: parent_path_def path_append_def) (metis append_butlast_last_id)

lemma sorted_entries:
  assumes "wal_files lib dir segs act d" "journal_ok lib m segs act" "dk_plan d = []" "dir |\<in>| dk_dirs d"
  shows "\<exists>files. list_files dir d = (Inr files, d) \<and>
     stable_sort segment_before (List.map_filter segment_entry files) =
       closed_entries dir 1 segs @ active_entries dir (1 + length (concat segs)) act"
proof -
  let ?nodes = "closed_nodes lib 1 segs @ active_nodes (1 + length (concat segs)) act"
  let ?entries = "closed_entries dir 1 segs @ active_entries dir (1 + length (concat segs)) act"
  let ?files = "filter (\<lambda>p. p \<noteq> [] \<and> parent_path p = dir) (fm_keys (dk_files d))"
  have segs: "[] \<notin> set segs" "1 + length (concat segs) < 2 ^ 64"
    using assms(2) by (simp_all add: journal_ok_def log_records_def)
  have names: "fmlookup (dk_files d) (path_append dir name) \<noteq> None \<longleftrightarrow> name \<in> fst ` set ?nodes" for name
    using assms(1) unfolding wal_files_def by (metis map_of_eq_None_iff)
  have listed: "p \<in> set ?files \<longleftrightarrow> (\<exists>name \<in> fst ` set ?nodes. p = path_append dir name)" for p
  proof -
    have "p \<in> set ?files \<longleftrightarrow> (\<exists>name. p = path_append dir name \<and> fmlookup (dk_files d) p \<noteq> None)"
      by (simp add: listed_path_iff fmlookup_dom_iff) (auto simp: listed_path_iff [symmetric])
    also have "\<dots> \<longleftrightarrow> (\<exists>name. p = path_append dir name \<and> name \<in> fst ` set ?nodes)"
      using names by metis
    finally show ?thesis by auto
  qed
  have entries: "map (\<lambda>x. segment_entry (path_append dir (fst x))) ?nodes = map Some ?entries"
    using closed_nodes_entries [of 1 segs dir lib] active_nodes_entries segs by simp
  have ascend: "sorted_wrt segment_before ?entries"
    by (rule entries_ascend [OF segs])
  have "mset (List.map_filter segment_entry ?files) = mset ?entries"
    by (rule map_filter_entries [OF _ listed entries segment_order.ascending_distinct [OF ascend]]) simp
  from segment_order.stable_sort_ascending [OF ascend this] show ?thesis
    using assms(3,4) by (simp add: list_files_def sys_call_quiet)
qed

lemma scan_closed_segments:
  assumes "dk_plan d = []" "\<forall>r \<in> set (concat segs). fits m r" "0 < n" "n + length (concat segs) < 2 ^ 64"
    and "\<And>name node. (name, node) \<in> set (closed_nodes lib n segs) \<Longrightarrow>
      fmlookup (dk_files d) (path_append dir name) = Some node"
  shows "scan_segments lib policy m (closed_entries dir n segs @ entries) result d (Lsn (of_nat n)) =
     scan_segments lib policy m entries (result\<lparr>wsr_records := wsr_records result @ scanned n (concat segs)\<rparr>) d
       (Lsn (of_nat (n + length (concat segs))))"
  using assms
proof (induction segs arbitrary: n result)
  case (Cons rs segs)
  have "scan_segment lib result \<lparr>se_path = path_append dir (closed_name n), se_first_lsn = Lsn (of_nat n),
        se_active = False\<rparr> d policy m (Lsn (of_nat n)) =
      (True, result\<lparr>wsr_records := wsr_records result @ scanned n rs\<rparr>, d, Lsn (of_nat (n + length rs)))"
    using Cons.prems by (intro scan_closed) auto
  with Cons.IH [of "n + length rs"] Cons.prems show ?case
    by (simp add: add.assoc del: of_nat_add)
qed simp

text \<open>The active segment after the scan.\<close>

definition scanned_active ::
  "Crc32cLib \<Rightarrow> nat \<Rightarrow> (WalRecord list \<times> FileNode) option \<Rightarrow> (WalRecord list \<times> FileNode) option" where
  "scanned_active lib n act =
     map_option (\<lambda>(rs, node). (rs, cut_node (length (trimmed_bytes lib n rs (fn_bytes node))) node)) act"

fun scanned_disk ::
  "Crc32cLib \<Rightarrow> Path \<Rightarrow> nat \<Rightarrow> (WalRecord list \<times> FileNode) option \<Rightarrow> Disk \<Rightarrow> Disk" where
  "scanned_disk lib dir n None d = d"
| "scanned_disk lib dir n (Some (rs, node)) d =
     put_node (path_append dir (active_name n)) (cut_node (length (trimmed_bytes lib n rs (fn_bytes node))) node) d"

fun active_path :: "Path \<Rightarrow> nat \<Rightarrow> (WalRecord list \<times> FileNode) option \<Rightarrow> Path" where
  "active_path dir n None = []"
| "active_path dir n (Some a) = path_append dir (active_name n)"

lemma segment_name_inject:
  "0 < a \<Longrightarrow> a < 2 ^ 64 \<Longrightarrow> 0 < b \<Longrightarrow> b < 2 ^ 64 \<Longrightarrow>
     segment_file_name (Lsn (of_nat a)) = segment_file_name (Lsn (of_nat b)) \<longleftrightarrow> a = b"
  using parse_segment_file_name_of [OF parse_of_nat, of a] parse_segment_file_name_of [OF parse_of_nat, of b]
    less_lsn_of_nat [of a b] less_lsn_of_nat [of b a]
  by (metis less_irrefl linorder_neqE_nat option.inject)

lemma names_differ [simp]: "closed_name a \<noteq> active_name b"
  using segment_name_facts(3) [of "Lsn (of_nat a)"] segment_name_facts(2) [of "Lsn (of_nat b)"]
  by (metis closed_name_def active_name_def)

lemma closed_node_names:
  assumes "name \<in> fst ` set (closed_nodes lib n segs)" "[] \<notin> set segs"
  shows "\<exists>k. n \<le> k \<and> k < n + length (concat segs) \<and> name = closed_name k"
  using assms
proof (induction segs arbitrary: n)
  case (Cons rs segs)
  from Cons.prems(2) have segs: "[] \<notin> set segs" "0 < length rs" by auto
  show ?case
  proof (cases "name \<in> fst ` set (closed_nodes lib (n + length rs) segs)")
    case True
    from Cons.IH [OF this segs(1)] obtain k where
      "n + length rs \<le> k" "k < n + length rs + length (concat segs)" "name = closed_name k" by blast
    then show ?thesis by (intro exI [of _ k]) auto
  next
    case False
    with Cons.prems segs(2) show ?thesis by (intro exI [of _ n]) auto
  qed
qed simp

lemma closed_nodes_distinct:
  "[] \<notin> set segs \<Longrightarrow> 0 < n \<Longrightarrow> n + length (concat segs) < 2 ^ 64 \<Longrightarrow> distinct (map fst (closed_nodes lib n segs))"
proof (induction segs arbitrary: n)
  case (Cons rs segs)
  from Cons.prems have segs: "[] \<notin> set segs" "0 < length rs" by auto
  have "closed_name n \<notin> fst ` set (closed_nodes lib (n + length rs) segs)"
  proof
    assume "closed_name n \<in> fst ` set (closed_nodes lib (n + length rs) segs)"
    from closed_node_names [OF this segs(1)] obtain k where
      k: "n + length rs \<le> k" "k < n + length rs + length (concat segs)" "closed_name n = closed_name k" by blast
    with segment_name_inject [of n k] Cons.prems segs(2) show False by (auto simp: closed_name_def)
  qed
  with Cons.IH [of "n + length rs"] Cons.prems segs show ?case by auto
qed simp

lemma closed_nodes_other [simp]: "map_of (closed_nodes lib n segs) (active_name k) = None"
  by (induction segs arbitrary: n) (auto simp: names_differ [symmetric])

lemma active_nodes_other:
  assumes "(name, node) \<in> set (closed_nodes lib n segs)"
  shows "map_of (active_nodes k act) name = None"
proof -
  have "\<exists>j. name = closed_name j"
    using assms by (induction segs arbitrary: n) auto
  then show ?thesis by (cases act) auto
qed

lemma wal_files_closed:
  assumes "wal_files lib dir segs act d" "journal_ok lib m segs act" "(name, node) \<in> set (closed_nodes lib 1 segs)"
  shows "fmlookup (dk_files d) (path_append dir name) = Some node"
proof -
  have "map_of (closed_nodes lib 1 segs) name = Some node"
    using closed_nodes_distinct [of segs 1 lib] assms(2,3)
    by (intro map_of_is_SomeI) (auto simp: journal_ok_def log_records_def)
  moreover have "map_of (active_nodes (1 + length (concat segs)) act) name = None"
    using assms(3) by (rule active_nodes_other)
  ultimately show ?thesis
    using assms(1) by (simp add: wal_files_def map_add_def)
qed

lemma wal_files_active:
  assumes "wal_files lib dir segs (Some (rs, node)) d"
  shows "fmlookup (dk_files d) (path_append dir (active_name (1 + length (concat segs)))) = Some node"
  using assms by (simp add: wal_files_def map_add_def)

section \<open>The scan of a log\<close>

lemma scan_active_entries:
  assumes "wal_files lib dir segs act d" "journal_ok lib m segs act" "dk_plan d = []" "dk_truncate_plan d = []"
  shows "\<exists>t. scan_segments lib TP_trim_active_tail m (active_entries dir (1 + length (concat segs)) act) result d
       (Lsn (of_nat (1 + length (concat segs)))) =
     (True, result\<lparr>wsr_records := wsr_records result @ scanned (1 + length (concat segs)) (active_records act),
        wsr_trimmed_bytes := t,
        wsr_active_segment := (case act of None \<Rightarrow> wsr_active_segment result
          | Some _ \<Rightarrow> active_path dir (1 + length (concat segs)) act)\<rparr>,
      scanned_disk lib dir (1 + length (concat segs)) act d, Lsn (of_nat (1 + length (log_records segs act))))"
proof (cases act)
  case None
  then show ?thesis
    by (intro exI [of _ "wsr_trimmed_bytes result"]) (simp add: log_records_def)
next
  case (Some a)
  obtain rs node where a: "act = Some (rs, node)" using Some by (cases a) auto
  let ?n = "1 + length (concat segs)"
  from assms(2) have ok: "active_bytes lib m ?n rs (fn_bytes node)" "fn_synced node \<le> length (fn_bytes node)"
    "length (fn_bytes node) < 2 ^ 64" "\<forall>r \<in> set rs. fits m r" "?n + length rs < 2 ^ 64"
    by (simp_all add: journal_ok_def log_records_def a)
  have "fmlookup (dk_files d) (path_append dir (active_name ?n)) = Some node"
    using assms(1) unfolding a by (rule wal_files_active)
  from scan_active [OF assms(3,4) this ok(1-4) _ ok(5), of result "Lsn (of_nat ?n)"] obtain t where
    t: "scan_segment lib result \<lparr>se_path = path_append dir (active_name ?n), se_first_lsn = Lsn (of_nat ?n),
        se_active = True\<rparr> d TP_trim_active_tail m (Lsn (of_nat ?n)) =
      (True, result\<lparr>wsr_records := wsr_records result @ scanned ?n rs, wsr_trimmed_bytes := t,
          wsr_active_segment := path_append dir (active_name ?n)\<rparr>,
       put_node (path_append dir (active_name ?n)) (cut_node (length (trimmed_bytes lib ?n rs (fn_bytes node))) node) d,
       Lsn (of_nat (?n + length rs)))" by auto
  show ?thesis
    unfolding a active_entries.simps scan_segments.simps t prod.case
    by (intro exI [of _ t]) (simp add: log_records_def)
qed

lemma scan_log:
  assumes "wal_files lib dir segs act d" "journal_ok lib m segs act" "dk_plan d = []" "dk_truncate_plan d = []"
    and "dir |\<in>| dk_dirs d"
  shows "\<exists>result. scan_wal_directory lib dir TP_trim_active_tail kFirstLsn m d =
       (result, scanned_disk lib dir (1 + length (concat segs)) act d) \<and>
     wsr_error result = PE_none \<and> wsr_records result = scanned 1 (log_records segs act) \<and>
     wsr_next_lsn result = Lsn (of_nat (1 + length (log_records segs act))) \<and>
     wsr_last_lsn result = Lsn (of_nat (length (log_records segs act))) \<and>
     wsr_active_segment result = active_path dir (1 + length (concat segs)) act"
proof -
  let ?n = "1 + length (concat segs)"
  let ?entries = "closed_entries dir 1 segs @ active_entries dir ?n act"
  let ?total = "length (log_records segs act)"
  obtain files where files: "list_files dir d = (Inr files, d)"
    "stable_sort segment_before (List.map_filter segment_entry files) = ?entries"
    using sorted_entries [OF assms(1,2,3,5)] by blast
  have ok: "\<forall>r \<in> set (concat segs). fits m r" "1 + length (concat segs) < 2 ^ 64" "1 + ?total < 2 ^ 64"
    using assms(2) by (auto simp: journal_ok_def log_records_def)
  have first: "kFirstLsn = Lsn (of_nat 1)" by (simp add: kFirstLsn_def)
  define first_lsn where "first_lsn = (if ?entries \<noteq> [] then se_first_lsn (hd ?entries) else Lsn 0)"
  let ?result = "empty_scan\<lparr>wsr_first_lsn := first_lsn\<rparr>"
  have "scan_segments lib TP_trim_active_tail m ?entries ?result d kFirstLsn =
      scan_segments lib TP_trim_active_tail m (active_entries dir ?n act)
        (?result\<lparr>wsr_records := wsr_records ?result @ scanned 1 (concat segs)\<rparr>) d (Lsn (of_nat ?n))"
    unfolding first using ok
    by (intro scan_closed_segments assms(3) wal_files_closed [OF assms(1,2)]) simp_all
  moreover obtain t where "scan_segments lib TP_trim_active_tail m (active_entries dir ?n act)
      (?result\<lparr>wsr_records := wsr_records ?result @ scanned 1 (concat segs)\<rparr>) d (Lsn (of_nat ?n)) =
    (True, (?result\<lparr>wsr_records := wsr_records ?result @ scanned 1 (concat segs)\<rparr>)
       \<lparr>wsr_records := wsr_records (?result\<lparr>wsr_records := wsr_records ?result @ scanned 1 (concat segs)\<rparr>)
          @ scanned ?n (active_records act),
        wsr_trimmed_bytes := t,
        wsr_active_segment := (case act of None \<Rightarrow>
            wsr_active_segment (?result\<lparr>wsr_records := wsr_records ?result @ scanned 1 (concat segs)\<rparr>)
          | Some _ \<Rightarrow> active_path dir ?n act)\<rparr>,
     scanned_disk lib dir ?n act d, Lsn (of_nat (1 + ?total)))"
    using scan_active_entries [OF assms(1-4)] by blast
  ultimately obtain result where scan:
    "scan_segments lib TP_trim_active_tail m ?entries ?result d kFirstLsn =
      (True, result, scanned_disk lib dir ?n act d, Lsn (of_nat (1 + ?total)))"
    "wsr_records result = scanned 1 (log_records segs act)" "wsr_error result = PE_none"
    "wsr_active_segment result = active_path dir ?n act" "wsr_last_lsn result = Lsn 0"
    by (simp add: empty_scan_def log_records_def split: option.split)
  have total: "unat (of_nat (1 + ?total) :: u64) = 1 + ?total"
    using ok(3) by (simp add: unat_of_nat take_bit_nat_eq_self del: of_nat_add of_nat_Suc)
  have last: "lsn_valid (Lsn (of_nat (1 + ?total))) \<and> lsn_value (Lsn (of_nat (1 + ?total))) > lsn_value kFirstLsn
      \<longleftrightarrow> ?total \<noteq> 0"
    using parse_of_nat [of "1 + ?total"] ok(3) total by (simp add: kFirstLsn_def word_less_nat_alt del: of_nat_add of_nat_Suc)
  let ?next = "Lsn (of_nat (1 + ?total))"
  let ?result' = "(if ?total \<noteq> 0 then result\<lparr>wsr_last_lsn := Lsn (of_nat ?total)\<rparr> else result)\<lparr>wsr_next_lsn := ?next\<rparr>"
  have valid: "lsn_valid kFirstLsn" by (simp add: kFirstLsn_def lsn_valid_def)
  have prev: "Lsn (lsn_value ?next - 1) = Lsn (of_nat ?total)" by simp
  have "scan_wal_directory lib dir TP_trim_active_tail kFirstLsn m d = (?result', scanned_disk lib dir ?n act d)"
    unfolding scan_wal_directory_def Let_def files prod.case sum.case first_lsn_def [symmetric]
    using scan(1) last prev
    by (simp add: valid del: of_nat_add of_nat_Suc One_nat_def)
  with scan(2-5) show ?thesis
    by (intro exI [of _ ?result']) simp
qed

text \<open>The log after the scan: the same records, and no torn tail.\<close>

lemma trimmed_active_bytes:
  assumes "active_bytes lib m n rs bs"
  shows "take (length (trimmed_bytes lib n rs bs)) bs = trimmed_bytes lib n rs bs"
    "trimmed_bytes lib n rs bs = [] \<and> rs = [] \<or> trimmed_bytes lib n rs bs = seg_bytes lib n rs"
    "active_bytes lib m n rs (trimmed_bytes lib n rs bs)"
  using assms by (auto simp: active_bytes_def trimmed_bytes_def intro: exI [of _ "0 :: nat"])

lemma put_node_wal_files:
  assumes "wal_files lib dir segs (Some (rs, node)) d"
  shows "wal_files lib dir segs (Some (rs', node')) (put_node (path_append dir (active_name (1 + length (concat segs)))) node' d)"
  using assms by (auto simp: wal_files_def path_append_def map_add_def split: option.split)

lemma scanned_log:
  assumes "wal_files lib dir segs act d" "journal_ok lib m segs act"
  shows "wal_files lib dir segs (scanned_active lib (1 + length (concat segs)) act)
       (scanned_disk lib dir (1 + length (concat segs)) act d)"
    "journal_ok lib m segs (scanned_active lib (1 + length (concat segs)) act)"
    "log_records segs (scanned_active lib (1 + length (concat segs)) act) = log_records segs act"
proof -
  have *: "wal_files lib dir segs (scanned_active lib (1 + length (concat segs)) act)
       (scanned_disk lib dir (1 + length (concat segs)) act d) \<and>
    journal_ok lib m segs (scanned_active lib (1 + length (concat segs)) act) \<and>
    log_records segs (scanned_active lib (1 + length (concat segs)) act) = log_records segs act"
  proof (cases act)
    case None
    with assms show ?thesis by (simp add: scanned_active_def)
  next
    case (Some a)
    obtain rs node where a: "act = Some (rs, node)" using Some by (cases a) auto
    let ?n = "1 + length (concat segs)"
    have active: "active_bytes lib m ?n rs (fn_bytes node)" "fn_synced node \<le> length (fn_bytes node)"
      "length (fn_bytes node) < 2 ^ 64" using assms(2) by (simp_all add: journal_ok_def a)
    note trim = trimmed_active_bytes [OF active(1)]
    let ?k = "length (trimmed_bytes lib ?n rs (fn_bytes node))"
    have "?k \<le> length (fn_bytes node)" using trim(1) by (metis length_take min.cobounded1)
    then have "active_ok lib m ?n (Some (rs, cut_node ?k node))"
      using active trim by (simp add: cut_node_def)
    with assms a put_node_wal_files [OF assms(1) [unfolded a]] show ?thesis
      by (simp add: scanned_active_def journal_ok_def log_records_def del: active_ok.simps)
  qed
  then show "wal_files lib dir segs (scanned_active lib (1 + length (concat segs)) act)
       (scanned_disk lib dir (1 + length (concat segs)) act d)"
    "journal_ok lib m segs (scanned_active lib (1 + length (concat segs)) act)"
    "log_records segs (scanned_active lib (1 + length (concat segs)) act) = log_records segs act" by blast+
qed

section \<open>Crashes\<close>

text \<open>
  A crash of the machine: every file keeps a prefix of its bytes that holds at least what was synced.
\<close>

definition crash_node :: "nat \<Rightarrow> FileNode \<Rightarrow> FileNode" where
  "crash_node keep n = \<lparr>fn_bytes = take (max keep (fn_synced n)) (fn_bytes n), fn_synced = fn_synced n\<rparr>"

definition crash :: "(Path \<Rightarrow> nat) \<Rightarrow> Disk \<Rightarrow> Disk" where
  "crash keep d = d
     \<lparr>dk_files := fmmap_keys (\<lambda>p. crash_node (keep p)) (dk_files d),
      dk_plan := [], dk_truncate_plan := [], dk_temp_counter := 0\<rparr>"

lemma crash_lookup: "fmlookup (dk_files (crash keep d)) p = map_option (crash_node (keep p)) (fmlookup (dk_files d) p)"
  by (simp add: crash_def)

lemma closed_nodes_kept:
  "map_option (crash_node k) (map_of (closed_nodes lib n segs) name) = map_of (closed_nodes lib n segs) name"
  by (induction segs arbitrary: n) (auto simp: crash_node_def)

fun active_size :: "(WalRecord list \<times> FileNode) option \<Rightarrow> nat" where
  "active_size None = 0"
| "active_size (Some (rs, node)) = length (fn_bytes node)"

text \<open>The records of an active segment that are synced for sure.\<close>

definition synced_records :: "Crc32cLib \<Rightarrow> nat \<Rightarrow> (WalRecord list \<times> FileNode) option \<Rightarrow> nat \<Rightarrow> bool" where
  "synced_records lib n act k \<longleftrightarrow>
     (case act of None \<Rightarrow> k = 0
      | Some (rs, node) \<Rightarrow> k \<le> length rs \<and> (k = 0 \<or> length (seg_bytes lib n (take k rs)) \<le> fn_synced node))"

lemma crash_log:
  assumes "wal_files lib dir segs act d" "journal_ok lib m segs act"
    and "synced_records lib (1 + length (concat segs)) act k"
  shows "\<exists>act' j. wal_files lib dir segs act' (crash keep d) \<and> journal_ok lib m segs act' \<and>
     active_records act' = take j (active_records act) \<and>
     synced_records lib (1 + length (concat segs)) act' k \<and> active_size act' \<le> active_size act"
proof (cases act)
  case None
  with assms have "wal_files lib dir segs None (crash keep d)"
    by (simp add: wal_files_def crash_lookup closed_nodes_kept)
  with None assms(2,3) show ?thesis
    by (intro exI [of _ None] exI [of _ 0]) simp
next
  case (Some a)
  obtain rs node where a: "act = Some (rs, node)" using Some by (cases a) auto
  let ?n = "1 + length (concat segs)"
  let ?p = "path_append dir (active_name ?n)"
  let ?node = "crash_node (keep ?p) node"
  have active: "active_bytes lib m ?n rs (fn_bytes node)" "fn_synced node \<le> length (fn_bytes node)"
    "length (fn_bytes node) < 2 ^ 64" "\<forall>r \<in> set rs. fits m r" "1 + length (concat segs) + length rs < 2 ^ 64"
    using assms(2) by (simp_all add: journal_ok_def log_records_def a)
  from cut_active [OF active(4,1), of "max (keep ?p) (fn_synced node)"] obtain j where
    j: "j \<le> length rs" "active_bytes lib m ?n (take j rs) (fn_bytes ?node)"
      "\<forall>i \<le> length rs. length (seg_bytes lib ?n (take i rs)) \<le> max (keep ?p) (fn_synced node) \<longrightarrow> i \<le> j"
    by (auto simp: crash_node_def)
  have "k \<le> j"
    using assms(3) j(3) by (auto simp: synced_records_def a le_max_iff_disj)
  then have "synced_records lib ?n (Some (take j rs, ?node)) k"
    using assms(3) j(1) by (auto simp: synced_records_def a crash_node_def min_def)
  moreover have "wal_files lib dir segs (Some (take j rs, ?node)) (crash keep d)"
  proof -
    have "fmlookup (dk_files (crash keep d)) (path_append dir name) =
        map_of (closed_nodes lib 1 segs @ active_nodes ?n (Some (take j rs, ?node))) name" for name
      using assms(1) closed_nodes_kept [of "keep (path_append dir name)" lib 1 segs name]
      by (auto simp: wal_files_def crash_lookup a map_add_def split: option.splits)
    then show ?thesis by (simp add: wal_files_def)
  qed
  moreover have "journal_ok lib m segs (Some (take j rs, ?node))"
    using assms(2) j(2) active
    by (auto simp: journal_ok_def log_records_def a crash_node_def dest!: in_set_takeD)
  ultimately show ?thesis
    by (intro exI [of _ "Some (take j rs, ?node)"] exI [of _ j]) (simp add: a crash_node_def)
qed

end
