(* ===== verification/Wal_Writer.thy ===== *)
theory Wal_Writer
  imports Wal_Journal Manifest
begin

text \<open>
  \<^verbatim>\<open>libs/persistence/wal_writer.cpp\<close>: the writer of the log. Clients append records to a bounded queue;
  one worker thread takes them in batches, gives them sequence numbers, writes and syncs them, and
  answers their tickets. The model is a state machine whose steps are the sections that hold the lock
  and the batches of the worker; \<open>process_batch\<close> touches the queue only when it gives up, so appends that
  happen during a batch are the same as appends before it. The worker's local variables are fields. Times
  are numbers of nanoseconds, read from a list. \<open>None\<close> is the overrun of \<open>encode_record\<close>.
\<close>

section \<open>State\<close>

record WalConfig =
  wc_durable_root :: Path
  wc_world :: WorldId
  wc_branch :: BranchId
  wc_queue_max_records :: u64
  wc_queue_max_bytes :: u64
  wc_group_commit_max_records :: u64
  wc_group_commit_max_bytes :: u64
  wc_group_commit_max_wait :: int
  wc_segment_max_bytes :: u64
  wc_segment_max_age :: int
  wc_max_record_bytes :: u64
  wc_allow_relaxed :: bool
  wc_recovery_floor_lsn :: Lsn

record WalWriterMetrics =
  wm_group_commit_batches :: u64
  wm_records_written :: u64
  wm_group_commit_nanoseconds :: "int list"
  wm_sync_nanoseconds :: "int list"
  wm_rotation_nanoseconds :: "int list"

datatype AdmissionStatus = AS_none | AS_durable_accepted | AS_relaxed_accepted

record AppendOutcome =
  ao_error :: PersistenceError
  ao_lsn :: Lsn
  ao_status :: AdmissionStatus

text \<open>A ticket is a number; its outcome is \<open>None\<close> while it is pending.\<close>

record PendingAppend =
  pa_record :: WalRecord
  pa_ticket :: nat

datatype WorkerPhase = WP_idle | WP_waiting | WP_exited

record WalWriter =
  ww_config :: WalConfig
  ww_disk :: Disk
  ww_layout :: DurableLayout
  ww_queue :: "PendingAppend list"
  ww_queue_payload_bytes :: u64
  ww_stopping :: bool
  ww_started :: bool
  ww_fault :: bool
  ww_lsn_exhausted :: bool
  ww_last_durable :: u64
  ww_metrics :: WalWriterMetrics
  ww_next_lsn_value :: u64
  ww_active_segment :: "WritableFile option"
  ww_active_path :: Path
  ww_active_first_lsn :: Lsn
  ww_active_bytes :: u64
  ww_active_opened_at :: int
  ww_unsynced_writes :: bool
  ww_tickets :: "AppendOutcome option list"
  ww_phase :: WorkerPhase
  ww_batch :: "PendingAppend list"
  ww_batch_bytes :: u64
  ww_deadline :: int
  ww_clock :: "int list"
  ww_now :: int

definition wal_writer :: "WalConfig \<Rightarrow> Disk \<Rightarrow> int list \<Rightarrow> WalWriter" where
  "wal_writer config d clock =
     \<lparr>ww_config = config, ww_disk = d, ww_layout = \<lparr>dl_root = []\<rparr>, ww_queue = [],
      ww_queue_payload_bytes = 0, ww_stopping = False, ww_started = False, ww_fault = False,
      ww_lsn_exhausted = False, ww_last_durable = 0,
      ww_metrics = \<lparr>wm_group_commit_batches = 0, wm_records_written = 0, wm_group_commit_nanoseconds = [],
        wm_sync_nanoseconds = [], wm_rotation_nanoseconds = []\<rparr>,
      ww_next_lsn_value = lsn_value kFirstLsn, ww_active_segment = None, ww_active_path = [],
      ww_active_first_lsn = Lsn 0, ww_active_bytes = 0, ww_active_opened_at = 0, ww_unsynced_writes = False,
      ww_tickets = [], ww_phase = WP_idle, ww_batch = [], ww_batch_bytes = 0, ww_deadline = 0,
      ww_clock = clock, ww_now = 0\<rparr>"

text \<open>\<open>steady_clock::now\<close>: the next reading, or the last one again.\<close>

definition steady_now :: "WalWriter \<Rightarrow> int \<times> WalWriter" where
  "steady_now w =
     (case ww_clock w of [] \<Rightarrow> (ww_now w, w) | t # ts \<Rightarrow> (t, w\<lparr>ww_clock := ts, ww_now := t\<rparr>))"

text \<open>An operation of \<open>FileOps\<close> on the disk of the writer.\<close>

definition on_disk :: "(Disk \<Rightarrow> 'a \<times> Disk) \<Rightarrow> WalWriter \<Rightarrow> 'a \<times> WalWriter" where
  "on_disk f w = (let (a, d) = f (ww_disk w) in (a, w\<lparr>ww_disk := d\<rparr>))"

text \<open>Writing to a file and keeping its new size.\<close>

definition write_active :: "bytes \<Rightarrow> WalWriter \<Rightarrow> PersistenceError \<times> WalWriter" where
  "write_active data w =
     (case ww_active_segment w of
        None \<Rightarrow> (PE_none, w)
      | Some f \<Rightarrow>
          let (error, f, d) = file_write f data (ww_disk w)
          in (error, w\<lparr>ww_active_segment := Some f, ww_disk := d\<rparr>))"

definition sync_active :: "WalWriter \<Rightarrow> PersistenceError \<times> WalWriter" where
  "sync_active w =
     (case ww_active_segment w of None \<Rightarrow> (PE_none, w) | Some f \<Rightarrow> on_disk (file_sync f) w)"

definition fulfill_ticket :: "nat \<Rightarrow> AppendOutcome \<Rightarrow> WalWriter \<Rightarrow> WalWriter" where
  "fulfill_ticket t outcome w = w\<lparr>ww_tickets := (ww_tickets w)[t := Some outcome]\<rparr>"

definition record_sync :: "int \<Rightarrow> WalWriter \<Rightarrow> WalWriter" where
  "record_sync elapsed w =
     w\<lparr>ww_metrics := (ww_metrics w)\<lparr>wm_sync_nanoseconds := wm_sync_nanoseconds (ww_metrics w) @ [elapsed]\<rparr>\<rparr>"

section \<open>Appending\<close>

text \<open>The number of bytes of a vector, as a \<open>size_t\<close>.\<close>

definition record_payload_bytes :: "WalRecord \<Rightarrow> u64" where
  "record_payload_bytes r = of_nat (length (wr_payload r))"

definition append_record :: "WalRecord \<Rightarrow> WalWriter \<Rightarrow> (PersistenceError + nat) \<times> WalWriter" where
  "append_record r w =
     (if record_payload_bytes r > wc_max_record_bytes (ww_config w) then (Inl PE_record_invalid, w)
      else if wr_durability r = D_relaxed \<and> \<not> wc_allow_relaxed (ww_config w) then (Inl PE_relaxed_not_allowed, w)
      else if ww_lsn_exhausted w then (Inl PE_lsn_overflow, w)
      else if \<not> ww_started w \<or> ww_stopping w then (Inl PE_shutting_down, w)
      else if ww_fault w then (Inl PE_fault_read_only, w)
      else if of_nat (length (ww_queue w)) \<ge> wc_queue_max_records (ww_config w)
           \<or> ww_queue_payload_bytes w + record_payload_bytes r > wc_queue_max_bytes (ww_config w)
      then (Inl PE_queue_full, w)
      else
        let t = length (ww_tickets w) in
        (Inr t, w\<lparr>ww_queue_payload_bytes := ww_queue_payload_bytes w + record_payload_bytes r,
                  ww_queue := ww_queue w @ [\<lparr>pa_record = r, pa_ticket = t\<rparr>],
                  ww_tickets := ww_tickets w @ [None]\<rparr>))"

text \<open>The first half of \<open>shutdown\<close>; the other is that the worker runs to its end.\<close>

definition request_stop :: "WalWriter \<Rightarrow> WalWriter" where
  "request_stop w = w\<lparr>ww_stopping := True, ww_started := False\<rparr>"

section \<open>Segments\<close>

definition open_new_segment :: "Lsn \<Rightarrow> WalWriter \<Rightarrow> PersistenceError \<times> WalWriter" where
  "open_new_segment first_lsn w =
     (let path = path_append (wal_dir (ww_layout w)) (segment_file_name first_lsn @ kActiveSegmentSuffix);
          w = w\<lparr>ww_active_path := path\<rparr>;
          (created, w) = on_disk (create_exclusive path) w
      in case created of
        Inl error \<Rightarrow> (error, w)
      | Inr f \<Rightarrow>
          let w = w\<lparr>ww_active_segment := Some f, ww_active_first_lsn := first_lsn\<rparr>;
              header = encode_segment_header first_lsn;
              (error, w) = write_active header w
          in if error \<noteq> PE_none then (error, w\<lparr>ww_active_segment := None\<rparr>)
             else
               let (t, w) = steady_now w
               in (PE_none, w\<lparr>ww_active_bytes := of_nat (length header), ww_active_opened_at := t,
                              ww_unsynced_writes := True\<rparr>))"

definition rotate_segment :: "Lsn \<Rightarrow> WalWriter \<Rightarrow> PersistenceError \<times> WalWriter" where
  "rotate_segment next_first_lsn w =
     (let (rotation_started, w) = steady_now w;
          (sync_started, w) = steady_now w;
          (error, w) = sync_active w;
          (t, w) = steady_now w;
          w = record_sync (t - sync_started) w;
          closed_path = path_append (wal_dir (ww_layout w))
            (segment_file_name (ww_active_first_lsn w) @ kSegmentExtension);
          (error, w) = (if error = PE_none then on_disk (rename_file (ww_active_path w) closed_path) w else (error, w));
          (error, w) = (if error = PE_none then on_disk (sync_directory (wal_dir (ww_layout w))) w else (error, w))
      in if error \<noteq> PE_none then (error, w)
         else
           let w = w\<lparr>ww_active_segment := None\<rparr>;
               (error, w) = open_new_segment next_first_lsn w
           in if error = PE_none then
                let (t, w) = steady_now w
                in (error, w\<lparr>ww_metrics := (ww_metrics w)
                     \<lparr>wm_rotation_nanoseconds := wm_rotation_nanoseconds (ww_metrics w) @ [t - rotation_started]\<rparr>\<rparr>)
              else (error, w))"

definition ensure_segment_for :: "Lsn \<Rightarrow> u64 \<Rightarrow> WalWriter \<Rightarrow> PersistenceError \<times> WalWriter" where
  "ensure_segment_for lsn encoded_bytes w =
     (if ww_active_segment w = None then open_new_segment lsn w
      else
        let has_records = (ww_active_bytes w > of_nat kSegmentHeaderBytes);
            size_exceeded = (ww_active_bytes w + encoded_bytes > wc_segment_max_bytes (ww_config w));
            (t, w) = steady_now w;
            age_exceeded = (t - ww_active_opened_at w > wc_segment_max_age (ww_config w))
        in if has_records \<and> (size_exceeded \<or> age_exceeded) then rotate_segment lsn w
           else (PE_none, w))"

section \<open>Batches\<close>

definition rejected_outcome :: "PersistenceError \<Rightarrow> AppendOutcome" where
  "rejected_outcome error = \<lparr>ao_error = error, ao_lsn = Lsn 0, ao_status = AS_none\<rparr>"

definition reject_all :: "PersistenceError \<Rightarrow> nat list \<Rightarrow> WalWriter \<Rightarrow> WalWriter" where
  "reject_all error ts w = foldl (\<lambda>w t. fulfill_ticket t (rejected_outcome error) w) w ts"

definition enter_fault :: "WalWriter \<Rightarrow> WalWriter" where
  "enter_fault w =
     (let w = w\<lparr>ww_fault := True\<rparr>;
          rejected = ww_queue w;
          w = w\<lparr>ww_queue := [], ww_queue_payload_bytes := 0\<rparr>;
          w = reject_all PE_fault_read_only (map pa_ticket rejected) w
      in w\<lparr>ww_active_segment := None\<rparr>)"

text \<open>
  The loop over a batch: the error, the tickets written with their numbers, whether a durable record
  is among them, and the records from the failed one on.
\<close>

fun write_records ::
  "Crc32cLib \<Rightarrow> PendingAppend list \<Rightarrow> (nat \<times> Lsn) list \<Rightarrow> bool \<Rightarrow> WalWriter \<Rightarrow>
     (PersistenceError \<times> (nat \<times> Lsn) list \<times> bool \<times> PendingAppend list \<times> WalWriter) option" where
  "write_records lib [] written any_durable w = Some (PE_none, written, any_durable, [], w)"
| "write_records lib (p # batch) written any_durable w =
     (let lsn = Lsn (ww_next_lsn_value w); r = pa_record p in
      case encode_record lib lsn (wr_kind r) (wr_target_tick r) (wr_payload r) of
        None \<Rightarrow> None
      | Some encoded \<Rightarrow>
          let (error, w) = ensure_segment_for lsn (of_nat (length encoded)) w;
              (error, w) = (if error = PE_none then write_active encoded w else (error, w))
          in if error \<noteq> PE_none then Some (error, written, any_durable, p # batch, w)
             else
               let w = w\<lparr>ww_active_bytes := ww_active_bytes w + of_nat (length encoded), ww_unsynced_writes := True\<rparr>;
                   written = written @ [(pa_ticket p, lsn)];
                   any_durable = (any_durable \<or> wr_durability r = D_durable);
                   w = (case next_lsn lsn of
                          None \<Rightarrow> w\<lparr>ww_lsn_exhausted := True\<rparr>
                        | Some n \<Rightarrow> w\<lparr>ww_next_lsn_value := lsn_value n\<rparr>)
               in write_records lib batch written any_durable w)"

definition accepted_outcome :: "WalRecord \<Rightarrow> Lsn \<Rightarrow> AppendOutcome" where
  "accepted_outcome r lsn = \<lparr>ao_error = PE_none, ao_lsn = lsn,
     ao_status = (if wr_durability r = D_relaxed then AS_relaxed_accepted else AS_durable_accepted)\<rparr>"

definition process_batch :: "Crc32cLib \<Rightarrow> PendingAppend list \<Rightarrow> WalWriter \<Rightarrow> WalWriter option" where
  "process_batch lib batch w =
     (if batch = [] then Some w
      else if ww_fault w then Some (reject_all PE_fault_read_only (map pa_ticket batch) w)
      else
        let (batch_started, w) = steady_now w in
        case write_records lib batch [] False w of
          None \<Rightarrow> None
        | Some (error, written, any_durable, failed, w) \<Rightarrow>
            let (error, w) =
              (if error = PE_none \<and> any_durable then
                 let (sync_started, w) = steady_now w;
                     (error, w) = sync_active w;
                     (t, w) = steady_now w;
                     w = record_sync (t - sync_started) w
                 in (error, if error = PE_none then w\<lparr>ww_unsynced_writes := False\<rparr> else w)
               else (error, w))
            in if error \<noteq> PE_none then
                 Some (enter_fault (reject_all error (map pa_ticket failed) (reject_all error (map fst written) w)))
               else
                 let w = foldl (\<lambda>w (p, _, lsn). fulfill_ticket (pa_ticket p) (accepted_outcome (pa_record p) lsn) w)
                       w (zip batch written);
                     w = (if any_durable then w\<lparr>ww_last_durable := lsn_value (snd (List.last written))\<rparr> else w);
                     (t, w) = steady_now w
                 in Some (w\<lparr>ww_metrics := (ww_metrics w)
                      \<lparr>wm_group_commit_batches := wm_group_commit_batches (ww_metrics w) + 1,
                       wm_records_written := wm_records_written (ww_metrics w) + of_nat (length written),
                       wm_group_commit_nanoseconds := wm_group_commit_nanoseconds (ww_metrics w) @ [t - batch_started]\<rparr>\<rparr>))"

section \<open>The worker\<close>

text \<open>
  The loop that fills a batch while it holds the lock. The first component tells whether it stops to
  wait for more records.
\<close>

fun collect_loop ::
  "WalConfig \<Rightarrow> bool \<Rightarrow> PendingAppend list \<Rightarrow> u64 \<Rightarrow> PendingAppend list \<Rightarrow> u64 \<Rightarrow>
     bool \<times> PendingAppend list \<times> u64 \<times> PendingAppend list \<times> u64" where
  "collect_loop config stopping [] queue_bytes batch batch_bytes = (False, [], queue_bytes, batch, batch_bytes)"
| "collect_loop config stopping (p # queue) queue_bytes batch batch_bytes =
     (if of_nat (length batch) \<ge> wc_group_commit_max_records config then
        (False, p # queue, queue_bytes, batch, batch_bytes)
      else if batch \<noteq> [] \<and> batch_bytes + record_payload_bytes (pa_record p) > wc_group_commit_max_bytes config then
        (False, p # queue, queue_bytes, batch, batch_bytes)
      else
        let batch_bytes = batch_bytes + record_payload_bytes (pa_record p);
            queue_bytes = queue_bytes - record_payload_bytes (pa_record p);
            batch = batch @ [p]
        in if of_nat (length batch) \<ge> wc_group_commit_max_records config \<or> stopping then
             (False, queue, queue_bytes, batch, batch_bytes)
           else if queue = [] then (True, queue, queue_bytes, batch, batch_bytes)
           else collect_loop config stopping queue queue_bytes batch batch_bytes)"

definition finish_batch :: "Crc32cLib \<Rightarrow> WalWriter \<Rightarrow> WalWriter option" where
  "finish_batch lib w =
     map_option (\<lambda>w. w\<lparr>ww_batch := [], ww_batch_bytes := 0, ww_phase := WP_idle\<rparr>) (process_batch lib (ww_batch w) w)"

definition collect_batch :: "Crc32cLib \<Rightarrow> WalWriter \<Rightarrow> WalWriter option" where
  "collect_batch lib w =
     (case collect_loop (ww_config w) (ww_stopping w) (ww_queue w) (ww_queue_payload_bytes w) (ww_batch w)
            (ww_batch_bytes w) of
        (wait, queue, queue_bytes, batch, batch_bytes) \<Rightarrow>
          let w = w\<lparr>ww_queue := queue, ww_queue_payload_bytes := queue_bytes, ww_batch := batch,
                    ww_batch_bytes := batch_bytes\<rparr>
          in if wait then Some (w\<lparr>ww_phase := WP_waiting\<rparr>) else finish_batch lib w)"

text \<open>
  A step of the worker. \<open>timeout\<close> tells whether the deadline of its wait has passed on the clock of the
  condition variable; a worker whose condition does not hold stays where it is.
\<close>

definition worker_step :: "Crc32cLib \<Rightarrow> bool \<Rightarrow> WalWriter \<Rightarrow> WalWriter option" where
  "worker_step lib timeout w =
     (case ww_phase w of
        WP_exited \<Rightarrow> Some w
      | WP_idle \<Rightarrow>
          if ww_queue w = [] \<and> \<not> ww_stopping w then Some w
          else if ww_queue w = [] then
            let (_, w) = (if ww_active_segment w \<noteq> None \<and> ww_unsynced_writes w \<and> \<not> ww_fault w
                  then sync_active w else (PE_none, w))
            in Some (w\<lparr>ww_active_segment := None, ww_phase := WP_exited\<rparr>)
          else
            let (t, w) = steady_now w
            in collect_batch lib (w\<lparr>ww_deadline := t + wc_group_commit_max_wait (ww_config w) * 1000000\<rparr>)
      | WP_waiting \<Rightarrow>
          if ww_queue w = [] \<and> \<not> ww_stopping w \<and> \<not> timeout then Some w
          else if ww_queue w = [] then finish_batch lib w
          else
            let (t, w) = steady_now w in
            if t \<ge> ww_deadline w then finish_batch lib w else collect_batch lib w)"

section \<open>Starting\<close>

definition config_valid :: "WalConfig \<Rightarrow> bool" where
  "config_valid c \<longleftrightarrow>
     \<not> (\<not> wid_valid (wc_world c) \<or> \<not> branch_valid (wc_branch c) \<or> wc_durable_root c = []
        \<or> wc_group_commit_max_records c = 0 \<or> wc_group_commit_max_bytes c = 0
        \<or> wc_queue_max_records c = 0 \<or> wc_queue_max_bytes c = 0
        \<or> wc_max_record_bytes c = 0 \<or> wc_max_record_bytes c > wc_segment_max_bytes c)"

text \<open>The check of the manifest: it is published if it is missing.\<close>

definition bind_directory :: "Crc32cLib \<Rightarrow> WalWriter \<Rightarrow> PersistenceError \<times> WalWriter" where
  "bind_directory lib w =
     (let path = directory_manifest_path (ww_layout w);
          (manifest, w) = on_disk (load_directory_manifest lib path) w
      in case manifest of
        Inl error \<Rightarrow>
          if error \<noteq> PE_not_found then (error, w)
          else on_disk (publish_directory_manifest lib path
            \<lparr>dm_format_version = kDirectoryManifestFormatVersion, dm_world = wc_world (ww_config w),
             dm_branch = wc_branch (ww_config w)\<rparr>) w
      | Inr m \<Rightarrow>
          if dm_world m \<noteq> wc_world (ww_config w) \<or> dm_branch m \<noteq> wc_branch (ww_config w)
          then (PE_config_invalid, w) else (PE_none, w))"

text \<open>The answer to a recovery floor: an error, or the scan with its next number filled in.\<close>

definition apply_floor :: "WalScanResult \<Rightarrow> WalWriter \<Rightarrow> (PersistenceError + WalScanResult) \<times> WalWriter" where
  "apply_floor scan w =
     (let floor_lsn = wc_recovery_floor_lsn (ww_config w) in
      if \<not> lsn_valid floor_lsn then (Inr scan, w)
      else case next_lsn floor_lsn of
        None \<Rightarrow> (Inr scan, w\<lparr>ww_lsn_exhausted := True\<rparr>)
      | Some after_floor \<Rightarrow>
          if lsn_valid (wsr_first_lsn scan) \<and> lsn_value (wsr_first_lsn scan) > lsn_value after_floor
          then (Inl PE_lsn_discontinuity, w)
          else if \<not> lsn_valid (wsr_next_lsn scan) then (Inr (scan\<lparr>wsr_next_lsn := after_floor\<rparr>), w)
          else (Inr scan, w))"

definition reopen_active :: "WalScanResult \<Rightarrow> WalWriter \<Rightarrow> PersistenceError \<times> WalWriter" where
  "reopen_active scan w =
     (if wsr_active_segment scan = [] then (PE_none, w)
      else
        let (opened, w) = on_disk (open_append (wsr_active_segment scan)) w in
        case opened of
          Inl error \<Rightarrow> (error, w)
        | Inr f \<Rightarrow>
            let file_name = path_filename (wsr_active_segment scan);
                first_lsn = (case parse_segment_file_name
                    (take (length file_name - length kActiveSegmentSuffix) file_name) of
                      Some l \<Rightarrow> l | None \<Rightarrow> Lsn (ww_next_lsn_value w));
                w = w\<lparr>ww_active_segment := Some f, ww_active_path := wsr_active_segment scan,
                      ww_active_first_lsn := first_lsn, ww_active_bytes := wf_size f\<rparr>;
                (t, w) = steady_now w;
                w = w\<lparr>ww_active_opened_at := t\<rparr>;
                header = encode_segment_header first_lsn;
                (error, w) =
                  (if ww_active_bytes w = 0 then
                     let (error, w) = write_active header w
                     in (error, if error \<noteq> PE_none then w else w\<lparr>ww_active_bytes := of_nat (length header)\<rparr>)
                   else (PE_none, w))
            in if error \<noteq> PE_none then (error, w) else (PE_none, w\<lparr>ww_unsynced_writes := False\<rparr>))"

definition writer_start :: "Crc32cLib \<Rightarrow> WalWriter \<Rightarrow> PersistenceError \<times> WalWriter" where
  "writer_start lib w =
     (if \<not> config_valid (ww_config w) then (PE_config_invalid, w)
      else
        let c = ww_config w;
            w = w\<lparr>ww_layout := make_durable_layout (wc_durable_root c) (wc_world c) (wc_branch c)\<rparr>;
            (error, w) = on_disk (create_directories (wal_dir (ww_layout w))) w;
            (error, w) = (if error = PE_none then on_disk (create_directories (manifest_dir (ww_layout w))) w
              else (error, w));
            (error, w) = (if error = PE_none then on_disk (create_directories (checkpoint_dir (ww_layout w))) w
              else (error, w))
        in if error \<noteq> PE_none then (error, w)
        else
          let (error, w) = bind_directory lib w in
          if error \<noteq> PE_none then (error, w)
          else
            let first_expected = (if lsn_valid (wc_recovery_floor_lsn c) then Lsn 0 else kFirstLsn);
                (scan, w) = on_disk (scan_wal_directory lib (wal_dir (ww_layout w)) TP_trim_active_tail
                  first_expected (wc_max_record_bytes c)) w
            in if wsr_error scan \<noteq> PE_none then (wsr_error scan, w)
            else
              let (checked, w) = apply_floor scan w in
              case checked of
                Inl error \<Rightarrow> (error, w)
              | Inr scan \<Rightarrow>
                  let w = (if lsn_valid (wsr_next_lsn scan)
                        then w\<lparr>ww_next_lsn_value := lsn_value (wsr_next_lsn scan)\<rparr> else w);
                      w = (if lsn_valid (wsr_last_lsn scan) then
                             w\<lparr>ww_lsn_exhausted := (if \<not> lsn_valid (wsr_next_lsn scan) then True else ww_lsn_exhausted w),
                               ww_last_durable := lsn_value (wsr_last_lsn scan)\<rparr> else w);
                      (error, w) = reopen_active scan w
                  in if error \<noteq> PE_none then (error, w) else (PE_none, w\<lparr>ww_started := True\<rparr>))"

end
