(* ===== verification/Wal_Durability.thy ===== *)
theory Wal_Durability
  imports Wal_Writer
begin

text \<open>
  What the writer acknowledges survives. \<open>stored\<close> says that a disk holds a list of records of which the
  first ones are synced; \<open>running\<close> ties such a disk to the fields of a writer that may go on writing.
  Every operation keeps one of the two, whatever system calls fail.
\<close>

section \<open>Stored records\<close>

definition log_dir :: "WalConfig \<Rightarrow> Path" where
  "log_dir c = wal_dir (make_durable_layout (wc_durable_root c) (wc_world c) (wc_branch c))"

definition size_bound :: "WalConfig \<Rightarrow> nat" where
  "size_bound c = unat (wc_segment_max_bytes c) + 2 ^ 33"

definition durable_upto :: "Crc32cLib \<Rightarrow> WalRecord list list \<Rightarrow> (WalRecord list \<times> FileNode) option \<Rightarrow> nat \<Rightarrow> bool" where
  "durable_upto lib segs act K \<longleftrightarrow>
     (\<exists>k. synced_records lib (1 + length (concat segs)) act k \<and> K \<le> length (concat segs) + k)"

definition stored_as ::
  "Crc32cLib \<Rightarrow> WalConfig \<Rightarrow> Disk \<Rightarrow> WalRecord list list \<Rightarrow> (WalRecord list \<times> FileNode) option \<Rightarrow> nat \<Rightarrow> bool" where
  "stored_as lib c d segs act K \<longleftrightarrow>
     wal_files lib (log_dir c) segs act d \<and> journal_ok lib (wc_max_record_bytes c) segs act \<and>
     active_size act \<le> size_bound c \<and> durable_upto lib segs act K"

definition stored :: "Crc32cLib \<Rightarrow> WalConfig \<Rightarrow> Disk \<Rightarrow> WalRecord list \<Rightarrow> nat \<Rightarrow> bool" where
  "stored lib c d rs K \<longleftrightarrow> (\<exists>segs act. stored_as lib c d segs act K \<and> log_records segs act = rs)"

fun active_matches ::
  "Crc32cLib \<Rightarrow> WalWriter \<Rightarrow> nat \<Rightarrow> (WalRecord list \<times> FileNode) option \<Rightarrow> bool" where
  "active_matches lib w n None \<longleftrightarrow> ww_active_segment w = None"
| "active_matches lib w n (Some (rs, node)) \<longleftrightarrow>
     (\<exists>f. ww_active_segment w = Some f \<and> wf_path f = path_append (log_dir (ww_config w)) (active_name n)) \<and>
     ww_active_path w = path_append (log_dir (ww_config w)) (active_name n) \<and>
     ww_active_first_lsn w = Lsn (of_nat n) \<and> fn_bytes node = seg_bytes lib n rs \<and>
     ww_active_bytes w = of_nat (length (fn_bytes node))"

definition running_as ::
  "Crc32cLib \<Rightarrow> WalWriter \<Rightarrow> WalRecord list list \<Rightarrow> (WalRecord list \<times> FileNode) option \<Rightarrow> nat \<Rightarrow> bool" where
  "running_as lib w segs act K \<longleftrightarrow>
     stored_as lib (ww_config w) (ww_disk w) segs act K \<and>
     wal_dir (ww_layout w) = log_dir (ww_config w) \<and>
     ww_next_lsn_value w = of_nat (1 + length (log_records segs act)) \<and>
     active_matches lib w (1 + length (concat segs)) act"

definition running :: "Crc32cLib \<Rightarrow> WalWriter \<Rightarrow> WalRecord list \<Rightarrow> nat \<Rightarrow> bool" where
  "running lib w rs K \<longleftrightarrow> (\<exists>segs act. running_as lib w segs act K \<and> log_records segs act = rs)"

lemma running_stored: "running lib w rs K \<Longrightarrow> stored lib (ww_config w) (ww_disk w) rs K"
  by (auto simp: running_def running_as_def stored_def)

text \<open>The fields that \<open>running_as\<close> is about.\<close>

definition view where
  "view w = (ww_config w, ww_disk w, ww_layout w, ww_next_lsn_value w, ww_active_segment w,
     (ww_active_path w, ww_active_first_lsn w, ww_active_bytes w))"

lemma view_fields:
  assumes "view w' = view w"
  shows "ww_config w' = ww_config w" "ww_disk w' = ww_disk w" "ww_layout w' = ww_layout w"
    "ww_next_lsn_value w' = ww_next_lsn_value w" "ww_active_segment w' = ww_active_segment w"
    "ww_active_path w' = ww_active_path w" "ww_active_first_lsn w' = ww_active_first_lsn w"
    "ww_active_bytes w' = ww_active_bytes w"
  using assms by (simp_all only: view_def prod.inject)

lemma running_as_view:
  assumes "view w' = view w"
  shows "running_as lib w' segs act K = running_as lib w segs act K"
proof -
  have matches: "active_matches lib w' n act = active_matches lib w n act" for n
  proof (cases act)
    case None
    show ?thesis unfolding None active_matches.simps view_fields [OF assms] ..
  next
    case (Some a)
    obtain rs node where a: "a = (rs, node)" by fastforce
    show ?thesis unfolding Some a active_matches.simps view_fields [OF assms] ..
  qed
  show ?thesis unfolding running_as_def view_fields [OF assms] matches ..
qed

lemma running_view:
  assumes "view w' = view w"
  shows "running lib w' rs K = running lib w rs K"
  unfolding running_def running_as_view [OF assms] ..

lemma steady_now_cases:
  assumes "steady_now w = (t, w')"
  shows "w' = w \<or> (\<exists>ts. w' = w\<lparr>ww_clock := ts, ww_now := t\<rparr>)"
  using assms by (auto simp: steady_now_def split: list.splits)

lemma steady_now_view: "steady_now w = (t, w') \<Longrightarrow> view w' = view w"
  by (auto dest!: steady_now_cases simp: view_def)

lemma durable_upto_mono: "durable_upto lib segs act K \<Longrightarrow> K' \<le> K \<Longrightarrow> durable_upto lib segs act K'"
  by (auto simp: durable_upto_def)

text \<open>Writing behind the synced part changes nothing for what is durable.\<close>

lemma durable_upto_write:
  assumes "durable_upto lib segs (Some (rs, node)) K" "fn_synced node' = fn_synced node"
  shows "durable_upto lib segs (Some (rs @ rs', node')) K"
proof -
  obtain k where k: "synced_records lib (1 + length (concat segs)) (Some (rs, node)) k" "K \<le> length (concat segs) + k"
    using assms(1) by (auto simp: durable_upto_def)
  then have "synced_records lib (1 + length (concat segs)) (Some (rs @ rs', node')) k"
    using assms(2) by (auto simp: synced_records_def)
  with k(2) show ?thesis by (auto simp: durable_upto_def)
qed

text \<open>A synced active segment is durable as a whole.\<close>

lemma durable_upto_synced:
  assumes "fn_bytes node = seg_bytes lib (1 + length (concat segs)) rs" "fn_synced node = length (fn_bytes node)"
  shows "durable_upto lib segs (Some (rs, node)) (length (log_records segs (Some (rs, node))))"
  using assms by (auto simp: durable_upto_def synced_records_def log_records_def intro!: exI [of _ "length rs"])

lemma durable_upto_closed: "durable_upto lib segs None (length (concat segs))"
  by (auto simp: durable_upto_def synced_records_def)

section \<open>The crash and the scan\<close>

lemma crash_stored:
  assumes "stored lib c d rs K"
  shows "\<exists>j \<ge> K. stored lib c (crash keep d) (take j rs) K \<and> K \<le> length (take j rs)"
proof -
  obtain segs act where s: "stored_as lib c d segs act K" "log_records segs act = rs"
    using assms by (auto simp: stored_def)
  then obtain k where k: "synced_records lib (1 + length (concat segs)) act k" "K \<le> length (concat segs) + k"
    by (auto simp: stored_as_def durable_upto_def)
  from crash_log [OF _ _ k(1), of "log_dir c" d "wc_max_record_bytes c" keep] s(1) obtain act' j where
    j: "wal_files lib (log_dir c) segs act' (crash keep d)" "journal_ok lib (wc_max_record_bytes c) segs act'"
      "active_records act' = take j (active_records act)"
      "synced_records lib (1 + length (concat segs)) act' k" "active_size act' \<le> active_size act"
    by (auto simp: stored_as_def)
  have rs: "log_records segs act' = take (length (concat segs) + j) rs"
    using j(3) s(2) by (auto simp: log_records_def)
  have "k \<le> length (active_records act')"
    using j(4) by (cases act') (auto simp: synced_records_def)
  then have "K \<le> length (log_records segs act')" using k(2) by (simp add: log_records_def)
  moreover have "stored_as lib c (crash keep d) segs act' K"
    using j k(2) s(1) by (auto simp: stored_as_def durable_upto_def)
  ultimately show ?thesis
    using rs by (intro exI [of _ "length (concat segs) + j"]) (auto simp: stored_def)
qed

lemma stored_scan:
  assumes "stored lib c d rs K" "dk_plan d = []" "dk_truncate_plan d = []" "log_dir c |\<in>| dk_dirs d"
  shows "\<exists>result d'. scan_wal_directory lib (log_dir c) TP_trim_active_tail kFirstLsn (wc_max_record_bytes c) d =
       (result, d') \<and> wsr_error result = PE_none \<and> wsr_records result = scanned 1 rs"
proof -
  obtain segs act where s: "stored_as lib c d segs act K" "log_records segs act = rs"
    using assms by (auto simp: stored_def)
  then show ?thesis
    using scan_log [of lib "log_dir c" segs act d "wc_max_record_bytes c"] assms(2-4)
    by (auto simp: stored_as_def)
qed

section \<open>Control fields\<close>

text \<open>The fields that the operations on segments leave alone.\<close>

definition ctrl where
  "ctrl w = (ww_config w, ww_layout w, dk_dirs (ww_disk w), ww_tickets w, ww_queue w, ww_batch w,
     (ww_fault w, ww_phase w, ww_stopping w, ww_started w))"

lemma ctrl_other [simp]:
  "ctrl (w\<lparr>ww_clock := a\<rparr>) = ctrl w" "ctrl (w\<lparr>ww_now := b\<rparr>) = ctrl w" "ctrl (w\<lparr>ww_metrics := c\<rparr>) = ctrl w"
  "ctrl (w\<lparr>ww_unsynced_writes := e\<rparr>) = ctrl w" "ctrl (w\<lparr>ww_active_opened_at := g\<rparr>) = ctrl w"
  "ctrl (w\<lparr>ww_active_segment := h\<rparr>) = ctrl w" "ctrl (w\<lparr>ww_active_path := i\<rparr>) = ctrl w"
  "ctrl (w\<lparr>ww_active_first_lsn := j\<rparr>) = ctrl w" "ctrl (w\<lparr>ww_active_bytes := k\<rparr>) = ctrl w"
  "ctrl (w\<lparr>ww_next_lsn_value := l\<rparr>) = ctrl w" "ctrl (w\<lparr>ww_lsn_exhausted := q\<rparr>) = ctrl w"
  "ctrl (w\<lparr>ww_last_durable := n\<rparr>) = ctrl w"
  "dk_dirs d = dk_dirs (ww_disk w) \<Longrightarrow> ctrl (w\<lparr>ww_disk := d\<rparr>) = ctrl w"
  by (simp_all add: ctrl_def)

lemma ctrl_fields: "ctrl w' = ctrl w \<Longrightarrow> ww_config w' = ww_config w" "ctrl w' = ctrl w \<Longrightarrow> ww_layout w' = ww_layout w"
  "ctrl w' = ctrl w \<Longrightarrow> dk_dirs (ww_disk w') = dk_dirs (ww_disk w)"
  by (simp_all add: ctrl_def)

lemma ctrl_now: "steady_now w = (t, w') \<Longrightarrow> ctrl w' = ctrl w"
  by (auto dest: steady_now_cases)

section \<open>Segments\<close>

lemma wal_files_change:
  assumes "wal_files lib dir segs (Some (rs, node)) d"
    and "\<And>q. fmlookup (dk_files d') q =
      (if q = path_append dir (active_name (1 + length (concat segs))) then Some node' else fmlookup (dk_files d) q)"
  shows "wal_files lib dir segs (Some (rs', node')) d'"
  using assms by (auto simp: wal_files_def path_append_def map_add_def split: option.split)

lemma wal_files_create:
  assumes "wal_files lib dir segs None d"
    and "\<And>q. fmlookup (dk_files d') q =
      (if q = path_append dir (active_name (1 + length (concat segs))) then Some node' else fmlookup (dk_files d) q)"
  shows "wal_files lib dir segs (Some (rs', node')) d'"
  using assms by (auto simp: wal_files_def path_append_def map_add_def split: option.split)

lemma wal_files_same:
  "wal_files lib dir segs act d \<Longrightarrow> dk_files d' = dk_files d \<Longrightarrow> wal_files lib dir segs act d'"
  by (simp add: wal_files_def)

text \<open>A write to the active file appends a part of the data.\<close>

lemma write_active_file:
  assumes "write_active data w = (e, w')" "ww_active_segment w = Some f"
    and "wf_path f = path_append dir (active_name (1 + length (concat segs)))"
    and "wal_files lib dir segs (Some (rs, node)) (ww_disk w)"
  shows "\<exists>f' d' k. w' = w\<lparr>ww_active_segment := Some f', ww_disk := d'\<rparr> \<and> wf_path f' = wf_path f \<and>
     (if e = PE_none then length data \<le> k else k < length data) \<and> dk_dirs d' = dk_dirs (ww_disk w) \<and>
     (\<forall>rs'. wal_files lib dir segs (Some (rs', node\<lparr>fn_bytes := fn_bytes node @ take k data\<rparr>)) d')"
proof -
  obtain e1 f' d' where w: "file_write f data (ww_disk w) = (e1, f', d')" by (metis prod_cases3)
  then have result: "e1 = e" "w' = w\<lparr>ww_active_segment := Some f', ww_disk := d'\<rparr>"
    using assms(1,2) by (auto simp: write_active_def)
  from file_write_lookup(1) [OF w] obtain k where
    k: "\<forall>q. fmlookup (dk_files d') q = (if q = wf_path f
         then map_option (\<lambda>n. n\<lparr>fn_bytes := fn_bytes n @ take k data\<rparr>) (fmlookup (dk_files (ww_disk w)) q)
         else fmlookup (dk_files (ww_disk w)) q)"
      "if e1 = PE_none then length data \<le> k else k < length data" by blast
  have "wal_files lib dir segs (Some (rs', node\<lparr>fn_bytes := fn_bytes node @ take k data\<rparr>)) d'" for rs'
    by (rule wal_files_change [OF assms(4)]) (use k(1) assms(3) wal_files_active [OF assms(4)] in auto)
  with k(2) result file_write_lookup(2,3) [OF w] show ?thesis by (intro exI [of _ f'] exI [of _ d'] exI [of _ k]) simp
qed

lemma header_stored:
  assumes "stored_as lib c d segs None K" "wal_files lib (log_dir c) segs (Some ([], \<lparr>fn_bytes = bs, fn_synced = 0\<rparr>)) d'"
    and "bs = take k (encode_segment_header (Lsn (of_nat (1 + length (concat segs)))))"
  shows "stored_as lib c d' segs (Some ([], \<lparr>fn_bytes = bs, fn_synced = 0\<rparr>)) K"
proof -
  let ?h = "encode_segment_header (Lsn (of_nat (1 + length (concat segs))))"
  have "active_bytes lib (wc_max_record_bytes c) (1 + length (concat segs)) [] bs"
  proof (cases "k < 16")
    case True
    with assms(3) show ?thesis by (auto simp: active_bytes_def)
  next
    case False
    with assms(3) have "bs = seg_bytes lib (1 + length (concat segs)) []" by (simp add: seg_bytes_def)
    then show ?thesis by (auto simp: active_bytes_def)
  qed
  moreover have len: "length bs \<le> 16" using assms(3) by simp
  moreover have "durable_upto lib segs (Some ([], \<lparr>fn_bytes = bs, fn_synced = 0\<rparr>)) K"
    using assms(1) by (auto simp: stored_as_def durable_upto_def synced_records_def)
  ultimately show ?thesis
    using assms(1,2) by (auto simp: stored_as_def journal_ok_def log_records_def size_bound_def)
qed

lemma open_new_segment_running:
  assumes "running_as lib w segs None K" "open_new_segment (Lsn (of_nat (1 + length (concat segs)))) w = (e, w')"
  shows "ctrl w' = ctrl w \<and>
     (if e = PE_none
      then \<exists>node. running_as lib w' segs (Some ([], node)) K \<and> length (fn_bytes node) = 16
      else \<exists>act. stored_as lib (ww_config w) (ww_disk w') segs act K \<and> active_records act = [])"
proof -
  let ?c = "ww_config w"
  let ?n = "1 + length (concat segs)"
  let ?p = "path_append (log_dir ?c) (active_name ?n)"
  let ?h = "encode_segment_header (Lsn (of_nat ?n))"
  have s: "stored_as lib ?c (ww_disk w) segs None K" "wal_dir (ww_layout w) = log_dir ?c"
    "ww_next_lsn_value w = of_nat (1 + length (concat segs))"
    using assms(1) by (simp_all add: running_as_def log_records_def)
  have path: "path_append (wal_dir (ww_layout w)) (segment_file_name (Lsn (of_nat ?n)) @ kActiveSegmentSuffix) = ?p"
    by (simp add: s(2) active_name_def)
  obtain r d1 where create: "create_exclusive ?p (ww_disk w) = (r, d1)" by (metis surj_pair)
  note created = create_exclusive_lookup [OF create]
  show ?thesis
  proof (cases r)
    case (Inl err)
    then have "e = err" "w' = w\<lparr>ww_active_path := ?p, ww_disk := d1\<rparr>"
      using assms(2) create path by (simp_all add: open_new_segment_def on_disk_def Let_def)
    moreover have "stored_as lib ?c d1 segs None K"
      using s(1) created Inl wal_files_same by (auto simp: stored_as_def)
    ultimately show ?thesis using created Inl by (auto intro!: exI [of _ None])
  next
    case (Inr f)
    let ?w1 = "w\<lparr>ww_active_path := ?p, ww_disk := d1, ww_active_segment := Some f, ww_active_first_lsn := Lsn (of_nat ?n)\<rparr>"
    obtain e2 w2 where header: "write_active ?h ?w1 = (e2, w2)" by (metis surj_pair)
    have "wal_files lib (log_dir ?c) segs (Some ([], \<lparr>fn_bytes = [], fn_synced = 0\<rparr>)) d1"
      by (rule wal_files_create [of _ _ _ "ww_disk w"]) (use s(1) created Inr in \<open>auto simp: stored_as_def\<close>)
    with write_active_file [OF header, of f "log_dir ?c" segs lib "[]" "\<lparr>fn_bytes = [], fn_synced = 0\<rparr>"] created Inr
    obtain f' d' k where w2: "w2 = ?w1\<lparr>ww_active_segment := Some f', ww_disk := d'\<rparr>" "wf_path f' = ?p"
      "if e2 = PE_none then length ?h \<le> k else k < length ?h" "dk_dirs d' = dk_dirs (ww_disk w)"
      "\<forall>rs'. wal_files lib (log_dir ?c) segs (Some (rs', \<lparr>fn_bytes = take k ?h, fn_synced = 0\<rparr>)) d'"
      by (auto simp del: length_encode_segment_header)
    let ?node = "\<lparr>fn_bytes = take k ?h, fn_synced = 0\<rparr>"
    have stored: "stored_as lib ?c d' segs (Some ([], ?node)) K"
      by (rule header_stored [OF s(1)]) (use w2(5) in auto)
    show ?thesis
    proof (cases "e2 = PE_none")
      case False
      then have "e = e2" "w' = w2\<lparr>ww_active_segment := None\<rparr>"
        using assms(2) create path header Inr by (simp_all add: open_new_segment_def on_disk_def Let_def)
      then show ?thesis using False stored w2(1,4) by (auto intro!: exI [of _ "Some ([], ?node)"])
    next
      case True
      obtain t w3 where now: "steady_now w2 = (t, w3)" by (metis surj_pair)
      have e: "e = PE_none" "w' = w3\<lparr>ww_active_bytes := of_nat (length ?h), ww_active_opened_at := t, ww_unsynced_writes := True\<rparr>"
        using assms(2) create path header Inr True now by (simp_all add: open_new_segment_def on_disk_def Let_def)
      have h: "take k ?h = ?h" using w2(3) True by simp
      then have "running_as lib (w2\<lparr>ww_active_bytes := of_nat (length ?h)\<rparr>) segs (Some ([], ?node)) K"
        using stored w2 s by (simp add: running_as_def log_records_def seg_bytes_def)
      moreover have "view w' = view (w2\<lparr>ww_active_bytes := of_nat (length ?h)\<rparr>)"
        using steady_now_cases [OF now] e(2) by (auto simp: view_def)
      ultimately have "running_as lib w' segs (Some ([], ?node)) K"
        using running_as_view by blast
      with h e(1) show ?thesis using w2(1,4) steady_now_cases [OF now] e(2) by auto
    qed
  qed
qed

text \<open>Closing the active segment moves its records to the closed ones.\<close>

lemma closed_nodes_snoc:
  "closed_nodes lib n (segs @ [rs]) = closed_nodes lib n segs @
     [(closed_name (n + length (concat segs)),
       \<lparr>fn_bytes = seg_bytes lib (n + length (concat segs)) rs,
        fn_synced = length (seg_bytes lib (n + length (concat segs)) rs)\<rparr>)]"
  by (induction segs arbitrary: n) (simp_all add: add.assoc)

lemma closed_name_fresh:
  assumes "[] \<notin> set segs" "1 + length (concat segs) < 2 ^ 64"
  shows "map_of (closed_nodes lib 1 segs) (closed_name (1 + length (concat segs))) = None"
proof (rule ccontr)
  assume "map_of (closed_nodes lib 1 segs) (closed_name (1 + length (concat segs))) \<noteq> None"
  then have "closed_name (1 + length (concat segs)) \<in> fst ` set (closed_nodes lib 1 segs)"
    by (simp only: map_of_eq_None_iff) simp
  from closed_node_names [OF this assms(1)] obtain k where
    k: "1 \<le> k" "k < 1 + length (concat segs)" "closed_name (1 + length (concat segs)) = closed_name k" by blast
  with segment_name_inject [of "1 + length (concat segs)" k] assms(2) show False
    by (simp add: closed_name_def del: of_nat_Suc of_nat_add)
qed

lemma wal_files_close:
  assumes "wal_files lib dir segs (Some (rs, node)) d" "journal_ok lib m segs (Some (rs, node))"
    and "node = \<lparr>fn_bytes = seg_bytes lib (1 + length (concat segs)) rs,
      fn_synced = length (seg_bytes lib (1 + length (concat segs)) rs)\<rparr>"
    and "\<And>q. fmlookup (dk_files d') q =
      (if q = path_append dir (closed_name (1 + length (concat segs))) then Some node
       else if q = path_append dir (active_name (1 + length (concat segs))) then None
       else fmlookup (dk_files d) q)"
  shows "wal_files lib dir (segs @ [rs]) None d'"
  unfolding wal_files_def
proof
  fix name
  have "map_of (closed_nodes lib 1 segs) (closed_name (1 + length (concat segs))) = None"
    by (rule closed_name_fresh) (use assms(2) in \<open>auto simp: journal_ok_def log_records_def\<close>)
  moreover have "fmlookup (dk_files d) (path_append dir name) =
      map_of (closed_nodes lib 1 segs @ active_nodes (1 + length (concat segs)) (Some (rs, node))) name"
    using assms(1) by (simp add: wal_files_def)
  moreover have "path_append dir a = path_append dir b \<longleftrightarrow> a = b" for a b
    by (simp add: path_append_def)
  ultimately show "fmlookup (dk_files d') (path_append dir name) =
      map_of (closed_nodes lib 1 (segs @ [rs]) @ active_nodes (1 + length (concat (segs @ [rs]))) None) name"
    unfolding closed_nodes_snoc assms(4) using assms(3)
    by (auto simp: map_add_def split: option.split)
qed

lemma durable_upto_le: "durable_upto lib segs act K \<Longrightarrow> K \<le> length (log_records segs act)"
  by (cases act) (auto simp: durable_upto_def synced_records_def log_records_def)

lemma stored_as_closed:
  assumes "stored_as lib c d segs (Some (rs, node)) K" "rs \<noteq> []" "wal_files lib (log_dir c) (segs @ [rs]) None d'"
  shows "stored_as lib c d' (segs @ [rs]) None K"
  using assms durable_upto_le [of lib segs "Some (rs, node)" K] durable_upto_closed [of lib "segs @ [rs]"]
  by (auto simp: stored_as_def journal_ok_def log_records_def intro: durable_upto_mono)

text \<open>A sync makes the active segment durable, if it succeeds.\<close>

lemma sync_active_file:
  assumes "running_as lib w segs act K" "sync_active w = (e, w')"
  shows "\<exists>d' act'. w' = w\<lparr>ww_disk := d'\<rparr> \<and> dk_dirs d' = dk_dirs (ww_disk w) \<and>
     active_records act' = active_records act \<and> running_as lib w' segs act' K \<and>
     (case act of None \<Rightarrow> act' = None
      | Some (rs, node) \<Rightarrow> act' = Some (rs, if e = PE_none then node\<lparr>fn_synced := length (fn_bytes node)\<rparr> else node))"
proof (cases act)
  case None
  with assms have "e = PE_none" "w' = w" by (auto simp: sync_active_def running_as_def)
  with None assms(1) show ?thesis by (intro exI [of _ "ww_disk w"] exI [of _ None]) simp
next
  case (Some a)
  obtain rs node where a: "act = Some (rs, node)" using Some by (cases a) auto
  let ?c = "ww_config w"
  let ?n = "1 + length (concat segs)"
  let ?node = "if e = PE_none then node\<lparr>fn_synced := length (fn_bytes node)\<rparr> else node"
  from assms(1) obtain f where f: "ww_active_segment w = Some f" "wf_path f = path_append (log_dir ?c) (active_name ?n)"
    by (auto simp: running_as_def a)
  have s: "wal_files lib (log_dir ?c) segs (Some (rs, node)) (ww_disk w)"
      "journal_ok lib (wc_max_record_bytes ?c) segs (Some (rs, node))"
      "length (fn_bytes node) \<le> size_bound ?c" "durable_upto lib segs (Some (rs, node)) K"
      "fn_bytes node = seg_bytes lib ?n rs"
    using assms(1) unfolding running_as_def stored_as_def a active_size.simps active_matches.simps by blast+
  obtain d' where sync: "file_sync f (ww_disk w) = (e, d')" "w' = w\<lparr>ww_disk := d'\<rparr>"
    using assms(2) f(1) by (auto simp: sync_active_def on_disk_def split: prod.splits)
  note looked = file_sync_lookup [OF sync(1)]
  have files: "wal_files lib (log_dir ?c) segs (Some (rs, ?node)) d'"
    by (rule wal_files_change [OF s(1)]) (use looked(1) f(2) wal_files_active [OF s(1)] in auto)
  have durable: "durable_upto lib segs (Some (rs, ?node)) K"
  proof (cases "e = PE_none")
    case True
    have "durable_upto lib segs (Some (rs, ?node)) (length (log_records segs (Some (rs, ?node))))"
      by (rule durable_upto_synced) (use True s(5) in simp_all)
    then show ?thesis
      by (rule durable_upto_mono) (use durable_upto_le [OF s(4)] in \<open>simp add: log_records_def\<close>)
  qed (use s(4) in simp)
  have "journal_ok lib (wc_max_record_bytes ?c) segs (Some (rs, ?node))"
    using s(2,5) by (auto simp: journal_ok_def log_records_def)
  with files durable s(3) have "stored_as lib ?c d' segs (Some (rs, ?node)) K"
    by (simp add: stored_as_def)
  then have "running_as lib w' segs (Some (rs, ?node)) K"
    using assms(1) sync(2) by (simp add: running_as_def a log_records_def)
  with sync(2) looked(2) a show ?thesis
    by (intro exI [of _ d'] exI [of _ "Some (rs, ?node)"]) simp
qed

lemma rotate_segment_running:
  assumes "running_as lib w segs (Some (rs, node)) K" "rs \<noteq> []"
    and "rotate_segment (Lsn (of_nat (1 + length (concat segs) + length rs))) w = (e, w')"
  shows "ctrl w' = ctrl w \<and>
     (if e = PE_none
      then \<exists>node'. running_as lib w' (segs @ [rs]) (Some ([], node')) K \<and> length (fn_bytes node') = 16
      else \<exists>segs' act'. stored_as lib (ww_config w) (ww_disk w') segs' act' K \<and>
        log_records segs' act' = concat segs @ rs)"
proof -
  let ?c = "ww_config w"
  let ?n = "1 + length (concat segs)"
  let ?closed = "path_append (log_dir ?c) (closed_name ?n)"
  let ?active = "path_append (log_dir ?c) (active_name ?n)"
  let ?next = "Lsn (of_nat (1 + length (concat segs) + length rs))"
  obtain t1 w1 where now1: "steady_now w = (t1, w1)" by (metis surj_pair)
  obtain t2 w2 where now2: "steady_now w1 = (t2, w2)" by (metis surj_pair)
  have v2: "view w2 = view w" "ctrl w2 = ctrl w"
    using steady_now_view [OF now1] steady_now_view [OF now2] ctrl_now [OF now1] ctrl_now [OF now2] by simp_all
  have r2: "running_as lib w2 segs (Some (rs, node)) K"
    using assms(1) running_as_view [OF v2(1)] by simp
  obtain e3 w3 where sync: "sync_active w2 = (e3, w3)" by (metis surj_pair)
  from sync_active_file [OF r2 sync] obtain d3 act3 where
    w3: "w3 = w2\<lparr>ww_disk := d3\<rparr>" "dk_dirs d3 = dk_dirs (ww_disk w2)" "running_as lib w3 segs act3 K"
      "act3 = Some (rs, if e3 = PE_none then node\<lparr>fn_synced := length (fn_bytes node)\<rparr> else node)" by auto
  obtain t4 w4 where now4: "steady_now w3 = (t4, w4)" by (metis surj_pair)
  define w5 where "w5 = record_sync (t4 - t2) w4"
  have v5: "view w5 = view w3" "ctrl w5 = ctrl w3"
    using steady_now_view [OF now4] ctrl_now [OF now4] by (simp_all add: w5_def record_sync_def view_def)
  have ctrl5: "ctrl w5 = ctrl w" using v5(2) w3(1,2) v2(2) by simp
  have r5: "running_as lib w5 segs act3 K" using w3(3) running_as_view [OF v5(1)] by simp
  have c5: "ww_config w5 = ?c" "ww_layout w5 = ww_layout w" "dk_dirs (ww_disk w5) = dk_dirs (ww_disk w)"
    using ctrl5 ctrl_fields by blast+
  have paths: "path_append (log_dir ?c) (segment_file_name (ww_active_first_lsn w5) @ kSegmentExtension) = ?closed"
    "ww_active_path w5 = ?active" "wal_dir (ww_layout w5) = log_dir ?c"
    using r5 c5(1) by (simp_all add: running_as_def w3(4) closed_name_def)
  have s5: "stored_as lib ?c (ww_disk w5) segs act3 K" using r5 c5(1) by (simp add: running_as_def)
  obtain e6 w6 where rename: "(if e3 = PE_none then on_disk (rename_file ?active ?closed) w5 else (e3, w5)) = (e6, w6)"
    by (metis surj_pair)
  have "ww_layout w6 = ww_layout w5"
    using rename by (auto simp: on_disk_def split: if_splits prod.splits)
  then have layout6: "wal_dir (ww_layout w6) = log_dir ?c" using paths(3) by simp
  obtain e7 w7 where dir: "(if e6 = PE_none then on_disk (sync_directory (log_dir ?c)) w6 else (e6, w6)) = (e7, w7)"
    by (metis surj_pair)
  note rot = assms(3) [unfolded rotate_segment_def Let_def now1 now2 sync now4 prod.case, folded w5_def,
      unfolded paths, unfolded paths rename prod.case layout6 dir]
  have log3: "log_records segs act3 = concat segs @ rs" by (simp add: w3(4) log_records_def)
  show ?thesis
  proof (cases "e6 = PE_none")
    case False
    have "stored_as lib ?c (ww_disk w6) segs act3 K \<and> ctrl w6 = ctrl w5"
    proof (cases "e3 = PE_none")
      case True
      then obtain d6 where d6: "rename_file ?active ?closed (ww_disk w5) = (e6, d6)" "w6 = w5\<lparr>ww_disk := d6\<rparr>"
        using rename by (auto simp: on_disk_def split: prod.splits)
      with rename_file_lookup [OF d6(1)] False s5 show ?thesis
        by (auto simp: stored_as_def intro: wal_files_same)
    qed (use rename s5 in auto)
    moreover have "e = e6" "w' = w6" using rot dir False by auto
    ultimately show ?thesis using False log3 ctrl5 by auto
  next
    case True
    then have e3: "e3 = PE_none" using rename by (auto split: if_splits)
    let ?node = "node\<lparr>fn_synced := length (fn_bytes node)\<rparr>"
    have act3: "act3 = Some (rs, ?node)" using w3(4) e3 by simp
    obtain d6 where d6: "rename_file ?active ?closed (ww_disk w5) = (PE_none, d6)" "w6 = w5\<lparr>ww_disk := d6\<rparr>"
      using rename e3 True by (auto simp: on_disk_def split: prod.splits)
    have files5: "wal_files lib (log_dir ?c) segs (Some (rs, ?node)) (ww_disk w5)"
      and ok5: "journal_ok lib (wc_max_record_bytes ?c) segs (Some (rs, ?node))"
      using s5 by (simp_all add: stored_as_def act3)
    have bytes: "fn_bytes node = seg_bytes lib ?n rs" using assms(1) by (simp add: running_as_def)
    have "wal_files lib (log_dir ?c) (segs @ [rs]) None d6"
    proof (rule wal_files_close [OF files5 ok5])
      show "?node = \<lparr>fn_bytes = seg_bytes lib ?n rs, fn_synced = length (seg_bytes lib ?n rs)\<rparr>"
        using bytes by (cases node) simp
      show "fmlookup (dk_files d6) q = (if q = ?closed then Some ?node else if q = ?active then None
          else fmlookup (dk_files (ww_disk w5)) q)" for q
        using rename_file_lookup(1) [OF d6(1)] wal_files_active [OF files5] by (auto simp: path_append_def)
    qed
    with s5 assms(2) act3 have "stored_as lib ?c d6 (segs @ [rs]) None K"
      by (intro stored_as_closed [of lib ?c "ww_disk w5" segs rs ?node]) simp_all
    moreover obtain d7 where d7: "sync_directory (log_dir ?c) d6 = (e7, d7)" "w7 = w5\<lparr>ww_disk := d7\<rparr>"
      using dir True d6(2) by (auto simp: on_disk_def split: prod.splits)
    ultimately have s7: "stored_as lib ?c d7 (segs @ [rs]) None K"
      using sync_directory_frame(1) [OF d7(1)] by (auto simp: stored_as_def intro: wal_files_same)
    have ctrl7: "ctrl w7 = ctrl w"
      using d7(2) sync_directory_frame(2) [OF d7(1)] rename_file_lookup(2) [OF d6(1)] ctrl5 by simp
    show ?thesis
    proof (cases "e7 = PE_none")
      case False
      then have "e = e7" "w' = w7" using rot by simp_all
      with False s7 d7(2) ctrl7 show ?thesis
        by (auto simp: log_records_def intro!: exI [of _ "segs @ [rs]"] exI [of _ None])
    next
      case True
      let ?w8 = "w7\<lparr>ww_active_segment := None\<rparr>"
      obtain e8 w8 where opened: "open_new_segment ?next ?w8 = (e8, w8)" by (metis surj_pair)
      have c8: "ww_config ?w8 = ?c" using d7(2) c5(1) by simp
      have "running_as lib ?w8 (segs @ [rs]) None K"
        using s7 r5 d7(2) c5(1) paths(3) by (simp add: running_as_def log_records_def act3)
      from open_new_segment_running [OF this, of e8 w8] opened have
        w8: "ctrl w8 = ctrl w" "if e8 = PE_none
          then \<exists>node. running_as lib w8 (segs @ [rs]) (Some ([], node)) K \<and> length (fn_bytes node) = 16
          else \<exists>act. stored_as lib ?c (ww_disk w8) (segs @ [rs]) act K \<and> active_records act = []"
        using ctrl7 c8 by (auto simp: add.assoc)
      show ?thesis
      proof (cases "e8 = PE_none")
        case False
        then have "e = e8" "w' = w8"
          using rot True opened by simp_all
        from w8(2) False obtain act where
          "stored_as lib ?c (ww_disk w8) (segs @ [rs]) act K" "active_records act = []" by auto
        with w8(1) False \<open>e = e8\<close> \<open>w' = w8\<close> show ?thesis
          by (auto simp: log_records_def intro!: exI [of _ "segs @ [rs]"] exI [of _ act])
      next
        case e8: True
        obtain t9 w9 where now9: "steady_now w8 = (t9, w9)" by (metis surj_pair)
        have w': "e = PE_none" "view w' = view w9" "ctrl w' = ctrl w9"
          using rot True opened e8 now9 by (auto simp: view_def)
        have v9: "view w' = view w8" "ctrl w' = ctrl w"
          using w'(2,3) steady_now_view [OF now9] ctrl_now [OF now9] w8(1) by simp_all
        from w8(2) e8 obtain node' where
          "running_as lib w8 (segs @ [rs]) (Some ([], node')) K" "length (fn_bytes node') = 16" by auto
        with running_as_view [OF v9(1)] v9(2) w'(1) show ?thesis by auto
      qed
    qed
  qed
qed

text \<open>Before a record is written there is an active segment with room for it.\<close>

lemma ensure_segment_running:
  assumes "running_as lib w segs act K" "unat (wc_segment_max_bytes (ww_config w)) < 2 ^ 63" "len \<le> 2 ^ 32 + 4"
    and "ensure_segment_for (Lsn (of_nat (1 + length (log_records segs act)))) (of_nat len) w = (e, w')"
  shows "ctrl w' = ctrl w \<and>
     (if e = PE_none
      then \<exists>segs' rs' node'. running_as lib w' segs' (Some (rs', node')) K \<and>
        log_records segs' (Some (rs', node')) = log_records segs act \<and>
        length (fn_bytes node') + len \<le> size_bound (ww_config w)
      else \<exists>segs' act'. stored_as lib (ww_config w) (ww_disk w') segs' act' K \<and>
        log_records segs' act' = log_records segs act)"
proof (cases act)
  case None
  then have "open_new_segment (Lsn (of_nat (1 + length (concat segs)))) w = (e, w')"
    using assms(1,4) by (simp add: ensure_segment_for_def running_as_def log_records_def)
  note opened = open_new_segment_running [OF assms(1) [unfolded None] this]
  show ?thesis
  proof (cases "e = PE_none")
    case True
    then obtain node where "running_as lib w' segs (Some ([], node)) K" "length (fn_bytes node) = 16"
      using opened by auto
    moreover from this(2) have "length (fn_bytes node) + len \<le> size_bound (ww_config w)"
      using assms(3) by (simp add: size_bound_def)
    moreover have "log_records segs (Some ([], node)) = log_records segs act"
      using None by (simp add: log_records_def)
    ultimately show ?thesis
      unfolding if_P [OF True] using opened by blast
  next
    case False
    then obtain act' where "stored_as lib (ww_config w) (ww_disk w') segs act' K" "active_records act' = []"
      using opened by auto
    moreover from this(2) have "log_records segs act' = log_records segs act"
      using None by (simp add: log_records_def)
    ultimately show ?thesis
      unfolding if_not_P [OF False] using opened by blast
  qed
next
  case (Some a)
  obtain rs node where a: "act = Some (rs, node)" using Some by (cases a) auto
  let ?c = "ww_config w"
  let ?size = "length (fn_bytes node)"
  have r: "ww_active_segment w \<noteq> None" "ww_active_bytes w = of_nat ?size" "?size \<le> size_bound ?c"
      "fn_bytes node = seg_bytes lib (1 + length (concat segs)) rs"
    using assms(1) unfolding running_as_def stored_as_def a active_matches.simps active_size.simps by blast+
  have small: "?size + len < 2 ^ 64" using r(3) assms(2,3) by (simp add: size_bound_def)
  then have words: "unat (of_nat ?size :: u64) = ?size" "unat (of_nat ?size + of_nat len :: u64) = ?size + len"
    by (simp_all add: unat_of_nat take_bit_nat_eq_self flip: of_nat_add)
  obtain t w1 where now: "steady_now w = (t, w1)" by (metis surj_pair)
  have r1: "running_as lib w1 segs act K" and c1: "ctrl w1 = ctrl w" "ww_config w1 = ?c"
    using assms(1) running_as_view [OF steady_now_view [OF now]] ctrl_now [OF now] ctrl_fields(1) by auto
  let ?rotate = "ww_active_bytes w > of_nat kSegmentHeaderBytes \<and>
    (ww_active_bytes w + of_nat len > wc_segment_max_bytes ?c \<or> t - ww_active_opened_at w1 > wc_segment_max_age ?c)"
  have ensure: "(if ?rotate then rotate_segment (Lsn (of_nat (1 + length (log_records segs act)))) w1
      else (PE_none, w1)) = (e, w')"
    using assms(4) r(1) by (simp only: ensure_segment_for_def Let_def now prod.case c1(2) if_False)
  have has: "ww_active_bytes w > of_nat kSegmentHeaderBytes \<longleftrightarrow> ?size > 16"
    using words(1) r(2) by (simp add: word_less_nat_alt wal_sizes)
  show ?thesis
  proof (cases ?rotate)
    case True
    then have "rs \<noteq> []" using has r(4) by auto
    moreover have "rotate_segment (Lsn (of_nat (1 + length (concat segs) + length rs))) w1 = (e, w')"
      using ensure True a by (simp add: log_records_def add.assoc)
    ultimately have rotated: "ctrl w' = ctrl w \<and>
       (if e = PE_none
        then \<exists>node'. running_as lib w' (segs @ [rs]) (Some ([], node')) K \<and> length (fn_bytes node') = 16
        else \<exists>segs' act'. stored_as lib ?c (ww_disk w') segs' act' K \<and> log_records segs' act' = concat segs @ rs)"
      using rotate_segment_running [OF r1 [unfolded a]] unfolding c1 by blast
    show ?thesis
    proof (cases "e = PE_none")
      case True
      then obtain node' where node': "running_as lib w' (segs @ [rs]) (Some ([], node')) K" "length (fn_bytes node') = 16"
        using rotated by auto
      then have "length (fn_bytes node') + len \<le> size_bound ?c" using assms(3) by (simp add: size_bound_def)
      moreover have "log_records (segs @ [rs]) (Some ([], node')) = log_records segs act"
        using a by (simp add: log_records_def)
      ultimately show ?thesis unfolding if_P [OF True] using rotated node'(1) by blast
    next
      case False
      with rotated a show ?thesis by (simp add: log_records_def)
    qed
  next
    case False
    have "?size + len \<le> size_bound ?c"
    proof (cases "?size > 16")
      case True
      then have "\<not> ww_active_bytes w + of_nat len > wc_segment_max_bytes ?c" using False has by blast
      then show ?thesis using words(2) r(2) by (simp add: word_less_nat_alt size_bound_def)
    next
      case False
      then show ?thesis using assms(3) by (simp add: size_bound_def)
    qed
    moreover have "e = PE_none" "w' = w1" using ensure False by (auto split: if_splits)
    ultimately show ?thesis using r1 c1 a by auto
  qed
qed

section \<open>Records\<close>

lemma write_record_running:
  fixes node :: FileNode and w :: WalWriter
  defines "c \<equiv> ww_config w"
  assumes "running_as lib w segs (Some (rs, node)) K" "fits (wc_max_record_bytes c) r"
    and "2 + length (log_records segs (Some (rs, node))) < 2 ^ 64"
    and "frame = frame_bytes lib (1 + length (log_records segs (Some (rs, node)))) r"
    and "length (fn_bytes node) + length frame \<le> size_bound c" "size_bound c < 2 ^ 64"
    and "write_active frame w = (e, w')"
  shows "ctrl w' = ctrl w \<and> ww_next_lsn_value w' = ww_next_lsn_value w \<and>
     (if e = PE_none
      then \<exists>node'. running_as lib (w'\<lparr>ww_active_bytes := ww_active_bytes w' + of_nat (length frame),
          ww_next_lsn_value := of_nat (2 + length (log_records segs (Some (rs, node))))\<rparr>) segs (Some (rs @ [r], node')) K
      else \<exists>node'. stored_as lib c (ww_disk w') segs (Some (rs, node')) K)"
proof -
  let ?n = "1 + length (concat segs)"
  let ?p = "path_append (log_dir c) (active_name ?n)"
  obtain f where f: "ww_active_segment w = Some f" "wf_path f = ?p"
    using assms(2) by (auto simp: running_as_def c_def)
  have s: "wal_files lib (log_dir c) segs (Some (rs, node)) (ww_disk w)"
      "journal_ok lib (wc_max_record_bytes c) segs (Some (rs, node))"
      "durable_upto lib segs (Some (rs, node)) K" "fn_bytes node = seg_bytes lib ?n rs"
      "wal_dir (ww_layout w) = log_dir c" "ww_active_path w = ?p" "ww_active_first_lsn w = Lsn (of_nat ?n)"
      "ww_active_bytes w = of_nat (length (fn_bytes node))"
    using assms(2) unfolding running_as_def stored_as_def active_size.simps active_matches.simps c_def by blast+
  from write_active_file [OF assms(8) f s(1)] obtain f' d' k where
    w': "w' = w\<lparr>ww_active_segment := Some f', ww_disk := d'\<rparr>" "wf_path f' = wf_path f"
      "if e = PE_none then length frame \<le> k else k < length frame" "dk_dirs d' = dk_dirs (ww_disk w)"
      "\<forall>rs'. wal_files lib (log_dir c) segs (Some (rs', node\<lparr>fn_bytes := fn_bytes node @ take k frame\<rparr>)) d'" by blast
  let ?node = "node\<lparr>fn_bytes := fn_bytes node @ take k frame\<rparr>"
  have ctrl: "ctrl w' = ctrl w" "ww_next_lsn_value w' = ww_next_lsn_value w" using w' by simp_all
  have synced: "fn_synced ?node \<le> length (fn_bytes ?node)"
    using s(2) by (simp add: journal_ok_def)
  have size: "length (fn_bytes ?node) \<le> size_bound c" using assms(6) by simp
  have durable: "durable_upto lib segs (Some (rs @ rs', ?node)) K" for rs'
    using s(3) by (rule durable_upto_write) simp
  have n: "1 + length (log_records segs (Some (rs, node))) = ?n + length rs" by (simp add: log_records_def)
  show ?thesis
  proof (cases "e = PE_none")
    case True
    then have whole: "take k frame = frame" using w'(3) by simp
    have bytes: "fn_bytes ?node = seg_bytes lib ?n (rs @ [r])"
      using s(4) whole assms(5) n by (simp add: seg_bytes_def)
    then have "active_bytes lib (wc_max_record_bytes c) ?n (rs @ [r]) (fn_bytes ?node)"
      unfolding active_bytes_def by (intro disjI2 exI [of _ "[]"]) simp
    then have "journal_ok lib (wc_max_record_bytes c) segs (Some (rs @ [r], ?node))"
      using s(2) assms(3,4,7) synced size by (auto simp: journal_ok_def log_records_def)
    then have "stored_as lib c d' segs (Some (rs @ [r], ?node)) K"
      using w'(5) size durable [of "[r]"] by (simp add: stored_as_def)
    moreover define node' where "node' = ?node"
    moreover have "2 + length (log_records segs (Some (rs, node))) = 1 + length (log_records segs (Some (rs @ [r], ?node)))"
      by (simp add: log_records_def)
    moreover have "ww_active_bytes w + of_nat (length frame) = of_nat (length (fn_bytes node'))"
      using whole s(8) by (simp add: node'_def)
    ultimately have "running_as lib (w'\<lparr>ww_active_bytes := ww_active_bytes w' + of_nat (length frame),
          ww_next_lsn_value := of_nat (2 + length (log_records segs (Some (rs, node))))\<rparr>) segs (Some (rs @ [r], node')) K"
      using w'(1,2) f s(5-7) bytes unfolding node'_def [symmetric] running_as_def active_matches.simps
      by (simp only: WalWriter.simps c_def simp_thms) (auto simp: c_def)
    with True ctrl show ?thesis by auto
  next
    case False
    have "torn lib (wc_max_record_bytes c) (?n + length rs) (take k frame)"
      unfolding torn_def using assms(3,5) w'(3) False n by auto
    then have "active_bytes lib (wc_max_record_bytes c) ?n rs (fn_bytes ?node)"
      unfolding active_bytes_def using s(4) by auto
    then have "journal_ok lib (wc_max_record_bytes c) segs (Some (rs, ?node))"
      using s(2) assms(7) synced size by (auto simp: journal_ok_def log_records_def)
    then have "stored_as lib c d' segs (Some (rs, ?node)) K"
      using w'(5) size durable [of "[]"] by (simp add: stored_as_def)
    with False ctrl w'(1) show ?thesis by auto
  qed
qed

text \<open>The configurations the theorems speak of: a file is never longer than a 64-bit number can say.\<close>

definition bounded_config :: "WalConfig \<Rightarrow> bool" where
  "bounded_config c \<longleftrightarrow> unat (wc_segment_max_bytes c) < 2 ^ 63 \<and> \<not> lsn_valid (wc_recovery_floor_lsn c)"

lemma bounded_size: "bounded_config c \<Longrightarrow> size_bound c < 2 ^ 64"
  by (simp add: bounded_config_def size_bound_def)

text \<open>One round of the loop over a batch.\<close>

lemma write_round:
  assumes "running lib w rs K" "fits (wc_max_record_bytes (ww_config w)) (pa_record p)" "bounded_config (ww_config w)"
    and "2 + length rs < 2 ^ 64"
  obtains (failed) e w' where
      "write_records lib (p # batch) written any_durable w = Some (e, written, any_durable, p # batch, w')"
      "e \<noteq> PE_none" "ctrl w' = ctrl w" "stored lib (ww_config w) (ww_disk w') rs K"
  | (wrote) w' where
      "write_records lib (p # batch) written any_durable w = write_records lib batch
         (written @ [(pa_ticket p, Lsn (of_nat (1 + length rs)))])
         (any_durable \<or> wr_durability (pa_record p) = D_durable) w'"
      "ctrl w' = ctrl w" "running lib w' (rs @ [pa_record p]) K"
proof -
  let ?r = "pa_record p"
  let ?c = "ww_config w"
  let ?n = "1 + length rs"
  let ?frame = "frame_bytes lib ?n ?r"
  obtain segs act where s: "running_as lib w segs act K" "log_records segs act = rs"
    using assms(1) by (auto simp: running_def)
  have next_lsn: "ww_next_lsn_value w = of_nat ?n" using s by (simp add: running_as_def)
  have fit: "28 + length (wr_payload ?r) < 2 ^ 32" using assms(2) by (simp add: fits_def)
  have encode: "encode_record lib (Lsn (of_nat ?n)) (wr_kind ?r) (wr_target_tick ?r) (wr_payload ?r) = Some ?frame"
    by (simp only: encode_record_eq [OF fit] frame_bytes_def)
  obtain e1 w1 where ensure: "ensure_segment_for (Lsn (of_nat ?n)) (of_nat (length ?frame)) w = (e1, w1)"
    by (metis surj_pair)
  have len: "length ?frame \<le> 2 ^ 32 + 4" using fit by simp
  note ensured = ensure_segment_running [OF s(1) _ len, unfolded s(2), OF _ ensure]
  have big: "unat (wc_segment_max_bytes ?c) < 2 ^ 63" using assms(3) by (simp add: bounded_config_def)
  show thesis
  proof (cases "e1 = PE_none")
    case False
    then have "stored lib ?c (ww_disk w1) rs K" "ctrl w1 = ctrl w"
      using ensured [OF big] by (auto simp: stored_def)
    moreover have "write_records lib (p # batch) written any_durable w = Some (e1, written, any_durable, p # batch, w1)"
      using False by (simp only: write_records.simps Let_def next_lsn encode option.case ensure prod.case if_False
          if_True simp_thms not_True_eq_False not_False_eq_True)
    ultimately show thesis using failed False by blast
  next
    case True
    with ensured [OF big] obtain segs' rs' node where
      s': "running_as lib w1 segs' (Some (rs', node)) K" "log_records segs' (Some (rs', node)) = rs"
        "length (fn_bytes node) + length ?frame \<le> size_bound ?c" and c1: "ctrl w1 = ctrl w"
      by auto
    obtain e2 w2 where wrote: "write_active ?frame w1 = (e2, w2)" by (metis surj_pair)
    have c: "ww_config w1 = ?c" using c1 by (rule ctrl_fields)
    have written: "ctrl w2 = ctrl w1 \<and> ww_next_lsn_value w2 = ww_next_lsn_value w1 \<and>
       (if e2 = PE_none
        then \<exists>node'. running_as lib (w2\<lparr>ww_active_bytes := ww_active_bytes w2 + of_nat (length ?frame),
            ww_next_lsn_value := of_nat (2 + length rs)\<rparr>) segs' (Some (rs' @ [?r], node')) K
        else \<exists>node'. stored_as lib ?c (ww_disk w2) segs' (Some (rs', node')) K)"
      by (rule write_record_running [OF s'(1), unfolded c s'(2), OF assms(2,4) refl s'(3) bounded_size [OF assms(3)] wrote])
    show thesis
    proof (cases "e2 = PE_none")
      case False
      then obtain node' where "stored_as lib ?c (ww_disk w2) segs' (Some (rs', node')) K"
        using written unfolding if_not_P [OF False] by blast
      then have "stored lib ?c (ww_disk w2) rs K"
        unfolding stored_def using s'(2)
        by (intro exI [of _ segs'] exI [of _ "Some (rs', node')"]) (simp add: log_records_def)
      moreover have "write_records lib (p # batch) written any_durable w = Some (e2, written, any_durable, p # batch, w2)"
        using False True by (simp only: write_records.simps Let_def next_lsn encode option.case ensure wrote prod.case
            if_False if_True simp_thms not_True_eq_False not_False_eq_True)
      ultimately show thesis using failed False written c1 by auto
    next
      case e2: True
      let ?w = "w2\<lparr>ww_active_bytes := ww_active_bytes w2 + of_nat (length ?frame), ww_unsynced_writes := True,
          ww_next_lsn_value := of_nat (2 + length rs)\<rparr>"
      obtain node' where node': "running_as lib (w2\<lparr>ww_active_bytes := ww_active_bytes w2 + of_nat (length ?frame),
            ww_next_lsn_value := of_nat (2 + length rs)\<rparr>) segs' (Some (rs' @ [?r], node')) K"
        using written unfolding if_P [OF e2] by blast
      have "running_as lib ?w segs' (Some (rs' @ [?r], node')) K"
        using node' by (rule running_as_view [THEN iffD1, rotated]) (simp add: view_def)
      then have "running lib ?w (rs @ [?r]) K"
        unfolding running_def using s'(2) by (intro exI) (auto simp: log_records_def)
      moreover have "next_lsn (Lsn (of_nat ?n)) = Some (Lsn (of_nat (2 + length rs)))"
        using next_lsn_of_nat [of ?n] assms(4) by simp
      then have "write_records lib (p # batch) written any_durable w = write_records lib batch
          (written @ [(pa_ticket p, Lsn (of_nat ?n))]) (any_durable \<or> wr_durability ?r = D_durable) ?w"
        using True e2 by (simp only: write_records.simps Let_def next_lsn encode option.case ensure wrote prod.case
            if_False if_True simp_thms not_True_eq_False not_False_eq_True Lsn.sel)
      moreover have "ctrl ?w = ctrl w" using written c1 by simp
      ultimately show thesis using wrote by (intro that(2)) auto
    qed
  qed
qed

text \<open>The numbers of a batch that is written behind some records.\<close>

fun batch_numbers :: "nat \<Rightarrow> PendingAppend list \<Rightarrow> (nat \<times> Lsn) list" where
  "batch_numbers n [] = []"
| "batch_numbers n (p # batch) = (pa_ticket p, Lsn (of_nat n)) # batch_numbers (Suc n) batch"

lemma length_batch_numbers [simp]: "length (batch_numbers n batch) = length batch"
  by (induction batch arbitrary: n) auto

lemma write_records_running:
  assumes "running lib w rs K" "\<forall>p \<in> set batch. fits (wc_max_record_bytes (ww_config w)) (pa_record p)"
    and "bounded_config (ww_config w)" "1 + length rs + length batch < 2 ^ 64"
  shows "\<exists>e written' any' failed w'. write_records lib batch written any_durable w = Some (e, written', any', failed, w') \<and>
     ctrl w' = ctrl w \<and>
     (if e = PE_none
      then running lib w' (rs @ map pa_record batch) K \<and> written' = written @ batch_numbers (1 + length rs) batch \<and>
        (any' \<longleftrightarrow> any_durable \<or> (\<exists>p \<in> set batch. wr_durability (pa_record p) = D_durable))
      else \<exists>j < length batch. stored lib (ww_config w) (ww_disk w') (rs @ map pa_record (take j batch)) K)"
  using assms
proof (induction batch arbitrary: w rs written any_durable)
  case Nil
  then show ?case
    by (intro exI [of _ PE_none] exI [of _ written] exI [of _ any_durable] exI [of _ "[]"] exI [of _ w])
      simp
next
  case (Cons p batch)
  have step: "running lib w rs K" "fits (wc_max_record_bytes (ww_config w)) (pa_record p)" "bounded_config (ww_config w)"
    "2 + length rs < 2 ^ 64" using Cons.prems by simp_all
  from step show ?case
  proof (cases rule: write_round [where batch = batch and written = written and any_durable = any_durable])
    case (failed e w')
    moreover have "0 < length (p # batch)" "rs @ map pa_record (take 0 (p # batch)) = rs" by simp_all
    ultimately show ?thesis
      by (intro exI [of _ e] exI [of _ written] exI [of _ any_durable] exI [of _ "p # batch"] exI [of _ w'])
        (simp only: if_not_P, metis)
  next
    case (wrote w')
    let ?any = "any_durable \<or> wr_durability (pa_record p) = D_durable"
    have c: "ww_config w' = ww_config w" using wrote(2) by (rule ctrl_fields)
    have "\<forall>p \<in> set batch. fits (wc_max_record_bytes (ww_config w')) (pa_record p)" "bounded_config (ww_config w')"
      "1 + length (rs @ [pa_record p]) + length batch < 2 ^ 64"
      using Cons.prems(2-4) by (simp_all add: c)
    from Cons.IH [OF wrote(3) this, of "written @ [(pa_ticket p, Lsn (of_nat (1 + length rs)))]" ?any]
    obtain e written' any' failed w'' where IH:
      "write_records lib batch (written @ [(pa_ticket p, Lsn (of_nat (1 + length rs)))]) ?any w' =
         Some (e, written', any', failed, w'')" "ctrl w'' = ctrl w'"
      "if e = PE_none
       then running lib w'' ((rs @ [pa_record p]) @ map pa_record batch) K \<and>
         written' = (written @ [(pa_ticket p, Lsn (of_nat (1 + length rs)))]) @ batch_numbers (1 + length (rs @ [pa_record p])) batch \<and>
         (any' \<longleftrightarrow> ?any \<or> (\<exists>p \<in> set batch. wr_durability (pa_record p) = D_durable))
       else \<exists>j < length batch. stored lib (ww_config w') (ww_disk w'') ((rs @ [pa_record p]) @ map pa_record (take j batch)) K"
      by blast
    have "if e = PE_none
      then running lib w'' (rs @ map pa_record (p # batch)) K \<and>
        written' = written @ batch_numbers (1 + length rs) (p # batch) \<and>
        (any' \<longleftrightarrow> any_durable \<or> (\<exists>p \<in> set (p # batch). wr_durability (pa_record p) = D_durable))
      else \<exists>j < length (p # batch). stored lib (ww_config w) (ww_disk w'') (rs @ map pa_record (take j (p # batch))) K"
    proof (cases "e = PE_none")
      case True
      with IH(3) show ?thesis by auto
    next
      case False
      with IH(3) c obtain j where "j < length batch"
        "stored lib (ww_config w) (ww_disk w'') (rs @ map pa_record (take (Suc j) (p # batch))) K" by auto
      with False show ?thesis by (auto intro!: exI [of _ "Suc j"])
    qed
    with IH(1,2) wrote(1,2) show ?thesis
      by (intro exI [of _ e] exI [of _ written'] exI [of _ any'] exI [of _ failed] exI [of _ w'']) (simp only:)
  qed
qed

end
