(* ===== verification/Wal_Recovery.thy ===== *)
theory Wal_Recovery
  imports Wal_Durability
begin

text \<open>
  Batches, the worker, the start and whole runs of the writer with crashes: every record whose ticket was
  answered as durable is found again by the scan after any crash.
\<close>

section \<open>Answers\<close>

text \<open>The tickets answered as durable, with their numbers.\<close>

definition acknowledged :: "WalWriter \<Rightarrow> (nat \<times> Lsn) set" where
  "acknowledged w = {(t, l). t < length (ww_tickets w) \<and>
     (\<exists>out. ww_tickets w ! t = Some out \<and> ao_status out = AS_durable_accepted \<and> ao_lsn out = l)}"

lemma acknowledged_fulfill:
  "acknowledged (fulfill_ticket t outcome w) \<subseteq>
     acknowledged w \<union> (if ao_status outcome = AS_durable_accepted then {(t, ao_lsn outcome)} else {})"
proof (cases "t < length (ww_tickets w)")
  case True
  then show ?thesis by (auto simp: acknowledged_def fulfill_ticket_def nth_list_update split: if_splits)
qed (auto simp: fulfill_ticket_def acknowledged_def)

lemma acknowledged_tickets: "ww_tickets w' = ww_tickets w \<Longrightarrow> acknowledged w' = acknowledged w"
  by (simp add: acknowledged_def)

text \<open>The fields of a writer that answering tickets leaves alone.\<close>

definition body where
  "body w = (view w, ww_queue w, ww_batch w, ww_fault w, ww_phase w, ww_stopping w, length (ww_tickets w))"

lemma body_fulfill [simp]: "body (fulfill_ticket t outcome w) = body w"
  by (simp add: body_def view_def fulfill_ticket_def)

lemma reject_all_facts:
  "acknowledged (reject_all error ts w) \<subseteq> acknowledged w \<and> body (reject_all error ts w) = body w"
proof (induction ts arbitrary: w)
  case Nil
  show ?case by (simp add: reject_all_def)
next
  case (Cons t ts)
  have "acknowledged (fulfill_ticket t (rejected_outcome error) w) \<subseteq> acknowledged w"
    using acknowledged_fulfill [of t "rejected_outcome error" w] by (simp add: rejected_outcome_def)
  with Cons.IH [of "fulfill_ticket t (rejected_outcome error) w"] show ?case
    by (auto simp: reject_all_def)
qed

definition accept_all :: "PendingAppend list \<Rightarrow> (nat \<times> Lsn) list \<Rightarrow> WalWriter \<Rightarrow> WalWriter" where
  "accept_all batch written w =
     foldl (\<lambda>w (p, _, lsn). fulfill_ticket (pa_ticket p) (accepted_outcome (pa_record p) lsn) w) w (zip batch written)"

lemma accept_all_facts:
  "body (accept_all batch (batch_numbers n batch) w) = body w \<and>
   (\<forall>(t, l) \<in> acknowledged (accept_all batch (batch_numbers n batch) w). (t, l) \<in> acknowledged w \<or>
      (\<exists>i < length batch. t = pa_ticket (batch ! i) \<and> l = Lsn (of_nat (n + i)) \<and>
         wr_durability (pa_record (batch ! i)) = D_durable))"
proof (induction batch arbitrary: n w)
  case Nil
  show ?case by (auto simp: accept_all_def)
next
  case (Cons p batch)
  let ?w = "fulfill_ticket (pa_ticket p) (accepted_outcome (pa_record p) (Lsn (of_nat n))) w"
  have step: "accept_all (p # batch) (batch_numbers n (p # batch)) w = accept_all batch (batch_numbers (Suc n) batch) ?w"
    by (simp add: accept_all_def)
  have first: "(t, l) \<in> acknowledged w \<or> t = pa_ticket p \<and> l = Lsn (of_nat n) \<and> wr_durability (pa_record p) = D_durable"
    if "(t, l) \<in> acknowledged ?w" for t l
    using that acknowledged_fulfill [of "pa_ticket p" "accepted_outcome (pa_record p) (Lsn (of_nat n))" w]
    by (cases "wr_durability (pa_record p)") (auto simp: accepted_outcome_def)
  have "(t, l) \<in> acknowledged w \<or> (\<exists>i < length (p # batch). t = pa_ticket ((p # batch) ! i) \<and>
      l = Lsn (of_nat (n + i)) \<and> wr_durability (pa_record ((p # batch) ! i)) = D_durable)"
    if acked: "(t, l) \<in> acknowledged (accept_all batch (batch_numbers (Suc n) batch) ?w)" for t l
  proof -
    from Cons.IH [of "Suc n" ?w] acked consider "(t, l) \<in> acknowledged ?w"
      | i where "i < length batch" "t = pa_ticket (batch ! i)" "l = Lsn (of_nat (Suc n + i))"
          "wr_durability (pa_record (batch ! i)) = D_durable" by blast
    then show ?thesis
    proof cases
      case 1
      from first [OF this] show ?thesis by (auto intro: exI [of _ 0])
    next
      case 2
      then show ?thesis by (intro disjI2 exI [of _ "Suc i"]) simp
    qed
  qed
  with Cons.IH [of "Suc n" ?w] step show ?case by auto
qed

section \<open>A batch\<close>

text \<open>The fields that a batch leaves alone.\<close>

definition frame where
  "frame w = (ww_config w, dk_dirs (ww_disk w), length (ww_tickets w), ww_phase w, ww_batch w)"

lemma frame_ctrl: "ctrl w' = ctrl w \<Longrightarrow> frame w' = frame w"
  by (simp add: frame_def ctrl_def)

lemma ctrl_more: "ctrl w' = ctrl w \<Longrightarrow> ww_queue w' = ww_queue w \<and> ww_fault w' = ww_fault w \<and> ww_tickets w' = ww_tickets w"
  by (simp add: ctrl_def)

lemma enter_fault_facts:
  "ww_fault (enter_fault w)" "ww_queue (enter_fault w) = []" "frame (enter_fault w) = frame w"
  "ww_disk (enter_fault w) = ww_disk w" "acknowledged (enter_fault w) \<subseteq> acknowledged w"
proof -
  let ?w = "w\<lparr>ww_fault := True, ww_queue := [], ww_queue_payload_bytes := 0\<rparr>"
  let ?r = "reject_all PE_fault_read_only (map pa_ticket (ww_queue w)) ?w"
  have e: "enter_fault w = ?r\<lparr>ww_active_segment := None\<rparr>" by (simp add: enter_fault_def Let_def)
  have r: "acknowledged ?r \<subseteq> acknowledged ?w" "body ?r = body ?w"
    using reject_all_facts [of PE_fault_read_only "map pa_ticket (ww_queue w)" ?w] by simp_all
  show "ww_fault (enter_fault w)" "ww_queue (enter_fault w) = []" "frame (enter_fault w) = frame w"
    "ww_disk (enter_fault w) = ww_disk w" "acknowledged (enter_fault w) \<subseteq> acknowledged w"
    using r unfolding e by (simp_all add: body_def view_def frame_def acknowledged_def)
qed

lemma give_up_facts:
  fixes w ts ts' e
  defines "w' \<equiv> enter_fault (reject_all e ts (reject_all e ts' w))"
  shows "ww_fault w'" "ww_queue w' = []" "frame w' = frame w" "ww_disk w' = ww_disk w" "acknowledged w' \<subseteq> acknowledged w"
proof -
  let ?r = "reject_all e ts (reject_all e ts' w)"
  have r: "acknowledged ?r \<subseteq> acknowledged w" "body ?r = body w"
    using reject_all_facts [of e ts' w] reject_all_facts [of e ts "reject_all e ts' w"] by auto
  then have "frame ?r = frame w" "ww_disk ?r = ww_disk w" by (simp_all add: body_def view_def frame_def)
  with r(1) enter_fault_facts [of ?r] show "ww_fault w'" "ww_queue w' = []" "frame w' = frame w" "ww_disk w' = ww_disk w"
    "acknowledged w' \<subseteq> acknowledged w" unfolding w'_def by auto
qed

lemma sync_running:
  assumes "running lib w rs K" "sync_active w = (e, w')"
  shows "ctrl w' = ctrl w" "running lib w' rs (if e = PE_none then length rs else K)"
proof -
  obtain segs act where s: "running_as lib w segs act K" "log_records segs act = rs"
    using assms(1) by (auto simp: running_def)
  from sync_active_file [OF s(1) assms(2)] obtain d' act' where
    w': "w' = w\<lparr>ww_disk := d'\<rparr>" "dk_dirs d' = dk_dirs (ww_disk w)" "active_records act' = active_records act"
      "running_as lib w' segs act' K"
      "case act of None \<Rightarrow> act' = None
       | Some (rs, node) \<Rightarrow> act' = Some (rs, if e = PE_none then node\<lparr>fn_synced := length (fn_bytes node)\<rparr> else node)"
    by blast
  show "ctrl w' = ctrl w" using w'(1,2) by simp
  have log: "log_records segs act' = rs" using s(2) w'(3) by (simp add: log_records_def)
  show "running lib w' rs (if e = PE_none then length rs else K)"
  proof (cases "e = PE_none")
    case True
    have "durable_upto lib segs act' (length rs)"
    proof (cases act)
      case None
      then show ?thesis using w'(5) log durable_upto_closed [of lib segs] by (auto simp: log_records_def)
    next
      case (Some a)
      then obtain rs0 node where a: "act = Some (rs0, node)" by (cases a) auto
      then have act': "act' = Some (rs0, node\<lparr>fn_synced := length (fn_bytes node)\<rparr>)" using w'(5) True by simp
      have "fn_bytes node = seg_bytes lib (1 + length (concat segs)) rs0"
        using s(1) unfolding a running_as_def active_matches.simps by blast
      then have "durable_upto lib segs act' (length (log_records segs act'))"
        unfolding act' by (intro durable_upto_synced) simp_all
      then show ?thesis by (simp only: log)
    qed
    then have "running_as lib w' segs act' (length rs)"
      using w'(4) by (simp add: running_as_def stored_as_def)
    with True log show ?thesis unfolding running_def by auto
  next
    case False
    with w'(4) log show ?thesis unfolding running_def by auto
  qed
qed

text \<open>
  What a batch does: all its records are written, and those with durable ones among them are synced, or
  the writer gives up and acknowledges nothing.
\<close>

definition batch_done :: "Crc32cLib \<Rightarrow> WalWriter \<Rightarrow> WalRecord list \<Rightarrow> nat \<Rightarrow> PendingAppend list \<Rightarrow> WalWriter \<Rightarrow> bool" where
  "batch_done lib w rs K batch w' \<longleftrightarrow> frame w' = frame w \<and>
     (ww_fault w' \<and> ww_queue w' = [] \<and> acknowledged w' \<subseteq> acknowledged w \<and>
        (\<exists>j. stored lib (ww_config w) (ww_disk w') (rs @ map pa_record (take j batch)) K) \<or>
      (\<exists>K' \<ge> K. \<not> ww_fault w' \<and> ww_queue w' = ww_queue w \<and> running lib w' (rs @ map pa_record batch) K' \<and>
        (\<forall>(t, l) \<in> acknowledged w'. (t, l) \<in> acknowledged w \<or>
           (\<exists>i < length batch. t = pa_ticket (batch ! i) \<and> l = Lsn (of_nat (1 + length rs + i)) \<and> length rs + i < K'))))"

lemma batch_failed:
  assumes "stored lib (ww_config w) (ww_disk w1) (rs @ map pa_record (take j batch)) K"
    and "frame w1 = frame w" "acknowledged w1 \<subseteq> acknowledged w"
  shows "batch_done lib w rs K batch (enter_fault (reject_all e ts (reject_all e ts' w1)))"
proof -
  note give = give_up_facts [where w = w1 and e = e and ts = ts and ts' = ts']
  show ?thesis
    unfolding batch_done_def give(3) give(4) assms(2)
    using give(1,2,5) assms(1,3) by blast
qed

lemma batch_accepted:
  assumes "running lib w1 (rs @ map pa_record batch) K'" "frame w1 = frame w" "acknowledged w1 = acknowledged w"
    and "\<not> ww_fault w1" "ww_queue w1 = ww_queue w" "K \<le> K'" "K' \<le> length rs + length batch"
    and "\<And>p. p \<in> set batch \<Longrightarrow> wr_durability (pa_record p) = D_durable \<Longrightarrow> K' = length rs + length batch"
    and "body w' = body (accept_all batch (batch_numbers (1 + length rs) batch) w1)"
    and "ww_tickets w' = ww_tickets (accept_all batch (batch_numbers (1 + length rs) batch) w1)"
  shows "batch_done lib w rs K batch w'"
proof -
  let ?a = "accept_all batch (batch_numbers (1 + length rs) batch) w1"
  have same: "body w' = body w1" using assms(9) accept_all_facts [of batch "1 + length rs" w1] by simp
  then have view: "view w' = view w1" and fields: "\<not> ww_fault w'" "ww_queue w' = ww_queue w" "frame w' = frame w"
    using assms(2,4,5) by (simp_all add: body_def view_def frame_def)
  have "(t, l) \<in> acknowledged w \<or>
      (\<exists>i < length batch. t = pa_ticket (batch ! i) \<and> l = Lsn (of_nat (1 + length rs + i)) \<and> length rs + i < K')"
    if "(t, l) \<in> acknowledged w'" for t l
  proof -
    have "(t, l) \<in> acknowledged ?a" using that acknowledged_tickets [OF assms(10)] by simp
    then consider "(t, l) \<in> acknowledged w"
      | i where "i < length batch" "t = pa_ticket (batch ! i)" "l = Lsn (of_nat (1 + length rs + i))"
          "wr_durability (pa_record (batch ! i)) = D_durable"
      using accept_all_facts [of batch "1 + length rs" w1] assms(3) by blast
    then show ?thesis
    proof cases
      case 2
      then have "K' = length rs + length batch" using assms(8) nth_mem by blast
      with 2 show ?thesis by (intro disjI2 exI [of _ i]) simp
    qed simp
  qed
  then have acked: "\<forall>(t, l) \<in> acknowledged w'. (t, l) \<in> acknowledged w \<or>
      (\<exists>i < length batch. t = pa_ticket (batch ! i) \<and> l = Lsn (of_nat (1 + length rs + i)) \<and> length rs + i < K')" by blast
  have "running lib w' (rs @ map pa_record batch) K'" using assms(1) running_view [OF view] by simp
  with fields acked assms(6) show ?thesis unfolding batch_done_def by blast
qed

lemma running_le: "running lib w rs K \<Longrightarrow> K \<le> length rs"
  using durable_upto_le by (auto simp: running_def running_as_def stored_as_def)

lemma steady_now_body: "steady_now w = (t, w') \<Longrightarrow> body w' = body w \<and> ww_tickets w' = ww_tickets w"
  by (auto dest!: steady_now_cases simp: body_def view_def)

lemma process_batch_running:
  assumes "running lib w rs K" "\<forall>p \<in> set batch. fits (wc_max_record_bytes (ww_config w)) (pa_record p)"
    and "bounded_config (ww_config w)" "1 + length rs + length batch < 2 ^ 64" "\<not> ww_fault w"
  shows "\<exists>w'. process_batch lib batch w = Some w' \<and> batch_done lib w rs K batch w'"
proof (cases "batch = []")
  case True
  then have "process_batch lib batch w = Some w" by (simp add: process_batch_def)
  with True assms(1,5) show ?thesis by (auto simp: batch_done_def)
next
  case False
  obtain t0 w0 where now: "steady_now w = (t0, w0)" by (metis surj_pair)
  have c0: "ctrl w0 = ctrl w" "ww_config w0 = ww_config w" using ctrl_now [OF now] ctrl_fields(1) by auto
  have r0: "running lib w0 rs K" using assms(1) running_view [OF steady_now_view [OF now]] by simp
  have "\<forall>p \<in> set batch. fits (wc_max_record_bytes (ww_config w0)) (pa_record p)" "bounded_config (ww_config w0)"
    using assms(2,3) c0(2) by simp_all
  note written = write_records_running [OF r0 this assms(4), of "[]" False, unfolded append_Nil c0(2) simp_thms]
  from written obtain e written any' failed w1 where
    wrote: "write_records lib batch [] False w0 = Some (e, written, any', failed, w1)" "ctrl w1 = ctrl w0"
      "if e = PE_none
       then running lib w1 (rs @ map pa_record batch) K \<and> written = batch_numbers (1 + length rs) batch \<and>
         (any' \<longleftrightarrow> (\<exists>p \<in> set batch. wr_durability (pa_record p) = D_durable))
       else \<exists>j < length batch. stored lib (ww_config w) (ww_disk w1) (rs @ map pa_record (take j batch)) K"
    by blast
  have c1: "ctrl w1 = ctrl w" using wrote(2) c0(1) by simp
  have f1: "frame w1 = frame w" "acknowledged w1 = acknowledged w" "\<not> ww_fault w1" "ww_queue w1 = ww_queue w"
    using frame_ctrl [OF c1] ctrl_more [OF c1] acknowledged_tickets [of w1 w] assms(5) by simp_all
  show ?thesis
  proof (cases "e = PE_none")
    case e: False
    then obtain j where "stored lib (ww_config w) (ww_disk w1) (rs @ map pa_record (take j batch)) K"
      using wrote(3) by auto
    moreover have "process_batch lib batch w = Some (enter_fault (reject_all e (map pa_ticket failed) (reject_all e (map fst written) w1)))"
      using False e assms(5) by (simp add: process_batch_def now wrote(1) Let_def)
    ultimately show ?thesis using batch_failed f1 by blast
  next
    case e: True
    with wrote(3) have r1: "running lib w1 (rs @ map pa_record batch) K" "written = batch_numbers (1 + length rs) batch"
      "any' \<longleftrightarrow> (\<exists>p \<in> set batch. wr_durability (pa_record p) = D_durable)" by auto
    obtain w2 where w2: "process_batch lib batch w = Some w2" "batch_done lib w rs K batch w2"
    proof (cases any')
      case False
      let ?a = "accept_all batch written w1"
      obtain t w3 where now3: "steady_now ?a = (t, w3)" by (metis surj_pair)
      let ?r = "w3\<lparr>ww_metrics := (ww_metrics w3)
         \<lparr>wm_group_commit_batches := wm_group_commit_batches (ww_metrics w3) + 1,
          wm_records_written := wm_records_written (ww_metrics w3) + of_nat (length written),
          wm_group_commit_nanoseconds := wm_group_commit_nanoseconds (ww_metrics w3) @ [t - t0]\<rparr>\<rparr>"
      have "process_batch lib batch w = Some ?r"
        using \<open>batch \<noteq> []\<close> False e assms(5) now3 [unfolded accept_all_def]
        by (simp add: process_batch_def now wrote(1) Let_def)
      moreover have "batch_done lib w rs K batch ?r"
      proof (rule batch_accepted [OF r1(1) f1(1,2,3,4) le_refl])
        show "K \<le> length rs + length batch"
          using running_le [OF r1(1)] by simp
        show "body ?r = body (accept_all batch (batch_numbers (1 + length rs) batch) w1)"
          "ww_tickets ?r = ww_tickets (accept_all batch (batch_numbers (1 + length rs) batch) w1)"
          using steady_now_body [OF now3] r1(2) by (simp_all add: body_def view_def)
      qed (use False r1(3) in auto)
      ultimately show ?thesis by (rule that)
    next
      case True
      obtain t1 w2 where now2: "steady_now w1 = (t1, w2)" by (metis surj_pair)
      obtain e2 w3 where sync: "sync_active w2 = (e2, w3)" by (metis surj_pair)
      obtain t3 w4 where now4: "steady_now w3 = (t3, w4)" by (metis surj_pair)
      define w5 where "w5 = record_sync (t3 - t1) w4"
      have r2: "running lib w2 (rs @ map pa_record batch) K"
        using r1(1) running_view [OF steady_now_view [OF now2]] by simp
      note r3 = sync_running [OF r2 sync]
      have v5: "view w5 = view w3" "ctrl w5 = ctrl w"
        using steady_now_view [OF now4] ctrl_now [OF now4] ctrl_now [OF now2] r3(1) c1
        by (simp_all add: w5_def record_sync_def view_def)
      have f5: "frame w5 = frame w" "acknowledged w5 = acknowledged w" "\<not> ww_fault w5" "ww_queue w5 = ww_queue w"
        using frame_ctrl [OF v5(2)] ctrl_more [OF v5(2)] acknowledged_tickets [of w5 w] assms(5) by simp_all
      have r5: "running lib w5 (rs @ map pa_record batch) (if e2 = PE_none then length rs + length batch else K)"
        using r3(2) unfolding running_view [OF v5(1)] length_append length_map .
      show ?thesis
      proof (cases "e2 = PE_none")
        case e2: False
        have "stored lib (ww_config w) (ww_disk w5) (rs @ map pa_record (take (length batch) batch)) K"
          using running_stored [OF r5] e2 ctrl_fields(1) [OF v5(2)] by simp
        moreover have "process_batch lib batch w =
            Some (enter_fault (reject_all e2 (map pa_ticket failed) (reject_all e2 (map fst written) w5)))"
          using \<open>batch \<noteq> []\<close> True e e2 assms(5)
          by (simp add: process_batch_def now wrote(1) now2 sync now4 w5_def Let_def)
        ultimately show ?thesis using that batch_failed f5(1,2) by blast
      next
        case e2: True
        let ?w6 = "w5\<lparr>ww_unsynced_writes := False\<rparr>"
        let ?a = "accept_all batch written ?w6"
        let ?d = "?a\<lparr>ww_last_durable := lsn_value (snd (List.last written))\<rparr>"
        obtain t w7 where now7: "steady_now ?d = (t, w7)" by (metis surj_pair)
        let ?r = "w7\<lparr>ww_metrics := (ww_metrics w7)
           \<lparr>wm_group_commit_batches := wm_group_commit_batches (ww_metrics w7) + 1,
            wm_records_written := wm_records_written (ww_metrics w7) + of_nat (length written),
            wm_group_commit_nanoseconds := wm_group_commit_nanoseconds (ww_metrics w7) @ [t - t0]\<rparr>\<rparr>"
        have "process_batch lib batch w = Some ?r"
          using \<open>batch \<noteq> []\<close> True e e2 assms(5) now7 [unfolded accept_all_def]
          by (simp add: process_batch_def now wrote(1) now2 sync now4 w5_def Let_def)
        moreover have "batch_done lib w rs K batch ?r"
        proof (rule batch_accepted [where K' = "length rs + length batch" and ?w1.0 = ?w6])
          have v6: "view ?w6 = view w5" by (simp add: view_def)
          show "running lib ?w6 (rs @ map pa_record batch) (length rs + length batch)"
            using r5 running_view [OF v6] by (simp only: if_P [OF e2])
          show "K \<le> length rs + length batch" using running_le [OF r1(1)] by simp
          show "frame ?w6 = frame w" "acknowledged ?w6 = acknowledged w" "\<not> ww_fault ?w6" "ww_queue ?w6 = ww_queue w"
            using f5 by (simp_all add: frame_def acknowledged_def)
          show "body ?r = body (accept_all batch (batch_numbers (1 + length rs) batch) ?w6)"
            "ww_tickets ?r = ww_tickets (accept_all batch (batch_numbers (1 + length rs) batch) ?w6)"
            using steady_now_body [OF now7] r1(2) by (simp_all add: body_def view_def)
        qed simp_all
        ultimately show ?thesis by (rule that)
      qed
    qed
    then show ?thesis by blast
  qed
qed

section \<open>The worker\<close>

text \<open>
  The durable answers a client has seen, each with the record it sent. \<open>sent\<close> holds the records of the
  tickets, in the order of the tickets.
\<close>

definition receipts :: "WalWriter \<Rightarrow> WalRecord list \<Rightarrow> (Lsn \<times> WalRecord) list" where
  "receipts w sent = [(ao_lsn a, r). (Some a, r) \<leftarrow> zip (ww_tickets w) sent, ao_status a = AS_durable_accepted]"

lemma set_receipts:
  assumes "length sent = length (ww_tickets w)"
  shows "set (receipts w sent) = {(l, sent ! t) | t l. (t, l) \<in> acknowledged w}"
proof -
  have "set (receipts w sent) = {(ao_lsn a, r) | a r. (Some a, r) \<in> set (zip (ww_tickets w) sent) \<and> ao_status a = AS_durable_accepted}"
    by (auto simp: receipts_def split: option.splits)
  also have "\<dots> = {(ao_lsn a, sent ! t) | a t. t < length (ww_tickets w) \<and> ww_tickets w ! t = Some a \<and> ao_status a = AS_durable_accepted}"
    using assms by (auto simp: set_zip) (metis, metis)
  also have "\<dots> = {(l, sent ! t) | t l. (t, l) \<in> acknowledged w}"
    by (auto simp: acknowledged_def)
  finally show ?thesis .
qed

definition kept :: "WalRecord list \<Rightarrow> nat \<Rightarrow> Lsn \<times> WalRecord \<Rightarrow> bool" where
  "kept rs K = (\<lambda>(l, r). \<exists>n < K. l = Lsn (of_nat (Suc n)) \<and> rs ! n = r)"

lemma kept_append: "kept rs K x \<Longrightarrow> K \<le> length rs \<Longrightarrow> K \<le> K' \<Longrightarrow> kept (rs @ rs') K' x"
proof -
  assume le: "K \<le> length rs" "K \<le> K'" and kept: "kept rs K x"
  then obtain n where n: "n < K" "x = (Lsn (of_nat (Suc n)), rs ! n)" by (auto simp: kept_def)
  with le have "n < K'" "(rs @ rs') ! n = rs ! n" by (simp_all add: nth_append)
  with n(2) show "kept (rs @ rs') K' x" unfolding kept_def by blast
qed

lemma stored_le: "stored lib c d rs K \<Longrightarrow> K \<le> length rs"
  using durable_upto_le by (auto simp: stored_def stored_as_def)

definition alive :: "WalWriter \<Rightarrow> bool" where
  "alive w \<longleftrightarrow> \<not> ww_fault w \<and> ww_phase w \<noteq> WP_exited"

definition pending_ok :: "WalConfig \<Rightarrow> WalRecord list \<Rightarrow> PendingAppend list \<Rightarrow> bool" where
  "pending_ok c sent ps \<longleftrightarrow> (\<forall>r \<in> set sent. fits (wc_max_record_bytes c) r) \<and>
     (\<forall>p \<in> set ps. pa_ticket p < length sent \<and> sent ! pa_ticket p = pa_record p)"

text \<open>There is room for what is on the disk and what is to come, and all of it was sent.\<close>

definition room :: "WalRecord set \<Rightarrow> nat \<Rightarrow> WalRecord list \<Rightarrow> PendingAppend list \<Rightarrow> bool" where
  "room R N rs ps \<longleftrightarrow> length rs + length ps \<le> N \<and> set rs \<union> pa_record ` set ps \<subseteq> R"

definition disk_ok ::
  "Crc32cLib \<Rightarrow> WalConfig \<Rightarrow> WalWriter \<Rightarrow> WalRecord list \<Rightarrow> nat \<Rightarrow> bool" where
  "disk_ok lib c w rs K \<longleftrightarrow> ww_config w = c \<and> log_dir c |\<in>| dk_dirs (ww_disk w) \<and>
     (if alive w then running lib w rs K else stored lib c (ww_disk w) rs K)"

text \<open>
  The invariant of a writer: the records on the disk and those still to be written are at most \<open>N\<close>, all
  of them in \<open>R\<close>, and everything acknowledged, now or by earlier processes, is in the synced part.
\<close>

definition sound ::
  "Crc32cLib \<Rightarrow> WalConfig \<Rightarrow> WalRecord set \<Rightarrow> nat \<Rightarrow> (Lsn \<times> WalRecord) list \<Rightarrow> WalWriter \<Rightarrow> WalRecord list \<Rightarrow> bool" where
  "sound lib c R N ledger w sent \<longleftrightarrow> length sent = length (ww_tickets w) \<and>
     pending_ok c sent (ww_batch w @ ww_queue w) \<and>
     (\<exists>rs K. disk_ok lib c w rs K \<and> room R N rs (ww_batch w @ ww_queue w) \<and>
        (\<forall>x \<in> set ledger \<union> set (receipts w sent). kept rs K x))"

lemma disk_ok_le: "disk_ok lib c w rs K \<Longrightarrow> K \<le> length rs"
  using running_le stored_le by (auto simp: disk_ok_def split: if_splits)

lemma disk_ok_stored: "disk_ok lib c w rs K \<Longrightarrow> stored lib c (ww_disk w) rs K"
  using running_stored by (auto simp: disk_ok_def split: if_splits)

lemma disk_ok_view:
  assumes "view w' = view w" "alive w' = alive w"
  shows "disk_ok lib c w' rs K = disk_ok lib c w rs K"
  unfolding disk_ok_def running_view [OF assms(1)] assms(2) view_fields [OF assms(1)] ..

lemma sound_same:
  assumes "sound lib c R N ledger w sent" "view w' = view w" "alive w' = alive w" "ww_tickets w' = ww_tickets w"
    and "ww_batch w' @ ww_queue w' = ww_batch w @ ww_queue w"
  shows "sound lib c R N ledger w' sent"
  using assms(1) unfolding sound_def receipts_def disk_ok_view [OF assms(2,3)] assms(4,5) .

lemma reject_all_sound:
  assumes "sound lib c R N ledger w sent"
  shows "sound lib c R N ledger (reject_all e ts w) sent"
proof -
  have b: "body (reject_all e ts w) = body w" and a: "acknowledged (reject_all e ts w) \<subseteq> acknowledged w"
    using reject_all_facts [of e ts w] by simp_all
  have len: "length (ww_tickets (reject_all e ts w)) = length (ww_tickets w)" using b by (simp add: body_def)
  have view: "view (reject_all e ts w) = view w" and al: "alive (reject_all e ts w) = alive w"
    and q: "ww_batch (reject_all e ts w) = ww_batch w" "ww_queue (reject_all e ts w) = ww_queue w"
    using b by (simp_all add: body_def alive_def)
  have "set (receipts (reject_all e ts w) sent) \<subseteq> set (receipts w sent)"
    using a assms len by (auto simp: set_receipts sound_def)
  then show ?thesis
    using assms unfolding sound_def disk_ok_view [OF view al] len q by blast
qed

lemma batch_done_sound:
  assumes "sound lib c R N ledger w sent" "alive w" "disk_ok lib c w rs K"
    and "room R N rs (ww_batch w @ ww_queue w)" "\<forall>x \<in> set ledger \<union> set (receipts w sent). kept rs K x"
    and "batch_done lib w rs K (ww_batch w) w'"
  shows "sound lib c R N ledger (w'\<lparr>ww_batch := [], ww_batch_bytes := 0, ww_phase := WP_idle\<rparr>) sent"
proof -
  let ?r = "w'\<lparr>ww_batch := [], ww_batch_bytes := 0, ww_phase := WP_idle\<rparr>"
  have frame: "frame w' = frame w" using assms(6) by (simp add: batch_done_def)
  then have same: "ww_config w' = c" "log_dir c |\<in>| dk_dirs (ww_disk w')" "length (ww_tickets w') = length (ww_tickets w)"
    using assms(3) by (simp_all add: frame_def disk_ok_def)
  have len: "length sent = length (ww_tickets w)" "length sent = length (ww_tickets ?r)"
    and ok: "pending_ok c sent (ww_batch w @ ww_queue w)"
    using assms(1) same(3) by (simp_all add: sound_def)
  have le: "K \<le> length rs" using assms(3) by (rule disk_ok_le)
  have receipts: "receipts ?r sent = receipts w' sent" "alive ?r \<longleftrightarrow> \<not> ww_fault w'"
    by (simp_all add: receipts_def alive_def)
  have config: "ww_config w = c" using assms(3) by (simp add: disk_ok_def)
  from assms(6) consider
    (failed) j where "ww_fault w'" "ww_queue w' = []" "acknowledged w' \<subseteq> acknowledged w"
      "stored lib c (ww_disk w') (rs @ map pa_record (take j (ww_batch w))) K"
  | (done_) K' where "K \<le> K'" "\<not> ww_fault w'" "ww_queue w' = ww_queue w" "running lib w' (rs @ map pa_record (ww_batch w)) K'"
      "\<forall>(t, l) \<in> acknowledged w'. (t, l) \<in> acknowledged w \<or> (\<exists>i < length (ww_batch w).
         t = pa_ticket (ww_batch w ! i) \<and> l = Lsn (of_nat (1 + length rs + i)) \<and> length rs + i < K')"
    unfolding batch_done_def config by blast
  then show ?thesis
  proof cases
    case failed
    let ?rs = "rs @ map pa_record (take j (ww_batch w))"
    have "set (receipts w' sent) \<subseteq> set (receipts w sent)"
      using failed(3) len same(3) by (auto simp: set_receipts)
    then have "\<forall>x \<in> set ledger \<union> set (receipts ?r sent). kept ?rs K x"
      using assms(5) kept_append [OF _ le le_refl] receipts(1) by auto
    moreover have "disk_ok lib c ?r ?rs K"
      using failed(1,4) same receipts(2) by (simp add: disk_ok_def)
    moreover have "room R N ?rs (ww_batch ?r @ ww_queue ?r)" 
      using assms(4) failed(2) by (auto simp: room_def dest!: in_set_takeD)
    moreover have "pending_ok c sent (ww_batch ?r @ ww_queue ?r)" using ok failed(2) by (simp add: pending_ok_def)
    ultimately show ?thesis using len unfolding sound_def by blast
  next
    case done_
    let ?rs = "rs @ map pa_record (ww_batch w)"
    have "view ?r = view w'" by (simp add: view_def)
    then have run: "running lib ?r ?rs K'" using done_(4) running_view by blast
    have "kept ?rs K' x" if x: "x \<in> set (receipts w' sent)" for x
    proof -
      obtain t l where tl: "x = (l, sent ! t)" "(t, l) \<in> acknowledged w'"
        using x len same(3) by (auto simp: set_receipts)
      from done_(5) tl(2) consider "(t, l) \<in> acknowledged w"
        | i where "i < length (ww_batch w)" "t = pa_ticket (ww_batch w ! i)" "l = Lsn (of_nat (1 + length rs + i))" "length rs + i < K'"
        by blast
      then show ?thesis
      proof cases
        case 1
        then have "x \<in> set (receipts w sent)" using tl(1) len by (auto simp: set_receipts)
        then show ?thesis using assms(5) kept_append [OF _ le done_(1)] by blast
      next
        case 2
        then have "sent ! t = pa_record (ww_batch w ! i)" using ok by (simp add: pending_ok_def)
        also have "\<dots> = ?rs ! (length rs + i)" using 2(1) by simp
        finally have "x = (Lsn (of_nat (Suc (length rs + i))), ?rs ! (length rs + i))" using tl(1) 2(3) by simp
        with 2(4) show ?thesis unfolding kept_def by blast
      qed
    qed
    then have "\<forall>x \<in> set ledger \<union> set (receipts ?r sent). kept ?rs K' x"
      using assms(5) kept_append [OF _ le done_(1)] receipts(1) by auto
    moreover have "disk_ok lib c ?r ?rs K'"
      using run done_(2) same receipts(2) by (simp add: disk_ok_def)
    moreover have "room R N ?rs (ww_batch ?r @ ww_queue ?r)" 
      using assms(4) done_(3) by (auto simp: room_def)
    moreover have "pending_ok c sent (ww_batch ?r @ ww_queue ?r)" using ok done_(3) by (simp add: pending_ok_def)
    ultimately show ?thesis using len unfolding sound_def by blast
  qed
qed

lemma finish_batch_sound:
  assumes "sound lib c R N ledger w sent" "ww_phase w \<noteq> WP_exited" "bounded_config c" "N < 2 ^ 64 - 1"
  shows "\<exists>w'. finish_batch lib w = Some w' \<and> sound lib c R N ledger w' sent"
proof (cases "ww_fault w")
  case True
  let ?w = "if ww_batch w = [] then w else reject_all PE_fault_read_only (map pa_ticket (ww_batch w)) w"
  let ?r = "?w\<lparr>ww_batch := [], ww_batch_bytes := 0, ww_phase := WP_idle\<rparr>"
  have "finish_batch lib w = Some ?r" using True by (simp add: finish_batch_def process_batch_def)
  moreover have fault: "ww_fault ?w" "ww_phase ?w \<noteq> WP_exited"
    using True assms(2) reject_all_facts [of PE_fault_read_only "map pa_ticket (ww_batch w)" w] by (simp_all add: body_def)
  have sw: "sound lib c R N ledger ?w sent" using assms(1) reject_all_sound by simp
  have "sound lib c R N ledger ?r sent"
  proof -
    from sw obtain rs K where s: "disk_ok lib c ?w rs K" "room R N rs (ww_batch ?w @ ww_queue ?w)"
      "\<forall>x \<in> set ledger \<union> set (receipts ?w sent). kept rs K x" "length sent = length (ww_tickets ?w)"
      "pending_ok c sent (ww_batch ?w @ ww_queue ?w)" unfolding sound_def by blast
    have "disk_ok lib c ?r rs K" using s(1) fault by (simp add: disk_ok_def alive_def del: if_split)
    moreover have "receipts ?r sent = receipts ?w sent" by (simp add: receipts_def)
    moreover have "room R N rs (ww_batch ?r @ ww_queue ?r)" using s(2) by (auto simp: room_def simp del: if_split)
    moreover have "pending_ok c sent (ww_batch ?r @ ww_queue ?r)" using s(5) by (simp add: pending_ok_def del: if_split)
    moreover have "length sent = length (ww_tickets ?r)" using s(4) by simp
    ultimately show ?thesis using s(3) unfolding sound_def by metis
  qed
  ultimately show ?thesis by blast
next
  case False
  from assms(1) obtain rs K where s: "disk_ok lib c w rs K" "room R N rs (ww_batch w @ ww_queue w)"
    "\<forall>x \<in> set ledger \<union> set (receipts w sent). kept rs K x" "length sent = length (ww_tickets w)"
    "pending_ok c sent (ww_batch w @ ww_queue w)" unfolding sound_def by blast
  have al: "alive w" using False assms(2) by (simp add: alive_def)
  have run: "running lib w rs K" "ww_config w = c" using s(1) al by (simp_all add: disk_ok_def)
  have "\<forall>p \<in> set (ww_batch w). fits (wc_max_record_bytes (ww_config w)) (pa_record p)"
    using s(5) run(2) unfolding pending_ok_def by (metis UnCI nth_mem set_append)
  moreover have "1 + length rs + length (ww_batch w) < 2 ^ 64" using s(2) assms(4) by (simp add: room_def)
  ultimately obtain w' where w': "process_batch lib (ww_batch w) w = Some w'" "batch_done lib w rs K (ww_batch w) w'"
    using process_batch_running [OF run(1)] assms(3) False run(2) by blast
  then show ?thesis
    using batch_done_sound [OF assms(1) al s(1-3)] by (simp add: finish_batch_def)
qed

lemma collect_loop_split:
  "collect_loop config stopping queue qb batch bb = (wait, queue', qb', batch', bb') \<Longrightarrow> batch' @ queue' = batch @ queue"
proof (induction config stopping queue qb batch bb rule: collect_loop.induct)
  case (2 config stopping p queue qb batch bb)
  then show ?case by (auto simp: Let_def split: if_splits)
qed simp

lemma collect_batch_sound:
  assumes "sound lib c R N ledger w sent" "ww_phase w \<noteq> WP_exited" "bounded_config c" "N < 2 ^ 64 - 1"
  shows "\<exists>w'. collect_batch lib w = Some w' \<and> sound lib c R N ledger w' sent"
proof -
  obtain wait queue qb batch bb where loop: "collect_loop (ww_config w) (ww_stopping w) (ww_queue w) (ww_queue_payload_bytes w)
      (ww_batch w) (ww_batch_bytes w) = (wait, queue, qb, batch, bb)" by (metis prod_cases5)
  let ?w = "w\<lparr>ww_queue := queue, ww_queue_payload_bytes := qb, ww_batch := batch, ww_batch_bytes := bb\<rparr>"
  have split: "batch @ queue = ww_batch w @ ww_queue w" using loop by (rule collect_loop_split)
  have s: "sound lib c R N ledger ?w sent"
    by (rule sound_same [OF assms(1)]) (use split in \<open>simp_all add: view_def alive_def\<close>)
  have p: "ww_phase ?w \<noteq> WP_exited" using assms(2) by simp
  show ?thesis
  proof (cases wait)
    case True
    have "sound lib c R N ledger (?w\<lparr>ww_phase := WP_waiting\<rparr>) sent"
      by (rule sound_same [OF s]) (use assms(2) in \<open>simp_all add: view_def alive_def\<close>)
    with True loop show ?thesis by (simp add: collect_batch_def)
  next
    case False
    with loop finish_batch_sound [OF s p assms(3,4)] show ?thesis by (simp add: collect_batch_def)
  qed
qed

lemma sound_now:
  assumes "sound lib c R N ledger w sent" "steady_now w = (t, w')"
  shows "sound lib c R N ledger w' sent" "ww_phase w' = ww_phase w"
proof -
  have "body w' = body w" "ww_tickets w' = ww_tickets w" using steady_now_body [OF assms(2)] by simp_all
  then show "sound lib c R N ledger w' sent" "ww_phase w' = ww_phase w"
    by (auto simp: body_def alive_def intro: sound_same [OF assms(1)])
qed

text \<open>The worker ends: the last sync, and then nothing more is written.\<close>

lemma exit_sound:
  assumes "sound lib c R N ledger w sent"
    and "(if ww_active_segment w \<noteq> None \<and> ww_unsynced_writes w \<and> \<not> ww_fault w then sync_active w else (PE_none, w)) = (e, w1)"
    and "ww_phase w \<noteq> WP_exited"
  shows "sound lib c R N ledger (w1\<lparr>ww_active_segment := None, ww_phase := WP_exited\<rparr>) sent"
proof -
  let ?r = "w1\<lparr>ww_active_segment := None, ww_phase := WP_exited\<rparr>"
  from assms(1) obtain rs K where s: "disk_ok lib c w rs K" "room R N rs (ww_batch w @ ww_queue w)"
    "\<forall>x \<in> set ledger \<union> set (receipts w sent). kept rs K x" "length sent = length (ww_tickets w)"
    "pending_ok c sent (ww_batch w @ ww_queue w)" unfolding sound_def by blast
  have "ctrl w1 = ctrl w \<and> (\<exists>K1 \<ge> K. stored lib c (ww_disk w1) rs K1)"
  proof (cases "ww_active_segment w \<noteq> None \<and> ww_unsynced_writes w \<and> \<not> ww_fault w")
    case True
    then have sync: "sync_active w = (e, w1)" using assms(2) by simp
    have run: "running lib w rs K" using s(1) True assms(3) by (simp add: disk_ok_def alive_def)
    note r1 = sync_running [OF run sync]
    have "ww_config w1 = c" using s(1) ctrl_fields(1) [OF r1(1)] by (simp add: disk_ok_def)
    then have "stored lib c (ww_disk w1) rs (if e = PE_none then length rs else K)"
      using running_stored [OF r1(2)] by simp
    with r1(1) disk_ok_le [OF s(1)] show ?thesis by (cases "e = PE_none") auto
  next
    case False
    then have "w1 = w" using assms(2) by auto
    with disk_ok_stored [OF s(1)] show ?thesis by blast
  qed
  then obtain K1 where c1: "ctrl w1 = ctrl w" and K1: "K \<le> K1" "stored lib c (ww_disk w1) rs K1" by blast
  have f: "ww_config w1 = ww_config w" "dk_dirs (ww_disk w1) = dk_dirs (ww_disk w)" "ww_tickets w1 = ww_tickets w"
    "ww_batch w1 = ww_batch w" "ww_queue w1 = ww_queue w" using c1 by (simp_all add: ctrl_def)
  have "disk_ok lib c ?r rs K1" using K1(2) s(1) f by (simp add: disk_ok_def alive_def)
  moreover have "receipts ?r sent = receipts w sent" using f by (simp add: receipts_def)
  moreover have "kept rs K1 x" if "kept rs K x" for x using kept_append [OF that disk_ok_le [OF s(1)] K1(1), of "[]"] by simp
  ultimately show ?thesis
    using s(2-5) f unfolding sound_def by (intro conjI exI [of _ rs] exI [of _ K1]) auto
qed

lemma worker_step_sound:
  assumes "sound lib c R N ledger w sent" "bounded_config c" "N < 2 ^ 64 - 1"
  shows "\<exists>w'. worker_step lib timeout w = Some w' \<and> sound lib c R N ledger w' sent"
proof -
  obtain t w1 where now: "steady_now w = (t, w1)" by (metis surj_pair)
  note s1 = sound_now [OF assms(1) now]
  show ?thesis
  proof (cases "ww_phase w")
    case WP_exited
    with assms(1) show ?thesis by (simp add: worker_step_def)
  next
    case WP_idle
    let ?w = "w1\<lparr>ww_deadline := t + wc_group_commit_max_wait (ww_config w1) * 1000000\<rparr>"
    have "sound lib c R N ledger ?w sent"
      by (rule sound_same [OF s1(1)]) (simp_all add: view_def alive_def)
    then have collect: "\<exists>w'. collect_batch lib ?w = Some w' \<and> sound lib c R N ledger w' sent"
      using s1(2) WP_idle assms(2,3) by (intro collect_batch_sound) simp_all
    have config: "ww_config w1 = ww_config w" using steady_now_view [OF now] by (rule view_fields)
    obtain e w2 where stop: "(if ww_active_segment w \<noteq> None \<and> ww_unsynced_writes w \<and> \<not> ww_fault w
        then sync_active w else (PE_none, w)) = (e, w2)" by (metis surj_pair)
    note exit = exit_sound [OF assms(1) stop]
    show ?thesis
    proof (cases "ww_queue w = []")
      case True
      then have "worker_step lib timeout w =
          (if \<not> ww_stopping w then Some w else Some (w2\<lparr>ww_active_segment := None, ww_phase := WP_exited\<rparr>))"
        by (simp only: worker_step_def WP_idle WorkerPhase.case stop Let_def prod.case simp_thms if_True)
      with assms(1) exit WP_idle show ?thesis by simp
    next
      case False
      then have "worker_step lib timeout w = collect_batch lib ?w"
        by (simp add: worker_step_def WP_idle now Let_def config)
      with collect show ?thesis by simp
    qed
  next
    case WP_waiting
    have p: "ww_phase w \<noteq> WP_exited" "ww_phase w1 \<noteq> WP_exited" using WP_waiting s1(2) by simp_all
    have "worker_step lib timeout w \<in> {Some w, finish_batch lib w, finish_batch lib w1, collect_batch lib w1}"
      by (simp add: worker_step_def WP_waiting now Let_def)
    with assms(1) finish_batch_sound [OF assms(1) p(1) assms(2,3)] finish_batch_sound [OF s1(1) p(2) assms(2,3)]
      collect_batch_sound [OF s1(1) p(2) assms(2,3)]
    show ?thesis by auto
  qed
qed

section \<open>Clients and the operating system\<close>

lemma append_record_sound:
  assumes "sound lib c R N ledger w sent" "fits (wc_max_record_bytes c) r" "r \<in> R" "append_record r w = (answer, w')"
  shows "sound lib c R (Suc N) ledger w' (case answer of Inl _ \<Rightarrow> sent | Inr _ \<Rightarrow> sent @ [r])"
proof (cases answer)
  case (Inl e)
  then have "w' = w" using assms(4) by (auto simp: append_record_def Let_def split: if_splits)
  moreover have "room R N rs ps \<Longrightarrow> room R (Suc N) rs ps" for rs ps by (simp add: room_def)
  ultimately show ?thesis using Inl assms(1) unfolding sound_def by fastforce
next
  case (Inr t)
  then have w': "w' = w\<lparr>ww_queue_payload_bytes := ww_queue_payload_bytes w + record_payload_bytes r,
      ww_queue := ww_queue w @ [\<lparr>pa_record = r, pa_ticket = length (ww_tickets w)\<rparr>],
      ww_tickets := ww_tickets w @ [None]\<rparr>"
    using assms(4) by (auto simp: append_record_def Let_def split: if_splits)
  from assms(1) obtain rs K where s: "disk_ok lib c w rs K" "room R N rs (ww_batch w @ ww_queue w)"
    "\<forall>x \<in> set ledger \<union> set (receipts w sent). kept rs K x" "length sent = length (ww_tickets w)"
    "pending_ok c sent (ww_batch w @ ww_queue w)" unfolding sound_def by blast
  have "disk_ok lib c w' rs K"
    using s(1) by (subst disk_ok_view [of w' w]) (simp_all add: w' view_def alive_def)
  moreover have "receipts w' (sent @ [r]) = receipts w sent"
    using s(4) by (simp add: w' receipts_def)
  moreover have "pending_ok c (sent @ [r]) (ww_batch w' @ ww_queue w')"
    using s(4,5) assms(2) by (auto simp: w' pending_ok_def nth_append intro: less_SucI)
  moreover have "length (sent @ [r]) = length (ww_tickets w')" "room R (Suc N) rs (ww_batch w' @ ww_queue w')"
    using s(2,4) assms(3) by (auto simp: w' room_def)
  ultimately show ?thesis using s(3) Inr unfolding sound_def by auto
qed

lemma request_stop_sound: "sound lib c R N ledger w sent \<Longrightarrow> sound lib c R N ledger (request_stop w) sent"
  by (rule sound_same) (simp_all add: request_stop_def view_def alive_def)

text \<open>System calls may fail from now on in any way.\<close>

definition plan_faults :: "SysResult list \<Rightarrow> WalWriter \<Rightarrow> WalWriter" where
  "plan_faults plan w = w\<lparr>ww_disk := (ww_disk w)\<lparr>dk_plan := plan\<rparr>\<rparr>"

lemma stored_as_files:
  assumes "dk_files d' = dk_files d"
  shows "stored_as lib c d' segs act K = stored_as lib c d segs act K"
  unfolding stored_as_def wal_files_def assms ..

lemma plan_faults_sound:
  assumes "sound lib c R N ledger w sent"
  shows "sound lib c R N ledger (plan_faults plan w) sent"
proof -
  let ?w = "plan_faults plan w"
  have files: "dk_files (ww_disk ?w) = dk_files (ww_disk w)" by (simp add: plan_faults_def)
  have fields: "ww_config ?w = ww_config w" "ww_layout ?w = ww_layout w" "ww_next_lsn_value ?w = ww_next_lsn_value w"
    "dk_dirs (ww_disk ?w) = dk_dirs (ww_disk w)" "alive ?w = alive w" "ww_tickets ?w = ww_tickets w"
    "ww_batch ?w = ww_batch w" "ww_queue ?w = ww_queue w"
    by (simp_all add: plan_faults_def alive_def)
  have matches: "active_matches lib ?w n act = active_matches lib w n act" for n act
    by (cases act) (auto simp: plan_faults_def)
  have "running lib ?w rs K = running lib w rs K" for rs K
    unfolding running_def running_as_def stored_as_files [OF files] fields matches ..
  moreover have "stored lib c (ww_disk ?w) rs K = stored lib c (ww_disk w) rs K" for rs K
    unfolding stored_def stored_as_files [OF files] ..
  ultimately have "disk_ok lib c ?w rs K = disk_ok lib c w rs K" for rs K
    unfolding disk_ok_def fields by simp
  then show ?thesis using assms unfolding sound_def receipts_def fields by simp
qed

section \<open>The start\<close>

text \<open>A disk without planned faults stays one.\<close>

definition quiet :: "Disk \<Rightarrow> bool" where
  "quiet d \<longleftrightarrow> dk_plan d = [] \<and> dk_truncate_plan d = []"

lemma retried_call_quiet: "dk_plan d = [] \<Longrightarrow> retried_call d = (None, d)"
  by (simp add: retried_call_def)

lemma calls_quiet:
  "create_exclusive p d = (r, d') \<Longrightarrow> dk_plan d = [] \<Longrightarrow> dk_plan d' = []"
  "file_write f bs d = (e, f', d') \<Longrightarrow> dk_plan d = [] \<Longrightarrow> dk_plan d' = []"
  "file_sync f d = (e, d') \<Longrightarrow> dk_plan d = [] \<Longrightarrow> dk_plan d' = []"
  "rename_file p q d = (e, d') \<Longrightarrow> dk_plan d = [] \<Longrightarrow> dk_plan d' = []"
  "sync_directory p d = (e, d') \<Longrightarrow> dk_plan d = [] \<Longrightarrow> dk_plan d' = []"
  "remove_file p d = (e, d') \<Longrightarrow> dk_plan d = [] \<Longrightarrow> dk_plan d' = []"
  by (auto simp: create_exclusive_def file_write_def file_sync_def rename_file_def sync_directory_def remove_file_def
      sys_call_quiet retried_call_quiet update_node_def Let_def split: if_splits option.splits)

lemma atomic_publish_quiet:
  assumes "dk_plan d = []" "atomic_publish p bs d = (e, d')"
  shows "dk_plan d' = []"
proof -
  let ?t = "temp_path p d"
  obtain r d1 where create: "create_exclusive ?t (d\<lparr>dk_temp_counter := dk_temp_counter d + 1\<rparr>) = (r, d1)"
    by (metis surj_pair)
  have q1: "dk_plan d1 = []" using calls_quiet(1) [OF create] assms(1) by simp
  show ?thesis
  proof (cases r)
    case (Inl err)
    then show ?thesis using assms(2) [unfolded atomic_publish_eq create prod.case Inl sum.case] q1 by simp
  next
    case (Inr f)
    obtain e2 f2 d2 where wrote: "file_write f bs d1 = (e2, f2, d2)" by (metis prod_cases3)
    obtain e3 d3 where sync: "(if e2 = PE_none then file_sync f2 d2 else (e2, d2)) = (e3, d3)"
      by (metis surj_pair)
    obtain e4 d4 where rename: "(if e3 = PE_none then rename_file ?t p d3 else (e3, d3)) = (e4, d4)"
      by (metis surj_pair)
    obtain e5 d5 where dir: "(if e4 = PE_none then sync_directory (parent_path p) d4 else (e4, d4)) = (e5, d5)"
      by (metis surj_pair)
    obtain e6 d6 where clean: "(if e5 \<noteq> PE_none then remove_file ?t d5 else (PE_none, d5)) = (e6, d6)"
      by (metis surj_pair)
    have "d' = d6"
      using assms(2) [unfolded atomic_publish_eq create prod.case Inr sum.case wrote sync rename dir clean]
      by simp
    moreover have q2: "dk_plan d2 = []" using calls_quiet(2) [OF wrote q1] .
    moreover have q3: "dk_plan d3 = []" using sync q2 calls_quiet(3) by (auto split: if_splits)
    moreover have q4: "dk_plan d4 = []" using rename q3 calls_quiet(4) by (auto split: if_splits)
    moreover have q5: "dk_plan d5 = []" using dir q4 calls_quiet(5) by (auto split: if_splits)
    moreover have "dk_plan d6 = []" using clean q5 calls_quiet(6) by (auto split: if_splits)
    ultimately show ?thesis by simp
  qed
qed

lemma load_quiet:
  assumes "dk_plan d = []" "load_directory_manifest lib p d = (r, d')"
  shows "d' = d"
  using assms
  by (auto simp: load_directory_manifest_def read_file_def sys_call_quiet Let_def
      split: prod.splits sum.splits if_splits option.splits)

lemma create_directories_quiet:
  assumes "quiet d"
  shows "\<exists>d'. create_directories dir d = (PE_none, d') \<and> quiet d' \<and> dk_files d' = dk_files d \<and>
     dir |\<in>| dk_dirs d' \<and> dk_dirs d |\<subseteq>| dk_dirs d'"
proof -
  define dirs where "dirs = fset_of_list (map (\<lambda>n. take n dir) [0..<Suc (length dir)])"
  have "dir \<in> set (map (\<lambda>n. take n dir) [0..<Suc (length dir)])"
    by (auto simp del: upt_Suc intro!: image_eqI [of _ _ "length dir"])
  then have "dir |\<in>| dirs" unfolding dirs_def fset_of_list_elem .
  moreover have "create_directories dir d = (PE_none, d\<lparr>dk_dirs := dk_dirs d |\<union>| dirs\<rparr>)"
    using assms unfolding create_directories_def dirs_def quiet_def by (simp only: sys_call_quiet Let_def prod.case option.case)
  ultimately show ?thesis using assms by (auto simp: quiet_def)
qed

text \<open>The manifest is not a file of the log.\<close>

lemma manifest_outside_log:
  "path_append (log_dir c) name \<noteq> directory_manifest_path (make_durable_layout (wc_durable_root c) (wc_world c) (wc_branch c))"
  "path_append (log_dir c) name \<noteq>
     temp_path (directory_manifest_path (make_durable_layout (wc_durable_root c) (wc_world c) (wc_branch c))) d"
  by (simp_all add: path_append_def log_dir_def wal_dir_def directory_manifest_path_def manifest_dir_def temp_path_def
      parent_path_def butlast_append)

lemma bind_directory_frame:
  assumes "bind_directory lib w = (e, w')" "quiet (ww_disk w)"
    and "ww_layout w = make_durable_layout (wc_durable_root (ww_config w)) (wc_world (ww_config w)) (wc_branch (ww_config w))"
  shows "\<exists>d'. w' = w\<lparr>ww_disk := d'\<rparr> \<and> quiet d' \<and> dk_dirs d' = dk_dirs (ww_disk w) \<and>
     (\<forall>name. fmlookup (dk_files d') (path_append (log_dir (ww_config w)) name) =
        fmlookup (dk_files (ww_disk w)) (path_append (log_dir (ww_config w)) name))"
proof -
  let ?d = "ww_disk w"
  let ?p = "directory_manifest_path (ww_layout w)"
  obtain r d1 where load: "load_directory_manifest lib ?p ?d = (r, d1)" by (metis surj_pair)
  have d1: "d1 = ?d" using load_quiet [OF _ load] assms(2) by (simp add: quiet_def)
  have same: "w\<lparr>ww_disk := ?d\<rparr> = w" by simp
  show ?thesis
  proof (cases "r = Inl PE_not_found")
    case False
    then have "w' = w"
      using assms(1) load d1 by (auto simp: bind_directory_def on_disk_def Let_def split: sum.splits if_splits)
    then show ?thesis using assms(2) by (intro exI [of _ ?d]) simp
  next
    case True
    let ?m = "\<lparr>dm_format_version = kDirectoryManifestFormatVersion, dm_world = wc_world (ww_config w), dm_branch = wc_branch (ww_config w)\<rparr>"
    obtain e2 d2 where publish: "atomic_publish ?p (encode_manifest lib ?m) ?d = (e2, d2)" by (metis surj_pair)
    have p: "?p \<noteq> []" by (simp add: directory_manifest_path_def path_append_def)
    have "w' = w\<lparr>ww_disk := d2\<rparr>"
      using assms(1) load d1 True publish
      by (auto simp: bind_directory_def on_disk_def Let_def publish_directory_manifest_def)
    moreover have "quiet d2"
      using assms(2) atomic_publish_quiet [OF _ publish] publish_files(2) [OF p publish] by (simp add: quiet_def)
    ultimately show ?thesis
      using publish_files(1,3) [OF p publish] manifest_outside_log [of "ww_config w"] assms(3)
      by (intro exI [of _ d2]) simp
  qed
qed

lemma stored_as_dir:
  assumes "\<And>name. fmlookup (dk_files d') (path_append (log_dir c) name) = fmlookup (dk_files d) (path_append (log_dir c) name)"
  shows "stored_as lib c d' segs act K = stored_as lib c d segs act K"
  unfolding stored_as_def wal_files_def assms ..

text \<open>The scan leaves the same records behind, and as many of them synced.\<close>

lemma scanned_stored:
  assumes "stored_as lib c d segs act K"
  defines "n \<equiv> 1 + length (concat segs)"
  shows "stored_as lib c (scanned_disk lib (log_dir c) n act d) segs (scanned_active lib n act) K"
proof -
  have s: "wal_files lib (log_dir c) segs act d" "journal_ok lib (wc_max_record_bytes c) segs act"
    "active_size act \<le> size_bound c" "durable_upto lib segs act K"
    using assms(1) by (simp_all add: stored_as_def)
  note scan = scanned_log [OF s(1,2), folded n_def]
  have "active_size (scanned_active lib n act) \<le> size_bound c \<and> durable_upto lib segs (scanned_active lib n act) K"
  proof (cases act)
    case None
    with s show ?thesis by (simp add: scanned_active_def)
  next
    case (Some a)
    obtain rs node where a: "act = Some (rs, node)" using Some by (cases a) auto
    let ?t = "trimmed_bytes lib n rs (fn_bytes node)"
    have active: "active_bytes lib (wc_max_record_bytes c) n rs (fn_bytes node)" using s(2) by (simp add: journal_ok_def a n_def)
    note trim = trimmed_active_bytes [OF active]
    obtain k where k: "synced_records lib n act k" "K \<le> length (concat segs) + k"
      using s(4) by (auto simp: durable_upto_def n_def)
    have "synced_records lib n (scanned_active lib n act) k"
    proof (cases "k = 0")
      case True
      then show ?thesis by (simp add: synced_records_def scanned_active_def a)
    next
      case False
      then have "k \<le> length rs" "length (seg_bytes lib n (take k rs)) \<le> fn_synced node"
        using k(1) by (simp_all add: synced_records_def a)
      moreover from this(1) False have "?t = seg_bytes lib n rs" using trim(2) by auto
      moreover have "length (seg_bytes lib n (take k rs)) \<le> length (seg_bytes lib n rs)"
        using journal_bytes_append [of lib n "take k rs" "drop k rs"] by simp
      ultimately show ?thesis by (simp add: synced_records_def scanned_active_def a cut_node_def)
    qed
    then have "durable_upto lib segs (scanned_active lib n act) K"
      using k(2) by (auto simp: durable_upto_def n_def)
    moreover have "active_size (scanned_active lib n act) \<le> active_size act"
      by (simp add: scanned_active_def a cut_node_def)
    ultimately show ?thesis using s(3) by simp
  qed
  with scan show ?thesis by (simp add: stored_as_def)
qed

lemma reopen_none:
  assumes "wsr_active_segment scan = []" "reopen_active scan w = (e, w')"
  shows "e = PE_none" "w' = w"
  using assms by (simp_all add: reopen_active_def)

lemma active_first_lsn:
  assumes "0 < n" "n < 2 ^ 64"
  shows "parse_segment_file_name (take (length (path_filename (path_append dir (active_name n))) - length kActiveSegmentSuffix)
     (path_filename (path_append dir (active_name n)))) = Some (Lsn (of_nat n))"
  using parse_of_nat [OF assms] by (simp add: active_name_def codec_simps)

text \<open>Reopening the active segment writes its header again if nothing of it is left.\<close>

lemma reopen_running:
  assumes "stored_as lib c (ww_disk w) segs (Some (rs, node)) K" "quiet (ww_disk w)" "ww_config w = c"
    and "wal_dir (ww_layout w) = log_dir c" "ww_next_lsn_value w = of_nat (1 + length (log_records segs (Some (rs, node))))"
    and "fn_bytes node = [] \<and> rs = [] \<or> fn_bytes node = seg_bytes lib (1 + length (concat segs)) rs"
    and "wsr_active_segment scan = path_append (log_dir c) (active_name (1 + length (concat segs)))"
    and "reopen_active scan w = (e, w')" "bounded_config c"
  shows "e = PE_none" "ctrl w' = ctrl w" "\<exists>node'. running_as lib w' segs (Some (rs, node')) K"
proof -
  let ?n = "1 + length (concat segs)"
  let ?p = "path_append (log_dir c) (active_name ?n)"
  have s: "wal_files lib (log_dir c) segs (Some (rs, node)) (ww_disk w)"
    "journal_ok lib (wc_max_record_bytes c) segs (Some (rs, node))" "length (fn_bytes node) \<le> size_bound c"
    "durable_upto lib segs (Some (rs, node)) K"
    using assms(1) by (simp_all add: stored_as_def)
  have node: "fmlookup (dk_files (ww_disk w)) ?p = Some node" using s(1) by (rule wal_files_active)
  have n: "0 < ?n" "?n < 2 ^ 64" using s(2) by (simp_all add: journal_ok_def log_records_def)
  let ?f = "\<lparr>wf_path = ?p, wf_size = of_nat (length (fn_bytes node))\<rparr>"
  have opened: "open_append ?p (ww_disk w) = (Inr ?f, ww_disk w)"
    using assms(2) node by (simp add: open_append_def quiet_def sys_call_quiet)
  let ?w1 = "w\<lparr>ww_active_segment := Some ?f, ww_active_path := ?p, ww_active_first_lsn := Lsn (of_nat ?n),
    ww_active_bytes := of_nat (length (fn_bytes node))\<rparr>"
  obtain t w2 where now: "steady_now ?w1 = (t, w2)" by (metis surj_pair)
  let ?w2 = "w2\<lparr>ww_active_opened_at := t\<rparr>"
  have v2: "view ?w2 = view ?w1" "ctrl ?w2 = ctrl w"
    using steady_now_view [OF now] ctrl_now [OF now] by (simp_all add: view_def)
  have ok: "active_ok lib (wc_max_record_bytes c) ?n (Some (rs, node))" using s(2) by (simp only: journal_ok_def)
  have p: "?p \<noteq> []" by (simp add: path_append_def)
  have same: "w\<lparr>ww_disk := ww_disk w\<rparr> = w" by simp
  let ?h = "encode_segment_header (Lsn (of_nat ?n))"
  have reopen: "reopen_active scan w =
      (let (error, w) = (if ww_active_bytes ?w2 = 0 then
           (let (error, w) = write_active ?h ?w2
            in (error, if error \<noteq> PE_none then w else w\<lparr>ww_active_bytes := of_nat (length ?h)\<rparr>)) else (PE_none, ?w2))
       in if error \<noteq> PE_none then (error, w) else (PE_none, w\<lparr>ww_unsynced_writes := False\<rparr>))"
    unfolding reopen_active_def assms(7) if_not_P [OF p] on_disk_def opened Let_def prod.case sum.case active_first_lsn [OF n]
      option.case same WritableFile.simps now ..
  have bytes: "ww_active_bytes ?w2 = of_nat (length (fn_bytes node))" using view_fields(8) [OF v2(1)] by simp
  have len: "unat (of_nat (length (fn_bytes node)) :: u64) = length (fn_bytes node)"
    using ok by (simp add: unat_of_nat take_bit_nat_eq_self)
  have "ww_active_bytes ?w2 = 0 \<longleftrightarrow> unat (of_nat (length (fn_bytes node)) :: u64) = unat (0 :: u64)"
    unfolding bytes word_unat_eq_iff ..
  then have zero: "ww_active_bytes ?w2 = 0 \<longleftrightarrow> fn_bytes node = []"
    by (simp only: len unat_0 length_0_conv)
  note fields = view_fields [OF v2(1)]
  have "e = PE_none \<and> ctrl w' = ctrl w \<and> (\<exists>node'. running_as lib w' segs (Some (rs, node')) K)"
  proof (cases "fn_bytes node = []")
    case False
    let ?r = "?w2\<lparr>ww_unsynced_writes := False\<rparr>"
    have result: "e = PE_none" "w' = ?r"
      using assms(8) unfolding reopen zero if_not_P [OF False] by simp_all
    have "active_matches lib ?w1 ?n (Some (rs, node))"
      using False assms(3,6) by simp
    then have "running_as lib ?w1 segs (Some (rs, node)) K"
      using assms(1,3,4,5) by (simp add: running_as_def)
    moreover have "view ?r = view ?w1" using v2(1) by (simp add: view_def)
    ultimately have "running_as lib ?r segs (Some (rs, node)) K" using running_as_view by blast
    then show ?thesis using result v2(2) by auto
  next
    case True
    then have rs: "rs = []" using assms(6) by (auto dest: arg_cong [of _ _ length])
    obtain e3 w3 where header: "write_active ?h ?w2 = (e3, w3)" by (metis surj_pair)
    have f2: "ww_active_segment ?w2 = Some ?f" "ww_disk ?w2 = ww_disk w" using fields by simp_all
    from write_active_file [OF header f2(1), of "log_dir c" segs lib rs node] s(1) f2(2) obtain f' d' k where
      w3: "w3 = ?w2\<lparr>ww_active_segment := Some f', ww_disk := d'\<rparr>" "wf_path f' = ?p"
        "if e3 = PE_none then length ?h \<le> k else k < length ?h" "dk_dirs d' = dk_dirs (ww_disk w)"
        "\<forall>rs'. wal_files lib (log_dir c) segs (Some (rs', node\<lparr>fn_bytes := fn_bytes node @ take k ?h\<rparr>)) d'"
      by (auto simp del: length_encode_segment_header)
    have e3: "e3 = PE_none"
      using header f2 assms(2) by (auto simp: write_active_def file_write_def quiet_def Let_def)
    let ?node = "node\<lparr>fn_bytes := seg_bytes lib ?n []\<rparr>"
    let ?r = "w3\<lparr>ww_active_bytes := of_nat (length ?h), ww_unsynced_writes := False\<rparr>"
    have result: "e = PE_none" "w' = ?r"
      using assms(8) unfolding reopen zero if_P [OF True] Let_def header prod.case e3 by simp_all
    have h: "fn_bytes node @ take k ?h = seg_bytes lib ?n []"
      using w3(3) e3 True by (simp add: seg_bytes_def)
    have files: "wal_files lib (log_dir c) segs (Some ([], ?node)) d'"
      using w3(5) unfolding h by blast
    have "durable_upto lib segs (Some (rs @ [], ?node)) K"
      by (rule durable_upto_write [OF s(4)]) simp
    moreover have "active_bytes lib (wc_max_record_bytes c) ?n [] (fn_bytes ?node)"
      unfolding active_bytes_def by (intro disjI2 exI [of _ "[]"]) simp
    then have "journal_ok lib (wc_max_record_bytes c) segs (Some ([], ?node))"
      using s(2) ok rs by (simp add: journal_ok_def log_records_def True)
    moreover have "active_size (Some ([], ?node)) \<le> size_bound c" by (simp add: size_bound_def)
    ultimately have stored: "stored_as lib c d' segs (Some ([], ?node)) K"
      using files rs unfolding stored_as_def by simp
    have fr: "ww_config ?r = c" "ww_disk ?r = d'" "ww_layout ?r = ww_layout w" "ww_next_lsn_value ?r = ww_next_lsn_value w"
      "ww_active_segment ?r = Some f'" "ww_active_path ?r = ?p" "ww_active_first_lsn ?r = Lsn (of_nat ?n)"
      "ww_active_bytes ?r = of_nat (length ?h)"
      using fields assms(3) by (simp_all add: w3(1))
    have "active_matches lib ?r ?n (Some ([], ?node))"
      unfolding active_matches.simps fr using w3(2) by (simp add: seg_bytes_def)
    then have "running_as lib ?r segs (Some ([], ?node)) K"
      using stored assms(4,5) rs unfolding running_as_def fr by (simp add: log_records_def)
    moreover have "ctrl ?r = ctrl w" using v2(2) w3(1,4) f2(2) by simp
    ultimately show ?thesis using result rs by auto
  qed
  then show "e = PE_none" "ctrl w' = ctrl w" "\<exists>node'. running_as lib w' segs (Some (rs, node')) K" by blast+
qed

lemma start_directories:
  assumes "quiet d" "log_dir c = wal_dir l"
  shows "\<exists>d1 d2 d3. create_directories (wal_dir l) d = (PE_none, d1) \<and> create_directories (manifest_dir l) d1 = (PE_none, d2) \<and>
     create_directories (checkpoint_dir l) d2 = (PE_none, d3) \<and> quiet d3 \<and> dk_files d3 = dk_files d \<and> log_dir c |\<in>| dk_dirs d3 \<and>
     dk_dirs d |\<subseteq>| dk_dirs d3"
proof -
  from create_directories_quiet [OF assms(1), of "wal_dir l"] obtain d1 where
    d1: "create_directories (wal_dir l) d = (PE_none, d1)" "quiet d1" "dk_files d1 = dk_files d" "log_dir c |\<in>| dk_dirs d1"
      "dk_dirs d |\<subseteq>| dk_dirs d1"
    using assms(2) by auto
  from create_directories_quiet [OF d1(2), of "manifest_dir l"] obtain d2 where
    d2: "create_directories (manifest_dir l) d1 = (PE_none, d2)" "quiet d2" "dk_files d2 = dk_files d" "log_dir c |\<in>| dk_dirs d2"
      "dk_dirs d |\<subseteq>| dk_dirs d2"
    using d1(3-5) by auto
  from create_directories_quiet [OF d2(2), of "checkpoint_dir l"] obtain d3 where
    "create_directories (checkpoint_dir l) d2 = (PE_none, d3)" "quiet d3" "dk_files d3 = dk_files d" "log_dir c |\<in>| dk_dirs d3"
      "dk_dirs d |\<subseteq>| dk_dirs d3"
    using d2(3-5) by auto
  with d1 d2 show ?thesis by blast
qed

lemma scanned_disk_frame:
  "quiet (scanned_disk lib dir n act d) = quiet d" "dk_dirs (scanned_disk lib dir n act d) = dk_dirs d"
  by (cases act; auto simp: quiet_def)+

text \<open>The end of the start, after the scan.\<close>

lemma reopen_after_scan:
  assumes "stored_as lib c d segs act K" "quiet d" "ww_config w = c" "wal_dir (ww_layout w) = log_dir c"
    and "ww_disk w = scanned_disk lib (log_dir c) (1 + length (concat segs)) act d" "ww_active_segment w = None"
    and "ww_next_lsn_value w = of_nat (1 + length (log_records segs act))"
    and "wsr_active_segment scan = active_path (log_dir c) (1 + length (concat segs)) act"
    and "reopen_active scan w = (e, w')" "bounded_config c"
  shows "e = PE_none" "ctrl w' = ctrl w" "running lib w' (log_records segs act) K"
proof -
  let ?n = "1 + length (concat segs)"
  have stored: "stored_as lib c (ww_disk w) segs (scanned_active lib ?n act) K"
    using scanned_stored [OF assms(1)] assms(5) by simp
  have quiet: "quiet (ww_disk w)" using assms(2,5) scanned_disk_frame by simp
  have journal: "journal_ok lib (wc_max_record_bytes c) segs act" using assms(1) by (simp add: stored_as_def)
  have "e = PE_none \<and> ctrl w' = ctrl w \<and> running lib w' (log_records segs act) K"
  proof (cases act)
    case None
    then have "e = PE_none" "w' = w" using reopen_none [OF _ assms(9)] assms(8) by simp_all
    moreover have "running_as lib w segs None K"
      using stored assms(3,4,6,7) None by (simp add: running_as_def scanned_active_def)
    ultimately show ?thesis using None by (auto simp: running_def)
  next
    case (Some a)
    obtain rs node where a: "act = Some (rs, node)" using Some by (cases a) auto
    have active: "active_bytes lib (wc_max_record_bytes c) ?n rs (fn_bytes node)" using journal by (simp add: journal_ok_def a)
    let ?node = "cut_node (length (trimmed_bytes lib ?n rs (fn_bytes node))) node"
    have bytes: "fn_bytes ?node = [] \<and> rs = [] \<or> fn_bytes ?node = seg_bytes lib ?n rs"
      using trimmed_active_bytes [OF active] by (simp add: cut_node_def)
    have act': "scanned_active lib ?n act = Some (rs, ?node)" by (simp add: scanned_active_def a)
    have next_lsn: "ww_next_lsn_value w = of_nat (1 + length (log_records segs (Some (rs, ?node))))"
      using assms(7) by (simp add: a log_records_def)
    have path: "wsr_active_segment scan = path_append (log_dir c) (active_name ?n)" using assms(8) a by simp
    note reopened = reopen_running [OF stored [unfolded act'] quiet assms(3,4) next_lsn bytes path assms(9,10)]
    from reopened(3) obtain node' where "running_as lib w' segs (Some (rs, node')) K" by blast
    moreover have "log_records segs (Some (rs, node')) = log_records segs act" by (simp add: a log_records_def)
    ultimately show ?thesis using reopened(1,2) unfolding running_def by blast
  qed
  then show "e = PE_none" "ctrl w' = ctrl w" "running lib w' (log_records segs act) K" by blast+
qed

text \<open>
  A start on a quiet disk: the records are found, and the writer goes on behind them. A start that is
  refused leaves them alone.
\<close>

lemma wal_writer_fields [simp]:
  "ww_config (wal_writer c d clock) = c" "ww_disk (wal_writer c d clock) = d" "ww_tickets (wal_writer c d clock) = []"
  "ww_queue (wal_writer c d clock) = []" "ww_batch (wal_writer c d clock) = []" "\<not> ww_fault (wal_writer c d clock)"
  "ww_phase (wal_writer c d clock) = WP_idle" "ww_active_segment (wal_writer c d clock) = None"
  by (simp_all add: wal_writer_def)

definition fresh :: "WalConfig \<Rightarrow> WalWriter \<Rightarrow> bool" where
  "fresh c w \<longleftrightarrow> ww_config w = c \<and> log_dir c |\<in>| dk_dirs (ww_disk w) \<and> ww_tickets w = [] \<and> ww_queue w = [] \<and>
     ww_batch w = [] \<and> \<not> ww_fault w \<and> ww_phase w = WP_idle"

lemma writer_start_running:
  assumes "stored lib c d rs K" "quiet d" "bounded_config c" "writer_start lib (wal_writer c d clock) = (e, w')"
  shows "if e = PE_none then running lib w' rs K \<and> fresh c w'
     else stored lib c (ww_disk w') rs K \<and> dk_dirs d |\<subseteq>| dk_dirs (ww_disk w')"
proof (cases "config_valid c")
  case False
  then show ?thesis
    using assms(1,4) by (auto simp: writer_start_def)
next
  case True
  let ?l = "make_durable_layout (wc_durable_root c) (wc_world c) (wc_branch c)"
  let ?w0 = "(wal_writer c d clock)\<lparr>ww_layout := ?l\<rparr>"
  obtain segs act where s: "stored_as lib c d segs act K" "log_records segs act = rs"
    using assms(1) by (auto simp: stored_def)
  have dir: "log_dir c = wal_dir ?l" by (simp add: log_dir_def)
  obtain d1 d2 d3 where dirs: "create_directories (wal_dir ?l) d = (PE_none, d1)"
    "create_directories (manifest_dir ?l) d1 = (PE_none, d2)" "create_directories (checkpoint_dir ?l) d2 = (PE_none, d3)"
    "quiet d3" "dk_files d3 = dk_files d" "log_dir c |\<in>| dk_dirs d3"
    "dk_dirs d |\<subseteq>| dk_dirs d3"
    using start_directories [OF assms(2) dir] by blast
  let ?w3 = "?w0\<lparr>ww_disk := d3\<rparr>"
  obtain e4 w4 where bind: "bind_directory lib ?w3 = (e4, w4)" by (metis surj_pair)
  from bind_directory_frame [OF bind] obtain d4 where
    d4: "w4 = ?w3\<lparr>ww_disk := d4\<rparr>" "quiet d4" "dk_dirs d4 = dk_dirs d3"
      "\<forall>name. fmlookup (dk_files d4) (path_append (log_dir c) name) = fmlookup (dk_files d3) (path_append (log_dir c) name)"
    using dirs(4) by auto
  have s4: "stored_as lib c d4 segs act K"
    using s(1) d4(4) dirs(5) stored_as_dir [where d' = d4 and d = d and c = c] by simp
  have "wal_files lib (log_dir c) segs act d4" "journal_ok lib (wc_max_record_bytes c) segs act"
    "dk_plan d4 = []" "dk_truncate_plan d4 = []" "log_dir c |\<in>| dk_dirs d4"
    using s4 d4(2,3) dirs(6) by (simp_all add: stored_as_def quiet_def)
  from scan_log [OF this] obtain scan where
    scan: "scan_wal_directory lib (log_dir c) TP_trim_active_tail kFirstLsn (wc_max_record_bytes c) d4 =
        (scan, scanned_disk lib (log_dir c) (1 + length (concat segs)) act d4)"
      "wsr_error scan = PE_none" "wsr_next_lsn scan = Lsn (of_nat (1 + length rs))"
      "wsr_active_segment scan = active_path (log_dir c) (1 + length (concat segs)) act"
    using s(2) by auto
  define d5 where "d5 = scanned_disk lib (log_dir c) (1 + length (concat segs)) act d4"
  define v :: u64 where "v = of_nat (1 + length rs)"
  note scan = scan [folded d5_def v_def]
  let ?w6 = "w4\<lparr>ww_disk := d5, ww_next_lsn_value := v\<rparr>"
  define w7 where "w7 = (if lsn_valid (wsr_last_lsn scan) then
      ?w6\<lparr>ww_lsn_exhausted := ww_lsn_exhausted ?w6, ww_last_durable := lsn_value (wsr_last_lsn scan)\<rparr> else ?w6)"
  have floor_lsn: "\<not> lsn_valid (wc_recovery_floor_lsn c)" using assms(3) by (simp add: bounded_config_def)
  have "journal_ok lib (wc_max_record_bytes c) segs act" using s(1) by (simp add: stored_as_def)
  then have valid: "lsn_valid (Lsn v)"
    unfolding v_def using s(2) by (intro parse_of_nat) (simp_all add: journal_ok_def)
  have floored: "apply_floor scan (w4\<lparr>ww_disk := d5\<rparr>) = (Inr scan, w4\<lparr>ww_disk := d5\<rparr>)"
    using floor_lsn d4(1) by (simp add: apply_floor_def)
  have fields: "ww_config w4 = c" "ww_layout w4 = ?l" "ww_disk w4 = d4" using d4(1) by simp_all
  have started: "writer_start lib (wal_writer c d clock) =
      (if e4 \<noteq> PE_none then (e4, w4) else
       case reopen_active scan w7 of (error, w) \<Rightarrow> if error \<noteq> PE_none then (error, w) else (PE_none, w\<lparr>ww_started := True\<rparr>))"
    using True scan(2,3) valid floor_lsn floored bind scan(1) dirs(1-3) fields
    by (cases "lsn_valid (wsr_last_lsn scan)") (simp_all add: writer_start_def Let_def on_disk_def dir w7_def)
  show ?thesis
  proof (cases "e4 = PE_none")
    case False
    then have "e = e4" "w' = w4" using assms(4) started by simp_all
    with False fields(3) s4 s(2) d4(3) dirs(7) show ?thesis by (auto simp: stored_def)
  next
    case e4: True
    obtain e8 w8 where reopen: "reopen_active scan w7 = (e8, w8)" by (metis surj_pair)
    have w7: "ww_config w7 = c" "ww_layout w7 = ?l" "ww_disk w7 = d5" "ww_active_segment w7 = None" "ww_next_lsn_value w7 = v"
      "ww_tickets w7 = []" "ww_queue w7 = []" "ww_batch w7 = []" "\<not> ww_fault w7" "ww_phase w7 = WP_idle"
      by (simp_all add: w7_def d4(1))
    note reopened = reopen_after_scan [OF s4 d4(2) w7(1) _ _ w7(4) _ scan(4) reopen assms(3), unfolded w7(2,3,5) s(2),
        OF dir [symmetric] d5_def v_def]
    have result: "e = PE_none" "w' = w8\<lparr>ww_started := True\<rparr>"
      using assms(4) started e4 reopen reopened(1) by simp_all
    have "view w' = view w8" using result(2) by (simp add: view_def)
    then have "running lib w' rs K" using reopened(3) running_view by blast
    moreover have "fresh c w'"
      using reopened(2) w7 result(2) scanned_disk_frame(2) d4(3) dirs(6)
      by (simp add: ctrl_def fresh_def d5_def)
    ultimately show ?thesis using result(1) by simp
  qed
qed

end
