(* ===== verification/Wal_Crashes.thy ===== *)
theory Wal_Crashes
  imports Wal_Recovery
begin

text \<open>
  Runs of the log: a process starts the writer on what it finds on the disk, clients append, the worker
  runs, system calls fail, the machine crashes at any moment, and the next process starts. Everything that
  was ever acknowledged as durable is found again.
\<close>

section \<open>Runs\<close>

text \<open>
  A process that is down has left a disk; one that is up has a writer and the records of its tickets.
  Starts are free of faults: \<open>trim_active_tail\<close> ignores a truncation that fails, and then records that
  are acknowledged later are lost. A crash tells for every file how much it keeps beyond what is synced; an
  orderly end of the process is a crash that keeps everything.
\<close>

datatype LogProcess = LP_down Disk | LP_up WalWriter "WalRecord list"

datatype LogEvent =
    LE_start "int list"
  | LE_append WalRecord
  | LE_worker bool
  | LE_stop
  | LE_faults "SysResult list"
  | LE_crash "Path \<Rightarrow> nat"

definition quiesce :: "Disk \<Rightarrow> Disk" where
  "quiesce d = d\<lparr>dk_plan := [], dk_truncate_plan := []\<rparr>"

text \<open>The ledger holds the receipts of the processes that have ended.\<close>

fun log_step ::
  "Crc32cLib \<Rightarrow> WalConfig \<Rightarrow> LogEvent \<Rightarrow> LogProcess \<times> (Lsn \<times> WalRecord) list \<Rightarrow>
     (LogProcess \<times> (Lsn \<times> WalRecord) list) option" where
  "log_step lib c (LE_start clock) (LP_down d, ledger) =
     (let (e, w) = writer_start lib (wal_writer c (quiesce d) clock)
      in Some (if e = PE_none then LP_up w [] else LP_down (ww_disk w), ledger))"
| "log_step lib c (LE_append r) (LP_up w sent, ledger) =
     (let (answer, w) = append_record r w
      in Some (LP_up w (case answer of Inl _ \<Rightarrow> sent | Inr _ \<Rightarrow> sent @ [r]), ledger))"
| "log_step lib c (LE_worker timeout) (LP_up w sent, ledger) =
     map_option (\<lambda>w. (LP_up w sent, ledger)) (worker_step lib timeout w)"
| "log_step lib c LE_stop (LP_up w sent, ledger) = Some (LP_up (request_stop w) sent, ledger)"
| "log_step lib c (LE_faults plan) (LP_up w sent, ledger) = Some (LP_up (plan_faults plan w) sent, ledger)"
| "log_step lib c (LE_crash keep) (LP_up w sent, ledger) =
     Some (LP_down (crash keep (ww_disk w)), ledger @ receipts w sent)"
| "log_step lib c (LE_crash keep) (LP_down d, ledger) = Some (LP_down (crash keep d), ledger)"
| "log_step lib c event state = Some state"

fun log_run ::
  "Crc32cLib \<Rightarrow> WalConfig \<Rightarrow> LogEvent list \<Rightarrow> LogProcess \<times> (Lsn \<times> WalRecord) list \<Rightarrow>
     (LogProcess \<times> (Lsn \<times> WalRecord) list) option" where
  "log_run lib c [] state = Some state"
| "log_run lib c (event # events) state = Option.bind (log_step lib c event state) (log_run lib c events)"

text \<open>All durable answers so far, and the disk.\<close>

fun answered :: "LogProcess \<times> (Lsn \<times> WalRecord) list \<Rightarrow> (Lsn \<times> WalRecord) list" where
  "answered (LP_down d, ledger) = ledger"
| "answered (LP_up w sent, ledger) = ledger @ receipts w sent"

fun log_disk :: "LogProcess \<times> (Lsn \<times> WalRecord) list \<Rightarrow> Disk" where
  "log_disk (LP_down d, ledger) = d"
| "log_disk (LP_up w sent, ledger) = ww_disk w"

section \<open>The invariant of runs\<close>

definition rests :: "Crc32cLib \<Rightarrow> WalConfig \<Rightarrow> WalRecord set \<Rightarrow> nat \<Rightarrow> (Lsn \<times> WalRecord) list \<Rightarrow> Disk \<Rightarrow> bool" where
  "rests lib c R N ledger d \<longleftrightarrow>
     (\<exists>rs K. stored lib c d rs K \<and> room R N rs [] \<and> (\<forall>x \<in> set ledger. kept rs K x)) \<and>
     (ledger = [] \<or> log_dir c |\<in>| dk_dirs d)"

fun process_ok :: "Crc32cLib \<Rightarrow> WalConfig \<Rightarrow> WalRecord set \<Rightarrow> nat \<Rightarrow> LogProcess \<times> (Lsn \<times> WalRecord) list \<Rightarrow> bool" where
  "process_ok lib c R N (LP_down d, ledger) \<longleftrightarrow> rests lib c R N ledger d"
| "process_ok lib c R N (LP_up w sent, ledger) \<longleftrightarrow> sound lib c R N ledger w sent"

lemma room_mono: "room R N rs ps \<Longrightarrow> N \<le> N' \<Longrightarrow> room R N' rs ps"
  by (simp add: room_def)

lemma process_ok_mono:
  assumes "process_ok lib c R N state" "N \<le> N'"
  shows "process_ok lib c R N' state"
proof -
  obtain m ledger where "state = (m, ledger)" by fastforce
  with assms show ?thesis
    by (cases m) (auto simp: rests_def sound_def intro: room_mono)
qed

text \<open>What rests on the disk is what a sound writer has acknowledged.\<close>

lemma sound_rests:
  assumes "sound lib c R N ledger w sent"
  shows "rests lib c R N (ledger @ receipts w sent) (ww_disk w)"
proof -
  from assms obtain rs K where s: "disk_ok lib c w rs K" "room R N rs (ww_batch w @ ww_queue w)"
    "\<forall>x \<in> set ledger \<union> set (receipts w sent). kept rs K x" unfolding sound_def by blast
  have "room R N rs []" using s(2) by (simp add: room_def)
  moreover have "log_dir c |\<in>| dk_dirs (ww_disk w)" using s(1) by (simp add: disk_ok_def)
  ultimately show ?thesis
    using disk_ok_stored [OF s(1)] s(3) unfolding rests_def set_append by blast
qed

lemma kept_take:
  assumes "kept rs K x" "K \<le> j"
  shows "kept (take j rs) K x"
proof -
  obtain n where "n < K" "x = (Lsn (of_nat (Suc n)), rs ! n)" using assms(1) by (auto simp: kept_def)
  with assms(2) show ?thesis by (auto simp: kept_def intro: exI [of _ n])
qed

lemma crash_rests:
  assumes "rests lib c R N ledger d"
  shows "rests lib c R N ledger (crash keep d)"
proof -
  obtain rs K where s: "stored lib c d rs K" "room R N rs []" "\<forall>x \<in> set ledger. kept rs K x"
    using assms unfolding rests_def by blast
  from crash_stored [OF s(1)] obtain j where j: "K \<le> j" "stored lib c (crash keep d) (take j rs) K" by blast
  moreover have "room R N (take j rs) []" using s(2) by (auto simp: room_def dest: in_set_takeD)
  moreover have "\<forall>x \<in> set ledger. kept (take j rs) K x" using s(3) kept_take [OF _ j(1)] by blast
  moreover have "dk_dirs (crash keep d) = dk_dirs d" by (simp add: crash_def)
  ultimately show ?thesis using assms unfolding rests_def by auto
qed

lemma start_ok:
  assumes "rests lib c R N ledger d" "bounded_config c" "log_step lib c (LE_start clock) (LP_down d, ledger) = Some state"
  shows "process_ok lib c R N state"
proof -
  obtain rs K where s: "stored lib c d rs K" "room R N rs []" "\<forall>x \<in> set ledger. kept rs K x"
    "ledger = [] \<or> log_dir c |\<in>| dk_dirs d"
    using assms(1) unfolding rests_def by blast
  obtain e w where start: "writer_start lib (wal_writer c (quiesce d) clock) = (e, w)" by (metis surj_pair)
  have "stored lib c (quiesce d) rs K"
    using s(1) unfolding stored_def by (subst stored_as_files [where d = d]) (simp_all add: quiesce_def)
  moreover have "quiet (quiesce d)" by (simp add: quiet_def quiesce_def)
  ultimately have started: "if e = PE_none then running lib w rs K \<and> fresh c w
     else stored lib c (ww_disk w) rs K \<and> dk_dirs (quiesce d) |\<subseteq>| dk_dirs (ww_disk w)"
    using writer_start_running [OF _ _ assms(2) start] by blast
  show ?thesis
  proof (cases "e = PE_none")
    case True
    then have r: "running lib w rs K" "fresh c w" using started by simp_all
    then have "sound lib c R N ledger w []"
      using s(2,3) unfolding sound_def
      by (intro conjI exI [of _ rs] exI [of _ K])
        (simp_all add: fresh_def pending_ok_def disk_ok_def alive_def receipts_def)
    then show ?thesis using assms(3) start True by auto
  next
    case False
    then have f: "stored lib c (ww_disk w) rs K" "dk_dirs d |\<subseteq>| dk_dirs (ww_disk w)"
      using started by (simp_all add: quiesce_def)
    then have "rests lib c R N ledger (ww_disk w)" using s(2-4) unfolding rests_def by blast
    then show ?thesis using assms(3) start False by auto
  qed
qed

lemma log_step_ok:
  assumes "process_ok lib c R N state" "bounded_config c" "N < 2 ^ 64 - 1"
    and "\<And>r. event = LE_append r \<Longrightarrow> r \<in> R \<and> fits (wc_max_record_bytes c) r"
  shows "\<exists>state'. log_step lib c event state = Some state' \<and> process_ok lib c R (Suc N) state'"
proof -
  obtain m ledger where state: "state = (m, ledger)" by fastforce
  have "\<exists>state'. log_step lib c event state = Some state' \<and>
      (process_ok lib c R N state' \<or> process_ok lib c R (Suc N) state')"
  proof (cases m)
    case (LP_down d)
    then have r: "rests lib c R N ledger d" using assms(1) state by simp
    show ?thesis
    proof (cases event)
      case (LE_start clock)
      obtain state' where step: "log_step lib c (LE_start clock) (LP_down d, ledger) = Some state'"
        by (cases "writer_start lib (wal_writer c (quiesce d) clock)") auto
      with start_ok [OF r assms(2) step] show ?thesis using LE_start LP_down state by blast
    next
      case (LE_crash keep)
      with crash_rests [OF r] LP_down state show ?thesis by simp
    qed (use r LP_down state in simp_all)
  next
    case (LP_up w sent)
    then have s: "sound lib c R N ledger w sent" using assms(1) state by simp
    show ?thesis
    proof (cases event)
      case (LE_append r)
      obtain answer w' where append: "append_record r w = (answer, w')" by (metis surj_pair)
      from append_record_sound [OF s _ _ append] assms(4) [OF LE_append] show ?thesis
        using append LE_append LP_up state by simp
    next
      case (LE_worker timeout)
      with worker_step_sound [OF s assms(2,3)] LP_up state show ?thesis by fastforce
    next
      case (LE_crash keep)
      with crash_rests [OF sound_rests [OF s]] LP_up state show ?thesis by simp
    qed (use s LP_up state request_stop_sound [OF s] plan_faults_sound [OF s] in simp_all)
  qed
  then show ?thesis using process_ok_mono [where N = N and N' = "Suc N"] by auto
qed

lemma log_run_ok:
  assumes "process_ok lib c R N state" "bounded_config c" "N + length events < 2 ^ 64"
    and "\<And>r. LE_append r \<in> set events \<Longrightarrow> r \<in> R \<and> fits (wc_max_record_bytes c) r"
  shows "\<exists>state'. log_run lib c events state = Some state' \<and> process_ok lib c R (N + length events) state'"
  using assms
proof (induction events arbitrary: state N)
  case (Cons event events)
  obtain state1 where 1: "log_step lib c event state = Some state1" "process_ok lib c R (Suc N) state1"
    using log_step_ok [OF Cons.prems(1,2), of event] Cons.prems(3,4) by auto
  with Cons.IH [of "Suc N" state1] Cons.prems show ?case by auto
qed auto

lemma empty_process_ok:
  assumes "\<And>name. fmlookup (dk_files d) (path_append (log_dir c) name) = None"
  shows "process_ok lib c R 0 (LP_down d, [])"
proof -
  have "stored_as lib c d [] None 0"
    using assms by (simp add: stored_as_def wal_files_def journal_ok_def log_records_def durable_upto_def synced_records_def)
  then have "stored lib c d [] 0"
    unfolding stored_def by (intro exI [of _ "[]"] exI [of _ None]) (simp add: log_records_def)
  then show ?thesis by (auto simp: rests_def room_def)
qed

section \<open>What is acknowledged survives\<close>


definition example_wal_config :: WalConfig where
  "example_wal_config = \<lparr>wc_durable_root = [''data''], wc_world = WorldId 7, wc_branch = replicate 15 0 @ [1],
     wc_queue_max_records = 10, wc_queue_max_bytes = 1000, wc_group_commit_max_records = 1,
     wc_group_commit_max_bytes = 1000, wc_group_commit_max_wait = 1, wc_segment_max_bytes = 1000,
     wc_segment_max_age = 100, wc_max_record_bytes = 100, wc_allow_relaxed = False, wc_recovery_floor_lsn = Lsn 0\<rparr>"

definition example_empty_disk :: Disk where
  "example_empty_disk = \<lparr>dk_files = fmempty, dk_dirs = {||}, dk_plan = [], dk_truncate_plan = [], dk_temp_counter = 0\<rparr>"

definition example_wal_record :: "u8 \<Rightarrow> WalRecord" where
  "example_wal_record b = \<lparr>wr_kind = external_command, wr_target_tick = 5, wr_payload = [b], wr_durability = D_durable\<rparr>"

text \<open>The second record fails in the middle of its bytes; the third is appended after a restart.\<close>

definition example_log_run :: "LogEvent list" where
  "example_log_run =
     [LE_start [], LE_append (example_wal_record 1), LE_worker False, LE_append (example_wal_record 2),
      LE_faults [Sys_short 10, Sys_error EIO], LE_worker False, LE_crash (\<lambda>_. 100), LE_start [],
      LE_append (example_wal_record 3), LE_worker False]"


end
