(* ===== verification/Spec2Isabelle.thy ===== *)
theory Spec2Isabelle
  imports Foundation Schema World World_Refinement Simulation Codes Debug Float64 Expression Rules
    Gateway_Types Gateway_Queues Sessions Durable Projection_Connection Float_Monotone Spatial
    Streaming Projection_Policy Projection_Frames Projection_Fids Projection_Views
    Projection_Canonical Protocol_Wire Protocol_Replica Interpolation World_Pointers Projection_Engine
    Codec_Messages Codec_Tables Protocol_Codec Codec_Roundtrip Frame_Codec
    Gateway_Core Gateway_Runs Gateway_Safety Gateway_Streams State_Machines Decision World_Runtime
    Wal_Codec Storage Manifest Wal_Reader Wal_Journal Wal_Writer
    Wal_Durability Wal_Recovery Wal_Crashes
begin

text \<open>
  A verification library for GeoWorld, a world server in C++. A world is a set of objects with typed
  properties, places and relations. Clients ask for changes through a gateway, which authorizes them
  and, for durable commands, logs them first; the commands wait in a buffer and run at the start of a
  tick; rules, AI and other systems run in the phases of the tick; at its end the projection engine
  computes for every connection what it may see, and the gateway encodes and sends it. The theories
  model this code under \<^verbatim>\<open>src/libs\<close> and \<^verbatim>\<open>src/runtime\<close>, one theory or a few per directory, every function
  under its own name.

  Foundations.
  \<^item> \<open>Prelude\<close>, \<open>Codes\<close>: machine integers, ordered maps and comparator sorting, little-endian bytes;
    byte codes that are uniquely decodable in front of any continuation.
  \<^item> \<open>Float64\<close>, \<open>Float_Monotone\<close>: IEEE 754 doubles as bit patterns with correctly rounded arithmetic.
  \<^item> \<open>Foundation\<close> (\<^verbatim>\<open>foundation\<close>): ids, the splitmix64 generator, named random streams.
  \<^item> \<open>Schema\<close> (\<^verbatim>\<open>schema\<close>): values, the schema registry, upcast chains.

  The world and its tick.
  \<^item> \<open>World\<close> (\<^verbatim>\<open>world_model\<close>): the copy-on-write storage as a heap of objects, with both builds of
    \<^verbatim>\<open>freeze_snapshot\<close>. \<open>World_Refinement\<close>: it refines a plain map, snapshots are isolated from later
    writes. \<open>World_Pointers\<close>: the addresses of objects stay valid while the revisions stand.
  \<^item> \<open>Simulation\<close> (\<^verbatim>\<open>simulation\<close>): the command buffer and the tick clock: what is due runs once and in
    order, nothing is lost, writes against an old version are refused.
  \<^item> \<open>Expression\<close>, \<open>Rules\<close> (\<^verbatim>\<open>rules\<close>): conditions, the event bus, decision tables and the rule engine.
  \<^item> \<open>State_Machines\<close>, \<open>Decision\<close> (\<^verbatim>\<open>ai\<close>): the flat and the hierarchical state machine, decision
    snapshots, the intent buffer and the task scheduler. A dispatch climbs the parents of a state by a
    partial function; that it returns is a theorem about the machines the operations can build.
  \<^item> \<open>World_Runtime\<close> (\<^verbatim>\<open>runtime/world_runtime\<close>): the step with its phases, snapshot and restore of the whole
    runtime; a recovery between two steps cannot be told from the outside.
  \<^item> \<open>Debug\<close> (\<^verbatim>\<open>debug\<close>, \<^verbatim>\<open>observability\<close>): the state hash, inspector, tick controller, metrics, logs.
  \<^item> \<open>Spatial\<close>, \<open>Streaming\<close> (\<^verbatim>\<open>spatial\<close>): coordinates, the cell index and its area query, areas of
    interest, the lifecycle of cells.

  What clients see.
  \<^item> \<open>Projection_Policy\<close>, \<open>Projection_Canonical\<close>, \<open>Projection_Connection\<close>, \<open>Projection_Frames\<close>,
    \<open>Projection_Engine\<close> (\<^verbatim>\<open>projection\<close>): the policy and the canonical hash, the state of a connection with
    its unacknowledged frames, keyframes and deltas, and the engine with its scan cache, which yields
    what a full scan would. \<open>Projection_Fids\<close>, \<open>Projection_Views\<close>: invariants of feature ids and views.
  \<^item> \<open>Protocol_Wire\<close>, \<open>Protocol_Replica\<close>, \<open>Interpolation\<close> (\<^verbatim>\<open>protocol\<close>): wire structures, the replica of the
    reference client, which follows the server's view, and its interpolation buffer.
  \<^item> \<open>Codec_Tables\<close>, \<open>Codec_Messages\<close>, \<open>Protocol_Codec\<close>, \<open>Frame_Codec\<close> (\<^verbatim>\<open>protocol/codec.cpp\<close>,
    \<^verbatim>\<open>gateway/frame_codec.cpp\<close>): frames to tables and back with every check of the decoder.
    \<open>Codec_Roundtrip\<close>: round trip and limits; the direct encoder writes the same tables.

  The gateway (\<^verbatim>\<open>gateway\<close>).
  \<^item> \<open>Gateway_Types\<close>, \<open>Gateway_Queues\<close>, \<open>Sessions\<close>, \<open>Durable\<close>: configuration and authorization, outgoing
    queues, property leases, sessions and tickets, records of durable commands and their index.
  \<^item> \<open>Gateway_Core\<close>: all operations of the core. \<open>Gateway_Runs\<close>, \<open>Gateway_Safety\<close>, \<open>Gateway_Streams\<close>: runs of
    any length over the operations, the engine and the log; completions, commands and streams.

  Persistence (\<^verbatim>\<open>persistence\<close>).
  \<^item> \<open>Wal_Codec\<close>: the framing of records and segments; a torn record is never read as a record.
  \<^item> \<open>Storage\<close>: the POSIX file operations over a disk. A file has bytes and a synced length; a plan says
    which system calls fail, are cut short or are interrupted. A crash keeps of every file a prefix that
    contains the synced part; names persist. \<open>Manifest\<close>: the manifest of a directory, published atomically.
  \<^item> \<open>Wal_Reader\<close>: the scan of a log directory. \<open>Wal_Journal\<close>: a log as a list of records cut into segments,
    what the scan finds in it and what a crash leaves of it.
  \<^item> \<open>Wal_Writer\<close>: the writer as a state machine of its locked sections and the batches of its worker.
    \<open>Wal_Durability\<close>: every operation on segments keeps the log readable and what is synced, whatever system
    calls fail. \<open>Wal_Recovery\<close>: so do batches, the worker and the start. \<open>Wal_Crashes\<close>: runs of any length
    with faults, crashes and restarts; an acknowledged record is always found again.

  Interfaces are locales, each interpreted on the definitions of the model: \<open>prefix_code\<close> (\<open>Codes\<close>; values,
  bags, objects), \<open>strict_weak_order\<close> (\<open>Prelude\<close>; events, rules, transitions, segments), \<open>frame_queue\<close>
  (\<open>Gateway_Queues\<close>; both outgoing queues), \<open>versioned_store\<close> (\<open>Simulation\<close>; property writes).

  Bounds and partiality. Integers have the width of the code and wrap as it does. \<open>None\<close> in the result of
  an operation is a trap of the code, undefined behaviour or an exception that leaves it; the theorems
  show where it cannot occur. Loops are structural or have a measure, and no fuel is used; \<open>hfsm_climb\<close>
  alone is a partial function.

  Parameters: FlatBuffers (bytes to verified tables), the CRC library, UUID text, the functions of libm,
  resolvers and callbacks that users register. The clock, token generators and faults of the operating
  system are inputs.

  Not modelled: the thread pool (loops it may split are modelled in their serial order), transports and
  other network I/O, the wrappers of S2, Lua, Wasm, BehaviorTree and flecs (libraries outside \<^verbatim>\<open>src\<close>),
  checkpoints, recovery, replay and branches of the persistence layer, the bridge from the gateway to the
  log, tooling, the plugin registry, applications, tools and benchmarks.
\<close>

end
